(* ===== verification/Prelude.thy ===== *)
theory Prelude
  imports Main "HOL-Library.Word" "HOL-Library.Sublist"
begin

text \<open>
  Shared vocabulary of the development: the collections of rewrite rules the component
  theories fill, generic facts on lists and counts, and the C conventions every component
  uses (a \<open>char\<close> buffer is a list of bytes, an \<open>int\<close> result is an \<open>int\<close>).
\<close>

named_theorems world_simps "effect of one external call on the trace observers"
named_theorems cstring_simps "evaluation of the C string routines"
named_theorems slot_simps "counting and updating fixed arrays of slots"

unbundle bit_operations_syntax

type_synonym bytes = "char list"
type_synonym fd = int
type_synonym uint16 = "16 word"
type_synonym uint32 = "32 word"

section \<open>Fixed arrays of slots\<close>

text \<open>
  Connection tables and connection pools are C arrays of fixed capacity, scanned from the
  lowest index. \<open>first_index\<close> is that scan.
\<close>

fun first_index :: "('a \<Rightarrow> bool) \<Rightarrow> 'a list \<Rightarrow> nat option" where
  "first_index P [] = None"
| "first_index P (x # xs) = (if P x then Some 0 else map_option Suc (first_index P xs))"

lemma first_index_SomeD:
  "first_index P xs = Some i \<Longrightarrow> i < length xs \<and> P (xs ! i) \<and> (\<forall>j<i. \<not> P (xs ! j))"
proof (induction xs arbitrary: i)
  case Nil
  then show ?case by simp
next
  case (Cons x xs)
  show ?case
  proof (cases "P x")
    case True
    with Cons.prems show ?thesis by simp
  next
    case False
    with Cons.prems obtain k where k: "first_index P xs = Some k" and i: "i = Suc k"
      by auto
    from Cons.IH [OF k] False i show ?thesis by (auto simp: less_Suc_eq_0_disj)
  qed
qed

lemma first_index_None_iff: "first_index P xs = None \<longleftrightarrow> (\<forall>x\<in>set xs. \<not> P x)"
  by (induction xs) auto

lemma first_index_Some_ex: "x \<in> set xs \<Longrightarrow> P x \<Longrightarrow> \<exists>i. first_index P xs = Some i"
  using first_index_None_iff [of P xs] by (cases "first_index P xs") auto

definition count_slots :: "('a \<Rightarrow> bool) \<Rightarrow> 'a list \<Rightarrow> nat" where
  "count_slots P xs = length (filter P xs)"

lemma count_slots_Nil [simp]: "count_slots P [] = 0"
  by (simp add: count_slots_def)

lemma count_slots_Cons [simp]:
  "count_slots P (x # xs) = (if P x then Suc (count_slots P xs) else count_slots P xs)"
  by (simp add: count_slots_def)

lemma count_slots_le [simp]: "count_slots P xs \<le> length xs"
  by (simp add: count_slots_def)

lemma count_slots_pos: "i < length xs \<Longrightarrow> P (xs ! i) \<Longrightarrow> 0 < count_slots P xs"
  by (auto simp: count_slots_def filter_empty_conv)

lemma count_slots_update_same [slot_simps]:
  "i < length xs \<Longrightarrow> P y = P (xs ! i) \<Longrightarrow> count_slots P (xs[i := y]) = count_slots P xs"
proof (induction xs arbitrary: i)
  case (Cons x xs)
  then show ?case by (cases i) auto
qed simp

lemma count_slots_update_add [slot_simps]:
  "i < length xs \<Longrightarrow> P y \<Longrightarrow> \<not> P (xs ! i) \<Longrightarrow>
   count_slots P (xs[i := y]) = Suc (count_slots P xs)"
proof (induction xs arbitrary: i)
  case (Cons x xs)
  then show ?case by (cases i) auto
qed simp

lemma count_slots_update_del [slot_simps]:
  "i < length xs \<Longrightarrow> \<not> P y \<Longrightarrow> P (xs ! i) \<Longrightarrow>
   count_slots P (xs[i := y]) = count_slots P xs - 1"
proof (induction xs arbitrary: i)
  case (Cons x xs)
  show ?case
  proof (cases i)
    case 0
    with Cons.prems show ?thesis by simp
  next
    case (Suc k)
    with Cons.prems have "0 < count_slots P xs" by (auto intro: count_slots_pos)
    with Suc Cons show ?thesis by auto
  qed
qed simp

lemma count_slots_full: "count_slots P xs = length xs \<longleftrightarrow> (\<forall>x\<in>set xs. P x)"
proof (induction xs)
  case (Cons x xs)
  have "count_slots P xs \<noteq> Suc (length xs)"
    using count_slots_le [of P xs] by linarith
  with Cons show ?case by auto
qed simp

lemma count_slots_lt_ex: "count_slots P xs < length xs \<Longrightarrow> \<exists>x\<in>set xs. \<not> P x"
  using count_slots_full [of P xs] by auto

section \<open>Decoding of C integers\<close>

text \<open>A conversion to a 32-bit \<open>int\<close>, as a C cast does on every supported target.\<close>

definition to_int32 :: "int \<Rightarrow> int" where
  "to_int32 i = signed_take_bit 31 i"

lemma to_int32_id [simp]: "- (2 ^ 31) \<le> i \<Longrightarrow> i < 2 ^ 31 \<Longrightarrow> to_int32 i = i"
  unfolding to_int32_def by (rule signed_take_bit_int_eq_self) simp_all

lemma to_int32_bounds: "- (2 ^ 31) \<le> to_int32 i \<and> to_int32 i < 2 ^ 31"
  unfolding to_int32_def
  using signed_take_bit_int_greater_eq_minus_exp [of 31 i] signed_take_bit_int_less_exp [of 31 i]
  by simp

end
