(* ===== verification/C_String.thy ===== *)
theory C_String
  imports Prelude
begin

text \<open>
  The C string routines the sources call, on lists of bytes. A buffer is the list of its
  bytes; the end of the list reads as the terminating NUL the code always writes there
  (\<open>buf[n] = '\0'\<close> after a receive, a zeroed struct before a copy). \<open>cstr\<close> is what a string
  function sees of a buffer: the bytes before the first NUL. Searches return the offset of
  the match, \<open>None\<close> for a NULL result.
\<close>

section \<open>Searching and copying\<close>

definition nul :: char where
  "nul = CHR 0x00"

definition cr :: char where
  "cr = CHR 0x0D"

definition lf :: char where
  "lf = CHR 0x0A"

abbreviation crlf :: bytes where
  "crlf \<equiv> [cr, lf]"

definition cstr :: "bytes \<Rightarrow> bytes" where
  "cstr s = takeWhile (\<lambda>c. c \<noteq> nul) s"

abbreviation memchr :: "char \<Rightarrow> bytes \<Rightarrow> nat option" where
  "memchr c s \<equiv> first_index ((=) c) s"

definition strchr :: "bytes \<Rightarrow> char \<Rightarrow> nat option" where
  "strchr s c = memchr c (cstr s)"

fun memmem :: "bytes \<Rightarrow> bytes \<Rightarrow> nat option" where
  "memmem pat [] = (if pat = [] then Some 0 else None)"
| "memmem pat (c # cs) =
     (if prefix pat (c # cs) then Some 0 else map_option Suc (memmem pat cs))"

definition strstr :: "bytes \<Rightarrow> bytes \<Rightarrow> nat option" where
  "strstr s pat = memmem pat (cstr s)"

text \<open>
  \<open>strncpy\<close> (or \<open>memcpy\<close>) of at most \<open>n\<close> bytes into a zeroed buffer, or followed by a
  terminating NUL, and the bytes \<open>snprintf\<close> leaves in a buffer of a given size.
\<close>

definition strncpy :: "nat \<Rightarrow> bytes \<Rightarrow> bytes" where
  "strncpy n src = take n (cstr src)"

definition snprintf :: "nat \<Rightarrow> bytes \<Rightarrow> bytes" where
  "snprintf bufsize s = take (bufsize - 1) s"

section \<open>Character classes and comparison\<close>

definition tolower :: "char \<Rightarrow> char" where
  "tolower c = (if 65 \<le> (of_char c :: nat) \<and> (of_char c :: nat) \<le> 90
     then char_of ((of_char c :: nat) + 32) else c)"

definition strcaseeq :: "bytes \<Rightarrow> bytes \<Rightarrow> bool" where
  "strcaseeq a b \<longleftrightarrow> map tolower (cstr a) = map tolower (cstr b)"

definition strncaseeq :: "nat \<Rightarrow> bytes \<Rightarrow> bytes \<Rightarrow> bool" where
  "strncaseeq n a b \<longleftrightarrow> map tolower (take n (cstr a)) = map tolower (take n (cstr b))"

definition isspace :: "char \<Rightarrow> bool" where
  "isspace c \<longleftrightarrow> c = CHR '' '' \<or> (9 \<le> (of_char c :: nat) \<and> (of_char c :: nat) \<le> 13)"

definition isdigit :: "char \<Rightarrow> bool" where
  "isdigit c \<longleftrightarrow> 48 \<le> (of_char c :: nat) \<and> (of_char c :: nat) \<le> 57"

section \<open>Decimal numbers\<close>

definition digit :: "nat \<Rightarrow> char" where
  "digit d = char_of (48 + d)"

definition digit_val :: "char \<Rightarrow> nat" where
  "digit_val c = (of_char c :: nat) - 48"

fun show_nat :: "nat \<Rightarrow> bytes" where
  "show_nat n = (if n < 10 then [digit n] else show_nat (n div 10) @ [digit (n mod 10)])"

declare show_nat.simps [simp del]

text \<open>The conversion \<open>%d\<close> of \<open>printf\<close>.\<close>

definition show_int :: "int \<Rightarrow> bytes" where
  "show_int i = (if i < 0 then CHR ''-'' # show_nat (nat (- i)) else show_nat (nat i))"

fun scan_digits :: "nat \<Rightarrow> bytes \<Rightarrow> nat \<times> bytes" where
  "scan_digits acc [] = (acc, [])"
| "scan_digits acc (c # cs) =
     (if isdigit c then scan_digits (acc * 10 + digit_val c) cs else (acc, c # cs))"

text \<open>
  The number \<open>strtol\<close> reads (glibc saturates it at the bounds of \<open>long\<close>), as the C \<open>int\<close>
  that \<open>atoi\<close> and the \<open>%d\<close> conversion of \<open>sscanf\<close> make of it, and the rest of the input.
  \<open>None\<close> when there is no digit.
\<close>

definition clamp_long :: "int \<Rightarrow> int" where
  "clamp_long i = max (- (2 ^ 63)) (min (2 ^ 63 - 1) i)"

definition scan_int :: "bytes \<Rightarrow> (int \<times> bytes) option" where
  "scan_int s =
     (let s1 = dropWhile isspace s;
          neg = (s1 \<noteq> [] \<and> hd s1 = CHR ''-'');
          s2 = (if s1 \<noteq> [] \<and> (hd s1 = CHR ''-'' \<or> hd s1 = CHR ''+'') then tl s1 else s1)
      in if s2 = [] \<or> \<not> isdigit (hd s2) then None
         else let (n, rest) = scan_digits 0 s2
              in Some (to_int32 (clamp_long (if neg then - int n else int n)), rest))"

definition atoi :: "bytes \<Rightarrow> int" where
  "atoi s = (case scan_int (cstr s) of None \<Rightarrow> 0 | Some (v, rest) \<Rightarrow> v)"

section \<open>Facts on searching\<close>

lemma cstr_id [cstring_simps]: "nul \<notin> set s \<Longrightarrow> cstr s = s"
  unfolding cstr_def by (rule takeWhile_eq_all_conv [THEN iffD2]) auto

lemma nul_cstr [simp]: "nul \<notin> set (cstr s)"
  unfolding cstr_def using set_takeWhileD [of nul "\<lambda>c. c \<noteq> nul" s] by auto

lemma cstr_cstr [simp]: "cstr (cstr s) = cstr s"
  by (simp add: cstr_id)

lemma set_cstr_subset: "set (cstr s) \<subseteq> set s"
  unfolding cstr_def by (auto dest: set_takeWhileD)

lemma cstr_append: "nul \<notin> set s \<Longrightarrow> cstr (s @ t) = s @ cstr t"
  unfolding cstr_def by (subst takeWhile_append2) auto

lemma cstr_Nil [simp]: "cstr [] = []"
  by (simp add: cstr_def)

lemma cstr_Cons [simp]: "cstr (c # s) = (if c = nul then [] else c # cstr s)"
  by (simp add: cstr_def)

lemma length_cstr [simp]: "length (cstr s) \<le> length s"
  unfolding cstr_def by (rule length_takeWhile_le)

lemma length_strncpy [simp]: "length (strncpy n s) \<le> n"
  by (simp add: strncpy_def)

lemma nul_take: "nul \<notin> set s \<Longrightarrow> nul \<notin> set (take n s)"
  by (auto dest: in_set_takeD)

lemma nul_strncpy [simp]: "nul \<notin> set (strncpy n s)"
  by (simp add: strncpy_def nul_take)

lemma memchr_append_skip:
  "c \<notin> set s \<Longrightarrow> memchr c (s @ t) = map_option ((+) (length s)) (memchr c t)"
proof (induction s)
  case Nil
  then show ?case by (simp add: option.map_ident)
next
  case (Cons x xs)
  then show ?case by (cases "memchr c t") auto
qed

lemma memchr_found [simp]: "c \<notin> set s \<Longrightarrow> memchr c (s @ c # t) = Some (length s)"
  by (simp add: memchr_append_skip)

lemma memchr_None: "memchr c s = None \<longleftrightarrow> c \<notin> set s"
  by (auto simp: first_index_None_iff)

lemma memchr_SomeD:
  assumes "memchr c s = Some i"
  shows "i < length s \<and> s ! i = c \<and> c \<notin> set (take i s)"
proof -
  from first_index_SomeD [OF assms] have "i < length s" "s ! i = c" and n: "\<forall>j<i. s ! j \<noteq> c"
    by auto
  moreover have "c \<notin> set (take i s)"
    using n \<open>i < length s\<close> by (auto simp: in_set_conv_nth)
  ultimately show ?thesis by blast
qed

text \<open>
  A line that does not hold the two bytes CR LF in a row and is followed by them ends
  exactly there, also when its last byte is a CR of its own.
\<close>

definition no_crlf :: "bytes \<Rightarrow> bool" where
  "no_crlf s \<longleftrightarrow> memmem crlf s = None"

lemma no_crlf_Nil [simp]: "no_crlf []"
  by (simp add: no_crlf_def)

lemma no_crlf_ConsD: "no_crlf (c # s) \<Longrightarrow> no_crlf s"
  by (auto simp: no_crlf_def split: if_splits)

lemma no_crlf_Cons: "c \<noteq> cr \<Longrightarrow> no_crlf (c # s) = no_crlf s"
  by (simp add: no_crlf_def)

lemma cr_neq_lf [simp]: "cr \<noteq> lf" "lf \<noteq> cr" "cr \<noteq> nul" "lf \<noteq> nul" "nul \<noteq> cr" "nul \<noteq> lf"
  by (simp_all add: cr_def lf_def nul_def)

lemma memmem_crlf_line: "no_crlf s \<Longrightarrow> memmem crlf (s @ crlf @ t) = Some (length s)"
proof (induction s)
  case Nil
  then show ?case by simp
next
  case (Cons c s)
  have "\<not> prefix crlf (c # s @ crlf @ t)"
  proof (cases s)
    case Nil
    then show ?thesis by simp
  next
    case (Cons d u)
    with Cons.prems show ?thesis by (auto simp: no_crlf_def split: if_splits)
  qed
  with Cons.IH [OF no_crlf_ConsD [OF Cons.prems]] show ?case by simp
qed

lemma memmem_SomeD:
  "memmem pat s = Some i \<Longrightarrow> i + length pat \<le> length s \<and> take (length pat) (drop i s) = pat"
proof (induction s arbitrary: i)
  case Nil
  then show ?case by (auto split: if_splits)
next
  case (Cons c s)
  show ?case
  proof (cases "prefix pat (c # s)")
    case True
    then have "length pat \<le> length (c # s)" by (rule prefix_length_le)
    with True Cons.prems show ?thesis by (auto simp: prefix_def)
  next
    case False
    with Cons.prems obtain k where "memmem pat s = Some k" "i = Suc k" by auto
    with Cons.IH [of k] show ?thesis by simp
  qed
qed

lemma no_crlf_prefix: "no_crlf (s @ t) \<Longrightarrow> no_crlf s"
proof (induction s)
  case (Cons c s)
  then show ?case by (cases s) (auto simp: no_crlf_def split: if_splits)
qed simp

lemma no_crlf_suffix: "no_crlf (s @ t) \<Longrightarrow> no_crlf t"
proof (induction s)
  case (Cons c s)
  from Cons.IH Cons.prems show ?case by (auto dest: no_crlf_ConsD)
qed simp

lemma no_crlf_take: "no_crlf s \<Longrightarrow> no_crlf (take n s)"
  using no_crlf_prefix [of "take n s" "drop n s"] by simp

lemma no_crlf_drop: "no_crlf s \<Longrightarrow> no_crlf (drop n s)"
  using no_crlf_suffix [of "take n s" "drop n s"] by simp

lemma no_crlf_cstr: "no_crlf s \<Longrightarrow> no_crlf (cstr s)"
  unfolding cstr_def
  by (metis no_crlf_take takeWhile_eq_take)

text \<open>What comes before the first CR LF holds none.\<close>

lemma memmem_crlf_before: "memmem crlf s = Some i \<Longrightarrow> no_crlf (take i s)"
proof (induction s arbitrary: i)
  case Nil
  then show ?case by simp
next
  case (Cons c s)
  show ?case
  proof (cases "prefix crlf (c # s)")
    case True
    with Cons.prems show ?thesis by simp
  next
    case False
    with Cons.prems obtain k where k: "memmem crlf s = Some k" and i: "i = Suc k" by auto
    from Cons.IH [OF k] have IH: "no_crlf (take k s)" .
    have "\<not> prefix crlf (c # take k s)"
    proof
      assume "prefix crlf (c # take k s)"
      then have "prefix crlf (c # s)"
        by (metis Cons_prefix_Cons prefix_order.trans take_is_prefix)
      with False show False by simp
    qed
    with IH i show ?thesis by (simp add: no_crlf_def)
  qed
qed

section \<open>Facts on decimal numbers\<close>

lemma isdigit_digit: "d < 10 \<Longrightarrow> isdigit (digit d)"
  by (simp add: isdigit_def digit_def)

lemma digit_val_digit: "d < 10 \<Longrightarrow> digit_val (digit d) = d"
  by (simp add: digit_val_def digit_def)

lemma show_nat_not_Nil [simp]: "show_nat n \<noteq> []"
  by (subst show_nat.simps) simp

lemma show_nat_digits: "c \<in> set (show_nat n) \<Longrightarrow> isdigit c"
proof (induction n rule: show_nat.induct)
  case (1 n)
  then show ?case
    by (cases "n < 10") (auto simp: show_nat.simps [of n] isdigit_digit)
qed

lemma scan_digits_append:
  "\<forall>c\<in>set s. isdigit c \<Longrightarrow> scan_digits acc (s @ t) = scan_digits (fst (scan_digits acc s)) t"
  by (induction s arbitrary: acc) auto

lemma scan_digits_show: "fst (scan_digits acc (show_nat n)) = acc * 10 ^ length (show_nat n) + n"
proof (induction n rule: show_nat.induct)
  case (1 n)
  show ?case
  proof (cases "n < 10")
    case True
    then show ?thesis
      by (simp add: show_nat.simps [of n] isdigit_digit digit_val_digit)
  next
    case False
    have d: "\<forall>c\<in>set (show_nat (n div 10)). isdigit c" by (auto dest: show_nat_digits)
    have "show_nat n = show_nat (n div 10) @ [digit (n mod 10)]"
      using False by (subst show_nat.simps) simp
    then have "fst (scan_digits acc (show_nat n)) =
        fst (scan_digits acc (show_nat (n div 10))) * 10 + n mod 10"
      by (simp add: scan_digits_append [OF d] isdigit_digit digit_val_digit)
    also have "\<dots> = acc * 10 ^ Suc (length (show_nat (n div 10))) + n"
      using "1.IH" [OF False] by (simp add: algebra_simps)
    finally show ?thesis using \<open>show_nat n = _\<close> by simp
  qed
qed

lemma scan_digits_show_nat:
  assumes "t = [] \<or> \<not> isdigit (hd t)"
  shows "scan_digits 0 (show_nat n @ t) = (n, t)"
proof -
  have "\<forall>c\<in>set (show_nat n). isdigit c" by (auto dest: show_nat_digits)
  from scan_digits_append [OF this, of 0 t] scan_digits_show [of 0 n]
  have "scan_digits 0 (show_nat n @ t) = scan_digits n t" by simp
  with assms show ?thesis by (cases t) auto
qed

lemma isdigit_not_space: "isdigit c \<Longrightarrow> \<not> isspace c"
  by (auto simp: isdigit_def isspace_def)

lemma isdigit_not_special:
  "isdigit c \<Longrightarrow> c \<noteq> CHR ''-'' \<and> c \<noteq> CHR ''+'' \<and> c \<noteq> CHR '' '' \<and> c \<noteq> nul \<and> c \<noteq> cr \<and>
     c \<noteq> lf \<and> c \<noteq> CHR ''|''"
  by (auto simp: isdigit_def nul_def cr_def lf_def)

lemma hd_show_nat: "isdigit (hd (show_nat n))"
  using show_nat_digits [of "hd (show_nat n)" n] by simp

lemma minus_not_digit [simp]: "\<not> isdigit (CHR ''-'')" "\<not> isspace (CHR ''-'')"
  by (simp_all add: isdigit_def isspace_def)

text \<open>\<open>%d\<close> round trip: what \<open>printf\<close> writes, \<open>scanf\<close> and \<open>atoi\<close> read back.\<close>

lemma scan_int_show_int:
  assumes range: "- (2 ^ 31) \<le> i" "i < 2 ^ 31" and t: "t = [] \<or> \<not> isdigit (hd t)"
  shows "scan_int (show_int i @ t) = Some (i, t)"
proof -
  have clamp: "to_int32 (clamp_long i) = i"
    using range by (simp add: clamp_long_def)
  show ?thesis
  proof (cases "i < 0")
    case True
    then have "scan_digits 0 (show_nat (nat (- i)) @ t) = (nat (- i), t)"
      using t by (intro scan_digits_show_nat) auto
    with True clamp hd_show_nat [of "nat (- i)"] show ?thesis
      by (simp add: scan_int_def show_int_def Let_def)
  next
    case False
    have "show_nat (nat i) @ t = hd (show_nat (nat i)) # tl (show_nat (nat i)) @ t"
      by simp
    then have dw: "dropWhile isspace (show_nat (nat i) @ t) = show_nat (nat i) @ t"
      using isdigit_not_space [OF hd_show_nat [of "nat i"]]
      by (metis dropWhile.simps(2))
    from False have "scan_digits 0 (show_nat (nat i) @ t) = (nat i, t)"
      using t by (intro scan_digits_show_nat) auto
    with False clamp dw hd_show_nat [of "nat i"] isdigit_not_special [OF hd_show_nat [of "nat i"]]
    show ?thesis
      by (simp add: scan_int_def show_int_def Let_def)
  qed
qed

lemma show_int_chars: "c \<in> set (show_int i) \<Longrightarrow> isdigit c \<or> c = CHR ''-''"
  by (auto simp: show_int_def dest: show_nat_digits split: if_splits)

lemma show_int_not_special:
  "c \<in> set (show_int i) \<Longrightarrow> c \<noteq> nul \<and> c \<noteq> cr \<and> c \<noteq> lf \<and> c \<noteq> CHR ''|'' \<and> c \<noteq> CHR '' ''"
  using show_int_chars [of c i] isdigit_not_special [of c]
  by (auto simp: nul_def cr_def lf_def)

text \<open>A decimal of an \<open>int\<close> has at most eleven characters.\<close>

lemma length_show_nat: "n < 10 ^ Suc k \<Longrightarrow> length (show_nat n) \<le> Suc k"
proof (induction k arbitrary: n)
  case 0
  then show ?case by (simp add: show_nat.simps [of n])
next
  case (Suc k)
  then have "n div 10 < 10 ^ Suc k" by (simp add: div_less_iff_less_mult mult.commute)
  from Suc.IH [OF this] show ?case by (simp add: show_nat.simps [of n])
qed

definition int_range :: "int \<Rightarrow> bool" where
  "int_range i \<longleftrightarrow> - (2 ^ 31) \<le> i \<and> i < 2 ^ 31"

lemma length_show_int: "int_range i \<Longrightarrow> length (show_int i) \<le> 11"
proof -
  assume r: "int_range i"
  then have "nat \<bar>i\<bar> < 10 ^ Suc 9" by (auto simp: int_range_def)
  then have "length (show_nat (nat \<bar>i\<bar>)) \<le> 10" by (rule length_show_nat [THEN le_trans]) simp
  then show ?thesis by (cases "i < 0") (simp_all add: show_int_def)
qed

lemma nul_show_int [simp]: "nul \<notin> set (show_int i)"
  using show_int_not_special by blast

end
