(* ===== verification/World.thy ===== *)
theory World
  imports Prelude
begin

text \<open>
  The world outside the program. Every call that leaves the code under \<open>src/\<close> (a system
  call, the MySQL and hiredis client libraries, the allocator, the clock) is a value of
  \<open>extcall\<close>; what it gives back is an \<open>extret\<close>. A \<open>world\<close> is the trace of the calls made
  so far, newest first, and an \<open>env\<close> is any function that answers the next call from the
  trace: it stands for the operating system, the peers and the database servers, and no
  theorem assumes more about it than its own hypotheses say. Observers of the trace
  (\<open>open_fds\<close>, \<open>watched\<close>, \<open>sent_bytes\<close>) are what resource properties speak about.
\<close>

section \<open>External calls and their results\<close>

datatype errno = EAGAIN | EWOULDBLOCK | EINTR | EOTHER int

datatype epoll_op = EPOLL_CTL_ADD | EPOLL_CTL_MOD | EPOLL_CTL_DEL

datatype sock_type = SOCK_STREAM | SOCK_DGRAM

record sockaddr_in =
  sin_addr :: uint32
  sin_port :: uint16

datatype redis_reply =
    REDIS_REPLY_STRING bytes
  | REDIS_REPLY_INTEGER int
  | REDIS_REPLY_ARRAY "bytes list"
  | REDIS_REPLY_NIL
  | REDIS_REPLY_STATUS bytes
  | REDIS_REPLY_ERROR bytes

datatype extcall =
    Calloc int
  | Time
  | Epoll_create1
  | Epoll_ctl epoll_op fd fd uint32 "nat option"
  | Epoll_wait fd int int
  | Close fd
  | Socket sock_type
  | Setsockopt_reuseaddr fd
  | Fcntl_getfl fd
  | Fcntl_setfl fd uint32
  | Bind fd uint16
  | Listen fd int
  | Accept fd
  | Getsockopt_error fd
  | Sendto fd bytes "sockaddr_in option"
  | Send fd bytes
  | Recvfrom fd int
  | Read fd int
  | Mysql_init
  | Mysql_real_connect int
  | Mysql_close int
  | Mysql_real_query int bytes
  | Mysql_affected_rows int
  | Mysql_store_result int
  | Mysql_free_result int
  | Cond_timedwait
  | Redis_connect
  | Redis_free int
  | Redis_command int "bytes list"
  | Free_reply int
  | Usleep int
  | Sleep int
  | Stat bytes
  | Mkdir bytes
  | Fopen bytes
  | Fprintf "int option" bytes
  | Fclose int

text \<open>
  One record for every result: the C return value \<open>rv\<close> (negative or 0 on failure, as each
  call documents), \<open>errno\<close>, the bytes a receive call stored, the peer address it stored,
  the events \<open>epoll_wait\<close> stored (each with the pointer registered for it), whether SIGINT
  or SIGTERM was delivered during the call, the rows of a stored result and a Redis reply.
  For the client libraries \<open>rv\<close> is the pointer they return (0 for NULL), and \<open>err\<close> of a Redis
  connection is its error flag (\<open>EOTHER 0\<close> for none).
\<close>

record extret =
  rv :: int
  err :: errno
  dat :: bytes
  peer :: sockaddr_in
  evs :: "(nat option \<times> uint32) list"
  sig :: bool
  rows :: "bytes option list list"
  reply :: "redis_reply option"

type_synonym world = "(extcall \<times> extret) list"
type_synonym env = "world \<Rightarrow> extcall \<Rightarrow> extret"

definition ext :: "env \<Rightarrow> extcall \<Rightarrow> world \<Rightarrow> extret \<times> world" where
  "ext E c w = (E w c, (c, E w c) # w)"

lemma ext_simps [simp]: "fst (ext E c w) = E w c" "snd (ext E c w) = (c, E w c) # w"
  by (simp_all add: ext_def)

lemma case_ext [simp]: "(case ext E c w of (r, w') \<Rightarrow> f r w') = f (E w c) ((c, E w c) # w)"
  by (simp add: ext_def)

definition null_ret :: extret where
  "null_ret = \<lparr>rv = 0, err = EOTHER 0, dat = [], peer = \<lparr>sin_addr = 0, sin_port = 0\<rparr>,
     evs = [], sig = False, rows = [], reply = None\<rparr>"

section \<open>Descriptors\<close>

text \<open>A call that hands out a descriptor, and the descriptors open after a trace.\<close>

fun opens_fd :: "extcall \<Rightarrow> bool" where
  "opens_fd Epoll_create1 = True"
| "opens_fd (Socket t) = True"
| "opens_fd (Accept f) = True"
| "opens_fd c = False"

fun open_fds_step :: "extcall \<Rightarrow> extret \<Rightarrow> fd set \<Rightarrow> fd set" where
  "open_fds_step (Close f) r S = S - {f}"
| "open_fds_step c r S = (if opens_fd c \<and> 0 \<le> rv r then insert (rv r) S else S)"

fun open_fds :: "world \<Rightarrow> fd set" where
  "open_fds [] = {}"
| "open_fds ((c, r) # w) = open_fds_step c r (open_fds w)"

text \<open>
  POSIX: a call that returns a new descriptor returns one that is not open.
\<close>

definition fresh_fds :: "env \<Rightarrow> bool" where
  "fresh_fds E \<longleftrightarrow> (\<forall>w c. opens_fd c \<longrightarrow> 0 \<le> rv (E w c) \<longrightarrow> rv (E w c) \<notin> open_fds w)"

lemma fresh_fdsD: "fresh_fds E \<Longrightarrow> opens_fd c \<Longrightarrow> 0 \<le> rv (E w c) \<Longrightarrow> rv (E w c) \<notin> open_fds w"
  by (simp add: fresh_fds_def)

section \<open>epoll interest lists\<close>

text \<open>
  The descriptors an epoll instance watches, with the pointer registered for each: an
  \<open>ADD\<close> that returns 0 sets the entry, a \<open>MOD\<close> that returns 0 replaces the entry of a
  descriptor that is watched, a successful \<open>DEL\<close> and the closing of the descriptor
  remove it.
\<close>

fun watched_step :: "extcall \<Rightarrow> extret \<Rightarrow> (fd \<rightharpoonup> nat option) \<Rightarrow> (fd \<rightharpoonup> nat option)" where
  "watched_step (Epoll_ctl op ep f ev p) r M =
     (if rv r < 0 then M
      else (case op of
              EPOLL_CTL_DEL \<Rightarrow> M(f := None)
            | EPOLL_CTL_ADD \<Rightarrow> M(f \<mapsto> p)
            | EPOLL_CTL_MOD \<Rightarrow> if M f = None then M else M(f \<mapsto> p)))"
| "watched_step (Close f) r M = M(f := None)"
| "watched_step c r M = M"

fun watched :: "world \<Rightarrow> (fd \<rightharpoonup> nat option)" where
  "watched [] = Map.empty"
| "watched ((c, r) # w) = watched_step c r (watched w)"

text \<open>
  The documented promise of \<open>epoll_wait\<close>: it reports only watched descriptors, each with
  the pointer registered for it.
\<close>

definition polls_watched :: "env \<Rightarrow> bool" where
  "polls_watched E \<longleftrightarrow>
     (\<forall>w ep n t p ev. (p, ev) \<in> set (evs (E w (Epoll_wait ep n t))) \<longrightarrow>
        (\<exists>f. watched w f = Some p))"

lemma polls_watchedD:
  "polls_watched E \<Longrightarrow> (p, ev) \<in> set (evs (E w (Epoll_wait ep n t))) \<Longrightarrow> \<exists>f. watched w f = Some p"
  unfolding polls_watched_def by blast

section \<open>Bytes handed to the kernel\<close>

text \<open>The bytes \<open>send\<close> and \<open>sendto\<close> took over for a descriptor, oldest first.\<close>

fun sent_step :: "fd \<Rightarrow> extcall \<Rightarrow> extret \<Rightarrow> bytes" where
  "sent_step f (Send g b) r = (if g = f then take (nat (rv r)) b else [])"
| "sent_step f (Sendto g b d) r = (if g = f then take (nat (rv r)) b else [])"
| "sent_step f c r = []"

fun sent_bytes :: "fd \<Rightarrow> world \<Rightarrow> bytes" where
  "sent_bytes f [] = []"
| "sent_bytes f ((c, r) # w) = sent_bytes f w @ sent_step f c r"

section \<open>A concrete environment\<close>

text \<open>
  An operating system at rest: descriptors are handed out from 3 on, no peer connects or
  sends, every byte is sent, and SIGTERM arrives during the first wait. It shows that the
  assumptions on an environment can hold together.
\<close>

fun next_fd :: "world \<Rightarrow> fd" where
  "next_fd [] = 3"
| "next_fd ((c, r) # w) = max (next_fd w) (rv r + 1)"

lemma next_fd_pos: "3 \<le> next_fd w"
  by (induction w rule: next_fd.induct) auto

lemma open_fds_below: "f \<in> open_fds w \<Longrightarrow> f < next_fd w"
proof (induction w rule: next_fd.induct)
  case (2 c r w)
  then show ?case by (cases c) (auto split: if_splits)
qed simp

fun quiet_rv :: "world \<Rightarrow> extcall \<Rightarrow> int" where
  "quiet_rv w Epoll_create1 = next_fd w"
| "quiet_rv w (Socket t) = next_fd w"
| "quiet_rv w (Accept f) = - 1"
| "quiet_rv w (Recvfrom f n) = - 1"
| "quiet_rv w (Read f n) = - 1"
| "quiet_rv w (Calloc n) = 1"
| "quiet_rv w Time = 1000"
| "quiet_rv w (Send f b) = int (length b)"
| "quiet_rv w (Sendto f b d) = int (length b)"
| "quiet_rv w c = 0"

fun is_wait :: "extcall \<Rightarrow> bool" where
  "is_wait (Epoll_wait f n t) = True"
| "is_wait c = False"

definition quiet_os :: env where
  "quiet_os w c = null_ret\<lparr>rv := quiet_rv w c, err := EAGAIN, sig := is_wait c\<rparr>"

lemma quiet_os_sel [simp]:
  "rv (quiet_os w c) = quiet_rv w c" "err (quiet_os w c) = EAGAIN"
  "evs (quiet_os w c) = []" "sig (quiet_os w c) = is_wait c" "dat (quiet_os w c) = []"
  by (simp_all add: quiet_os_def null_ret_def)

lemma quiet_os_fresh [simp]: "fresh_fds quiet_os"
  unfolding fresh_fds_def
proof (intro allI impI)
  fix w c
  assume "opens_fd c" "0 \<le> rv (quiet_os w c)"
  then have "rv (quiet_os w c) = next_fd w" by (cases c) auto
  then show "rv (quiet_os w c) \<notin> open_fds w" using open_fds_below by fastforce
qed

lemma quiet_os_polls [simp]: "polls_watched quiet_os"
  by (simp add: polls_watched_def)

end
