(* ===== verification/Sip_Message.thy ===== *)
theory Sip_Message
  imports C_String World
begin

text \<open>
  \<open>src/sip_handler.c\<close>, the message part: parsing of the start line and the headers,
  extraction of user parts and display names, validation, and the text of a response. A
  received datagram is the list of its bytes; the NUL the receive loop stores behind it is
  the end of the list. Header buffers are the C strings they hold.
\<close>

section \<open>Data\<close>

datatype sip_method =
    SIP_METHOD_UNKNOWN
  | SIP_METHOD_INVITE
  | SIP_METHOD_ACK
  | SIP_METHOD_BYE
  | SIP_METHOD_CANCEL
  | SIP_METHOD_REGISTER
  | SIP_METHOD_OPTIONS
  | SIP_METHOD_REFER
  | SIP_METHOD_INFO
  | SIP_METHOD_UPDATE
  | SIP_METHOD_SUBSCRIBE
  | SIP_METHOD_NOTIFY
  | SIP_METHOD_MESSAGE

datatype sip_parse_error =
    SIP_PARSE_OK
  | SIP_PARSE_ERR_EMPTY
  | SIP_PARSE_ERR_NO_CRLF
  | SIP_PARSE_ERR_SHORT_LINE
  | SIP_PARSE_ERR_BAD_METHOD
  | SIP_PARSE_ERR_NO_SIP_VER

text \<open>Field names carry a prefix, \<open>from\<close> and \<open>to\<close> being taken.\<close>

record sip_message =
  m_method :: sip_method
  m_status_code :: int
  m_request_uri :: bytes
  m_call_id :: bytes
  m_from :: bytes
  m_to :: bytes
  m_cseq :: bytes
  m_contact :: bytes
  m_content_type :: bytes
  m_via :: bytes
  m_content_length :: int
  m_from_uri :: bytes
  m_from_display :: bytes
  m_to_uri :: bytes
  m_to_display :: bytes
  m_caller_number :: bytes
  m_callee_number :: bytes
  m_body :: bytes
  m_src_addr :: sockaddr_in
  m_src_len :: int
  m_raw_data :: bytes
  m_raw_len :: int

definition SIP_MAX_HEADER_LEN :: nat where "SIP_MAX_HEADER_LEN = 256"
definition SIP_MAX_BODY_LEN :: nat where "SIP_MAX_BODY_LEN = 4096"
definition SIP_MAX_RAW_LEN :: nat where "SIP_MAX_RAW_LEN = 65536"
definition SIP_MAX_URI_LEN :: nat where "SIP_MAX_URI_LEN = 256"
definition SIP_MAX_CALLID_LEN :: nat where "SIP_MAX_CALLID_LEN = 256"
definition SIP_MAX_CSEQ_LEN :: nat where "SIP_MAX_CSEQ_LEN = 64"
definition SIP_MAX_VIA_LEN :: nat where "SIP_MAX_VIA_LEN = 256"
definition SIP_RESP_BUF_SIZE :: nat where "SIP_RESP_BUF_SIZE = 2048"
definition SIP_NUMBER_LEN :: nat where "SIP_NUMBER_LEN = 16"

lemmas sip_sizes = SIP_MAX_HEADER_LEN_def SIP_MAX_BODY_LEN_def SIP_MAX_RAW_LEN_def
  SIP_MAX_URI_LEN_def SIP_MAX_CALLID_LEN_def SIP_MAX_CSEQ_LEN_def SIP_MAX_VIA_LEN_def
  SIP_RESP_BUF_SIZE_def SIP_NUMBER_LEN_def

definition zero_message :: sip_message where
  "zero_message = \<lparr>m_method = SIP_METHOD_UNKNOWN, m_status_code = 0, m_request_uri = [],
     m_call_id = [], m_from = [], m_to = [], m_cseq = [], m_contact = [], m_content_type = [],
     m_via = [], m_content_length = 0, m_from_uri = [], m_from_display = [], m_to_uri = [],
     m_to_display = [], m_caller_number = [], m_callee_number = [], m_body = [],
     m_src_addr = \<lparr>sin_addr = 0, sin_port = 0\<rparr>, m_src_len = 0, m_raw_data = [], m_raw_len = 0\<rparr>"

section \<open>Methods\<close>

definition sip_method_from_string :: "bytes \<Rightarrow> sip_method" where
  "sip_method_from_string s =
     (if strcaseeq s ''INVITE'' then SIP_METHOD_INVITE
      else if strcaseeq s ''ACK'' then SIP_METHOD_ACK
      else if strcaseeq s ''BYE'' then SIP_METHOD_BYE
      else if strcaseeq s ''CANCEL'' then SIP_METHOD_CANCEL
      else if strcaseeq s ''REGISTER'' then SIP_METHOD_REGISTER
      else if strcaseeq s ''OPTIONS'' then SIP_METHOD_OPTIONS
      else if strcaseeq s ''REFER'' then SIP_METHOD_REFER
      else if strcaseeq s ''INFO'' then SIP_METHOD_INFO
      else if strcaseeq s ''UPDATE'' then SIP_METHOD_UPDATE
      else if strcaseeq s ''SUBSCRIBE'' then SIP_METHOD_SUBSCRIBE
      else if strcaseeq s ''NOTIFY'' then SIP_METHOD_NOTIFY
      else if strcaseeq s ''MESSAGE'' then SIP_METHOD_MESSAGE
      else SIP_METHOD_UNKNOWN)"

fun sip_method_name :: "sip_method \<Rightarrow> bytes" where
  "sip_method_name SIP_METHOD_INVITE = ''INVITE''"
| "sip_method_name SIP_METHOD_ACK = ''ACK''"
| "sip_method_name SIP_METHOD_BYE = ''BYE''"
| "sip_method_name SIP_METHOD_CANCEL = ''CANCEL''"
| "sip_method_name SIP_METHOD_REGISTER = ''REGISTER''"
| "sip_method_name SIP_METHOD_OPTIONS = ''OPTIONS''"
| "sip_method_name SIP_METHOD_REFER = ''REFER''"
| "sip_method_name SIP_METHOD_INFO = ''INFO''"
| "sip_method_name SIP_METHOD_UPDATE = ''UPDATE''"
| "sip_method_name SIP_METHOD_SUBSCRIBE = ''SUBSCRIBE''"
| "sip_method_name SIP_METHOD_NOTIFY = ''NOTIFY''"
| "sip_method_name SIP_METHOD_MESSAGE = ''MESSAGE''"
| "sip_method_name SIP_METHOD_UNKNOWN = ''UNKNOWN''"

section \<open>Parsing\<close>

text \<open>
  The spaces are searched in the whole datagram, not in the first line, as the code does.
  The third component is \<open>*out_offset\<close>, meaningful with \<open>SIP_PARSE_OK\<close>.
\<close>

definition sip_parse_start_line ::
    "bytes \<Rightarrow> int \<Rightarrow> sip_message \<Rightarrow> sip_parse_error \<times> sip_message \<times> nat" where
  "sip_parse_start_line data len msg =
     (if len \<le> 0 then (SIP_PARSE_ERR_EMPTY, msg, 0) else
      case strstr data crlf of
        None \<Rightarrow> (SIP_PARSE_ERR_NO_CRLF, msg, 0)
      | Some line_len \<Rightarrow>
          if line_len < 7 then (SIP_PARSE_ERR_SHORT_LINE, msg, 0)
          else if strncaseeq 7 data ''SIP/2.0'' then
            (case strchr data (CHR '' '') of
               None \<Rightarrow> (SIP_PARSE_ERR_SHORT_LINE, msg, 0)
             | Some sp1 \<Rightarrow>
                 (SIP_PARSE_OK,
                  msg\<lparr>m_status_code := atoi (drop (sp1 + 1) data), m_method := SIP_METHOD_UNKNOWN\<rparr>,
                  line_len + 2))
          else
            (case strchr data (CHR '' '') of
               None \<Rightarrow> (SIP_PARSE_ERR_BAD_METHOD, msg, 0)
             | Some sp1 \<Rightarrow>
                 if sp1 = 0 \<or> 32 \<le> sp1 then (SIP_PARSE_ERR_BAD_METHOD, msg, 0)
                 else
                   let msg = msg\<lparr>m_method := sip_method_from_string (take sp1 data)\<rparr>;
                       msg = (case strchr (drop (sp1 + 1) data) (CHR '' '') of
                                None \<Rightarrow> msg
                              | Some uri_len \<Rightarrow>
                                  if 0 < uri_len \<and> uri_len < SIP_MAX_URI_LEN
                                  then msg\<lparr>m_request_uri := take uri_len (drop (sp1 + 1) data)\<rparr>
                                  else msg)
                   in (SIP_PARSE_OK, msg, line_len + 2)))"

text \<open>
  The chain of header names. \<open>line\<close> is the text from the start of the line to the end of the
  datagram, \<open>v\<close> the value up to the CR LF, \<open>rest\<close> the datagram from the value on, which is
  what \<open>atoi\<close> reads.
\<close>

definition store_header ::
    "nat \<Rightarrow> bytes \<Rightarrow> bytes \<Rightarrow> bytes \<Rightarrow> sip_message \<Rightarrow> sip_message" where
  "store_header key_len line v rest msg =
     (if key_len = 7 \<and> strncaseeq 7 line ''Call-ID''
      then msg\<lparr>m_call_id := strncpy (SIP_MAX_CALLID_LEN - 1) v\<rparr>
      else if key_len = 4 \<and> strncaseeq 4 line ''From''
      then msg\<lparr>m_from := strncpy (SIP_MAX_HEADER_LEN - 1) v\<rparr>
      else if key_len = 2 \<and> strncaseeq 2 line ''To''
      then msg\<lparr>m_to := strncpy (SIP_MAX_HEADER_LEN - 1) v\<rparr>
      else if key_len = 4 \<and> strncaseeq 4 line ''CSeq''
      then msg\<lparr>m_cseq := strncpy (SIP_MAX_CSEQ_LEN - 1) v\<rparr>
      else if key_len = 7 \<and> strncaseeq 7 line ''Contact''
      then msg\<lparr>m_contact := strncpy (SIP_MAX_HEADER_LEN - 1) v\<rparr>
      else if key_len = 12 \<and> strncaseeq 12 line ''Content-Type''
      then msg\<lparr>m_content_type := strncpy (SIP_MAX_HEADER_LEN - 1) v\<rparr>
      else if key_len = 3 \<and> strncaseeq 3 line ''Via''
      then msg\<lparr>m_via := strncpy (SIP_MAX_VIA_LEN - 1) v\<rparr>
      else if key_len = 14 \<and> strncaseeq 14 line ''Content-Length''
      then msg\<lparr>m_content_length := atoi rest\<rparr>
      else msg)"

function sip_parse_headers :: "bytes \<Rightarrow> nat \<Rightarrow> nat \<Rightarrow> sip_message \<Rightarrow> sip_message \<times> nat" where
  "sip_parse_headers data len pos msg =
     (if len \<le> pos then (msg, pos) else
      let line = drop pos data; remaining = len - pos in
      if 2 \<le> remaining \<and> take 2 line = crlf then (msg, pos + 2)
      else case memmem crlf (take remaining line) of
        None \<Rightarrow> (msg, pos)
      | Some hdr_len \<Rightarrow>
          let next = pos + hdr_len + 2 in
          (case memchr (CHR '':'') (take hdr_len line) of
             None \<Rightarrow> sip_parse_headers data len next msg
           | Some key_len \<Rightarrow>
               let v = dropWhile ((=) (CHR '' '')) (drop (key_len + 1) (take hdr_len line));
                   rest = drop (hdr_len - length v) line
               in sip_parse_headers data len next (store_header key_len line v rest msg)))"
  by pat_completeness auto
termination by (relation "measure (\<lambda>(data, len, pos, msg). len - pos)") auto

declare sip_parse_headers.simps [simp del]

definition sip_extract_uri_user :: "bytes \<Rightarrow> nat \<Rightarrow> bytes" where
  "sip_extract_uri_user header_value buf_size =
     (let sip_start =
            (case strstr header_value ''sip:'' of
               Some k \<Rightarrow> drop (k + 4) header_value
             | None \<Rightarrow>
                 (case strstr header_value ''SIP:'' of
                    Some k \<Rightarrow> drop (k + 4) header_value
                  | None \<Rightarrow>
                      (case strchr header_value (CHR '':'') of
                         Some k \<Rightarrow> drop (k + 1) header_value
                       | None \<Rightarrow> header_value)));
          user_len =
            (case strchr sip_start (CHR ''@'') of
               Some k \<Rightarrow> k
             | None \<Rightarrow>
                 (case strchr sip_start (CHR '':'') of
                    Some k \<Rightarrow> k
                  | None \<Rightarrow>
                      (case strchr sip_start (CHR '';'') of
                         Some k \<Rightarrow> k
                       | None \<Rightarrow> length (cstr sip_start))))
      in take (min user_len (buf_size - 1)) sip_start)"

text \<open>The display name before \<open><\<close>: quotes and trailing blanks are cut, any other is ignored.\<close>

definition from_display_of :: "bytes \<Rightarrow> bytes option" where
  "from_display_of hdr =
     (case strchr hdr (CHR ''<'') of
        None \<Rightarrow> None
      | Some lt \<Rightarrow>
          let d = rev (dropWhile ((=) (CHR '' '')) (rev (take lt hdr))) in
          if d \<noteq> [] \<and> hd hdr = CHR 0x22 then
            let cp = int (length d) - 2 in
            (if 0 < cp \<and> cp < int SIP_MAX_HEADER_LEN then Some (take (nat cp) (drop 1 hdr)) else None)
          else None)"

definition parse_body :: "bytes \<Rightarrow> int \<Rightarrow> nat \<Rightarrow> sip_message \<Rightarrow> sip_message" where
  "parse_body data len body_start msg =
     (if 0 < m_content_length msg then
        let remain = len - int body_start;
            cp_len = m_content_length msg;
            cp_len = (if remain < cp_len then remain else cp_len);
            cp_len = (if int SIP_MAX_BODY_LEN - 1 < cp_len then int SIP_MAX_BODY_LEN - 1 else cp_len)
        in if 0 < cp_len then msg\<lparr>m_body := take (nat cp_len) (drop body_start data)\<rparr> else msg
      else msg)"

definition sip_parse_message ::
    "bytes option \<Rightarrow> int \<Rightarrow> sip_message \<Rightarrow> sip_parse_error \<times> sip_message" where
  "sip_parse_message data len msg =
     (case data of
        None \<Rightarrow> (SIP_PARSE_ERR_EMPTY, msg)
      | Some d \<Rightarrow>
          if len \<le> 0 then (SIP_PARSE_ERR_EMPTY, msg) else
          let msg = zero_message\<lparr>m_raw_data := d, m_raw_len := len, m_content_length := 0\<rparr>;
              (ret, msg, offset) = sip_parse_start_line d len msg
          in if ret \<noteq> SIP_PARSE_OK then (ret, msg) else
          let (msg, body_offset) = sip_parse_headers d (nat len) offset msg;
              msg = msg\<lparr>m_from_uri := sip_extract_uri_user (m_from msg) SIP_MAX_URI_LEN\<rparr>;
              msg = msg\<lparr>m_to_uri := sip_extract_uri_user (m_to msg) SIP_MAX_URI_LEN\<rparr>;
              msg = (if m_from msg \<noteq> [] then
                       (case from_display_of (m_from msg) of
                          None \<Rightarrow> msg | Some n \<Rightarrow> msg\<lparr>m_from_display := n\<rparr>)
                     else msg);
              msg = msg\<lparr>m_caller_number := sip_extract_uri_user (m_from msg) SIP_NUMBER_LEN\<rparr>;
              msg = msg\<lparr>m_callee_number := sip_extract_uri_user (m_to msg) SIP_NUMBER_LEN\<rparr>
          in (SIP_PARSE_OK, parse_body d len body_offset msg))"

section \<open>Validation and responses\<close>

definition sip_validate_message :: "sip_message option \<Rightarrow> int" where
  "sip_validate_message msg =
     (case msg of
        None \<Rightarrow> - 1
      | Some m \<Rightarrow>
          if 0 < m_status_code m then 0
          else if m_method m = SIP_METHOD_UNKNOWN then - 2
          else if m_call_id m = [] then - 3
          else if m_from m = [] then - 4
          else if m_to m = [] then - 5
          else if m_cseq m = [] then - 6
          else 0)"

definition or_else :: "bytes option \<Rightarrow> bytes \<Rightarrow> bytes" where
  "or_else s d = (case s of None \<Rightarrow> d | Some t \<Rightarrow> if t = [] then d else t)"

definition response_text :: "sip_message option \<Rightarrow> int \<Rightarrow> bytes option \<Rightarrow> bytes" where
  "response_text request status_code reason_phrase =
     ''SIP/2.0 '' @ show_int status_code @ '' '' @
       (case reason_phrase of None \<Rightarrow> ''OK'' | Some r \<Rightarrow> r) @ crlf @
     ''Via: '' @ or_else (map_option m_via request) ''SIP/2.0/UDP unknown'' @ crlf @
     ''From: '' @ or_else (map_option m_from request) ''<sip:unknown>'' @ crlf @
     ''To: '' @ or_else (map_option m_to request) ''<sip:unknown>'' @ crlf @
     ''Call-ID: '' @ or_else (map_option m_call_id request) ''unknown'' @ crlf @
     ''CSeq: '' @ or_else (map_option m_cseq request) ''0 UNKNOWN'' @ crlf @
     ''Content-Length: 0'' @ crlf @ crlf"

text \<open>\<open>None\<close> is the result -1, \<open>Some\<close> the text written to the buffer.\<close>

definition sip_generate_response ::
    "sip_message option \<Rightarrow> int \<Rightarrow> bytes option \<Rightarrow> int \<Rightarrow> bytes option" where
  "sip_generate_response request status_code reason_phrase buf_size =
     (if buf_size \<le> 0 then None else
      let text = response_text request status_code reason_phrase in
      if buf_size \<le> int (length text) then None else Some text)"

end
