(* ===== verification/Sip_Facts.thy ===== *)
theory Sip_Facts
  imports Sip_Message
begin

text \<open>
  Facts on SIP messages: the header loop against a reference reader that works on the rest
  of the text instead of on positions, what holds of every parsed field, and the round trip
  from a request through the response to its parse.
\<close>

section \<open>A reference reader of the header block\<close>

function read_headers :: "bytes \<Rightarrow> sip_message \<Rightarrow> sip_message \<times> bytes" where
  "read_headers tx msg =
     (if tx = [] then (msg, [])
      else if prefix crlf tx then (msg, drop 2 tx)
      else case memmem crlf tx of
        None \<Rightarrow> (msg, tx)
      | Some n \<Rightarrow>
          (case memchr (CHR '':'') (take n tx) of
             None \<Rightarrow> read_headers (drop (n + 2) tx) msg
           | Some k \<Rightarrow>
               let v = dropWhile ((=) (CHR '' '')) (drop (k + 1) (take n tx))
               in read_headers (drop (n + 2) tx)
                    (store_header k tx v (drop (n - length v) tx) msg)))"
  by pat_completeness auto
termination by (relation "measure (\<lambda>(tx, msg). length tx)") (auto simp: length_greater_0_conv)

declare read_headers.simps [simp del]

lemma prefix_crlf_take: "prefix crlf tx \<longleftrightarrow> 2 \<le> length tx \<and> take 2 tx = crlf"
proof
  assume "prefix crlf tx"
  then show "2 \<le> length tx \<and> take 2 tx = crlf" by (auto simp: prefix_def)
next
  assume "2 \<le> length tx \<and> take 2 tx = crlf"
  then show "prefix crlf tx" by (metis take_is_prefix)
qed

text \<open>The position-based loop is the reference reader on the rest of the datagram.\<close>

lemma parse_headers_read:
  assumes "pos \<le> length data"
  shows "sip_parse_headers data (length data) pos msg =
    (case read_headers (drop pos data) msg of (m, rest) \<Rightarrow> (m, length data - length rest))"
  using assms
proof (induction "length data - pos" arbitrary: pos msg rule: less_induct)
  case less
  let ?t = "drop pos data"
  note unf = sip_parse_headers.simps [of data "length data" pos msg] read_headers.simps [of ?t msg]
  have tk: "take (length data - pos) ?t = ?t" by simp
  show ?case
  proof (cases "length data \<le> pos")
    case True
    with less.prems show ?thesis unfolding unf by simp
  next
    case False
    then have ne: "?t \<noteq> []" by simp
    show ?thesis
    proof (cases "prefix crlf ?t")
      case True
      then have "2 \<le> length data - pos" "take 2 ?t = crlf" by (simp_all add: prefix_crlf_take)
      with True ne False show ?thesis by (simp add: unf)
    next
      case nb: False
      then have nb': "(2 \<le> length data - pos \<and> take 2 ?t = crlf) = False" by (simp add: prefix_crlf_take)
      show ?thesis
      proof (cases "memmem crlf ?t")
        case None
        with nb nb' ne False show ?thesis by (auto simp: unf tk Let_def)
      next
        case (Some n)
        from memmem_SomeD [OF Some] have n: "pos + n + 2 \<le> length data" using False by auto
        have IH: "sip_parse_headers data (length data) (pos + n + 2) m =
            (case read_headers (drop (n + 2) ?t) m of (m, rest) \<Rightarrow> (m, length data - length rest))" for m
          using less.hyps [of "pos + n + 2" m] n False by (simp add: add.commute add.left_commute)
        show ?thesis
        proof (cases "memchr (CHR '':'') (take n ?t)")
          case None
          with Some nb nb' ne False IH show ?thesis by (auto simp: unf tk Let_def)
        next
          case (Some k)
          with \<open>memmem crlf ?t = Some n\<close> nb nb' ne False IH show ?thesis
            by (auto simp: unf tk Let_def)
        qed
      qed
    qed
  qed
qed

lemma read_headers_blank [simp]: "read_headers (cr # lf # rest) msg = (msg, rest)"
  by (simp add: read_headers.simps [of "cr # lf # rest"])

text \<open>One header line.\<close>

lemma read_headers_line:
  fixes key v rest :: bytes
  assumes l: "no_crlf (key @ CHR '':'' # v)" and key: "CHR '':'' \<notin> set key"
  defines "tx \<equiv> key @ CHR '':'' # v @ crlf @ rest" and "w \<equiv> dropWhile ((=) (CHR '' '')) v"
  shows "read_headers tx msg =
    read_headers rest (store_header (length key) tx w (w @ crlf @ rest) msg)"
proof -
  let ?l = "key @ CHR '':'' # v"
  have tx: "tx = ?l @ crlf @ rest" by (simp add: tx_def)
  have mm: "memmem crlf tx = Some (length ?l)" unfolding tx by (rule memmem_crlf_line [OF l])
  then have np: "\<not> prefix crlf tx" by (cases tx) (auto simp: tx)
  have tk: "take (length ?l) tx = ?l" unfolding tx by simp
  have mc: "memchr (CHR '':'') ?l = Some (length key)" using key by simp
  have "v = takeWhile ((=) (CHR '' '')) v @ w" by (simp add: w_def)
  then have "tx = (key @ CHR '':'' # takeWhile ((=) (CHR '' '')) v) @ w @ crlf @ rest"
    "length ?l - length w = length (key @ CHR '':'' # takeWhile ((=) (CHR '' '')) v)"
    unfolding tx by (metis append.assoc append_Cons, metis add_diff_cancel_right' append.assoc append_Cons length_append)
  then have dr: "drop (length ?l - length w) tx = w @ crlf @ rest"
    by (metis append_eq_conv_conj)
  have "tx = (?l @ crlf) @ rest" unfolding tx by simp
  then have "drop (length (?l @ crlf)) tx = rest" by (metis append_eq_conv_conj)
  then have "drop (length ?l + 2) tx = rest" by simp
  with mm np tk mc dr show ?thesis
    by (subst read_headers.simps) (simp add: tx_def w_def Let_def)
qed

section \<open>What holds of every parsed field\<close>

definition field_ok :: "nat \<Rightarrow> bytes \<Rightarrow> bool" where
  "field_ok n s \<longleftrightarrow> nul \<notin> set s \<and> no_crlf s \<and> length s < n \<and> (s \<noteq> [] \<longrightarrow> hd s \<noteq> CHR '' '')"

definition headers_ok :: "sip_message \<Rightarrow> bool" where
  "headers_ok m \<longleftrightarrow>
     field_ok SIP_MAX_CALLID_LEN (m_call_id m) \<and> field_ok SIP_MAX_HEADER_LEN (m_from m) \<and>
     field_ok SIP_MAX_HEADER_LEN (m_to m) \<and> field_ok SIP_MAX_CSEQ_LEN (m_cseq m) \<and>
     field_ok SIP_MAX_HEADER_LEN (m_contact m) \<and> field_ok SIP_MAX_HEADER_LEN (m_content_type m) \<and>
     field_ok SIP_MAX_VIA_LEN (m_via m)"

lemma field_ok_Nil [simp]: "field_ok n [] = (0 < n)"
  by (simp add: field_ok_def)

lemma field_ok_strncpy:
  assumes "no_crlf v" and "v \<noteq> [] \<longrightarrow> hd v \<noteq> CHR '' ''" and "0 < n"
  shows "field_ok n (strncpy (n - 1) v)"
proof -
  have "length (strncpy (n - 1) v) < n" using assms(3) length_strncpy [of "n - 1" v] by linarith
  moreover have "hd (strncpy (n - 1) v) \<noteq> CHR '' ''" if "strncpy (n - 1) v \<noteq> []"
    using that assms(2) by (cases v) (auto simp: strncpy_def take_Cons' split: if_splits)
  ultimately show ?thesis
    using assms(1) by (simp add: field_ok_def) (simp add: strncpy_def no_crlf_take no_crlf_cstr)
qed

lemma hd_dropWhile_space: "dropWhile ((=) c) s \<noteq> [] \<Longrightarrow> hd (dropWhile ((=) c) s) \<noteq> c"
  using hd_dropWhile [of "(=) c" s] by auto

lemma headers_ok_upd:
  assumes "headers_ok m"
  shows "field_ok SIP_MAX_CALLID_LEN x \<Longrightarrow> headers_ok (m\<lparr>m_call_id := x\<rparr>)"
    "field_ok SIP_MAX_HEADER_LEN x \<Longrightarrow> headers_ok (m\<lparr>m_from := x\<rparr>)"
    "field_ok SIP_MAX_HEADER_LEN x \<Longrightarrow> headers_ok (m\<lparr>m_to := x\<rparr>)"
    "field_ok SIP_MAX_CSEQ_LEN x \<Longrightarrow> headers_ok (m\<lparr>m_cseq := x\<rparr>)"
    "field_ok SIP_MAX_HEADER_LEN x \<Longrightarrow> headers_ok (m\<lparr>m_contact := x\<rparr>)"
    "field_ok SIP_MAX_HEADER_LEN x \<Longrightarrow> headers_ok (m\<lparr>m_content_type := x\<rparr>)"
    "field_ok SIP_MAX_VIA_LEN x \<Longrightarrow> headers_ok (m\<lparr>m_via := x\<rparr>)"
    "headers_ok (m\<lparr>m_content_length := y\<rparr>)"
  using assms by (simp_all add: headers_ok_def)

lemma store_header_ok:
  assumes "headers_ok m" and "no_crlf v" and "v \<noteq> [] \<longrightarrow> hd v \<noteq> CHR '' ''"
  shows "headers_ok (store_header k line v rest m)"
proof -
  have f: "field_ok SIP_MAX_CALLID_LEN (strncpy (SIP_MAX_CALLID_LEN - 1) v)"
    "field_ok SIP_MAX_HEADER_LEN (strncpy (SIP_MAX_HEADER_LEN - 1) v)"
    "field_ok SIP_MAX_CSEQ_LEN (strncpy (SIP_MAX_CSEQ_LEN - 1) v)"
    "field_ok SIP_MAX_VIA_LEN (strncpy (SIP_MAX_VIA_LEN - 1) v)"
    by (rule field_ok_strncpy [OF assms(2,3)], simp add: sip_sizes)+
  show ?thesis
    unfolding store_header_def using assms(1) f by (simp add: headers_ok_upd del: One_nat_def)
qed

lemma read_headers_ok: "headers_ok m \<Longrightarrow> headers_ok (fst (read_headers tx m))"
proof (induction tx m rule: read_headers.induct)
  case (1 tx m)
  show ?case
  proof (cases "tx = [] \<or> prefix crlf tx \<or> memmem crlf tx = None")
    case True
    with "1.prems" show ?thesis by (auto simp: read_headers.simps [of tx])
  next
    case False
    then obtain n where n: "tx \<noteq> []" "\<not> prefix crlf tx" "memmem crlf tx = Some n" by auto
    have line: "no_crlf (take n tx)" using n(3) by (rule memmem_crlf_before)
    show ?thesis
    proof (cases "memchr (CHR '':'') (take n tx)")
      case None
      have "read_headers tx m = read_headers (drop (n + 2) tx) m"
        using n None by (subst read_headers.simps) simp
      with "1.IH"(1) [OF n None] "1.prems" show ?thesis by simp
    next
      case (Some k)
      let ?v = "dropWhile ((=) (CHR '' '')) (drop (k + 1) (take n tx))"
      have v: "no_crlf ?v"
        using no_crlf_drop [OF line, of "k + 1"] by (metis dropWhile_eq_drop no_crlf_drop)
      have h: "headers_ok (store_header k tx ?v (drop (n - length ?v) tx) m)"
        by (rule store_header_ok [OF "1.prems" v]) (rule impI, erule hd_dropWhile_space)
      have "read_headers tx m =
          read_headers (drop (n + 2) tx) (store_header k tx ?v (drop (n - length ?v) tx) m)"
        using n Some by (subst read_headers.simps) (simp add: Let_def)
      with "1.IH"(2) [OF n Some refl h] show ?thesis by simp
    qed
  qed
qed

lemma start_line_offset: "snd (snd (sip_parse_start_line d len m)) \<le> length d"
proof (cases "strstr d crlf")
  case None
  then show ?thesis by (simp add: sip_parse_start_line_def)
next
  case (Some k)
  then have "k + 2 \<le> length d"
    using memmem_SomeD [of crlf "cstr d" k] le_trans [OF _ length_cstr [of d], of "k + 2"]
    unfolding strstr_def by auto
  with Some show ?thesis by (simp add: sip_parse_start_line_def Let_def split: option.split)
qed

lemma headers_ok_start_line [simp]:
  "headers_ok (m\<lparr>m_status_code := c\<rparr>) = headers_ok m"
  "headers_ok (m\<lparr>m_method := t\<rparr>) = headers_ok m"
  "headers_ok (m\<lparr>m_request_uri := u\<rparr>) = headers_ok m"
  by (simp_all add: headers_ok_def)

lemma start_line_headers: "headers_ok (fst (snd (sip_parse_start_line d len m))) = headers_ok m"
  by (simp add: sip_parse_start_line_def Let_def del: sip_message.update_convs split: option.split)

lemma zero_message_ok [simp]: "headers_ok (zero_message\<lparr>m_raw_data := d, m_raw_len := l, m_content_length := c\<rparr>)"
  by (simp add: headers_ok_def zero_message_def sip_sizes)

lemma parse_body_sel [simp]:
  "headers_ok (parse_body d len b m) = headers_ok m"
  "m_from (parse_body d len b m) = m_from m" "m_to (parse_body d len b m) = m_to m"
  "m_via (parse_body d len b m) = m_via m" "m_call_id (parse_body d len b m) = m_call_id m"
  "m_cseq (parse_body d len b m) = m_cseq m" "m_method (parse_body d len b m) = m_method m"
  "m_status_code (parse_body d len b m) = m_status_code m"
  "m_content_length (parse_body d len b m) = m_content_length m"
  "m_caller_number (parse_body d len b m) = m_caller_number m"
  "m_callee_number (parse_body d len b m) = m_callee_number m"
  "m_request_uri (parse_body d len b m) = m_request_uri m"
  "m_contact (parse_body d len b m) = m_contact m"
  "m_content_type (parse_body d len b m) = m_content_type m"
  by (simp_all add: parse_body_def headers_ok_def Let_def)

text \<open>The result of parsing, in terms of the reference reader.\<close>

lemma parse_message_OK:
  assumes "sip_parse_message (Some d) (int (length d)) m0 = (SIP_PARSE_OK, m)"
  obtains m1 off m2 rest where
    "sip_parse_start_line d (int (length d))
       (zero_message\<lparr>m_raw_data := d, m_raw_len := int (length d), m_content_length := 0\<rparr>) =
     (SIP_PARSE_OK, m1, off)"
    "read_headers (drop off d) m1 = (m2, rest)"
    "headers_ok m = headers_ok m2" "m_from m = m_from m2" "m_to m = m_to m2" "m_via m = m_via m2"
    "m_call_id m = m_call_id m2" "m_cseq m = m_cseq m2" "m_method m = m_method m2"
    "m_status_code m = m_status_code m2" "m_content_length m = m_content_length m2"
    "m_caller_number m = sip_extract_uri_user (m_from m2) SIP_NUMBER_LEN"
    "m_callee_number m = sip_extract_uri_user (m_to m2) SIP_NUMBER_LEN"
proof -
  let ?m0 = "zero_message\<lparr>m_raw_data := d, m_raw_len := int (length d), m_content_length := 0\<rparr>"
  obtain r m1 off where s: "sip_parse_start_line d (int (length d)) ?m0 = (r, m1, off)"
    by (metis prod_cases3)
  obtain m2 rest where h: "read_headers (drop off d) m1 = (m2, rest)" by fastforce
  from assms s have r: "r = SIP_PARSE_OK" "d \<noteq> []"
    by (auto simp: sip_parse_message_def split: if_splits)
  with start_line_offset [of d "int (length d)" ?m0] s parse_headers_read [of off d m1] h
  have "sip_parse_headers d (length d) off m1 = (m2, length d - length rest)" by simp
  with assms s r show ?thesis
    using that [OF s [unfolded r(1)] h]
    by (auto simp: sip_parse_message_def Let_def headers_ok_def split: if_splits option.splits)
qed

lemma parsed_headers_ok:
  assumes "sip_parse_message (Some d) (int (length d)) m0 = (SIP_PARSE_OK, m)"
  shows "headers_ok m"
  using assms
proof (rule parse_message_OK)
  fix m1 off m2 rest
  assume s: "sip_parse_start_line d (int (length d))
       (zero_message\<lparr>m_raw_data := d, m_raw_len := int (length d), m_content_length := 0\<rparr>) =
     (SIP_PARSE_OK, m1, off)"
    and h: "read_headers (drop off d) m1 = (m2, rest)" and eq: "headers_ok m = headers_ok m2"
  from start_line_headers [of d "int (length d)" "zero_message\<lparr>m_raw_data := d,
      m_raw_len := int (length d), m_content_length := 0\<rparr>"] s have "headers_ok m1" by simp
  from read_headers_ok [OF this, of "drop off d"] h eq show ?thesis by simp
qed

section \<open>From a response back to its fields\<close>

lemma no_crlf_append: "cr \<notin> set a \<Longrightarrow> no_crlf (a @ b) = no_crlf b"
  by (induction a) (auto simp: no_crlf_Cons)

lemma strncaseeq_same: "nul \<notin> set k \<Longrightarrow> strncaseeq (length k) (k @ x) k"
  by (simp add: strncaseeq_def cstr_append cstr_id)

lemma strncpy_id: "nul \<notin> set s \<Longrightarrow> length s \<le> n \<Longrightarrow> strncpy n s = s"
  by (simp add: strncpy_def cstr_id)

lemma store_echoed:
  shows "store_header 3 (''Via'' @ x) v r m = m\<lparr>m_via := strncpy (SIP_MAX_VIA_LEN - 1) v\<rparr>"
    and "store_header 4 (''From'' @ x) v r m = m\<lparr>m_from := strncpy (SIP_MAX_HEADER_LEN - 1) v\<rparr>"
    and "store_header 2 (''To'' @ x) v r m = m\<lparr>m_to := strncpy (SIP_MAX_HEADER_LEN - 1) v\<rparr>"
    and "store_header 7 (''Call-ID'' @ x) v r m = m\<lparr>m_call_id := strncpy (SIP_MAX_CALLID_LEN - 1) v\<rparr>"
    and "store_header 4 (''CSeq'' @ x) v r m = m\<lparr>m_cseq := strncpy (SIP_MAX_CSEQ_LEN - 1) v\<rparr>"
    and "store_header 14 (''Content-Length'' @ x) v r m = m\<lparr>m_content_length := atoi r\<rparr>"
  using strncaseeq_same [of "''Via''" x] strncaseeq_same [of "''From''" x]
    strncaseeq_same [of "''To''" x] strncaseeq_same [of "''Call-ID''" x]
    strncaseeq_same [of "''CSeq''" x] strncaseeq_same [of "''Content-Length''" x]
  by (simp_all add: store_header_def nul_def strncaseeq_def tolower_def)

text \<open>One echoed header line \<open>key: v\<close>.\<close>

lemma read_headers_echoed:
  assumes v: "no_crlf v" "v \<noteq> []" "hd v \<noteq> CHR '' ''" and key: "CHR '':'' \<notin> set key" "cr \<notin> set key"
    and n: "length key = n"
  shows "read_headers (key @ '': '' @ v @ crlf @ rest) m =
    read_headers rest (store_header n (key @ '': '' @ v @ crlf @ rest) v (v @ crlf @ rest) m)"
proof -
  have "no_crlf ((key @ '': '') @ v)"
    using v(1) key(2) by (subst no_crlf_append) (auto simp: cr_def)
  then have "no_crlf (key @ CHR '':'' # CHR '' '' # v)" by simp
  moreover have "dropWhile ((=) (CHR '' '')) (CHR '' '' # v) = v" using v(2,3) by (cases v) auto
  ultimately show ?thesis
    using read_headers_line [of key "CHR '' '' # v" rest m] key(1) n by simp
qed

definition echo_ok :: "nat \<Rightarrow> bytes \<Rightarrow> bool" where
  "echo_ok n s \<longleftrightarrow> field_ok n s \<and> s \<noteq> []"

lemma echo_okD:
  "echo_ok n s \<Longrightarrow> no_crlf s \<and> s \<noteq> [] \<and> hd s \<noteq> CHR '' '' \<and> nul \<notin> set s \<and> strncpy (n - 1) s = s"
  by (auto simp: echo_ok_def field_ok_def intro!: strncpy_id)

definition response_headers :: "bytes \<Rightarrow> bytes \<Rightarrow> bytes \<Rightarrow> bytes \<Rightarrow> bytes \<Rightarrow> bytes" where
  "response_headers via fr to cid cseq =
     ''Via'' @ '': '' @ via @ crlf @ ''From'' @ '': '' @ fr @ crlf @ ''To'' @ '': '' @ to @ crlf @
     ''Call-ID'' @ '': '' @ cid @ crlf @ ''CSeq'' @ '': '' @ cseq @ crlf @
     ''Content-Length'' @ '': '' @ ''0'' @ crlf @ crlf"

lemma atoi_zero: "atoi (''0'' @ crlf @ crlf) = 0"
  by (simp add: atoi_def scan_int_def isspace_def isdigit_def digit_val_def nul_def cr_def lf_def
      clamp_long_def)

lemma read_response_headers:
  assumes "echo_ok SIP_MAX_VIA_LEN via" and "echo_ok SIP_MAX_HEADER_LEN fr"
    and "echo_ok SIP_MAX_HEADER_LEN to" and "echo_ok SIP_MAX_CALLID_LEN cid"
    and "echo_ok SIP_MAX_CSEQ_LEN cseq"
  shows "read_headers (response_headers via fr to cid cseq) m =
    (m\<lparr>m_via := via, m_from := fr, m_to := to, m_call_id := cid, m_cseq := cseq,
       m_content_length := 0\<rparr>, [])"
proof -
  note f = assms [THEN echo_okD]
  note key = list.set(2) cr_def
  let ?h6 = "''Content-Length'' @ '': '' @ ''0'' @ crlf @ crlf"
  let ?h5 = "''CSeq'' @ '': '' @ cseq @ crlf @ ?h6"
  let ?h4 = "''Call-ID'' @ '': '' @ cid @ crlf @ ?h5"
  let ?h3 = "''To'' @ '': '' @ to @ crlf @ ?h4"
  let ?h2 = "''From'' @ '': '' @ fr @ crlf @ ?h3"
  let ?h1 = "''Via'' @ '': '' @ via @ crlf @ ?h2"
  have 6: "read_headers ?h6 m = (m\<lparr>m_content_length := 0\<rparr>, [])" for m
    using read_headers_echoed [of "''0''" "''Content-Length''" 14 crlf m]
      store_echoed(6) [of "'': '' @ ''0'' @ crlf @ crlf" "''0''" "''0'' @ crlf @ crlf" m]
      read_headers_blank [of "[]" "m\<lparr>m_content_length := 0\<rparr>"] atoi_zero
    by (simp add: no_crlf_Cons cr_def)
  have 5: "read_headers ?h5 m = read_headers ?h6 (m\<lparr>m_cseq := cseq\<rparr>)" for m
    using read_headers_echoed [of cseq "''CSeq''" 4 ?h6 m] f(5)
      store_echoed(5) [of "'': '' @ cseq @ crlf @ ?h6" cseq "cseq @ crlf @ ?h6" m]
    by (simp add: cr_def)
  have 4: "read_headers ?h4 m = read_headers ?h5 (m\<lparr>m_call_id := cid\<rparr>)" for m
    using read_headers_echoed [of cid "''Call-ID''" 7 ?h5 m] f(4)
      store_echoed(4) [of "'': '' @ cid @ crlf @ ?h5" cid "cid @ crlf @ ?h5" m]
    by (simp add: cr_def)
  have 3: "read_headers ?h3 m = read_headers ?h4 (m\<lparr>m_to := to\<rparr>)" for m
    using read_headers_echoed [of to "''To''" 2 ?h4 m] f(3)
      store_echoed(3) [of "'': '' @ to @ crlf @ ?h4" to "to @ crlf @ ?h4" m]
    by (simp add: cr_def)
  have 2: "read_headers ?h2 m = read_headers ?h3 (m\<lparr>m_from := fr\<rparr>)" for m
    using read_headers_echoed [of fr "''From''" 4 ?h3 m] f(2)
      store_echoed(2) [of "'': '' @ fr @ crlf @ ?h3" fr "fr @ crlf @ ?h3" m]
    by (simp add: cr_def)
  have 1: "read_headers ?h1 m = read_headers ?h2 (m\<lparr>m_via := via\<rparr>)" for m
    using read_headers_echoed [of via "''Via''" 3 ?h2 m] f(1)
      store_echoed(1) [of "'': '' @ via @ crlf @ ?h2" via "via @ crlf @ ?h2" m]
    by (simp add: cr_def)
  have h: "response_headers via fr to cid cseq = ?h1" by (simp only: response_headers_def)
  show ?thesis unfolding h 1 2 3 4 5 6 by simp
qed

lemma parse_message_run:
  assumes s: "sip_parse_start_line d (int (length d))
      (zero_message\<lparr>m_raw_data := d, m_raw_len := int (length d), m_content_length := 0\<rparr>) =
      (SIP_PARSE_OK, m1, off)"
    and h: "read_headers (drop off d) m1 = (m2, rest)" and d: "d \<noteq> []"
  shows "\<exists>m. sip_parse_message (Some d) (int (length d)) m0 = (SIP_PARSE_OK, m) \<and>
    m_via m = m_via m2 \<and> m_from m = m_from m2 \<and> m_to m = m_to m2 \<and> m_call_id m = m_call_id m2 \<and>
    m_cseq m = m_cseq m2 \<and> m_method m = m_method m2 \<and> m_status_code m = m_status_code m2 \<and>
    m_content_length m = m_content_length m2"
proof -
  obtain m where m: "sip_parse_message (Some d) (int (length d)) m0 = (SIP_PARSE_OK, m)"
    using s d by (simp add: sip_parse_message_def Let_def case_prod_beta)
  from m show ?thesis
  proof (rule parse_message_OK, goal_cases)
    case (1 m1' off' m2' rest')
    with s h have "m2' = m2" by simp
    with 1 m show ?thesis by simp
  qed
qed

lemma show_int_no_crlf: "cr \<notin> set (show_int i)" "nul \<notin> set (show_int i)"
  using show_int_not_special by blast+

lemma start_line_response:
  assumes r: "nul \<notin> set r" "no_crlf r" and h: "nul \<notin> set h"
    and code: "- (2 ^ 31) \<le> code" "code < 2 ^ 31"
  defines "l \<equiv> ''SIP/2.0 '' @ show_int code @ CHR '' '' # r"
  shows "sip_parse_start_line (l @ crlf @ h) (int (length (l @ crlf @ h))) m =
    (SIP_PARSE_OK, m\<lparr>m_status_code := code, m_method := SIP_METHOD_UNKNOWN\<rparr>, length l + 2)"
proof -
  let ?d = "l @ crlf @ h"
  have clean: "nul \<notin> set ?d"
    using r h show_int_no_crlf(2) [of code] by (auto simp: l_def nul_def cr_def lf_def)
  have cd: "cstr ?d = ?d" using clean by (rule cstr_id)
  have "no_crlf ((''SIP/2.0 '' @ show_int code @ '' '') @ r)"
    using r(2) show_int_no_crlf(1) [of code] by (subst no_crlf_append) (auto simp: cr_def)
  then have "no_crlf l" by (simp add: l_def)
  then have ss: "strstr ?d crlf = Some (length l)"
    unfolding strstr_def cd by (rule memmem_crlf_line)
  have d: "?d = ''SIP/2.0'' @ CHR '' '' # show_int code @ CHR '' '' # r @ crlf @ h"
    by (simp add: l_def)
  have sc: "strchr ?d (CHR '' '') = Some 7"
    unfolding strchr_def cd unfolding d by simp
  have sv: "strncaseeq 7 ?d ''SIP/2.0''"
    using strncaseeq_same [of "''SIP/2.0''" "CHR '' '' # show_int code @ CHR '' '' # r @ crlf @ h"]
    unfolding d by (simp add: nul_def eval_nat_numeral)
  have dr: "drop 8 ?d = show_int code @ CHR '' '' # r @ crlf @ h" unfolding d by simp
  have "nul \<notin> set (drop 8 ?d)" using clean by (meson in_set_dropD)
  then have "cstr (drop 8 ?d) = show_int code @ CHR '' '' # r @ crlf @ h"
    unfolding dr by (rule cstr_id)
  then have at: "atoi (drop 8 ?d) = code"
    using scan_int_show_int [OF code, of "CHR '' '' # r @ crlf @ h"]
    by (simp add: atoi_def isdigit_def)
  have "7 \<le> length l" "0 < length ?d" by (simp_all add: l_def)
  with ss sc sv at show ?thesis
    unfolding sip_parse_start_line_def by (simp add: eval_nat_numeral)
qed

lemma drop_line: "drop (length l + 2) (l @ crlf @ h) = h"
  by simp

lemma parse_response:
  assumes f: "echo_ok SIP_MAX_VIA_LEN via" "echo_ok SIP_MAX_HEADER_LEN fr"
    "echo_ok SIP_MAX_HEADER_LEN to" "echo_ok SIP_MAX_CALLID_LEN cid" "echo_ok SIP_MAX_CSEQ_LEN cseq"
    and r: "nul \<notin> set r" "no_crlf r" and code: "- (2 ^ 31) \<le> code" "code < 2 ^ 31"
  defines "d \<equiv> (''SIP/2.0 '' @ show_int code @ CHR '' '' # r) @ crlf @ response_headers via fr to cid cseq"
  shows "\<exists>m. sip_parse_message (Some d) (int (length d)) m0 = (SIP_PARSE_OK, m) \<and>
    m_via m = via \<and> m_from m = fr \<and> m_to m = to \<and> m_call_id m = cid \<and> m_cseq m = cseq \<and>
    m_method m = SIP_METHOD_UNKNOWN \<and> m_status_code m = code \<and> m_content_length m = 0"
proof -
  let ?l = "''SIP/2.0 '' @ show_int code @ CHR '' '' # r"
  let ?h = "response_headers via fr to cid cseq"
  have "nul \<notin> set ?h"
    using f [THEN echo_okD] by (auto simp: response_headers_def nul_def cr_def lf_def)
  note s = start_line_response [OF r this code]
  have "drop (length ?l + 2) d = ?h" unfolding d_def
    by (rule drop_line)
  then have h: "read_headers (drop (length ?l + 2) d) m =
      (m\<lparr>m_via := via, m_from := fr, m_to := to, m_call_id := cid, m_cseq := cseq,
       m_content_length := 0\<rparr>, [])" for m
    using read_response_headers [OF f] by simp
  have "d \<noteq> []" by (simp add: d_def)
  from parse_message_run [OF s [folded d_def] h this] show ?thesis by simp
qed

lemma response_text_eq:
  "response_text (Some q) code (Some r) =
    (''SIP/2.0 '' @ show_int code @ CHR '' '' # r) @ crlf @
    response_headers (or_else (Some (m_via q)) ''SIP/2.0/UDP unknown'')
      (or_else (Some (m_from q)) ''<sip:unknown>'') (or_else (Some (m_to q)) ''<sip:unknown>'')
      (or_else (Some (m_call_id q)) ''unknown'') (or_else (Some (m_cseq q)) ''0 UNKNOWN'')"
  by (simp add: response_text_def response_headers_def)

lemma or_else_echo: "field_ok n s \<Longrightarrow> echo_ok n t \<Longrightarrow> echo_ok n (or_else (Some s) t)"
  by (simp add: or_else_def echo_ok_def)

lemma defaults_echo:
  "echo_ok SIP_MAX_VIA_LEN ''SIP/2.0/UDP unknown''" "echo_ok SIP_MAX_HEADER_LEN ''<sip:unknown>''"
  "echo_ok SIP_MAX_CALLID_LEN ''unknown''" "echo_ok SIP_MAX_CSEQ_LEN ''0 UNKNOWN''"
  by (simp_all add: echo_ok_def field_ok_def sip_sizes nul_def no_crlf_Cons cr_def)

lemma response_fits:
  assumes "headers_ok q" and "length r \<le> 200" and "0 \<le> code" "code < 1000"
  shows "length (response_text (Some q) code (Some r)) < SIP_RESP_BUF_SIZE"
proof -
  have "length (show_int code) \<le> 3"
    using length_show_nat [of "nat code" 2] assms(3,4) by (simp add: show_int_def)
  moreover have "length (or_else (Some s) t) < n" if "field_ok n s" "length t < n" for n s t
    using that by (simp add: or_else_def field_ok_def)
  then have "length (or_else (Some (m_via q)) ''SIP/2.0/UDP unknown'') < 256"
    "length (or_else (Some (m_from q)) ''<sip:unknown>'') < 256"
    "length (or_else (Some (m_to q)) ''<sip:unknown>'') < 256"
    "length (or_else (Some (m_call_id q)) ''unknown'') < 256"
    "length (or_else (Some (m_cseq q)) ''0 UNKNOWN'') < 64"
    using assms(1) by (simp_all add: headers_ok_def sip_sizes)
  ultimately show ?thesis using assms(2)
    unfolding response_text_eq by (simp add: response_headers_def sip_sizes)
qed

section \<open>Properties\<close>

text \<open>A request as a softphone sends it, with two Via headers and a body.\<close>

definition sample_invite :: bytes where
  "sample_invite = ''INVITE sip:2000 SIP/2.0'' @ crlf @ ''Via: a'' @ crlf @
     ''From: <sip:1001@h>'' @ crlf @ ''To: <sip:2000@h>'' @ crlf @
     ''Call-ID: x'' @ crlf @ ''CSeq: 1 INVITE'' @ crlf @ crlf"

text \<open>C17: the header loop over positions computes what the reader over the remaining text
  computes, from any position inside the datagram: same message, and the offset it reports
  is where the reader stopped.\<close>

theorem header_loop_equivalent:
  assumes "pos \<le> length data"
  shows "fst (sip_parse_headers data (length data) pos msg) = fst (read_headers (drop pos data) msg) \<and>
    snd (sip_parse_headers data (length data) pos msg) =
      length data - length (snd (read_headers (drop pos data) msg))"
  using parse_headers_read [OF assms, of msg] by (simp add: case_prod_beta)

theorem header_loop_equivalent_witness:
  "snd (sip_parse_headers (''To: b'' @ crlf @ crlf) (length (''To: b'' @ crlf @ crlf)) 0 zero_message) =
     length (''To: b'' @ crlf @ crlf) -
     length (snd (read_headers (drop 0 (''To: b'' @ crlf @ crlf)) zero_message))"
  using header_loop_equivalent [of 0 "''To: b'' @ crlf @ crlf" zero_message] by blast

text \<open>C13: whatever bytes arrive, the header fields of a parsed message fit their buffers, hold
  no NUL and no CR LF and do not begin with a blank: no datagram can smuggle a line break
  into a response.\<close>

theorem parsed_fields_clean:
  assumes "sip_parse_message (Some d) (int (length d)) m0 = (SIP_PARSE_OK, m)"
  shows "\<forall>(n, s) \<in> {(SIP_MAX_CALLID_LEN, m_call_id m), (SIP_MAX_HEADER_LEN, m_from m),
      (SIP_MAX_HEADER_LEN, m_to m), (SIP_MAX_CSEQ_LEN, m_cseq m), (SIP_MAX_VIA_LEN, m_via m),
      (SIP_MAX_HEADER_LEN, m_contact m), (SIP_MAX_HEADER_LEN, m_content_type m)}.
    length s < n \<and> nul \<notin> set s \<and> memmem crlf s = None \<and> (s \<noteq> [] \<longrightarrow> hd s \<noteq> CHR '' '')"
  using parsed_headers_ok [OF assms] by (simp add: headers_ok_def field_ok_def no_crlf_def)

definition sample_request :: sip_message where
  "sample_request = zero_message\<lparr>m_method := SIP_METHOD_INVITE, m_request_uri := ''sip:2000'',
     m_call_id := ''x'', m_from := ''<sip:1001@h>'', m_to := ''<sip:2000@h>'',
     m_cseq := ''1 INVITE'', m_via := ''a'', m_from_uri := ''1001'', m_to_uri := ''2000'',
     m_caller_number := ''1001'', m_callee_number := ''2000'', m_raw_data := sample_invite,
     m_raw_len := int (length sample_invite)\<rparr>"

lemma sample_invite_parses:
  "sip_parse_message (Some sample_invite) (int (length sample_invite)) zero_message =
     (SIP_PARSE_OK, sample_request)"
  by code_simp

lemma sample_request_sel [simp]:
  "m_method sample_request = SIP_METHOD_INVITE" "m_status_code sample_request = 0"
  "m_call_id sample_request = ''x''" "m_from sample_request = ''<sip:1001@h>''"
  "m_to sample_request = ''<sip:2000@h>''" "m_cseq sample_request = ''1 INVITE''"
  "m_caller_number sample_request = ''1001''" "m_callee_number sample_request = ''2000''"
  by (simp_all add: sample_request_def zero_message_def)

theorem parsed_fields_clean_witness:
  "\<exists>m. sip_parse_message (Some sample_invite) (int (length sample_invite)) zero_message =
     (SIP_PARSE_OK, m) \<and> m_call_id m = ''x'' \<and> nul \<notin> set (m_call_id m)"
  using parsed_fields_clean [OF sample_invite_parses] sample_invite_parses by simp

text \<open>C10: a response to any parsed request with a one-line reason fits the response buffer,
  and a parser of this kind reads from it the status code and exactly the request's Via, From,
  To, Call-ID and CSeq (a fixed default where the request had none), with an empty body: the
  peer can match it to its transaction.\<close>

theorem response_echoes_request:
  assumes "sip_parse_message (Some d) (int (length d)) m0 = (SIP_PARSE_OK, q)"
    and "nul \<notin> set r" and "memmem crlf r = None" and "length r \<le> 200"
    and "0 \<le> code" and "code < 1000"
  shows "\<exists>t m. sip_generate_response (Some q) code (Some r) (int SIP_RESP_BUF_SIZE) = Some t \<and>
    sip_parse_message (Some t) (int (length t)) m0 = (SIP_PARSE_OK, m) \<and>
    m_status_code m = code \<and> m_content_length m = 0 \<and>
    m_via m = (if m_via q = [] then ''SIP/2.0/UDP unknown'' else m_via q) \<and>
    m_from m = (if m_from q = [] then ''<sip:unknown>'' else m_from q) \<and>
    m_to m = (if m_to q = [] then ''<sip:unknown>'' else m_to q) \<and>
    m_call_id m = (if m_call_id q = [] then ''unknown'' else m_call_id q) \<and>
    m_cseq m = (if m_cseq q = [] then ''0 UNKNOWN'' else m_cseq q)"
proof -
  let ?t = "response_text (Some q) code (Some r)"
  have ok: "headers_ok q" using assms(1) by (rule parsed_headers_ok)
  have "length ?t < SIP_RESP_BUF_SIZE" using ok assms(4-6) by (rule response_fits)
  then have g: "sip_generate_response (Some q) code (Some r) (int SIP_RESP_BUF_SIZE) = Some ?t"
    by (simp add: sip_generate_response_def Let_def)
  have e: "echo_ok SIP_MAX_VIA_LEN (or_else (Some (m_via q)) ''SIP/2.0/UDP unknown'')"
    "echo_ok SIP_MAX_HEADER_LEN (or_else (Some (m_from q)) ''<sip:unknown>'')"
    "echo_ok SIP_MAX_HEADER_LEN (or_else (Some (m_to q)) ''<sip:unknown>'')"
    "echo_ok SIP_MAX_CALLID_LEN (or_else (Some (m_call_id q)) ''unknown'')"
    "echo_ok SIP_MAX_CSEQ_LEN (or_else (Some (m_cseq q)) ''0 UNKNOWN'')"
    using ok defaults_echo by (simp_all add: headers_ok_def or_else_echo)
  have "no_crlf r" using assms(3) by (simp add: no_crlf_def)
  from parse_response [OF e assms(2) this, of code m0] assms(5,6) g show ?thesis
    unfolding response_text_eq [symmetric] by (auto simp: or_else_def)
qed

theorem response_echoes_request_witness:
  "\<exists>t m. sip_generate_response (Some sample_request) 180 (Some ''Ringing'') (int SIP_RESP_BUF_SIZE) = Some t \<and>
     sip_parse_message (Some t) (int (length t)) zero_message = (SIP_PARSE_OK, m) \<and>
     m_status_code m = 180 \<and> m_call_id m = ''x''"
proof -
  have "memmem crlf ''Ringing'' = None" "nul \<notin> set ''Ringing''"
    by (simp_all add: cr_def nul_def)
  then show ?thesis
    using response_echoes_request [OF sample_invite_parses, of "''Ringing''" 180] by auto
qed

text \<open>A request passes validation exactly with a known method and the four mandatory headers.\<close>

lemma validation_exact:
  "sip_validate_message (Some m) = 0 \<longleftrightarrow>
     0 < m_status_code m \<or>
     (m_method m \<noteq> SIP_METHOD_UNKNOWN \<and> m_call_id m \<noteq> [] \<and> m_from m \<noteq> [] \<and> m_to m \<noteq> [] \<and>
      m_cseq m \<noteq> [])"
  by (simp add: sip_validate_message_def)

text \<open>Which datagrams parse: those with a CR LF before any NUL, at least seven bytes into
  the text, and a blank, which for a request must come after at least one and at most 31
  bytes. Nothing is asked of the protocol version of a request, so the error code for a
  missing version is never returned.\<close>

theorem parse_accepts:
  "fst (sip_parse_message (Some d) (int (length d)) m0) = SIP_PARSE_OK \<longleftrightarrow>
     (\<exists>n. memmem crlf (cstr d) = Some n \<and> 7 \<le> n) \<and>
     (\<exists>b. memchr (CHR '' '') (cstr d) = Some b \<and>
        (strncaseeq 7 d ''SIP/2.0'' \<or> 0 < b \<and> b < 32))"
proof -
  let ?m = "zero_message\<lparr>m_raw_data := d, m_raw_len := int (length d), m_content_length := 0\<rparr>"
  have "fst (sip_parse_message (Some d) (int (length d)) m0) = SIP_PARSE_OK \<longleftrightarrow>
      d \<noteq> [] \<and> fst (sip_parse_start_line d (int (length d)) ?m) = SIP_PARSE_OK"
    by (auto simp: sip_parse_message_def Let_def case_prod_beta)
  also have "\<dots> \<longleftrightarrow> (\<exists>n. memmem crlf (cstr d) = Some n \<and> 7 \<le> n) \<and>
     (\<exists>b. memchr (CHR '' '') (cstr d) = Some b \<and>
        (strncaseeq 7 d ''SIP/2.0'' \<or> 0 < b \<and> b < 32))"
  proof (cases "strstr d crlf")
    case None
    then show ?thesis by (simp add: sip_parse_start_line_def strstr_def)
  next
    case (Some n)
    then have "d \<noteq> []" by (cases d) (auto simp: strstr_def)
    then show ?thesis
      by (auto simp: sip_parse_start_line_def Let_def strstr_def strchr_def not_less not_le
          split: option.splits)
  qed
  finally show ?thesis .
qed

text \<open>method names are recognised in any case, and only they: a string gives a known
  method exactly when it spells that method's name.\<close>

theorem method_recognised:
  "m \<noteq> SIP_METHOD_UNKNOWN \<Longrightarrow>
   sip_method_from_string s = m \<longleftrightarrow> map tolower (cstr s) = map tolower (sip_method_name m)"
  by (cases m) (auto simp: sip_method_from_string_def strcaseeq_def nul_def tolower_def)

theorem method_recognised_witness: "sip_method_from_string ''iNvItE'' = SIP_METHOD_INVITE"
proof -
  have "map tolower (cstr ''iNvItE'') = map tolower (sip_method_name SIP_METHOD_INVITE)" by code_simp
  with method_recognised [of SIP_METHOD_INVITE "''iNvItE''"] show ?thesis by simp
qed

end
