(* ===== verification/Lua_Utils.thy ===== *)
theory Lua_Utils
  imports C_String
begin

text \<open>
  \<open>src/lua_utils.c\<close>: the wrapper around the Lua C API, with the Lua stack explicit. The Lua
  library itself is the record \<open>lua_interp\<close>, an argument of every operation: how it looks up
  globals and fields, what a call returns and how floats and strings convert. What the API
  manual says of the stack (push, pop, \<open>lua_pcall\<close>, \<open>lua_getfield\<close>) is written out. A call
  that would reach below the stack, or read a variable argument that was not passed, is
  undefined behaviour in C: \<open>None\<close>.
\<close>

section \<open>Lua values, the library and the stack\<close>

datatype lua_value =
    LNil
  | LBool bool
  | LInteger int
  | LFloat "64 word"
  | LString bytes
  | LTable nat
  | LFunction nat
  | LUserdata nat

record 'g lua_interp =
  li_newstate :: "'g option"
  li_openlibs :: "'g \<Rightarrow> 'g"
  li_loadfile :: "'g \<Rightarrow> bytes \<Rightarrow> lua_value + lua_value"
  li_getglobal :: "'g \<Rightarrow> bytes \<Rightarrow> lua_value"
  li_getfield :: "'g \<Rightarrow> lua_value \<Rightarrow> bytes \<Rightarrow> lua_value"
  li_call :: "'g \<Rightarrow> lua_value \<Rightarrow> lua_value list \<Rightarrow> (lua_value + lua_value) \<times> 'g"
  li_float_string :: "64 word \<Rightarrow> bytes"
  li_float_integer :: "64 word \<Rightarrow> int option"
  li_string_integer :: "bytes \<Rightarrow> int option"
  li_setglobal :: "'g \<Rightarrow> bytes \<Rightarrow> lua_value \<Rightarrow> 'g"
  li_rawlen :: "'g \<Rightarrow> lua_value \<Rightarrow> int"
  li_rawgeti :: "'g \<Rightarrow> lua_value \<Rightarrow> int \<Rightarrow> lua_value"

record 'g lua_state =
  globals :: 'g
  stack :: "lua_value list"

record 'g lua_vm =
  vm_L :: "'g lua_state option"
  script_path :: bytes

record route_response =
  r_code :: int
  target_extension :: bytes
  department :: bytes
  description :: bytes

definition zero_response :: route_response where
  "zero_response = \<lparr>r_code = 0, target_extension = [], department = [], description = []\<rparr>"

definition ROUTE_RESULT_ERROR :: int where "ROUTE_RESULT_ERROR = 99"
definition MAX_EXTENSION_LEN :: nat where "MAX_EXTENSION_LEN = 16"
definition MAX_DEPT_NAME_LEN :: nat where "MAX_DEPT_NAME_LEN = 64"
definition MAX_ROUTE_DESC_LEN :: nat where "MAX_ROUTE_DESC_LEN = 128"
definition MAX_LUA_SCRIPT_LEN :: nat where "MAX_LUA_SCRIPT_LEN = 256"

fun is_lua_function :: "lua_value \<Rightarrow> bool" where
  "is_lua_function (LFunction n) = True"
| "is_lua_function v = False"

fun is_lua_table :: "lua_value \<Rightarrow> bool" where
  "is_lua_table (LTable n) = True"
| "is_lua_table v = False"

fun lua_tointeger :: "'g lua_interp \<Rightarrow> lua_value \<Rightarrow> int" where
  "lua_tointeger I (LInteger i) = i"
| "lua_tointeger I (LFloat x) = (case li_float_integer I x of None \<Rightarrow> 0 | Some i \<Rightarrow> i)"
| "lua_tointeger I (LString s) = (case li_string_integer I s of None \<Rightarrow> 0 | Some i \<Rightarrow> i)"
| "lua_tointeger I v = 0"

fun lua_tostring :: "'g lua_interp \<Rightarrow> lua_value \<Rightarrow> bytes option" where
  "lua_tostring I (LString s) = Some s"
| "lua_tostring I (LInteger i) = Some (show_int i)"
| "lua_tostring I (LFloat x) = Some (li_float_string I x)"
| "lua_tostring I v = None"

definition lua_toboolean :: "lua_value \<Rightarrow> bool" where
  "lua_toboolean v \<longleftrightarrow> v \<noteq> LNil \<and> v \<noteq> LBool False"

definition lua_push :: "lua_value \<Rightarrow> 'g lua_state \<Rightarrow> 'g lua_state" where
  "lua_push v L = L\<lparr>stack := v # stack L\<rparr>"

definition lua_pop :: "nat \<Rightarrow> 'g lua_state \<Rightarrow> 'g lua_state" where
  "lua_pop n L = L\<lparr>stack := drop n (stack L)\<rparr>"

abbreviation lua_top :: "'g lua_state \<Rightarrow> lua_value" where
  "lua_top L \<equiv> hd (stack L)"

definition lua_getglobal :: "'g lua_interp \<Rightarrow> bytes \<Rightarrow> 'g lua_state \<Rightarrow> 'g lua_state" where
  "lua_getglobal I n L = lua_push (li_getglobal I (globals L) n) L"

definition lua_getfield :: "'g lua_interp \<Rightarrow> bytes \<Rightarrow> 'g lua_state \<Rightarrow> 'g lua_state" where
  "lua_getfield I n L = lua_push (li_getfield I (globals L) (lua_top L) n) L"

text \<open>
  \<open>lua_pcall(L, nargs, nresults, 0)\<close>: the function lies below its arguments; both are
  popped, and the results (adjusted to \<open>nresults\<close>) or the error value are pushed. \<open>True\<close>
  is \<open>LUA_OK\<close>.
\<close>

definition lua_pcall ::
    "'g lua_interp \<Rightarrow> nat \<Rightarrow> nat \<Rightarrow> 'g lua_state \<Rightarrow> (bool \<times> 'g lua_state) option" where
  "lua_pcall I nargs nresults L =
     (if length (stack L) < nargs + 1 then None else
      let args = rev (take nargs (stack L));
          f = stack L ! nargs;
          rest = drop (nargs + 1) (stack L);
          (r, g) = li_call I (globals L) f args
      in Some (case r of
           Inl e \<Rightarrow> (False, \<lparr>globals = g, stack = e # rest\<rparr>)
         | Inr v \<Rightarrow> (True, \<lparr>globals = g, stack = take nresults [v] @ rest\<rparr>)))"

section \<open>Life cycle and scripts\<close>

text \<open>\<open>calloc\<close> for the context; its failure is the argument \<open>None\<close>.\<close>

definition lua_vm_create :: "unit option \<Rightarrow> 'g lua_vm option" where
  "lua_vm_create mem = (case mem of None \<Rightarrow> None | Some u \<Rightarrow> Some \<lparr>vm_L = None, script_path = []\<rparr>)"

definition lua_vm_init :: "'g lua_interp \<Rightarrow> 'g lua_vm option \<Rightarrow> int \<times> 'g lua_vm option" where
  "lua_vm_init I vm =
     (case vm of
        None \<Rightarrow> (- 1, None)
      | Some v \<Rightarrow>
          (case li_newstate I of
             None \<Rightarrow> (- 1, Some (v\<lparr>vm_L := None\<rparr>))
           | Some g \<Rightarrow> (0, Some (v\<lparr>vm_L := Some \<lparr>globals = li_openlibs I g, stack = []\<rparr>\<rparr>))))"

definition lua_vm_destroy :: "'g lua_vm option \<Rightarrow> 'g lua_vm option" where
  "lua_vm_destroy vm = None"

definition lua_loadfile :: "'g lua_interp \<Rightarrow> bytes \<Rightarrow> 'g lua_state \<Rightarrow> bool \<times> 'g lua_state" where
  "lua_loadfile I path L =
     (case li_loadfile I (globals L) path of
        Inl e \<Rightarrow> (False, lua_push e L)
      | Inr f \<Rightarrow> (True, lua_push f L))"

definition lua_vm_load_script ::
    "'g lua_interp \<Rightarrow> 'g lua_vm \<Rightarrow> bytes option \<Rightarrow> (int \<times> 'g lua_vm) option" where
  "lua_vm_load_script I vm path =
     (case (vm_L vm, path) of
        (Some L, Some p) \<Rightarrow>
          let vm = vm\<lparr>script_path := strncpy (MAX_LUA_SCRIPT_LEN - 1) p\<rparr>;
              (ok, L) = lua_loadfile I p L
          in if \<not> ok then Some (- 1, vm\<lparr>vm_L := Some (lua_pop 1 L)\<rparr>)
             else (case lua_pcall I 0 0 L of
                     None \<Rightarrow> None
                   | Some (ok, L) \<Rightarrow>
                       if ok then Some (0, vm\<lparr>vm_L := Some L\<rparr>)
                       else Some (- 1, vm\<lparr>vm_L := Some (lua_pop 1 L)\<rparr>))
      | _ \<Rightarrow> Some (- 1, vm))"

definition lua_vm_reload_script :: "'g lua_interp \<Rightarrow> 'g lua_vm \<Rightarrow> (int \<times> 'g lua_vm) option" where
  "lua_vm_reload_script I vm =
     (case vm_L vm of
        None \<Rightarrow> Some (- 1, vm)
      | Some L \<Rightarrow>
          if script_path vm = [] then Some (- 1, vm) else
          let L = snd (lua_loadfile I (script_path vm) L)
          in (case lua_pcall I 0 0 L of
                None \<Rightarrow> None
              | Some (ok, L) \<Rightarrow>
                  if ok then Some (0, vm\<lparr>vm_L := Some L\<rparr>)
                  else Some (- 1, vm\<lparr>vm_L := Some (lua_pop 1 L)\<rparr>)))"

section \<open>Routing calls\<close>

text \<open>One \<open>lua_getfield\<close>, read and \<open>lua_pop\<close> of a string field of the table on top.\<close>

definition copy_field ::
    "'g lua_interp \<Rightarrow> bytes \<Rightarrow> nat \<Rightarrow> bytes \<Rightarrow> 'g lua_state \<Rightarrow> bytes \<times> 'g lua_state" where
  "copy_field I name bufsize old L =
     (let L = lua_getfield I name L;
          v = (case lua_tostring I (lua_top L) of None \<Rightarrow> old | Some s \<Rightarrow> strncpy (bufsize - 1) s)
      in (v, lua_pop 1 L))"

definition extract_response ::
    "'g lua_interp \<Rightarrow> route_response \<Rightarrow> 'g lua_state \<Rightarrow> route_response \<times> 'g lua_state" where
  "extract_response I r L =
     (let L = lua_getfield I ''code'' L;
          r = r\<lparr>r_code := to_int32 (lua_tointeger I (lua_top L))\<rparr>;
          L = lua_pop 1 L;
          (t, L) = copy_field I ''target'' MAX_EXTENSION_LEN (target_extension r) L;
          (d, L) = copy_field I ''department'' MAX_DEPT_NAME_LEN (department r) L;
          (e, L) = copy_field I ''description'' MAX_ROUTE_DESC_LEN (description r) L
      in (r\<lparr>target_extension := t, department := d, description := e\<rparr>, lua_pop 1 L))"

definition lua_vm_call_route ::
    "'g lua_interp \<Rightarrow> 'g lua_vm \<Rightarrow> bytes option \<Rightarrow> bytes option \<Rightarrow> route_response \<Rightarrow>
     (int \<times> route_response \<times> 'g lua_vm) option" where
  "lua_vm_call_route I vm caller_id digits response =
     (case (vm_L vm, digits) of
        (Some L, Some dg) \<Rightarrow>
          let response = zero_response;
              L = lua_getglobal I ''route_call'' L
          in if \<not> is_lua_function (lua_top L) then
               Some (- 1, response, vm\<lparr>vm_L := Some (lua_pop 1 L)\<rparr>)
             else
             let L = lua_push (LString (case caller_id of None \<Rightarrow> [] | Some c \<Rightarrow> cstr c)) L;
                 L = lua_push (LString (cstr dg)) L
             in (case lua_pcall I 2 1 L of
                   None \<Rightarrow> None
                 | Some (ok, L) \<Rightarrow>
                     if \<not> ok \<or> \<not> is_lua_table (lua_top L) then
                       Some (- 1, response\<lparr>r_code := ROUTE_RESULT_ERROR\<rparr>,
                             vm\<lparr>vm_L := Some (lua_pop 1 L)\<rparr>)
                     else
                       let (response, L) = extract_response I response L
                       in Some (r_code response, response, vm\<lparr>vm_L := Some L\<rparr>))
      | _ \<Rightarrow> Some (- 1, response, vm))"

text \<open>The variable arguments that follow a format string; a NULL string pushes nil.\<close>

datatype va = VStr "bytes option" | VInt int | VDouble "64 word"

fun va_value :: "va \<Rightarrow> lua_value" where
  "va_value (VStr None) = LNil"
| "va_value (VStr (Some s)) = LString (cstr s)"
| "va_value (VInt i) = LInteger i"
| "va_value (VDouble x) = LFloat x"

text \<open>
  The loop over the format string; \<open>dbl\<close> says whether it knows \<open>'f'\<close>. A character it does
  not know pushes nothing and is counted all the same.
\<close>

fun push_args ::
    "bool \<Rightarrow> bytes \<Rightarrow> va list \<Rightarrow> nat \<Rightarrow> 'g lua_state \<Rightarrow> (nat \<times> 'g lua_state) option" where
  "push_args dbl [] as n L = Some (n, L)"
| "push_args dbl (c # cs) as n L =
     (if c = CHR ''s'' then
        (case as of VStr s # as \<Rightarrow> push_args dbl cs as (n + 1) (lua_push (va_value (VStr s)) L)
                  | _ \<Rightarrow> None)
      else if c = CHR ''d'' then
        (case as of VInt i # as \<Rightarrow> push_args dbl cs as (n + 1) (lua_push (va_value (VInt i)) L)
                  | _ \<Rightarrow> None)
      else if dbl \<and> c = CHR ''f'' then
        (case as of VDouble x # as \<Rightarrow> push_args dbl cs as (n + 1) (lua_push (va_value (VDouble x)) L)
                  | _ \<Rightarrow> None)
      else push_args dbl cs as (n + 1) L)"

definition lua_vm_route_dispatch ::
    "'g lua_interp \<Rightarrow> 'g lua_vm \<Rightarrow> bytes option \<Rightarrow> route_response \<Rightarrow> bytes option \<Rightarrow> va list \<Rightarrow>
     (int \<times> route_response \<times> 'g lua_vm) option" where
  "lua_vm_route_dispatch I vm func_name response fmt args =
     (case (vm_L vm, func_name) of
        (Some L, Some fn) \<Rightarrow>
          let response = zero_response;
              L = lua_getglobal I fn L
          in if \<not> is_lua_function (lua_top L) then
               Some (- 1, response\<lparr>r_code := ROUTE_RESULT_ERROR\<rparr>,
                     vm\<lparr>vm_L := Some (lua_pop 1 L)\<rparr>)
             else
             (case (case fmt of None \<Rightarrow> Some (0, L)
                              | Some f \<Rightarrow> push_args False (cstr f) args 0 L) of
                None \<Rightarrow> None
              | Some (nargs, L) \<Rightarrow>
                  (case lua_pcall I nargs 1 L of
                     None \<Rightarrow> None
                   | Some (ok, L) \<Rightarrow>
                       if \<not> ok \<or> \<not> is_lua_table (lua_top L) then
                         Some (- 1, response\<lparr>r_code := ROUTE_RESULT_ERROR\<rparr>,
                               vm\<lparr>vm_L := Some (lua_pop 1 L)\<rparr>)
                       else
                         let (response, L) = extract_response I response L
                         in Some (r_code response, response, vm\<lparr>vm_L := Some L\<rparr>)))
      | _ \<Rightarrow> Some (- 1, response, vm))"

section \<open>Globals and generic calls\<close>

definition lua_vm_get_global_int :: "'g lua_interp \<Rightarrow> 'g lua_vm \<Rightarrow> bytes option \<Rightarrow> int \<times> 'g lua_vm" where
  "lua_vm_get_global_int I vm name =
     (case (vm_L vm, name) of
        (Some L, Some n) \<Rightarrow>
          let L = lua_getglobal I n L;
              val = to_int32 (lua_tointeger I (lua_top L))
          in (val, vm\<lparr>vm_L := Some (lua_pop 1 L)\<rparr>)
      | _ \<Rightarrow> (0, vm))"

definition lua_vm_get_global_string ::
    "'g lua_interp \<Rightarrow> 'g lua_vm \<Rightarrow> bytes option \<Rightarrow> bytes option \<times> 'g lua_vm" where
  "lua_vm_get_global_string I vm name =
     (case (vm_L vm, name) of
        (Some L, Some n) \<Rightarrow>
          let L = lua_getglobal I n L;
              val = lua_tostring I (lua_top L)
          in (val, vm\<lparr>vm_L := Some (lua_pop 1 L)\<rparr>)
      | _ \<Rightarrow> (None, vm))"

definition lua_vm_call_function ::
    "'g lua_interp \<Rightarrow> 'g lua_vm \<Rightarrow> bytes option \<Rightarrow> bytes option \<Rightarrow> va list \<Rightarrow>
     (int \<times> 'g lua_vm) option" where
  "lua_vm_call_function I vm func_name fmt args =
     (case (vm_L vm, func_name) of
        (Some L, Some fn) \<Rightarrow>
          let L = lua_getglobal I fn L
          in if \<not> is_lua_function (lua_top L) then Some (- 1, vm\<lparr>vm_L := Some (lua_pop 1 L)\<rparr>)
             else
             (case (case fmt of None \<Rightarrow> Some (0, L)
                              | Some f \<Rightarrow> push_args True (cstr f) args 0 L) of
                None \<Rightarrow> None
              | Some (nargs, L) \<Rightarrow>
                  (case lua_pcall I nargs 1 L of
                     None \<Rightarrow> None
                   | Some (ok, L) \<Rightarrow>
                       if ok then Some (0, vm\<lparr>vm_L := Some L\<rparr>)
                       else Some (- 1, vm\<lparr>vm_L := Some (lua_pop 1 L)\<rparr>)))
      | _ \<Rightarrow> Some (- 1, vm))"

section \<open>Dumping the stack\<close>

fun lua_typename :: "lua_value \<Rightarrow> bytes" where
  "lua_typename LNil = ''nil''"
| "lua_typename (LBool b) = ''boolean''"
| "lua_typename (LInteger i) = ''number''"
| "lua_typename (LFloat x) = ''number''"
| "lua_typename (LString s) = ''string''"
| "lua_typename (LTable n) = ''table''"
| "lua_typename (LFunction n) = ''function''"
| "lua_typename (LUserdata n) = ''userdata''"

text \<open>The message for the slot \<open>i\<close>; \<open>fmt_g\<close> prints the number \<open>lua_tonumber\<close> reads with \<open>%g\<close>.\<close>

fun slot_message :: "(lua_value \<Rightarrow> bytes) \<Rightarrow> int \<Rightarrow> lua_value \<Rightarrow> bytes" where
  "slot_message fmt_g i (LString s) = ''  ['' @ show_int i @ ''] string: '' @ [CHR 0x27] @ cstr s @ [CHR 0x27]"
| "slot_message fmt_g i (LBool b) = ''  ['' @ show_int i @ ''] boolean: '' @ (if b then ''true'' else ''false'')"
| "slot_message fmt_g i (LInteger n) = ''  ['' @ show_int i @ ''] number: '' @ fmt_g (LInteger n)"
| "slot_message fmt_g i (LFloat x) = ''  ['' @ show_int i @ ''] number: '' @ fmt_g (LFloat x)"
| "slot_message fmt_g i v = ''  ['' @ show_int i @ ''] '' @ lua_typename v"

text \<open>The messages logged, from the bottom of the stack to its top.\<close>

definition lua_stack_dump :: "(lua_value \<Rightarrow> bytes) \<Rightarrow> 'g lua_vm option \<Rightarrow> bytes list" where
  "lua_stack_dump fmt_g vm =
     (case Option.bind vm vm_L of
        None \<Rightarrow> []
      | Some L \<Rightarrow>
          let top = int (length (stack L)) in
          (''=== Lua Stack Dump (top='' @ show_int top @ '') ==='') #
          map2 (slot_message fmt_g) [1..top] (rev (stack L)))"

section \<open>Facts\<close>

lemmas lua_stack_defs = lua_push_def lua_pop_def lua_getglobal_def lua_getfield_def

text \<open>What the fields of a returned table become, without the stack.\<close>

definition field_string :: "'g lua_interp \<Rightarrow> 'g \<Rightarrow> lua_value \<Rightarrow> bytes \<Rightarrow> nat \<Rightarrow> bytes" where
  "field_string I g t name bufsize =
     (case lua_tostring I (li_getfield I g t name) of None \<Rightarrow> [] | Some s \<Rightarrow> strncpy (bufsize - 1) s)"

definition response_of :: "'g lua_interp \<Rightarrow> 'g \<Rightarrow> lua_value \<Rightarrow> route_response" where
  "response_of I g t =
     \<lparr>r_code = to_int32 (lua_tointeger I (li_getfield I g t ''code'')),
      target_extension = field_string I g t ''target'' MAX_EXTENSION_LEN,
      department = field_string I g t ''department'' MAX_DEPT_NAME_LEN,
      description = field_string I g t ''description'' MAX_ROUTE_DESC_LEN\<rparr>"

lemma extract_response_of:
  assumes "stack L = t # rest"
  shows "extract_response I zero_response L = (response_of I (globals L) t, L\<lparr>stack := rest\<rparr>)"
  using assms
  by (simp add: extract_response_def copy_field_def response_of_def field_string_def Let_def
      lua_stack_defs zero_response_def split: option.split)

lemma lua_pcall_args:
  assumes "stack L = rev args @ f # rest"
  shows "lua_pcall I (length args) 1 L = Some (case li_call I (globals L) f args of
     (Inl e, g) \<Rightarrow> (False, \<lparr>globals = g, stack = e # rest\<rparr>)
   | (Inr v, g) \<Rightarrow> (True, \<lparr>globals = g, stack = v # rest\<rparr>))"
  using assms by (simp add: lua_pcall_def nth_append split: prod.split sum.split)

text \<open>A format string of known characters whose arguments were all passed.\<close>

fun fmt_matches :: "bool \<Rightarrow> bytes \<Rightarrow> va list \<Rightarrow> bool" where
  "fmt_matches dbl [] as = (as = [])"
| "fmt_matches dbl (c # cs) (VStr s # as) = (c = CHR ''s'' \<and> fmt_matches dbl cs as)"
| "fmt_matches dbl (c # cs) (VInt i # as) = (c = CHR ''d'' \<and> fmt_matches dbl cs as)"
| "fmt_matches dbl (c # cs) (VDouble x # as) = (dbl \<and> c = CHR ''f'' \<and> fmt_matches dbl cs as)"
| "fmt_matches dbl (c # cs) [] = False"

lemma push_args_matching:
  "fmt_matches dbl f as \<Longrightarrow>
   push_args dbl f as n L = Some (n + length as, L\<lparr>stack := rev (map va_value as) @ stack L\<rparr>)"
  by (induction dbl f as arbitrary: n L rule: fmt_matches.induct) (auto simp: lua_push_def)

text \<open>
  The result of calling a global routing function with given arguments, as a function of
  the interpreter alone.
\<close>

definition routed ::
    "'g lua_interp \<Rightarrow> 'g lua_vm \<Rightarrow> 'g lua_state \<Rightarrow> lua_value \<Rightarrow> lua_value list \<Rightarrow>
     int \<times> route_response \<times> 'g lua_vm" where
  "routed I vm L f args =
     (case li_call I (globals L) f args of
        (Inr t, g) \<Rightarrow>
          if is_lua_table t
          then (r_code (response_of I g t), response_of I g t,
                vm\<lparr>vm_L := Some (L\<lparr>globals := g\<rparr>)\<rparr>)
          else (- 1, zero_response\<lparr>r_code := ROUTE_RESULT_ERROR\<rparr>, vm\<lparr>vm_L := Some (L\<lparr>globals := g\<rparr>)\<rparr>)
      | (Inl e, g) \<Rightarrow>
          (- 1, zero_response\<lparr>r_code := ROUTE_RESULT_ERROR\<rparr>, vm\<lparr>vm_L := Some (L\<lparr>globals := g\<rparr>)\<rparr>))"

lemma routed_vm:
  assumes "routed I vm L f args = (code, r, vm')"
  shows "script_path vm' = script_path vm \<and> (\<exists>g. vm_L vm' = Some (L\<lparr>globals := g\<rparr>)) \<and>
    length (target_extension r) < MAX_EXTENSION_LEN \<and> length (department r) < MAX_DEPT_NAME_LEN \<and>
    length (description r) < MAX_ROUTE_DESC_LEN"
proof -
  have "length (field_string I g t n k) < k" if "0 < k" for g t n k
    using that le_less_trans [OF length_strncpy [of "k - 1"], of k]
    by (auto simp: field_string_def split: option.split)
  with assms show ?thesis
    by (auto simp: routed_def response_of_def zero_response_def MAX_EXTENSION_LEN_def
        MAX_DEPT_NAME_LEN_def MAX_ROUTE_DESC_LEN_def split: prod.splits sum.splits if_splits)
qed

lemma lua_call_route_some:
  assumes "vm_L vm = Some L"
  shows "lua_vm_call_route I vm caller (Some digits) resp = Some
    (if is_lua_function (li_getglobal I (globals L) ''route_call'')
     then routed I vm L (li_getglobal I (globals L) ''route_call'')
            [LString (case caller of None \<Rightarrow> [] | Some c \<Rightarrow> cstr c), LString (cstr digits)]
     else (- 1, zero_response, vm))"
proof -
  let ?f = "li_getglobal I (globals L) ''route_call''"
  let ?args = "[LString (case caller of None \<Rightarrow> [] | Some c \<Rightarrow> cstr c), LString (cstr digits)]"
  let ?L = "lua_push (?args ! 1) (lua_push (?args ! 0) (lua_getglobal I ''route_call'' L))"
  have vm: "vm\<lparr>vm_L := Some L\<rparr> = vm" using assms by simp
  have "lua_pcall I (length ?args) 1 ?L = Some (case li_call I (globals ?L) ?f ?args of
     (Inl e, g) \<Rightarrow> (False, \<lparr>globals = g, stack = e # stack L\<rparr>)
   | (Inr v, g) \<Rightarrow> (True, \<lparr>globals = g, stack = v # stack L\<rparr>))"
    by (rule lua_pcall_args) (simp add: lua_stack_defs)
  then have "lua_pcall I 2 1 ?L = Some (case li_call I (globals L) ?f ?args of
     (Inl e, g) \<Rightarrow> (False, \<lparr>globals = g, stack = e # stack L\<rparr>)
   | (Inr v, g) \<Rightarrow> (True, \<lparr>globals = g, stack = v # stack L\<rparr>))"
    by (simp add: lua_stack_defs numeral_2_eq_2)
  then show ?thesis
    using assms vm
    by (auto simp: lua_vm_call_route_def Let_def routed_def extract_response_of lua_stack_defs
        split: prod.splits sum.splits)
qed

text \<open>A value pushed is one more line of the dump, and the lines of the values below stay.\<close>

lemma dump_push:
  assumes "vm_L vm = Some L"
  shows "tl (lua_stack_dump fmt_g (Some (vm\<lparr>vm_L := Some (lua_push v L)\<rparr>))) =
    tl (lua_stack_dump fmt_g (Some vm)) @ [slot_message fmt_g (int (length (stack L)) + 1) v]"
proof -
  have "[1..int (length (stack L)) + 1] = [1..int (length (stack L))] @ [int (length (stack L)) + 1]"
    by (simp add: upto_rec2)
  then show ?thesis using assms by (simp add: lua_stack_dump_def lua_push_def algebra_simps Let_def)
qed

section \<open>Properties\<close>

text \<open>
  A small interpreter: \<open>route_call\<close> and \<open>get_ivr_route\<close> return a table whose target is their
  last argument, the script file compiles but fails after it has changed the globals.
\<close>

fun sample_call :: "nat \<Rightarrow> lua_value \<Rightarrow> lua_value list \<Rightarrow> (lua_value + lua_value) \<times> nat" where
  "sample_call g (LFunction 0) as = (Inr (LTable (length as)), g)"
| "sample_call g (LFunction n) as = (Inl (LString ''error''), g + 1)"
| "sample_call g v as = (Inl (LString ''attempt to call''), g)"

definition sample_interp :: "nat lua_interp" where
  "sample_interp = \<lparr>li_newstate = Some 0, li_openlibs = id,
     li_loadfile = (\<lambda>g p. Inr (LFunction 1)),
     li_getglobal = (\<lambda>g n. if n = ''route_call'' then LFunction 0 else LNil),
     li_getfield = (\<lambda>g t n. if n = ''target'' then LString ''2000'' else LInteger 0),
     li_call = sample_call, li_float_string = (\<lambda>x. []), li_float_integer = (\<lambda>x. None),
     li_string_integer = (\<lambda>x. None), li_setglobal = (\<lambda>g n v. g),
     li_rawlen = (\<lambda>g t. 0), li_rawgeti = (\<lambda>g t i. LNil)\<rparr>"

definition sample_vm :: "nat lua_vm" where
  "sample_vm = \<lparr>vm_L = Some \<lparr>globals = 0, stack = []\<rparr>, script_path = ''lua/route.lua''\<rparr>"

lemma sample_simps [simp]:
  "vm_L sample_vm = Some \<lparr>globals = 0, stack = []\<rparr>" "script_path sample_vm = ''lua/route.lua''"
  "li_call sample_interp = sample_call" "li_loadfile sample_interp g p = Inr (LFunction 1)"
  "li_getglobal sample_interp g n = (if n = ''route_call'' then LFunction 0 else LNil)"
  "li_getfield sample_interp g t m = (if m = ''target'' then LString ''2000'' else LInteger 0)"
  by (simp_all add: sample_vm_def sample_interp_def)

text \<open>C14: the routing entry point calls the global \<open>route_call\<close> with exactly the caller (the
  empty string for NULL) and the digits, reports the table's fields truncated to the buffers,
  reports -1 with code 99 when the script fails or returns no table, -1 when there is no such
  function, never touches the stack below its own frame, and leaves the Lua stack as it was
  on every path.\<close>

theorem call_route_result:
  assumes "vm_L vm = Some L"
  shows "lua_vm_call_route I vm caller (Some digits) resp = Some
    (if is_lua_function (li_getglobal I (globals L) ''route_call'')
     then routed I vm L (li_getglobal I (globals L) ''route_call'')
            [LString (case caller of None \<Rightarrow> [] | Some c \<Rightarrow> cstr c), LString (cstr digits)]
     else (- 1, zero_response, vm))"
  using assms by (rule lua_call_route_some)

theorem call_route_result_witness:
  "\<exists>r vm'. lua_vm_call_route sample_interp sample_vm (Some ''1001'') (Some ''1'') zero_response =
     Some (0, r, vm') \<and> target_extension r = ''2000'' \<and> vm' = sample_vm"
proof -
  have "lua_vm_call_route sample_interp sample_vm (Some ''1001'') (Some ''1'') zero_response = Some
      (routed sample_interp sample_vm \<lparr>globals = 0, stack = []\<rparr> (LFunction 0)
         [LString (cstr ''1001''), LString (cstr ''1'')])"
    by (subst call_route_result [of _ "\<lparr>globals = 0, stack = []\<rparr>"]) simp_all
  then show ?thesis
    by (simp add: routed_def response_of_def field_string_def strncpy_def MAX_EXTENSION_LEN_def
        nul_def sample_vm_def)
qed

text \<open>dispatching to any routing function with a format string of \<open>s\<close> and \<open>d\<close> whose
  arguments were passed behaves in the same way: exactly those arguments, in order, and a
  stack left as it was.\<close>

theorem route_dispatch_result:
  assumes "vm_L vm = Some L" and "fmt_matches False (cstr fmt) args"
  shows "lua_vm_route_dispatch I vm (Some fn) resp (Some fmt) args = Some
    (if is_lua_function (li_getglobal I (globals L) fn)
     then routed I vm L (li_getglobal I (globals L) fn) (map va_value args)
     else (- 1, zero_response\<lparr>r_code := ROUTE_RESULT_ERROR\<rparr>, vm))"
proof -
  let ?f = "li_getglobal I (globals L) fn"
  let ?L = "L\<lparr>stack := rev (map va_value args) @ ?f # stack L\<rparr>"
  have vm: "vm\<lparr>vm_L := Some L\<rparr> = vm" using assms by simp
  have "lua_pcall I (length (map va_value args)) 1 ?L =
    Some (case li_call I (globals ?L) ?f (map va_value args) of
     (Inl e, g) \<Rightarrow> (False, \<lparr>globals = g, stack = e # stack L\<rparr>)
   | (Inr v, g) \<Rightarrow> (True, \<lparr>globals = g, stack = v # stack L\<rparr>))"
    by (rule lua_pcall_args) simp
  then show ?thesis
    using assms(1) vm push_args_matching [OF assms(2), of 0 "lua_getglobal I fn L"]
    by (auto simp: lua_vm_route_dispatch_def Let_def routed_def extract_response_of lua_stack_defs
        split: prod.splits sum.splits)
qed

theorem route_dispatch_result_witness:
  "\<exists>r vm'. lua_vm_route_dispatch sample_interp sample_vm (Some ''route_call'') zero_response (Some ''sd'')
     [VStr (Some ''1''), VInt 3] = Some (0, r, vm') \<and> target_extension r = ''2000'' \<and> vm' = sample_vm"
proof -
  have "lua_vm_route_dispatch sample_interp sample_vm (Some ''route_call'') zero_response (Some ''sd'')
     [VStr (Some ''1''), VInt 3] = Some
      (routed sample_interp sample_vm \<lparr>globals = 0, stack = []\<rparr> (LFunction 0)
         (map va_value [VStr (Some ''1''), VInt 3]))"
    by (subst route_dispatch_result [of _ "\<lparr>globals = 0, stack = []\<rparr>"]) (simp_all add: nul_def)
  then show ?thesis
    by (simp add: routed_def response_of_def field_string_def strncpy_def MAX_EXTENSION_LEN_def
        nul_def sample_vm_def)
qed

text \<open>A format character the loop does not know is counted as an argument though nothing
  was pushed: with an otherwise empty Lua stack the protected call then reaches below the
  stack, which is undefined behaviour.\<close>

theorem unknown_format_underflows:
  assumes "vm_L vm = Some L" and "stack L = []" and "is_lua_function (li_getglobal I (globals L) fn)"
    and "c \<notin> set ''sdf''" and "c \<noteq> nul"
  shows "lua_vm_call_function I vm (Some fn) (Some [c]) args = None"
  using assms
  by (auto simp: lua_vm_call_function_def Let_def lua_pcall_def lua_stack_defs)

theorem unknown_format_underflows_witness:
  "lua_vm_call_function sample_interp sample_vm (Some ''route_call'') (Some ''x'') [] = None"
  by (rule unknown_format_underflows [of _ "\<lparr>globals = 0, stack = []\<rparr>"]) (simp_all add: nul_def)

text \<open>Reloading restores nothing: when the file no longer compiles, the state is as
  before; when it compiles and fails while running, the call still reports -1 but the globals
  are those the failed run left. The stack is balanced in each case.\<close>

theorem reload_result:
  assumes "vm_L vm = Some L" and "script_path vm \<noteq> []"
    and strings: "\<And>g s as. \<exists>e. li_call I g (LString s) as = (Inl e, g)"
    and msg: "\<And>g p e. li_loadfile I g p = Inl e \<Longrightarrow> \<exists>s. e = LString s"
  shows "lua_vm_reload_script I vm = Some
    (case li_loadfile I (globals L) (script_path vm) of
       Inl e \<Rightarrow> (- 1, vm)
     | Inr chunk \<Rightarrow> (case li_call I (globals L) chunk [] of
         (Inl e, g) \<Rightarrow> (- 1, vm\<lparr>vm_L := Some (L\<lparr>globals := g\<rparr>)\<rparr>)
       | (Inr v, g) \<Rightarrow> (0, vm\<lparr>vm_L := Some (L\<lparr>globals := g\<rparr>)\<rparr>)))"
proof (cases "li_loadfile I (globals L) (script_path vm)")
  case (Inl e)
  then obtain s where s: "e = LString s" using msg by blast
  obtain e' where "li_call I (globals L) (LString s) [] = (Inl e', globals L)" using strings by blast
  with assms(1,2) Inl s show ?thesis
    by (simp add: lua_vm_reload_script_def lua_loadfile_def lua_pcall_def lua_stack_defs Let_def)
next
  case (Inr c)
  with assms(1,2) show ?thesis
    by (simp add: lua_vm_reload_script_def lua_loadfile_def lua_pcall_def lua_stack_defs Let_def
        split: prod.split sum.split)
qed

theorem reload_result_witness:
  "lua_vm_reload_script sample_interp sample_vm =
     Some (- 1, sample_vm\<lparr>vm_L := Some \<lparr>globals = 1, stack = []\<rparr>\<rparr>)"
  by (subst reload_result [of _ "\<lparr>globals = 0, stack = []\<rparr>"]) simp_all

end
