(* ===== verification/Epoll_Socket.thy ===== *)
theory Epoll_Socket
  imports World C_String
begin

text \<open>
  \<open>src/epoll_socket.c\<close>: the thin layer over epoll and sockets. Every function takes the
  environment and the trace and returns its C result, its output parameters and the
  extended trace. Diagnostics (\<open>perror\<close>) are not modelled.
\<close>

section \<open>Constants\<close>

abbreviation (input) ES_OK :: int where "ES_OK \<equiv> 0"
abbreviation (input) ES_ERR_EPOLL :: int where "ES_ERR_EPOLL \<equiv> - 1"
abbreviation (input) ES_ERR_SOCKET :: int where "ES_ERR_SOCKET \<equiv> - 2"
abbreviation (input) ES_ERR_BIND :: int where "ES_ERR_BIND \<equiv> - 3"
abbreviation (input) ES_ERR_LISTEN :: int where "ES_ERR_LISTEN \<equiv> - 4"
abbreviation (input) ES_ERR_CTL :: int where "ES_ERR_CTL \<equiv> - 5"
abbreviation (input) ES_ERR_PARAM :: int where "ES_ERR_PARAM \<equiv> - 6"
abbreviation (input) ES_ERR_CLOSE :: int where "ES_ERR_CLOSE \<equiv> - 7"

datatype es_send_result = ES_SEND_DONE | ES_SEND_PARTIAL | ES_SEND_ERR

definition O_NONBLOCK :: uint32 where
  "O_NONBLOCK = 2048"

section \<open>epoll\<close>

definition es_create :: "env \<Rightarrow> int \<Rightarrow> world \<Rightarrow> int \<times> world" where
  "es_create E max_events w =
     (let (r, w) = ext E Epoll_create1 w in
      if rv r < 0 then (ES_ERR_EPOLL, w) else (rv r, w))"

definition es_add_fd :: "env \<Rightarrow> fd \<Rightarrow> fd \<Rightarrow> uint32 \<Rightarrow> nat option \<Rightarrow> world \<Rightarrow> int \<times> world" where
  "es_add_fd E epfd f events ptr w =
     (let (r, w) = ext E (Epoll_ctl EPOLL_CTL_ADD epfd f events ptr) w in
      if rv r < 0 then (ES_ERR_CTL, w) else (ES_OK, w))"

definition es_mod_fd :: "env \<Rightarrow> fd \<Rightarrow> fd \<Rightarrow> uint32 \<Rightarrow> nat option \<Rightarrow> world \<Rightarrow> int \<times> world" where
  "es_mod_fd E epfd f events ptr w =
     (let (r, w) = ext E (Epoll_ctl EPOLL_CTL_MOD epfd f events ptr) w in
      if rv r < 0 then (ES_ERR_CTL, w) else (ES_OK, w))"

definition es_del_fd :: "env \<Rightarrow> fd \<Rightarrow> fd \<Rightarrow> world \<Rightarrow> int \<times> world" where
  "es_del_fd E epfd f w =
     (let (r, w) = ext E (Epoll_ctl EPOLL_CTL_DEL epfd f 0 None) w in
      if rv r < 0 then (ES_ERR_CTL, w) else (ES_OK, w))"

definition es_close :: "env \<Rightarrow> fd \<Rightarrow> world \<Rightarrow> int \<times> world" where
  "es_close E epfd w =
     (let (r, w) = ext E (Close epfd) w in
      if rv r < 0 then (ES_ERR_CLOSE, w) else (ES_OK, w))"

section \<open>Sockets\<close>

definition es_set_nonblocking :: "env \<Rightarrow> fd \<Rightarrow> world \<Rightarrow> int \<times> world" where
  "es_set_nonblocking E f w =
     (let (r, w) = ext E (Fcntl_getfl f) w in
      if rv r < 0 then (ES_ERR_SOCKET, w)
      else let (r2, w) = ext E (Fcntl_setfl f (word_of_int (rv r) OR O_NONBLOCK)) w in
      if rv r2 < 0 then (ES_ERR_SOCKET, w) else (ES_OK, w))"

definition es_set_reuseaddr :: "env \<Rightarrow> fd \<Rightarrow> world \<Rightarrow> int \<times> world" where
  "es_set_reuseaddr E f w =
     (let (r, w) = ext E (Setsockopt_reuseaddr f) w in
      if rv r < 0 then (ES_ERR_SOCKET, w) else (ES_OK, w))"

definition es_close_socket :: "env \<Rightarrow> fd \<Rightarrow> world \<Rightarrow> world" where
  "es_close_socket E f w = (if 0 \<le> f then snd (ext E (Close f) w) else w)"

text \<open>
  The servers: \<open>out_ok\<close> says that \<open>out_fd\<close> is not NULL; the second component is what is
  stored there. Each \<open>goto fail\<close> closes the socket and returns the code set before it.
\<close>

definition es_create_tcp_server ::
    "env \<Rightarrow> uint16 \<Rightarrow> int \<Rightarrow> bool \<Rightarrow> bool \<Rightarrow> world \<Rightarrow> int \<times> fd option \<times> world" where
  "es_create_tcp_server E port backlog nonblock out_ok w =
     (if \<not> out_ok then (ES_ERR_PARAM, None, w) else
      let (r, w) = ext E (Socket SOCK_STREAM) w; f = rv r in
      if f < 0 then (ES_ERR_SOCKET, None, w) else
      let (ret, w) = es_set_reuseaddr E f w in
      if ret \<noteq> ES_OK then (ret, None, es_close_socket E f w) else
      let (ret, w) = (if nonblock then es_set_nonblocking E f w else (ES_OK, w)) in
      if ret \<noteq> ES_OK then (ret, None, es_close_socket E f w) else
      let (r, w) = ext E (Bind f port) w in
      if rv r < 0 then (ES_ERR_BIND, None, es_close_socket E f w) else
      let (r, w) = ext E (Listen f backlog) w in
      if rv r < 0 then (ES_ERR_LISTEN, None, es_close_socket E f w) else
      (ES_OK, Some f, w))"

definition es_create_udp_server ::
    "env \<Rightarrow> uint16 \<Rightarrow> bool \<Rightarrow> bool \<Rightarrow> world \<Rightarrow> int \<times> fd option \<times> world" where
  "es_create_udp_server E port nonblock out_ok w =
     (if \<not> out_ok then (ES_ERR_PARAM, None, w) else
      let (r, w) = ext E (Socket SOCK_DGRAM) w; f = rv r in
      if f < 0 then (ES_ERR_SOCKET, None, w) else
      let (ret, w) = es_set_reuseaddr E f w in
      if ret \<noteq> ES_OK then (ret, None, es_close_socket E f w) else
      let (ret, w) = (if nonblock then es_set_nonblocking E f w else (ES_OK, w)) in
      if ret \<noteq> ES_OK then (ret, None, es_close_socket E f w) else
      let (r, w) = ext E (Bind f port) w in
      if rv r < 0 then (ES_ERR_BIND, None, es_close_socket E f w) else
      (ES_OK, Some f, w))"

text \<open>\<open>inet_ntoa\<close> and \<open>%u\<close> of the port; the address is held in host order.\<close>

definition octet :: "nat \<Rightarrow> uint32 \<Rightarrow> nat" where
  "octet k a = unat (drop_bit (8 * k) a) mod 256"

definition inet_ntoa :: "uint32 \<Rightarrow> bytes" where
  "inet_ntoa a = show_nat (octet 3 a) @ ''.'' @ show_nat (octet 2 a) @ ''.'' @
     show_nat (octet 1 a) @ ''.'' @ show_nat (octet 0 a)"

definition es_addr_to_str :: "sockaddr_in option \<Rightarrow> int \<Rightarrow> bytes" where
  "es_addr_to_str addr buflen =
     (case addr of
        None \<Rightarrow> ''(null)''
      | Some a \<Rightarrow>
          if buflen \<le> 0 then ''(null)''
          else snprintf (nat buflen)
                 (inet_ntoa (sin_addr a) @ '':'' @ show_nat (unat (sin_port a))))"

section \<open>Non-blocking send\<close>

text \<open>
  One attempt to send \<open>len\<close> bytes from offset \<open>offset\<close>. The second component is
  \<open>*out_sent\<close>: \<open>None\<close> where the code returns without storing it.
\<close>

definition es_send_all ::
    "env \<Rightarrow> fd \<Rightarrow> bytes \<Rightarrow> int \<Rightarrow> int \<Rightarrow> bool \<Rightarrow> sockaddr_in option \<Rightarrow> world \<Rightarrow>
     es_send_result \<times> int option \<times> world" where
  "es_send_all E f buf offset len is_udp dest w =
     (if len \<le> 0 \<or> offset < 0 then (ES_SEND_ERR, None, w) else
      let chunk = take (nat len) (drop (nat offset) buf);
          (r, w) = ext E (if is_udp then Sendto f chunk dest else Send f chunk) w in
      if rv r < 0 then
        (if err r = EAGAIN \<or> err r = EWOULDBLOCK then (ES_SEND_PARTIAL, Some 0, w)
         else if err r = EINTR then (ES_SEND_PARTIAL, Some 0, w)
         else (ES_SEND_ERR, Some 0, w))
      else if len \<le> rv r then (ES_SEND_DONE, Some (rv r), w)
      else (ES_SEND_PARTIAL, Some (rv r), w))"

text \<open>
  \<open>send\<close> and \<open>sendto\<close> report at most the number of bytes they were given.
\<close>

definition sends_at_most :: "env \<Rightarrow> bool" where
  "sends_at_most E \<longleftrightarrow>
     (\<forall>w f b d. rv (E w (Send f b)) \<le> int (length b) \<and> rv (E w (Sendto f b d)) \<le> int (length b))"

section \<open>Facts\<close>

lemmas es_wrapper_defs =
  es_create_def es_add_fd_def es_mod_fd_def es_del_fd_def es_close_def
  es_set_nonblocking_def es_set_reuseaddr_def es_close_socket_def

lemmas es_defs = es_wrapper_defs es_create_tcp_server_def es_create_udp_server_def es_send_all_def

text \<open>What the wrappers do to the open descriptors.\<close>

lemma open_fds_wrappers [world_simps]:
  "open_fds (snd (es_add_fd E ep f ev p w)) = open_fds w"
  "open_fds (snd (es_mod_fd E ep f ev p w)) = open_fds w"
  "open_fds (snd (es_del_fd E ep f w)) = open_fds w"
  "open_fds (snd (es_close E f w)) = open_fds w - {f}"
  "open_fds (snd (es_set_nonblocking E f w)) = open_fds w"
  "open_fds (snd (es_set_reuseaddr E f w)) = open_fds w"
  "0 \<le> f \<Longrightarrow> open_fds (es_close_socket E f w) = open_fds w - {f}"
  by (simp_all add: es_wrapper_defs Let_def)

lemma open_fds_es_create [world_simps]:
  "es_create E n w = (r, w') \<Longrightarrow> 0 \<le> r \<Longrightarrow> open_fds w' = insert r (open_fds w)"
  "es_create E n w = (r, w') \<Longrightarrow> r < 0 \<Longrightarrow> open_fds w' = open_fds w"
  by (auto simp: es_create_def Let_def split: if_splits)

lemma open_fds_es_send_all [world_simps]:
  "open_fds (snd (snd (es_send_all E f b off len u d w))) = open_fds w"
  by (auto simp: es_send_all_def Let_def)

lemma es_set_result:
  "fst (es_set_reuseaddr E f w) \<le> ES_OK" "fst (es_set_nonblocking E f w) \<le> ES_OK"
  by (auto simp: es_wrapper_defs Let_def)

lemma udp_server_cases:
  assumes run: "es_create_udp_server E port nb True w = (ret, out, w')" and fresh: "fresh_fds E"
  shows "(ret < 0 \<and> out = None \<and> open_fds w' = open_fds w) \<or>
     (ret = ES_OK \<and> (\<exists>f. out = Some f \<and> 0 \<le> f \<and> f \<notin> open_fds w \<and>
        open_fds w' = insert f (open_fds w)))"
proof -
  have new: "0 \<le> rv (E w (Socket SOCK_DGRAM)) \<Longrightarrow> rv (E w (Socket SOCK_DGRAM)) \<notin> open_fds w"
    using fresh_fdsD [OF fresh, of "Socket SOCK_DGRAM" w] by simp
  show ?thesis
    using run new
    by (auto simp: es_create_udp_server_def es_wrapper_defs Let_def split: if_splits)
qed

lemma tcp_server_cases:
  assumes run: "es_create_tcp_server E port bl nb True w = (ret, out, w')" and fresh: "fresh_fds E"
  shows "(ret < 0 \<and> out = None \<and> open_fds w' = open_fds w) \<or>
     (ret = ES_OK \<and> (\<exists>f. out = Some f \<and> 0 \<le> f \<and> f \<notin> open_fds w \<and>
        open_fds w' = insert f (open_fds w)))"
proof -
  have new: "0 \<le> rv (E w (Socket SOCK_STREAM)) \<Longrightarrow> rv (E w (Socket SOCK_STREAM)) \<notin> open_fds w"
    using fresh_fdsD [OF fresh, of "Socket SOCK_STREAM" w] by simp
  show ?thesis
    using run new
    by (auto simp: es_create_tcp_server_def es_wrapper_defs Let_def split: if_splits)
qed

lemma es_send_all_cases:
  assumes "es_send_all E f b off len u d w = (res, out, w')" and "0 < len" and "0 \<le> off"
  shows "\<exists>n. out = Some n \<and> 0 \<le> n \<and> (res = ES_SEND_DONE \<longleftrightarrow> len \<le> n) \<and> (res = ES_SEND_ERR \<longrightarrow> n = 0)"
  using assms by (auto simp: es_send_all_def Let_def split: if_splits)

lemma es_send_all_bound:
  assumes "es_send_all E f b off len u d w = (res, Some n, w')" and "sends_at_most E"
    and "0 < len" and "0 \<le> off"
  shows "n \<le> len"
proof -
  let ?c = "take (nat len) (drop (nat off) b)"
  have "rv (E w (Send f ?c)) \<le> int (length ?c)" "rv (E w (Sendto f ?c d)) \<le> int (length ?c)"
    using assms(2) unfolding sends_at_most_def by blast+
  moreover have "int (length ?c) \<le> len" using \<open>0 < len\<close> by simp
  ultimately have "rv (E w (Send f ?c)) \<le> len" "rv (E w (Sendto f ?c d)) \<le> len"
    by linarith+
  then show ?thesis
    using assms(1,3,4) unfolding es_send_all_def Let_def case_ext
    by (simp split: if_splits)
qed

end
