(* ===== verification/Event_Loop.thy ===== *)
theory Event_Loop
  imports Epoll_Socket
begin

text \<open>
  \<open>src/event_loop.c\<close>: the connection table, the send path, the dispatch of epoll events
  and the main loop. A \<open>connection_t *\<close> is the index of its slot. The loops that only the
  operating system can end (accepting, reading, the main loop) are partial functions:
  \<open>None\<close> is a loop that never ends. Log output is not modelled.
\<close>

section \<open>Data\<close>

datatype conn_type =
    CONN_TYPE_FREE
  | CONN_TYPE_TCP_LISTEN
  | CONN_TYPE_TCP_CLIENT
  | CONN_TYPE_UDP_SIP
  | CONN_TYPE_UDP_RTP

datatype conn_state = CONN_STATE_ACTIVE | CONN_STATE_CLOSING | CONN_STATE_ERROR

text \<open>
  The bytes of \<open>send_buf\<close> that were written since it was last cleared; the rest of the
  65536 bytes is zero.
\<close>

record connection =
  c_fd :: int
  c_type :: conn_type
  c_state :: conn_state
  create_time :: int
  last_active :: int
  conn_user_data :: "nat option"
  remote_addr :: bytes
  remote_port :: uint16
  send_buf :: bytes
  send_len :: int
  send_offset :: int

record server_config =
  sip_port :: uint16
  rtp_port_min :: uint16
  rtp_port_max :: uint16
  tcp_backlog :: int
  max_connections :: int
  idle_timeout_sec :: int
  epoll_timeout_ms :: int
  epoll_max_events :: int

text \<open>
  Function pointers of the callback table. The program installs its own defaults and, for
  reading, the SIP handler; a handler the embedding program supplies is \<open>App_On_Read\<close> or
  \<open>App_On_Idle\<close>, whose meaning the loop takes as an argument. \<open>None\<close> is a NULL pointer.
\<close>

datatype on_accept_fn = Default_On_Accept
datatype on_read_fn = El_Default_On_Read | App_On_Read
datatype on_write_fn = Default_On_Write
datatype on_error_fn = Default_On_Error
datatype on_close_fn = Default_On_Close
datatype on_idle_fn = App_On_Idle

record el_callbacks =
  on_accept :: "on_accept_fn option"
  on_read :: "on_read_fn option"
  on_write :: "on_write_fn option"
  on_error :: "on_error_fn option"
  on_close :: "on_close_fn option"
  on_idle :: "on_idle_fn option"

record 'v event_loop =
  epfd :: int
  running :: bool
  config :: server_config
  callbacks :: el_callbacks
  connections :: "connection list"
  conn_capacity :: int
  active_count :: int
  sip_listen_fd :: int
  rtp_base_fd :: int
  last_idle_check :: int
  start_time :: int
  user_data :: "'v option"

datatype el_send_result = EL_SEND_OK | EL_SEND_ERR_FULL | EL_SEND_ERR_PARAM

definition EL_SEND_BUF_SIZE :: int where "EL_SEND_BUF_SIZE = 65536"
definition EL_RECV_BUF_SIZE :: int where "EL_RECV_BUF_SIZE = 65536"
definition MAX_CONCURRENT_CALLS :: int where "MAX_CONCURRENT_CALLS = 2048"
definition MAX_EPOLL_EVENTS :: int where "MAX_EPOLL_EVENTS = 1024"
definition EPOLL_WAIT_TIMEOUT_MS :: int where "EPOLL_WAIT_TIMEOUT_MS = 100"
definition SERVER_TCP_BACKLOG :: int where "SERVER_TCP_BACKLOG = 128"
definition CONNECTION_IDLE_TIMEOUT_SEC :: int where "CONNECTION_IDLE_TIMEOUT_SEC = 300"
definition IDLE_CHECK_INTERVAL_SEC :: int where "IDLE_CHECK_INTERVAL_SEC = 10"

definition EPOLLIN :: uint32 where "EPOLLIN = 0x001"
definition EPOLLOUT :: uint32 where "EPOLLOUT = 0x004"
definition EPOLLERR :: uint32 where "EPOLLERR = 0x008"
definition EPOLLHUP :: uint32 where "EPOLLHUP = 0x010"
definition EPOLLRDHUP :: uint32 where "EPOLLRDHUP = 0x2000"
definition EPOLLET :: uint32 where "EPOLLET = 0x80000000"

definition DEFAULT_TCP_EVENTS :: uint32 where
  "DEFAULT_TCP_EVENTS = EPOLLIN OR EPOLLRDHUP OR EPOLLERR OR EPOLLHUP OR EPOLLET"

definition DEFAULT_UDP_EVENTS :: uint32 where
  "DEFAULT_UDP_EVENTS = EPOLLIN OR EPOLLERR OR EPOLLHUP OR EPOLLET"

section \<open>Connection slots\<close>

abbreviation slot :: "('v, 'z) event_loop_scheme \<Rightarrow> nat \<Rightarrow> connection" where
  "slot el i \<equiv> connections el ! i"

definition upd_slot ::
    "nat \<Rightarrow> (connection \<Rightarrow> connection) \<Rightarrow> 'v event_loop \<Rightarrow> 'v event_loop" where
  "upd_slot i g el = el\<lparr>connections := (connections el)[i := g (slot el i)]\<rparr>"

definition zero_connection :: connection where
  "zero_connection = \<lparr>c_fd = 0, c_type = CONN_TYPE_FREE, c_state = CONN_STATE_ACTIVE,
     create_time = 0, last_active = 0, conn_user_data = None, remote_addr = [],
     remote_port = 0, send_buf = [], send_len = 0, send_offset = 0\<rparr>"

definition alloc_connection :: "'v event_loop \<Rightarrow> nat option \<times> 'v event_loop" where
  "alloc_connection el =
     (case first_index (\<lambda>c. c_type c = CONN_TYPE_FREE) (connections el) of
        Some i \<Rightarrow> (Some i, upd_slot i (\<lambda>c. zero_connection\<lparr>c_fd := - 1\<rparr>) el)
      | None \<Rightarrow> (None, el))"

definition free_connection :: "connection \<Rightarrow> connection" where
  "free_connection c = c\<lparr>c_fd := - 1, c_type := CONN_TYPE_FREE, c_state := CONN_STATE_ACTIVE,
     conn_user_data := None, remote_addr := [], remote_port := 0, send_len := 0,
     send_offset := 0, send_buf := []\<rparr>"

definition el_add_connection ::
    "env \<Rightarrow> 'v event_loop \<Rightarrow> fd \<Rightarrow> conn_type \<Rightarrow> uint32 \<Rightarrow> bytes option \<Rightarrow> uint16 \<Rightarrow> world \<Rightarrow>
     nat option \<times> 'v event_loop \<times> world" where
  "el_add_connection E el f type events addr port w =
     (if f < 0 then (None, el, w)
      else if conn_capacity el \<le> active_count el then (None, el, w)
      else case alloc_connection el of
        (None, el) \<Rightarrow> (None, el, w)
      | (Some i, el) \<Rightarrow>
          let (t, w) = ext E Time w;
              el = upd_slot i (\<lambda>c. c\<lparr>c_fd := f, c_type := type, c_state := CONN_STATE_ACTIVE,
                     create_time := rv t, last_active := rv t,
                     remote_addr := (case addr of None \<Rightarrow> remote_addr c
                                     | Some a \<Rightarrow> strncpy 63 a),
                     remote_port := port\<rparr>) el;
              (ret, w) = es_add_fd E (epfd el) f events (Some i) w
          in if ret \<noteq> ES_OK then (None, upd_slot i free_connection el, w)
             else (Some i, el\<lparr>active_count := active_count el + 1\<rparr>, w))"

definition el_remove_connection ::
    "env \<Rightarrow> 'v event_loop \<Rightarrow> nat \<Rightarrow> world \<Rightarrow> 'v event_loop \<times> world" where
  "el_remove_connection E el i w =
     (if c_type (slot el i) = CONN_TYPE_FREE then (el, w) else
      let f = c_fd (slot el i);
          w = (if 0 \<le> f then es_close_socket E f (snd (es_del_fd E (epfd el) f w)) else w);
          el = upd_slot i free_connection el
      in (el\<lparr>active_count := active_count el - 1\<rparr>, w))"

definition el_find_connection :: "'v event_loop \<Rightarrow> fd \<Rightarrow> nat option" where
  "el_find_connection el f =
     (if f < 0 then None
      else first_index (\<lambda>c. c_fd c = f \<and> c_type c \<noteq> CONN_TYPE_FREE) (connections el))"

definition el_touch_connection ::
    "env \<Rightarrow> 'v event_loop \<Rightarrow> nat \<Rightarrow> world \<Rightarrow> 'v event_loop \<times> world" where
  "el_touch_connection E el i w =
     (let (t, w) = ext E Time w in (upd_slot i (\<lambda>c. c\<lparr>last_active := rv t\<rparr>) el, w))"

definition el_set_callbacks :: "'v event_loop \<Rightarrow> el_callbacks option \<Rightarrow> 'v event_loop" where
  "el_set_callbacks el cb = (case cb of None \<Rightarrow> el | Some c \<Rightarrow> el\<lparr>callbacks := c\<rparr>)"

definition el_get_sip_fd :: "'v event_loop option \<Rightarrow> int" where
  "el_get_sip_fd el = (case el of None \<Rightarrow> - 1 | Some l \<Rightarrow> sip_listen_fd l)"

definition el_stop :: "'v event_loop \<Rightarrow> 'v event_loop" where
  "el_stop el = el\<lparr>running := False\<rparr>"

section \<open>Sending\<close>

definition rearm_events :: "connection \<Rightarrow> uint32" where
  "rearm_events c =
     (if c_type c = CONN_TYPE_TCP_CLIENT then DEFAULT_TCP_EVENTS else DEFAULT_UDP_EVENTS)"

abbreviation clear_send :: "connection \<Rightarrow> connection" where
  "clear_send c \<equiv> c\<lparr>send_len := 0, send_offset := 0\<rparr>"

text \<open>
  \<open>conn\<close> and \<open>data\<close> may be NULL (\<open>None\<close>). The offset stored from an unset \<open>sent\<close> is
  dead: that result always clears it.
\<close>

definition el_send_data ::
    "env \<Rightarrow> 'v event_loop \<Rightarrow> nat option \<Rightarrow> bytes option \<Rightarrow> int \<Rightarrow> bool \<Rightarrow> sockaddr_in option \<Rightarrow>
     world \<Rightarrow> el_send_result \<times> 'v event_loop \<times> world" where
  "el_send_data E el conn data len is_udp dest w =
     (case (conn, data) of
        (Some i, Some bs) \<Rightarrow>
          if len \<le> 0 then (EL_SEND_ERR_PARAM, el, w)
          else if EL_SEND_BUF_SIZE < len then (EL_SEND_ERR_FULL, el, w)
          else
          let el = upd_slot i (\<lambda>c. c\<lparr>
                     send_buf := take (nat len) bs @ drop (nat len) (send_buf c),
                     send_len := len, send_offset := 0\<rparr>) el;
              c = slot el i;
              (ret, out, w) = es_send_all E (c_fd c) (send_buf c) 0 (send_len c) is_udp dest w;
              el = upd_slot i (\<lambda>c. c\<lparr>send_offset := (case out of None \<Rightarrow> send_offset c
                                                        | Some n \<Rightarrow> n)\<rparr>) el
          in (case ret of
                ES_SEND_DONE \<Rightarrow> (EL_SEND_OK, upd_slot i clear_send el, w)
              | ES_SEND_PARTIAL \<Rightarrow>
                  let (mod_ret, w) = es_mod_fd E (epfd el) (c_fd c) (rearm_events c OR EPOLLOUT)
                                       (Some i) w
                  in if mod_ret \<noteq> ES_OK then (EL_SEND_ERR_PARAM, upd_slot i clear_send el, w)
                     else (EL_SEND_OK, el, w)
              | ES_SEND_ERR \<Rightarrow> (EL_SEND_ERR_PARAM, upd_slot i clear_send el, w))
      | _ \<Rightarrow> (EL_SEND_ERR_PARAM, el, w))"

section \<open>Default callbacks\<close>

definition default_on_close ::
    "env \<Rightarrow> 'v event_loop \<Rightarrow> nat \<Rightarrow> world \<Rightarrow> 'v event_loop \<times> world" where
  "default_on_close E el i w = el_remove_connection E el i w"

text \<open>\<open>if (el->callbacks.on_close) el->callbacks.on_close(el, conn)\<close>.\<close>

definition call_on_close ::
    "env \<Rightarrow> 'v event_loop \<Rightarrow> nat \<Rightarrow> world \<Rightarrow> 'v event_loop \<times> world" where
  "call_on_close E el i w =
     (case on_close (callbacks el) of
        None \<Rightarrow> (el, w)
      | Some Default_On_Close \<Rightarrow> default_on_close E el i w)"

definition default_on_error ::
    "env \<Rightarrow> 'v event_loop \<Rightarrow> nat \<Rightarrow> world \<Rightarrow> 'v event_loop \<times> world" where
  "default_on_error E el i w =
     (let el = upd_slot i (\<lambda>c. c\<lparr>c_state := CONN_STATE_ERROR\<rparr>) el;
          (el, w) = call_on_close E el i w
      in el_remove_connection E el i w)"

definition call_on_error ::
    "env \<Rightarrow> 'v event_loop \<Rightarrow> nat \<Rightarrow> world \<Rightarrow> 'v event_loop \<times> world" where
  "call_on_error E el i w =
     (case on_error (callbacks el) of
        None \<Rightarrow> (el, w)
      | Some Default_On_Error \<Rightarrow> default_on_error E el i w)"

definition default_on_accept ::
    "env \<Rightarrow> 'v event_loop \<Rightarrow> fd \<Rightarrow> sockaddr_in \<Rightarrow> world \<Rightarrow> 'v event_loop \<times> world" where
  "default_on_accept E el client_fd addr w =
     (case el_add_connection E el client_fd CONN_TYPE_TCP_CLIENT DEFAULT_TCP_EVENTS
             (Some (es_addr_to_str (Some addr) 64)) (sin_port addr) w of
        (None, el, w) \<Rightarrow> (el, es_close_socket E client_fd w)
      | (Some i, el, w) \<Rightarrow> (el, w))"

definition call_on_accept ::
    "env \<Rightarrow> 'v event_loop \<Rightarrow> fd \<Rightarrow> sockaddr_in \<Rightarrow> world \<Rightarrow> 'v event_loop \<times> world" where
  "call_on_accept E el client_fd addr w =
     (case on_accept (callbacks el) of
        None \<Rightarrow> (el, w)
      | Some Default_On_Accept \<Rightarrow> default_on_accept E el client_fd addr w)"

definition would_block :: "errno \<Rightarrow> bool" where
  "would_block e \<longleftrightarrow> e = EAGAIN \<or> e = EWOULDBLOCK"

text \<open>
  The two read loops of \<open>el_default_on_read\<close>. The UDP loop ends on any error but EINTR;
  the TCP loop ends at end of file, on EAGAIN or on an error, and says which, because the
  code then calls back.
\<close>

datatype read_end = Read_Blocked | Read_Eof | Read_Failed errno

partial_function (option) udp_drain :: "env \<Rightarrow> fd \<Rightarrow> world \<Rightarrow> world option" where
  "udp_drain E f w =
     (let r = E w (Recvfrom f EL_RECV_BUF_SIZE);
          w = (Recvfrom f EL_RECV_BUF_SIZE, r) # w
      in if rv r < 0 then
           (if would_block (err r) then Some w
            else if err r = EINTR then udp_drain E f w
            else Some w)
         else udp_drain E f w)"

partial_function (option) tcp_drain :: "env \<Rightarrow> fd \<Rightarrow> world \<Rightarrow> (read_end \<times> world) option" where
  "tcp_drain E f w =
     (let r = E w (Read f (EL_RECV_BUF_SIZE - 1));
          w = (Read f (EL_RECV_BUF_SIZE - 1), r) # w
      in if 0 < rv r then tcp_drain E f w
         else if rv r = 0 then Some (Read_Eof, w)
         else if would_block (err r) then Some (Read_Blocked, w)
         else if err r = EINTR then tcp_drain E f w
         else Some (Read_Failed (err r), w))"

definition is_udp_type :: "conn_type \<Rightarrow> bool" where
  "is_udp_type t \<longleftrightarrow> t = CONN_TYPE_UDP_SIP \<or> t = CONN_TYPE_UDP_RTP"

definition el_default_on_read ::
    "env \<Rightarrow> 'v event_loop \<Rightarrow> nat \<Rightarrow> world \<Rightarrow> ('v event_loop \<times> world) option" where
  "el_default_on_read E el i w =
     (if is_udp_type (c_type (slot el i)) then
        map_option (Pair el) (udp_drain E (c_fd (slot el i)) w)
      else (case tcp_drain E (c_fd (slot el i)) w of
              None \<Rightarrow> None
            | Some (Read_Blocked, w) \<Rightarrow> Some (el, w)
            | Some (Read_Eof, w) \<Rightarrow> Some (call_on_close E el i w)
            | Some (Read_Failed e, w) \<Rightarrow> Some (call_on_error E el i w)))"

definition default_on_write ::
    "env \<Rightarrow> 'v event_loop \<Rightarrow> nat \<Rightarrow> world \<Rightarrow> 'v event_loop \<times> world" where
  "default_on_write E el i w =
     (let c = slot el i in
      if send_len c \<le> 0 \<or> send_len c \<le> send_offset c then
        let (ret, w) = es_mod_fd E (epfd el) (c_fd c) (rearm_events c) (Some i) w
        in (upd_slot i clear_send el, w)
      else
        let remaining = send_len c - send_offset c;
            (ret, out, w) = es_send_all E (c_fd c) (send_buf c) (send_offset c) remaining
                              (is_udp_type (c_type c)) None w
        in if ret = ES_SEND_ERR then call_on_error E (upd_slot i clear_send el) i w
           else
           let el = upd_slot i (\<lambda>c. c\<lparr>send_offset := send_offset c +
                      (case out of None \<Rightarrow> 0 | Some n \<Rightarrow> n)\<rparr>) el
           in if send_len (slot el i) \<le> send_offset (slot el i) then
                let (ret, w) = es_mod_fd E (epfd el) (c_fd c) (rearm_events c) (Some i) w
                in (upd_slot i clear_send el, w)
              else (el, w))"

section \<open>Event handling\<close>

text \<open>Accepting, until the backlog is empty.\<close>

partial_function (option) handle_accept ::
    "env \<Rightarrow> 'v event_loop \<Rightarrow> nat \<Rightarrow> world \<Rightarrow> ('v event_loop \<times> world) option" where
  "handle_accept E el l w =
     (let r = E w (Accept (c_fd (slot el l)));
          w = (Accept (c_fd (slot el l)), r) # w
      in if rv r < 0 then
           (if would_block (err r) then Some (el, w)
            else if err r = EINTR then handle_accept E el l w
            else Some (el, w))
         else if conn_capacity el \<le> active_count el then
           handle_accept E el l (es_close_socket E (rv r) w)
         else if fst (es_set_nonblocking E (rv r) w) \<noteq> ES_OK then
           handle_accept E el l
             (es_close_socket E (rv r) (snd (es_set_nonblocking E (rv r) w)))
         else
           (case call_on_accept E el (rv r) (peer r) (snd (es_set_nonblocking E (rv r) w)) of
              (el, w) \<Rightarrow> handle_accept E el l w))"

text \<open>The meaning of the application's read callback, an argument of the loop.\<close>

type_synonym 'v reader = "env \<Rightarrow> 'v event_loop \<Rightarrow> nat \<Rightarrow> world \<Rightarrow> ('v event_loop \<times> world) option"

definition call_on_read :: "'v reader \<Rightarrow> 'v reader" where
  "call_on_read rd E el i w =
     (case on_read (callbacks el) of
        None \<Rightarrow> Some (el, w)
      | Some El_Default_On_Read \<Rightarrow> el_default_on_read E el i w
      | Some App_On_Read \<Rightarrow> rd E el i w)"

definition call_on_write ::
    "env \<Rightarrow> 'v event_loop \<Rightarrow> nat \<Rightarrow> world \<Rightarrow> 'v event_loop \<times> world" where
  "call_on_write E el i w =
     (case on_write (callbacks el) of
        None \<Rightarrow> (el, w)
      | Some Default_On_Write \<Rightarrow> default_on_write E el i w)"

definition handle_client_event ::
    "'v reader \<Rightarrow> env \<Rightarrow> 'v event_loop \<Rightarrow> nat \<Rightarrow> uint32 \<Rightarrow> world \<Rightarrow>
     ('v event_loop \<times> world) option" where
  "handle_client_event rd E el i events w =
     (if c_state (slot el i) \<noteq> CONN_STATE_ACTIVE then Some (el, w) else
      let (el, w) = el_touch_connection E el i w in
      if events AND (EPOLLERR OR EPOLLHUP) \<noteq> 0 \<and> on_error (callbacks el) \<noteq> None then
        (let w = (if events AND EPOLLERR \<noteq> 0
                  then snd (ext E (Getsockopt_error (c_fd (slot el i))) w) else w)
         in Some (call_on_error E el i w))
      else if events AND EPOLLRDHUP \<noteq> 0 \<and> on_close (callbacks el) \<noteq> None then
        Some (call_on_close E el i w)
      else
        let (el, w) = (if events AND EPOLLOUT \<noteq> 0 then call_on_write E el i w else (el, w))
        in if events AND EPOLLIN \<noteq> 0 then call_on_read rd E el i w else Some (el, w))"

text \<open>One pass over the table; \<open>is\<close> are the indices still to visit.\<close>

fun cleanup_slots ::
    "env \<Rightarrow> int \<Rightarrow> nat list \<Rightarrow> 'v event_loop \<Rightarrow> world \<Rightarrow> 'v event_loop \<times> world" where
  "cleanup_slots E now [] el w = (el, w)"
| "cleanup_slots E now (i # is) el w =
     (let c = slot el i in
      if c_type c = CONN_TYPE_FREE then cleanup_slots E now is el w
      else if c_type c = CONN_TYPE_TCP_LISTEN then cleanup_slots E now is el w
      else if c_state c \<noteq> CONN_STATE_ACTIVE then cleanup_slots E now is el w
      else if idle_timeout_sec (config el) \<le> to_int32 (now - last_active c) then
        (let (el, w) = call_on_close E el i w;
             (el, w) = el_remove_connection E el i w
         in cleanup_slots E now is el w)
      else cleanup_slots E now is el w)"

definition cleanup_idle_connections ::
    "env \<Rightarrow> 'v event_loop \<Rightarrow> world \<Rightarrow> 'v event_loop \<times> world" where
  "cleanup_idle_connections E el w =
     (let (t, w) = ext E Time w
      in cleanup_slots E (rv t) [0..<nat (conn_capacity el)] el w)"

section \<open>The main loop\<close>

text \<open>Dispatch of one reported event; a NULL pointer is skipped.\<close>

definition dispatch_event ::
    "'v reader \<Rightarrow> env \<Rightarrow> 'v event_loop \<Rightarrow> nat option \<times> uint32 \<Rightarrow> world \<Rightarrow>
     ('v event_loop \<times> world) option" where
  "dispatch_event rd E el ev w =
     (case fst ev of
        None \<Rightarrow> Some (el, w)
      | Some i \<Rightarrow>
          if c_state (slot el i) = CONN_STATE_CLOSING \<or> c_state (slot el i) = CONN_STATE_ERROR
          then Some (el, w)
          else if c_type (slot el i) = CONN_TYPE_TCP_LISTEN then
            (if snd ev AND EPOLLIN \<noteq> 0 then handle_accept E el i w else Some (el, w))
          else handle_client_event rd E el i (snd ev) w)"

fun dispatch_events ::
    "'v reader \<Rightarrow> env \<Rightarrow> 'v event_loop \<Rightarrow> (nat option \<times> uint32) list \<Rightarrow> world \<Rightarrow>
     ('v event_loop \<times> world) option" where
  "dispatch_events rd E el [] w = Some (el, w)"
| "dispatch_events rd E el (ev # es) w =
     (case dispatch_event rd E el ev w of
        None \<Rightarrow> None
      | Some (el, w) \<Rightarrow> dispatch_events rd E el es w)"

type_synonym 'v idler = "env \<Rightarrow> 'v event_loop \<Rightarrow> world \<Rightarrow> 'v event_loop \<times> world"

definition idle_check ::
    "'v idler \<Rightarrow> env \<Rightarrow> 'v event_loop \<Rightarrow> world \<Rightarrow> 'v event_loop \<times> world" where
  "idle_check idl E el w =
     (let (t, w) = ext E Time w; now = rv t in
      if IDLE_CHECK_INTERVAL_SEC \<le> now - last_idle_check el then
        let (el, w) = cleanup_idle_connections E el w;
            el = el\<lparr>last_idle_check := now\<rparr>
        in (case on_idle (callbacks el) of
              None \<Rightarrow> (el, w)
            | Some App_On_Idle \<Rightarrow> idl E el w)
      else (el, w))"

text \<open>
  One turn of the loop body. The signal handler runs \<open>el_stop\<close> at any moment; its effect
  is only read at the head of the loop, so a signal is accounted for at the wait. \<open>True\<close>
  asks for another turn, \<open>False\<close> is the \<open>break\<close> after a failed wait.
\<close>

definition el_turn ::
    "'v reader \<Rightarrow> 'v idler \<Rightarrow> env \<Rightarrow> 'v event_loop \<Rightarrow> world \<Rightarrow>
     (bool \<times> 'v event_loop \<times> world) option" where
  "el_turn rd idl E el w =
     (let (r, w) = ext E (Epoll_wait (epfd el) (epoll_max_events (config el))
                           (epoll_timeout_ms (config el))) w;
          el = (if sig r then el_stop el else el)
      in if rv r < 0 then
           (if err r = EINTR then Some (True, el, w) else Some (False, el, w))
         else (case dispatch_events rd E el (take (nat (rv r)) (evs r)) w of
                 None \<Rightarrow> None
               | Some (el, w) \<Rightarrow> (case idle_check idl E el w of (el, w) \<Rightarrow> Some (True, el, w))))"

partial_function (option) el_loop ::
    "'v reader \<Rightarrow> 'v idler \<Rightarrow> env \<Rightarrow> 'v event_loop \<Rightarrow> world \<Rightarrow> ('v event_loop \<times> world) option"
where
  "el_loop rd idl E el w =
     (if \<not> running el then Some (el, w)
      else case el_turn rd idl E el w of
        None \<Rightarrow> None
      | Some (go, el, w) \<Rightarrow> if go then el_loop rd idl E el w else Some (el, w))"

definition el_run ::
    "'v reader \<Rightarrow> 'v idler \<Rightarrow> env \<Rightarrow> 'v event_loop \<Rightarrow> world \<Rightarrow>
     (int \<times> 'v event_loop \<times> world) option" where
  "el_run rd idl E el w =
     (let (p, w) = ext E (Calloc (epoll_max_events (config el))) w in
      if rv p = 0 then Some (- 1, el, w)
      else map_option (Pair 0) (el_loop rd idl E (el\<lparr>running := True\<rparr>) w))"

section \<open>Creation and destruction\<close>

definition config_defaults :: "server_config \<Rightarrow> server_config" where
  "config_defaults c = c\<lparr>
     max_connections := (if max_connections c \<le> 0 then MAX_CONCURRENT_CALLS
                         else max_connections c),
     idle_timeout_sec := (if idle_timeout_sec c \<le> 0 then CONNECTION_IDLE_TIMEOUT_SEC
                          else idle_timeout_sec c),
     epoll_timeout_ms := (if epoll_timeout_ms c \<le> 0 then EPOLL_WAIT_TIMEOUT_MS
                          else epoll_timeout_ms c),
     epoll_max_events := (if epoll_max_events c \<le> 0 then MAX_EPOLL_EVENTS
                          else epoll_max_events c),
     tcp_backlog := (if tcp_backlog c \<le> 0 then SERVER_TCP_BACKLOG else tcp_backlog c)\<rparr>"

definition default_callbacks :: el_callbacks where
  "default_callbacks = \<lparr>on_accept = Some Default_On_Accept, on_read = Some El_Default_On_Read,
     on_write = Some Default_On_Write, on_error = Some Default_On_Error,
     on_close = Some Default_On_Close, on_idle = None\<rparr>"

text \<open>The SIP listening socket; a failure is logged and the loop is created without it.\<close>

definition el_create_sip :: "env \<Rightarrow> 'v event_loop \<Rightarrow> world \<Rightarrow> 'v event_loop \<times> world" where
  "el_create_sip E el w =
     (if sip_port (config el) = 0 then (el, w) else
      case es_create_udp_server E (sip_port (config el)) True True w of
        (ret, Some f, w) \<Rightarrow>
          (case el_add_connection E el f CONN_TYPE_UDP_SIP DEFAULT_UDP_EVENTS None 0 w of
             (None, el, w) \<Rightarrow> (el, es_close_socket E f w)
           | (Some i, el, w) \<Rightarrow> (el\<lparr>sip_listen_fd := f\<rparr>, w))
      | (ret, None, w) \<Rightarrow> (el, w))"

definition el_create ::
    "env \<Rightarrow> server_config option \<Rightarrow> world \<Rightarrow> 'v event_loop option \<times> world" where
  "el_create E cfg w =
     (case cfg of
        None \<Rightarrow> (None, w)
      | Some c0 \<Rightarrow>
          let (p, w) = ext E (Calloc 1) w in
          if rv p = 0 then (None, w) else
          let c = config_defaults c0;
              (ep, w) = es_create E (epoll_max_events c) w in
          if ep < 0 then (None, w) else
          let (p, w) = ext E (Calloc (max_connections c)) w in
          if rv p = 0 then (None, snd (es_close E ep w)) else
          let el = \<lparr>epfd = ep, running = False, config = c, callbacks = default_callbacks,
                    connections = replicate (nat (max_connections c))
                                    (zero_connection\<lparr>c_fd := - 1, c_type := CONN_TYPE_FREE\<rparr>),
                    conn_capacity = max_connections c, active_count = 0, sip_listen_fd = 0,
                    rtp_base_fd = 0, last_idle_check = 0, start_time = 0, user_data = None\<rparr>;
              (el, w) = el_create_sip E el w;
              (t, w) = ext E Time w
          in (Some (el\<lparr>start_time := rv t, last_idle_check := rv t\<rparr>), w))"

fun destroy_slots ::
    "env \<Rightarrow> nat list \<Rightarrow> 'v event_loop \<Rightarrow> world \<Rightarrow> 'v event_loop \<times> world" where
  "destroy_slots E [] el w = (el, w)"
| "destroy_slots E (i # is) el w =
     (if c_type (slot el i) = CONN_TYPE_FREE then destroy_slots E is el w
      else
        let (el, w) = call_on_close E el i w;
            f = c_fd (slot el i);
            w = (if 0 \<le> f then es_close_socket E f (snd (es_del_fd E (epfd el) f w)) else w)
        in destroy_slots E is (upd_slot i free_connection el) w)"

definition el_destroy :: "env \<Rightarrow> 'v event_loop \<Rightarrow> world \<Rightarrow> world" where
  "el_destroy E el w =
     (let (el, w) = destroy_slots E [0..<nat (conn_capacity el)] el w
      in snd (es_close E (epfd el) w))"

end
