(* ===== verification/Event_Loop_Inv.thy ===== *)
theory Event_Loop_Inv
  imports Event_Loop
begin

text \<open>
  The invariant of the event loop and its preservation, operation by operation: the table is
  consistent with \<open>active_count\<close>, every descriptor the loop was given is in exactly one slot
  and open, epoll watches exactly the occupied slots, each with the slot's own pointer, and
  a table with a listening socket has an accept callback.
  The set \<open>B\<close> collects the descriptors that are open and not the loop's: a descriptor just
  accepted is in \<open>B\<close> until it is registered or closed.
\<close>

section \<open>The invariant\<close>

definition used :: "connection \<Rightarrow> bool" where
  "used c \<longleftrightarrow> c_type c \<noteq> CONN_TYPE_FREE"

definition slot_fds :: "'v event_loop \<Rightarrow> fd set" where
  "slot_fds el = {f. \<exists>i<length (connections el). used (slot el i) \<and> c_fd (slot el i) = f}"

definition el_wf :: "'v event_loop \<Rightarrow> bool" where
  "el_wf el \<longleftrightarrow>
     int (length (connections el)) = conn_capacity el \<and>
     active_count el = int (count_slots used (connections el)) \<and>
     (\<forall>i<length (connections el). \<not> used (slot el i) \<longrightarrow> c_fd (slot el i) = - 1) \<and>
     (\<forall>i<length (connections el). used (slot el i) \<longrightarrow> 0 \<le> c_fd (slot el i)) \<and>
     (\<forall>i<length (connections el). \<forall>j<length (connections el).
        used (slot el i) \<longrightarrow> used (slot el j) \<longrightarrow> c_fd (slot el i) = c_fd (slot el j) \<longrightarrow> i = j) \<and>
     (on_accept (callbacks el) = None \<longrightarrow>
        (\<forall>i<length (connections el). c_type (slot el i) \<noteq> CONN_TYPE_TCP_LISTEN))"

definition el_owns :: "fd set \<Rightarrow> 'v event_loop \<Rightarrow> fd set \<Rightarrow> bool" where
  "el_owns B el S \<longleftrightarrow>
     S = B \<union> insert (epfd el) (slot_fds el) \<and>
     epfd el \<notin> B \<and> B \<inter> slot_fds el = {} \<and> epfd el \<notin> slot_fds el"

definition el_watches :: "'v event_loop \<Rightarrow> (fd \<rightharpoonup> nat option) \<Rightarrow> bool" where
  "el_watches el M \<longleftrightarrow>
     (\<forall>f p. M f = Some p \<longleftrightarrow>
        (\<exists>i<length (connections el). used (slot el i) \<and> c_fd (slot el i) = f \<and> p = Some i))"

definition el_inv :: "fd set \<Rightarrow> 'v event_loop \<Rightarrow> world \<Rightarrow> bool" where
  "el_inv B el w \<longleftrightarrow> el_wf el \<and> el_owns B el (open_fds w) \<and> el_watches el (watched w)"

text \<open>
  What no operation on connections changes; none of them restarts a loop that was stopped.
\<close>

definition el_frame :: "'v event_loop \<Rightarrow> 'v event_loop \<Rightarrow> bool" where
  "el_frame el el' \<longleftrightarrow> epfd el' = epfd el \<and> conn_capacity el' = conn_capacity el \<and>
     callbacks el' = callbacks el \<and> config el' = config el \<and>
     length (connections el') = length (connections el) \<and> (running el' \<longrightarrow> running el)"

lemma el_frame_refl [simp, intro]: "el_frame el el"
  by (simp add: el_frame_def)

lemma el_frame_trans [trans]: "el_frame a b \<Longrightarrow> el_frame b c \<Longrightarrow> el_frame a c"
  by (auto simp: el_frame_def)

lemma el_frame_upd [simp]: "el_frame el (upd_slot i g el')  = el_frame el el'"
  by (simp add: el_frame_def upd_slot_def)

lemma el_frame_active [simp]: "el_frame el (el'\<lparr>active_count := n\<rparr>) = el_frame el el'"
  by (simp add: el_frame_def)

lemmas el_inv_defs = el_inv_def el_wf_def el_owns_def el_watches_def slot_fds_def

section \<open>Steps that leave the invariant alone\<close>

lemma upd_slot_sel [simp]:
  "epfd (upd_slot i g el) = epfd el" "conn_capacity (upd_slot i g el) = conn_capacity el"
  "active_count (upd_slot i g el) = active_count el" "callbacks (upd_slot i g el) = callbacks el"
  "config (upd_slot i g el) = config el" "user_data (upd_slot i g el) = user_data el"
  "length (connections (upd_slot i g el)) = length (connections el)"
  "sip_listen_fd (upd_slot i g el) = sip_listen_fd el"
  "last_idle_check (upd_slot i g el) = last_idle_check el"
  "running (upd_slot i g el) = running el"
  by (simp_all add: upd_slot_def)

lemma slot_upd_same [simp]: "i < length (connections el) \<Longrightarrow> slot (upd_slot i g el) i = g (slot el i)"
  by (simp add: upd_slot_def)

lemma slot_upd_other [simp]: "j \<noteq> i \<Longrightarrow> slot (upd_slot i g el) j = slot el j"
  by (simp add: upd_slot_def)

lemma slot_upd_if:
  "i < length (connections el) \<Longrightarrow>
   slot (upd_slot i g el) j = (if j = i then g (slot el i) else slot el j)"
  by simp

lemma slot_upd_cases: "slot (upd_slot i g el) j = slot el j \<or> slot (upd_slot i g el) j = g (slot el j)"
  by (cases "j = i"; cases "i < length (connections el)") (simp_all add: upd_slot_def list_update_beyond)

lemma slot_upd_fields:
  assumes "\<And>c. c_fd (g c) = c_fd c" and "\<And>c. c_type (g c) = c_type c"
  shows "c_fd (slot (upd_slot i g el) j) = c_fd (slot el j)"
    and "c_type (slot (upd_slot i g el) j) = c_type (slot el j)"
    and "used (slot (upd_slot i g el) j) = used (slot el j)"
  using slot_upd_cases [of i g el j] assms by (auto simp: used_def)

lemma count_upd_fields:
  assumes "\<And>c. c_type (g c) = c_type c"
  shows "count_slots used (connections (upd_slot i g el)) = count_slots used (connections el)"
proof (cases "i < length (connections el)")
  case True
  then show ?thesis using assms by (simp add: upd_slot_def count_slots_update_same used_def)
next
  case False
  then show ?thesis by (simp add: upd_slot_def list_update_beyond)
qed

lemma el_inv_upd [simp]:
  assumes "\<And>c. c_fd (g c) = c_fd c" and "\<And>c. c_type (g c) = c_type c"
  shows "el_inv B (upd_slot i g el) w = el_inv B el w"
  unfolding el_inv_defs
  by (simp add: slot_upd_fields [OF assms] count_upd_fields [OF assms(2)])

lemma el_inv_fields [simp]:
  "el_inv B (el\<lparr>running := x\<rparr>) w = el_inv B el w"
  "el_inv B (el\<lparr>last_idle_check := y\<rparr>) w = el_inv B el w"
  "el_inv B (el\<lparr>sip_listen_fd := y\<rparr>) w = el_inv B el w"
  "el_inv B (el\<lparr>start_time := y\<rparr>) w = el_inv B el w"
  "el_inv B (el\<lparr>start_time := y, last_idle_check := z\<rparr>) w = el_inv B el w"
  "on_accept cb = on_accept (callbacks el) \<Longrightarrow> el_inv B (el\<lparr>callbacks := cb\<rparr>) w = el_inv B el w"
  "el_inv B (el\<lparr>user_data := u\<rparr>) w = el_inv B el w"
  "el_inv B (el_stop el) w = el_inv B el w"
  by (simp_all add: el_inv_defs el_stop_def)

text \<open>Calls that touch no descriptor and no interest list.\<close>

fun neutral_call :: "extcall \<Rightarrow> bool" where
  "neutral_call (Close f) = False"
| "neutral_call (Epoll_ctl op ep f ev p) = False"
| "neutral_call c = (\<not> opens_fd c)"

lemma neutral_observers:
  assumes "neutral_call c"
  shows "open_fds ((c, r) # w) = open_fds w" and "watched ((c, r) # w) = watched w"
  using assms by (cases c; simp)+

lemma el_inv_neutral [simp]: "neutral_call c \<Longrightarrow> el_inv B el ((c, r) # w) = el_inv B el w"
  by (simp add: el_inv_def neutral_observers del: open_fds.simps watched.simps)

lemma el_inv_touch: "el_inv B el w \<Longrightarrow> el_inv B (fst (el_touch_connection E el i w))
     (snd (el_touch_connection E el i w))"
  by (simp add: el_touch_connection_def)

text \<open>Re-registering a slot's own pointer changes nothing.\<close>

lemma el_inv_mod:
  assumes inv: "el_inv B el w" and i: "i < length (connections el)"
  shows "el_inv B el (snd (es_mod_fd E ep (c_fd (slot el i)) ev (Some i) w))"
proof -
  let ?f = "c_fd (slot el i)"
  have wf: "el_wf el" and W: "el_watches el (watched w)"
    using inv by (simp_all add: el_inv_def)
  have same: "watched w ?f = None \<or> watched w ?f = Some (Some i)"
  proof (cases "watched w ?f")
    case (Some p)
    with W obtain j where j: "j < length (connections el)" "used (slot el j)"
      "c_fd (slot el j) = ?f" "p = Some j"
      unfolding el_watches_def by blast
    with wf have "0 \<le> ?f" by (auto simp: el_wf_def)
    with wf i have "used (slot el i)" by (fastforce simp: el_wf_def)
    with wf i j have "j = i" by (simp add: el_wf_def)
    with Some j show ?thesis by simp
  qed simp
  have "watched_step (Epoll_ctl EPOLL_CTL_MOD ep ?f ev (Some i)) r (watched w) = watched w" for r
    using same by (auto simp: fun_upd_idem)
  with inv show ?thesis
    by (simp add: el_inv_def es_mod_fd_def Let_def del: watched_step.simps)
qed

section \<open>Removing and adding a connection\<close>

lemma not_used_free [simp]: "\<not> used (free_connection c)" "c_fd (free_connection c) = - 1"
  "c_type (free_connection c) = CONN_TYPE_FREE" "c_state (free_connection c) = CONN_STATE_ACTIVE"
  by (simp_all add: used_def free_connection_def)

lemma used_type: "used c \<longleftrightarrow> c_type c \<noteq> CONN_TYPE_FREE"
  by (simp add: used_def)

lemma slot_fds_upd:
  assumes "i < length (connections el)"
  shows "slot_fds (upd_slot i g el) =
    {f. \<exists>j<length (connections el). j \<noteq> i \<and> used (slot el j) \<and> c_fd (slot el j) = f} \<union>
    (if used (g (slot el i)) then {c_fd (g (slot el i))} else {})"
proof -
  have "slot_fds (upd_slot i g el) = {f. \<exists>j<length (connections el).
      used (if j = i then g (slot el i) else slot el j) \<and>
      c_fd (if j = i then g (slot el i) else slot el j) = f}"
    by (simp only: slot_fds_def upd_slot_sel slot_upd_if [OF assms])
  also have "\<dots> = {f. \<exists>j<length (connections el). j \<noteq> i \<and> used (slot el j) \<and> c_fd (slot el j) = f} \<union>
    (if used (g (slot el i)) then {c_fd (g (slot el i))} else {})"
    using assms by (auto split: if_splits)
  finally show ?thesis .
qed

lemma slot_fds_others:
  assumes "el_wf el" and "i < length (connections el)"
  shows "{f. \<exists>j<length (connections el). j \<noteq> i \<and> used (slot el j) \<and> c_fd (slot el j) = f} =
    slot_fds el - (if used (slot el i) then {c_fd (slot el i)} else {})"
  using assms unfolding slot_fds_def el_wf_def by (cases "used (slot el i)") fastforce+

lemma slot_fds_active [simp]: "slot_fds (el\<lparr>active_count := n\<rparr>) = slot_fds el"
  by (simp add: slot_fds_def)

lemma el_wf_free:
  assumes wf: "el_wf el" and i: "i < length (connections el)" and u: "used (slot el i)"
  shows "el_wf ((upd_slot i free_connection el)\<lparr>active_count := active_count el - 1\<rparr>)"
proof -
  have pos: "0 < count_slots used (connections el)"
    using i u by (rule count_slots_pos)
  have cnt: "count_slots used (connections (upd_slot i free_connection el)) =
      count_slots used (connections el) - 1"
    using i u by (simp add: upd_slot_def count_slots_update_del)
  have sl: "slot (upd_slot i free_connection el) j =
      (if j = i then free_connection (slot el i) else slot el j)" for j
    using i by simp
  from wf pos show ?thesis
    unfolding el_wf_def by (simp add: cnt sl of_nat_diff)
qed

lemma el_watches_free:
  assumes W: "el_watches el M" and wf: "el_wf el" and i: "i < length (connections el)"
    and u: "used (slot el i)"
  shows "el_watches (upd_slot i free_connection el) (M(c_fd (slot el i) := None))"
proof -
  have sl: "slot (upd_slot i free_connection el) j =
      (if j = i then free_connection (slot el i) else slot el j)" for j
    using i by simp
  have other: "c_fd (slot el j) \<noteq> c_fd (slot el i)"
    if "j < length (connections el)" "used (slot el j)" "j \<noteq> i" for j
    using wf i u that by (auto simp: el_wf_def)
  show ?thesis
    unfolding el_watches_def
  proof (intro allI)
    fix f p
    show "(M(c_fd (slot el i) := None)) f = Some p \<longleftrightarrow>
      (\<exists>j<length (connections (upd_slot i free_connection el)).
         used (slot (upd_slot i free_connection el) j) \<and>
         c_fd (slot (upd_slot i free_connection el) j) = f \<and> p = Some j)"
      using W i other unfolding el_watches_def sl upd_slot_sel
      by (cases "f = c_fd (slot el i)") (auto, fastforce)
  qed
qed

lemma el_remove_inv:
  assumes inv: "el_inv B el w" and i: "i < length (connections el)"
    and run: "el_remove_connection E el i w = (el', w')"
  shows "el_inv B el' w'" and "el_frame el el'" and "c_type (slot el' i) = CONN_TYPE_FREE"
proof -
  have wf: "el_wf el" and O: "el_owns B el (open_fds w)" and W: "el_watches el (watched w)"
    using inv by (simp_all add: el_inv_def)
  have "el_inv B el' w' \<and> el_frame el el' \<and> c_type (slot el' i) = CONN_TYPE_FREE"
  proof (cases "used (slot el i)")
    case False
    with run inv show ?thesis by (simp add: el_remove_connection_def used_def)
  next
    case True
    let ?f = "c_fd (slot el i)"
    from wf i True have f: "0 \<le> ?f" by (simp add: el_wf_def)
    have el': "el' = (upd_slot i free_connection el)\<lparr>active_count := active_count el - 1\<rparr>"
      and w': "w' = es_close_socket E ?f (snd (es_del_fd E (epfd el) ?f w))"
      using run True f by (simp_all add: el_remove_connection_def used_def Let_def)
    have ofd: "open_fds w' = open_fds w - {?f}"
      using f by (simp add: w' world_simps)
    have wtc: "watched w' = (watched w)(?f := None)"
      using f by (simp add: w' es_wrapper_defs Let_def)
    have sf: "slot_fds el' = slot_fds el - {?f}"
      using i True by (simp add: el' slot_fds_upd slot_fds_others [OF wf i])
    have mem: "?f \<in> slot_fds el" using i True by (auto simp: slot_fds_def)
    have "el_owns B el' (open_fds w')"
      using O mem unfolding el_owns_def ofd sf by (auto simp: el')
    moreover have "el_watches el' (watched w')"
      using el_watches_free [OF W wf i True] unfolding wtc el' by (simp add: el_watches_def)
    moreover have "el_wf el'" unfolding el' by (rule el_wf_free [OF wf i True])
    ultimately show ?thesis using i by (simp add: el_inv_def el')
  qed
  then show "el_inv B el' w'" "el_frame el el'" "c_type (slot el' i) = CONN_TYPE_FREE"
    by blast+
qed

lemma alloc_cases:
  assumes "alloc_connection el = (r, el')"
  shows "(r = None \<and> el' = el \<and> (\<forall>c\<in>set (connections el). used c)) \<or>
    (\<exists>i<length (connections el). r = Some i \<and> \<not> used (slot el i) \<and>
       (\<forall>j<i. used (slot el j)) \<and> el' = upd_slot i (\<lambda>c. zero_connection\<lparr>c_fd := - 1\<rparr>) el)"
  using assms first_index_SomeD [of "\<lambda>c. c_type c = CONN_TYPE_FREE" "connections el"]
    first_index_None_iff [of "\<lambda>c. c_type c = CONN_TYPE_FREE" "connections el"]
  by (auto simp: alloc_connection_def used_def split: option.splits)

text \<open>A free slot exists exactly while the count is below the capacity.\<close>

lemma alloc_free_slot:
  assumes "el_wf el" and "active_count el < conn_capacity el"
  shows "\<exists>i el'. alloc_connection el = (Some i, el')"
proof -
  from assms have "count_slots used (connections el) < length (connections el)"
    by (simp add: el_wf_def)
  then obtain c where "c \<in> set (connections el)" "\<not> used c" using count_slots_lt_ex by blast
  then show ?thesis
    using alloc_cases [of el "fst (alloc_connection el)" "snd (alloc_connection el)"]
    by (cases "alloc_connection el") auto
qed

lemma upd_slot_upd_slot:
  "i < length (connections el) \<Longrightarrow> upd_slot i g (upd_slot i h el) = upd_slot i (\<lambda>c. g (h c)) el"
  by (simp add: upd_slot_def)

lemma zero_connection_unused [simp]: "\<not> used (zero_connection\<lparr>c_fd := x\<rparr>)"
  by (simp add: used_def zero_connection_def)

text \<open>Rewriting a free slot that stays free.\<close>

lemma el_inv_unused_upd:
  assumes inv: "el_inv B el w" and i: "i < length (connections el)" and u: "\<not> used (slot el i)"
    and g: "\<not> used (g (slot el i))" "c_fd (g (slot el i)) = - 1"
  shows "el_inv B (upd_slot i g el) w"
proof -
  have cnt: "count_slots used (connections (upd_slot i g el)) = count_slots used (connections el)"
    using i u g by (simp add: upd_slot_def count_slots_update_same)
  have wf: "el_wf (upd_slot i g el)"
    using inv g u unfolding el_inv_def el_wf_def upd_slot_sel slot_upd_if [OF i] cnt
    by (auto simp: used_def)
  have "slot_fds (upd_slot i g el) = slot_fds el"
    using inv u g by (simp add: slot_fds_upd [OF i] slot_fds_others [OF _ i] el_inv_def)
  with inv have O: "el_owns B (upd_slot i g el) (open_fds w)"
    by (simp add: el_inv_def el_owns_def)
  have "el_watches (upd_slot i g el) (watched w)"
    using inv u g unfolding el_inv_def el_watches_def upd_slot_sel slot_upd_if [OF i] by auto
  with wf O show ?thesis by (simp add: el_inv_def)
qed

text \<open>Filling a free slot with a descriptor that was loose until then.\<close>

lemma el_inv_occupy:
  assumes inv: "el_inv (insert f B) el w" and B: "f \<notin> B"
    and i: "i < length (connections el)" and u: "\<not> used (slot el i)"
    and g: "used (g (slot el i))" "c_fd (g (slot el i)) = f" and f: "0 \<le> f"
    and ls: "c_type (g (slot el i)) = CONN_TYPE_TCP_LISTEN \<longrightarrow> on_accept (callbacks el) \<noteq> None"
    and ofd: "open_fds w' = open_fds w" and wtc: "watched w' = (watched w)(f \<mapsto> Some i)"
  shows "el_inv B ((upd_slot i g el)\<lparr>active_count := active_count el + 1\<rparr>) w'"
proof -
  let ?el = "(upd_slot i g el)\<lparr>active_count := active_count el + 1\<rparr>"
  have wf: "el_wf el" and O: "el_owns (insert f B) el (open_fds w)"
    and W: "el_watches el (watched w)"
    using inv by (simp_all add: el_inv_def)
  have nf: "f \<notin> slot_fds el" "f \<noteq> epfd el" using O by (auto simp: el_owns_def)
  have other: "c_fd (slot el j) \<noteq> f" if "j < length (connections el)" "used (slot el j)" for j
    using nf that by (auto simp: slot_fds_def)
  have cnt: "count_slots used (connections (upd_slot i g el)) = Suc (count_slots used (connections el))"
    using i u g by (simp add: upd_slot_def count_slots_update_add)
  have sl: "slot ?el j = (if j = i then g (slot el i) else slot el j)" for j
    using i by simp
  have ln: "length (connections ?el) = length (connections el)" by simp
  have "el_wf ?el"
    using wf g f ls other unfolding el_wf_def sl ln by (simp add: cnt) (auto dest: other)
  moreover have "slot_fds ?el = insert f (slot_fds el)"
    using u g by (simp add: slot_fds_upd [OF i] slot_fds_others [OF wf i])
  then have "el_owns B ?el (open_fds w')"
    using O nf B by (auto simp: el_owns_def ofd)
  moreover have "el_watches ?el (watched w')"
    unfolding el_watches_def
  proof (intro allI)
    fix h p
    show "watched w' h = Some p \<longleftrightarrow>
      (\<exists>j<length (connections ?el). used (slot ?el j) \<and> c_fd (slot ?el j) = h \<and> p = Some j)"
      unfolding wtc sl ln
      using W i g u other unfolding el_watches_def
      by (cases "h = f") (auto, fastforce)
  qed
  ultimately show ?thesis by (simp add: el_inv_def)
qed

lemma el_add_inv:
  assumes inv: "el_inv (insert f B) el w" and B: "f \<notin> B" and ty: "type \<noteq> CONN_TYPE_FREE"
    and ls: "type = CONN_TYPE_TCP_LISTEN \<longrightarrow> on_accept (callbacks el) \<noteq> None"
    and run: "el_add_connection E el f type ev addr port w = (r, el', w')"
  shows "el_frame el el' \<and>
    (case r of
       None \<Rightarrow> el_inv (insert f B) el' w'
     | Some i \<Rightarrow> el_inv B el' w' \<and> i < length (connections el') \<and> c_fd (slot el' i) = f \<and>
         c_type (slot el' i) = type \<and> c_state (slot el' i) = CONN_STATE_ACTIVE)"
proof (cases "f < 0 \<or> conn_capacity el \<le> active_count el")
  case True
  then have "el_add_connection E el f type ev addr port w = (None, el, w)"
    by (cases "f < 0") (simp_all add: el_add_connection_def)
  with run inv show ?thesis by simp
next
  case False
  then have f: "0 \<le> f" by simp
  from inv False obtain i el1 where al: "alloc_connection el = (Some i, el1)"
    using alloc_free_slot by (fastforce simp: el_inv_def)
  from alloc_cases [OF al] have i: "i < length (connections el)" and u: "\<not> used (slot el i)"
    and el1: "el1 = upd_slot i (\<lambda>c. zero_connection\<lparr>c_fd := - 1\<rparr>) el"
    by auto
  let ?t = "rv (E w Time)"
  define g where "g c = c\<lparr>c_fd := f, c_type := type, c_state := CONN_STATE_ACTIVE,
      create_time := ?t, last_active := ?t,
      remote_addr := (case addr of None \<Rightarrow> remote_addr c | Some a \<Rightarrow> strncpy 63 a),
      remote_port := port\<rparr>" for c :: connection
  define z where "z = zero_connection\<lparr>c_fd := - 1\<rparr>"
  have fill: "upd_slot i g el1 = upd_slot i (\<lambda>c. g z) el"
    using i by (simp add: el1 upd_slot_upd_slot z_def)
  have g: "used (g z)" "c_fd (g z) = f" "c_type (g z) = type" "c_state (g z) = CONN_STATE_ACTIVE"
    using ty by (simp_all add: g_def used_def)
  let ?w = "(Time, E w Time) # w"
  let ?add = "es_add_fd E (epfd el) f ev (Some i) ?w"
  have step: "el_add_connection E el f type ev addr port w =
     (if fst ?add \<noteq> ES_OK then (None, upd_slot i free_connection (upd_slot i g el1), snd ?add)
      else (Some i, (upd_slot i g el1)\<lparr>active_count := active_count el + 1\<rparr>, snd ?add))"
    using False al
    by (simp add: el_add_connection_def Let_def el1 g_def [abs_def] case_prod_beta)
  show ?thesis
  proof (cases "fst ?add = ES_OK")
    case True
    have "open_fds (snd ?add) = open_fds ?w" "watched (snd ?add) = (watched ?w)(f \<mapsto> Some i)"
      using True by (auto simp: es_add_fd_def Let_def split: if_splits)
    then have "el_inv B ((upd_slot i (\<lambda>c. g z) el)\<lparr>active_count := active_count el + 1\<rparr>) (snd ?add)"
      using inv B i u g f ls by (intro el_inv_occupy [where w = ?w]) simp_all
    with True run step fill i g show ?thesis by auto
  next
    case False
    have "open_fds (snd ?add) = open_fds w" "watched (snd ?add) = watched w"
      using False by (auto simp: es_add_fd_def Let_def split: if_splits)
    with inv have inv': "el_inv (insert f B) el (snd ?add)" by (simp add: el_inv_def)
    have "el_inv (insert f B) (upd_slot i (\<lambda>c. free_connection (g z)) el) (snd ?add)"
      using inv' i u by (intro el_inv_unused_upd) simp_all
    with False run step fill i show ?thesis by (auto simp: upd_slot_upd_slot)
  qed
qed

text \<open>A loose descriptor appears when the system hands one out and disappears when closed.\<close>

lemma el_inv_opened:
  assumes inv: "el_inv B el w" and c: "opens_fd c" "0 \<le> rv (E w c)" and fresh: "fresh_fds E"
  shows "el_inv (insert (rv (E w c)) B) el ((c, E w c) # w)" and "rv (E w c) \<notin> B"
proof -
  have new: "rv (E w c) \<notin> open_fds w" using fresh c by (rule fresh_fdsD)
  have ofd: "open_fds ((c, E w c) # w) = insert (rv (E w c)) (open_fds w)"
    using c by (cases c) simp_all
  have wtc: "watched ((c, E w c) # w) = watched w"
    using c by (cases c) simp_all
  show "rv (E w c) \<notin> B" using inv new by (auto simp: el_inv_def el_owns_def)
  show "el_inv (insert (rv (E w c)) B) el ((c, E w c) # w)"
    using inv new unfolding el_inv_def ofd wtc by (auto simp: el_owns_def)
qed

lemma el_inv_closed:
  assumes inv: "el_inv (insert f B) el w" and B: "f \<notin> B" and f: "0 \<le> f"
  shows "el_inv B el (es_close_socket E f w)"
proof -
  have O: "el_owns (insert f B) el (open_fds w)" and W: "el_watches el (watched w)"
    using inv by (simp_all add: el_inv_def)
  have nf: "f \<notin> slot_fds el" using O by (auto simp: el_owns_def)
  have "watched w f = None"
  proof (cases "watched w f")
    case (Some p)
    with W have "f \<in> slot_fds el" unfolding el_watches_def slot_fds_def by blast
    with nf show ?thesis by simp
  qed
  then have "(watched w)(f := None) = watched w" by auto
  with inv O B f show ?thesis
    by (auto simp: el_inv_def es_close_socket_def el_owns_def)
qed

section \<open>Callbacks, sending and reading\<close>

text \<open>
  \<open>keeps B el r\<close>: the result \<open>r\<close> of an operation on \<open>el\<close> keeps the invariant and the frame.
\<close>

definition keeps :: "fd set \<Rightarrow> 'v event_loop \<Rightarrow> 'v event_loop \<times> world \<Rightarrow> bool" where
  "keeps B el r \<longleftrightarrow> el_inv B (fst r) (snd r) \<and> el_frame el (fst r)"

lemma keepsI: "el_inv B el' w' \<Longrightarrow> el_frame el el' \<Longrightarrow> keeps B el (el', w')"
  by (simp add: keeps_def)

lemma keepsD: "keeps B el (el', w') \<Longrightarrow> el_inv B el' w' \<and> el_frame el el'"
  by (simp add: keeps_def)

lemma keeps_refl [simp]: "keeps B el (el, w) = el_inv B el w"
  by (simp add: keeps_def)

lemma keeps_trans: "keeps B el1 r \<Longrightarrow> el_frame el el1 \<Longrightarrow> keeps B el r"
  by (auto simp: keeps_def intro: el_frame_trans)

lemma el_frame_length: "el_frame el el' \<Longrightarrow> length (connections el') = length (connections el)"
  by (simp add: el_frame_def)

lemma keeps_remove:
  assumes "el_inv B el w" and "i < length (connections el)"
  shows "keeps B el (el_remove_connection E el i w)"
  using el_remove_inv [OF assms, of E] by (cases "el_remove_connection E el i w") (auto simp: keeps_def)

lemma keeps_on_close:
  assumes "el_inv B el w" and "i < length (connections el)"
  shows "keeps B el (call_on_close E el i w)"
  using keeps_remove [OF assms, of E] assms
  by (auto simp: call_on_close_def default_on_close_def split: option.splits on_close_fn.splits)

lemma keeps_on_error:
  assumes inv: "el_inv B el w" and i: "i < length (connections el)"
  shows "keeps B el (call_on_error E el i w)"
proof (cases "on_error (callbacks el)")
  case None
  with inv show ?thesis by (simp add: call_on_error_def)
next
  case (Some fn)
  let ?el1 = "upd_slot i (\<lambda>c. c\<lparr>c_state := CONN_STATE_ERROR\<rparr>) el"
  obtain el2 w2 where r: "call_on_close E ?el1 i w = (el2, w2)" by fastforce
  have "keeps B ?el1 (el2, w2)"
    using keeps_on_close [of B ?el1 w i E] inv i by (simp add: r)
  then have k: "el_inv B el2 w2" "el_frame el el2" by (simp_all add: keeps_def el_frame_def)
  with i have "keeps B el2 (el_remove_connection E el2 i w2)"
    by (intro keeps_remove) (simp_all add: el_frame_length)
  with k(2) Some r show ?thesis
    by (cases fn) (auto simp: call_on_error_def default_on_error_def Let_def intro: keeps_trans)
qed

lemma el_inv_es_send_all [simp]:
  "el_inv B el (snd (snd (es_send_all E f b off len u d w))) = el_inv B el w"
  by (auto simp: es_send_all_def Let_def)

lemma keeps_send_data:
  assumes inv: "el_inv B el w" and i: "i < length (connections el)"
    and run: "el_send_data E el (Some i) data len u d w = (res, el', w')"
  shows "keeps B el (el', w')"
proof (cases "data = None \<or> len \<le> 0 \<or> EL_SEND_BUF_SIZE < len")
  case True
  with run inv show ?thesis by (auto simp: el_send_data_def split: option.splits if_splits)
next
  case False
  then obtain bs where d: "data = Some bs" by auto
  let ?el1 = "upd_slot i (\<lambda>c. c\<lparr>send_buf := take (nat len) bs @ drop (nat len) (send_buf c),
                     send_len := len, send_offset := 0\<rparr>) el"
  let ?c = "slot ?el1 i"
  obtain ret out w1 where s: "es_send_all E (c_fd ?c) (send_buf ?c) 0 (send_len ?c) u d w = (ret, out, w1)"
    by (cases "es_send_all E (c_fd ?c) (send_buf ?c) 0 (send_len ?c) u d w") auto
  have w1: "el_inv B X w1 = el_inv B X w" for X :: "'a event_loop"
    using el_inv_es_send_all [of B X E "c_fd ?c" "send_buf ?c" 0 "send_len ?c" u d w] by (simp add: s)
  have fd: "c_fd ?c = c_fd (slot el i)" using i by simp
  have m: "el_inv B el (snd (es_mod_fd E ep (c_fd (slot el i)) ev (Some i) w1))" for ep ev
    using inv i w1 [of el] by (intro el_inv_mod) simp_all
  show ?thesis
    using run False d inv s w1 m fd
    by (auto simp: el_send_data_def Let_def keeps_def case_prod_beta
        split: es_send_result.splits if_splits prod.splits)
qed

lemma el_frame_fields [simp]:
  "el_frame el (el'\<lparr>last_idle_check := y\<rparr>) = el_frame el el'"
  "el_frame el (el_stop el)"
  by (simp_all add: el_frame_def el_stop_def)

lemma keeps_on_write:
  assumes inv: "el_inv B el w" and i: "i < length (connections el)"
  shows "keeps B el (call_on_write E el i w)"
proof (cases "on_write (callbacks el)")
  case None
  with inv show ?thesis by (simp add: call_on_write_def)
next
  case (Some fn)
  let ?c = "slot el i"
  have m: "el_inv B el (snd (es_mod_fd E ep (c_fd (slot el i)) ev (Some i) w1))"
    if "el_inv B el w1" for ep ev w1
    using that i by (rule el_inv_mod)
  have "keeps B el (default_on_write E el i w)"
  proof (cases "send_len ?c \<le> 0 \<or> send_len ?c \<le> send_offset ?c")
    case True
    with m [OF inv] show ?thesis
      by (auto simp: default_on_write_def Let_def keeps_def case_prod_beta)
  next
    case False
    obtain ret out w1 where s: "es_send_all E (c_fd ?c) (send_buf ?c) (send_offset ?c)
        (send_len ?c - send_offset ?c) (is_udp_type (c_type ?c)) None w = (ret, out, w1)"
      by (cases "es_send_all E (c_fd ?c) (send_buf ?c) (send_offset ?c)
        (send_len ?c - send_offset ?c) (is_udp_type (c_type ?c)) None w") auto
    have w1: "el_inv B el w1"
      using el_inv_es_send_all [of B el E "c_fd ?c" "send_buf ?c" "send_offset ?c"
        "send_len ?c - send_offset ?c" "is_udp_type (c_type ?c)" None w] inv by (simp add: s)
    have e: "keeps B el (call_on_error E (upd_slot i clear_send el) i w1)"
      using keeps_on_error [of B "upd_slot i clear_send el" w1 i E] w1 i
      by (auto intro: keeps_trans)
    show ?thesis
      using False s w1 e m [OF w1]
      by (auto simp: default_on_write_def Let_def case_prod_beta keeps_def)
  qed
  with Some show ?thesis by (cases fn) (simp add: call_on_write_def)
qed

lemma udp_drain_inv:
  assumes run: "udp_drain E f w = Some w'" and inv: "el_inv B el w"
  shows "el_inv B el w'"
proof -
  have "el_inv B el w \<longrightarrow> el_inv B el w'"
    by (rule udp_drain.raw_induct [where P = "\<lambda>E f w w'. el_inv B el w \<longrightarrow> el_inv B el w'", OF _ run])
      (auto simp: Let_def split: if_splits)
  with inv show ?thesis by blast
qed

lemma tcp_drain_inv:
  assumes run: "tcp_drain E f w = Some r" and inv: "el_inv B el w"
  shows "el_inv B el (snd r)"
proof -
  have "el_inv B el w \<longrightarrow> el_inv B el (snd r)"
    by (rule tcp_drain.raw_induct
        [where P = "\<lambda>E f w r. el_inv B el w \<longrightarrow> el_inv B el (snd r)", OF _ run])
      (auto simp: Let_def split: if_splits)
  with inv show ?thesis by blast
qed

lemma keeps_default_read:
  assumes inv: "el_inv B el w" and i: "i < length (connections el)"
    and run: "el_default_on_read E el i w = Some r"
  shows "keeps B el r"
proof (cases "is_udp_type (c_type (slot el i))")
  case True
  with run inv show ?thesis
    by (auto simp: el_default_on_read_def dest: udp_drain_inv)
next
  case False
  with run obtain e w1 where d: "tcp_drain E (c_fd (slot el i)) w = Some (e, w1)"
    by (auto simp: el_default_on_read_def split: option.splits)
  have w1: "el_inv B el w1" using tcp_drain_inv [OF d inv] by simp
  from run False d w1 keeps_on_close [OF w1 i, of E] keeps_on_error [OF w1 i, of E]
  show ?thesis by (auto simp: el_default_on_read_def split: read_end.splits)
qed

section \<open>Accepting\<close>

lemma keeps_on_accept:
  assumes inv: "el_inv (insert f B) el w" and f: "f \<notin> B" "0 \<le> f"
    and cb: "on_accept (callbacks el) \<noteq> None"
  shows "keeps B el (call_on_accept E el f a w)"
proof -
  obtain r el1 w1 where ad: "el_add_connection E el f CONN_TYPE_TCP_CLIENT DEFAULT_TCP_EVENTS
      (Some (es_addr_to_str (Some a) 64)) (sin_port a) w = (r, el1, w1)"
    by (cases "el_add_connection E el f CONN_TYPE_TCP_CLIENT DEFAULT_TCP_EVENTS
      (Some (es_addr_to_str (Some a) 64)) (sin_port a) w") auto
  from el_add_inv [OF inv f(1) _ _ ad]
  have k: "el_frame el el1" "case r of None \<Rightarrow> el_inv (insert f B) el1 w1 | Some i \<Rightarrow> el_inv B el1 w1"
    by (auto split: option.splits)
  from cb obtain fn where "on_accept (callbacks el) = Some fn" by blast
  with ad k f show ?thesis
    by (cases fn; cases r)
      (auto simp: call_on_accept_def default_on_accept_def keeps_def intro: el_inv_closed)
qed

lemma el_inv_wrappers [simp]:
  "el_inv B el (snd (es_set_nonblocking E f w)) = el_inv B el w"
  by (simp add: es_set_nonblocking_def Let_def)

lemma handle_accept_keeps:
  assumes run: "handle_accept E el l w = Some r" and fresh: "fresh_fds E"
    and cb: "on_accept (callbacks el) \<noteq> None" and inv: "el_inv B el w"
  shows "keeps B el r"
proof -
  have "fresh_fds E \<longrightarrow> on_accept (callbacks el) \<noteq> None \<longrightarrow> el_inv B el w \<longrightarrow> keeps B el r"
  proof (rule handle_accept.raw_induct [where P = "\<lambda>E el l w r. fresh_fds E \<longrightarrow>
      on_accept (callbacks el) \<noteq> None \<longrightarrow> el_inv B el w \<longrightarrow> keeps B el r", OF _ run], intro impI)
    fix ha :: "env \<Rightarrow> 'a event_loop \<Rightarrow> nat \<Rightarrow> world \<Rightarrow> ('a event_loop \<times> world) option"
    fix E :: env and el :: "'a event_loop" and l :: nat and w :: world and r
    let ?c = "Accept (c_fd (slot el l))"
    let ?a = "E w ?c"
    let ?w = "(?c, ?a) # w"
    let ?n = "es_set_nonblocking E (rv ?a) ?w"
    assume IH: "\<And>E el l w r. ha E el l w = Some r \<Longrightarrow> fresh_fds E \<longrightarrow>
        on_accept (callbacks el) \<noteq> None \<longrightarrow> el_inv B el w \<longrightarrow> keeps B el r"
      and fresh: "fresh_fds E" and cb: "on_accept (callbacks el) \<noteq> None" and inv: "el_inv B el w"
    assume body: "(let r = E w ?c; w = (?c, r) # w
      in if rv r < 0 then
           (if would_block (err r) then Some (el, w)
            else if err r = EINTR then ha E el l w else Some (el, w))
         else if conn_capacity el \<le> active_count el then ha E el l (es_close_socket E (rv r) w)
         else if fst (es_set_nonblocking E (rv r) w) \<noteq> ES_OK then
           ha E el l (es_close_socket E (rv r) (snd (es_set_nonblocking E (rv r) w)))
         else (case call_on_accept E el (rv r) (peer r) (snd (es_set_nonblocking E (rv r) w)) of
              (el, w) \<Rightarrow> ha E el l w)) = Some r"
    show "keeps B el r"
    proof (cases "rv ?a < 0")
      case True
      then have "watched ?w = watched w" "open_fds ?w = open_fds w" by simp_all
      then have "el_inv B el ?w" using inv by (simp add: el_inv_def)
      with True body IH fresh cb show ?thesis
        by (auto simp: Let_def split: if_splits)
    next
      case False
      then have n: "rv ?a \<notin> B" and w: "el_inv (insert (rv ?a) B) el ?w"
        using el_inv_opened [OF inv _ _ fresh, of ?c] by simp_all
      have shut: "el_inv B el (es_close_socket E (rv ?a) ?w)"
        "el_inv B el (es_close_socket E (rv ?a) (snd ?n))"
        using False n w by (auto intro: el_inv_closed)
      obtain el1 w1 where acc: "call_on_accept E el (rv ?a) (peer ?a) (snd ?n) = (el1, w1)"
        by fastforce
      have "keeps B el (el1, w1)"
        using False n w cb keeps_on_accept [of "rv ?a" B el "snd ?n" E "peer ?a"] by (simp add: acc)
      then have k: "el_inv B el1 w1" "el_frame el el1" by (simp_all add: keeps_def)
      then have "on_accept (callbacks el1) \<noteq> None" using cb by (simp add: el_frame_def)
      with k IH fresh have "ha E el1 l w1 = Some r \<Longrightarrow> keeps B el r"
        by (blast intro: keeps_trans)
      moreover from body False have "ha E el l (es_close_socket E (rv ?a) ?w) = Some r \<or>
          ha E el l (es_close_socket E (rv ?a) (snd ?n)) = Some r \<or> ha E el1 l w1 = Some r"
        by (auto simp: Let_def acc split: if_splits)
      ultimately show ?thesis using shut IH fresh cb by blast
    qed
  qed
  with fresh cb inv show ?thesis by blast
qed

end
