(* ===== verification/Event_Loop_Run.thy ===== *)
theory Event_Loop_Run
  imports Event_Loop_Inv
begin

text \<open>
  The event loop as a whole. The application's handlers are an interface: the locale
  \<open>event_handlers\<close> states the contract the loop relies on (a handler keeps the invariant),
  and the loop's own preservation theorems are proved once inside it. Every provider of a
  handler interprets it.
\<close>

section \<open>The contract of the application's handlers\<close>

locale event_handlers =
  fixes rd :: "'v reader"
    and idl :: "'v idler"
  assumes rd_keeps: "fresh_fds E \<Longrightarrow> el_inv B el w \<Longrightarrow> i < length (connections el) \<Longrightarrow>
      rd E el i w = Some r \<Longrightarrow> keeps B el r"
    and idl_keeps: "fresh_fds E \<Longrightarrow> el_inv B el w \<Longrightarrow> keeps B el (idl E el w)"
begin

lemma on_read_keeps:
  assumes "fresh_fds E" and "el_inv B el w" and "i < length (connections el)"
    and "call_on_read rd E el i w = Some r"
  shows "keeps B el r"
proof (cases "on_read (callbacks el)")
  case None
  with assms show ?thesis by (auto simp: call_on_read_def)
next
  case (Some fn)
  with assms show ?thesis
    by (cases fn) (auto simp: call_on_read_def intro: rd_keeps keeps_default_read)
qed

lemma client_event_keeps:
  assumes fresh: "fresh_fds E" and inv: "el_inv B el w" and i: "i < length (connections el)"
    and run: "handle_client_event rd E el i ev w = Some r"
  shows "keeps B el r"
proof (cases "c_state (slot el i) = CONN_STATE_ACTIVE")
  case False
  with run inv show ?thesis by (auto simp: handle_client_event_def)
next
  case True
  obtain el1 w1 where t: "el_touch_connection E el i w = (el1, w1)" by fastforce
  have inv1: "el_inv B el1 w1" and fr1: "el_frame el el1"
    using inv t by (auto simp: el_touch_connection_def)
  have i1: "i < length (connections el1)" using i fr1 by (simp add: el_frame_def)
  let ?wf = "snd (ext E (Getsockopt_error (c_fd (slot el1 i))) w1)"
  have er: "keeps B el (call_on_error E el1 i w1)" "keeps B el (call_on_error E el1 i ?wf)"
    using inv1 i1 fr1 by (auto intro!: keeps_trans [OF keeps_on_error])
  have cl: "keeps B el (call_on_close E el1 i w1)"
    using inv1 i1 fr1 by (auto intro!: keeps_trans [OF keeps_on_close])
  obtain el2 w2 where wr: "call_on_write E el1 i w1 = (el2, w2)" by fastforce
  have k2: "el_inv B el2 w2" "el_frame el el2"
    using keeps_on_write [OF inv1 i1, of E] fr1 wr
    by (auto simp: keeps_def intro: el_frame_trans)
  have i2: "i < length (connections el2)" using i k2 by (simp add: el_frame_def)
  have rd1: "keeps B el r" if "call_on_read rd E el1 i w1 = Some r"
    using that on_read_keeps [OF fresh inv1 i1] fr1 by (blast intro: keeps_trans)
  have rd2: "keeps B el r" if "call_on_read rd E el2 i w2 = Some r"
    using that on_read_keeps [OF fresh k2(1) i2] k2 by (blast intro: keeps_trans)
  show ?thesis
    using run True er cl rd1 rd2 k2 inv1 fr1
    by (auto simp: handle_client_event_def t wr Let_def keepsI split: if_splits)
qed

lemma dispatch_event_keeps:
  assumes fresh: "fresh_fds E" and inv: "el_inv B el w"
    and p: "\<And>i. fst ev = Some i \<Longrightarrow> i < length (connections el)"
    and run: "dispatch_event rd E el ev w = Some r"
  shows "keeps B el r"
proof (cases "fst ev")
  case None
  with run inv show ?thesis by (auto simp: dispatch_event_def)
next
  case (Some i)
  have i: "i < length (connections el)" using Some by (rule p)
  have "on_accept (callbacks el) \<noteq> None" if "c_type (slot el i) = CONN_TYPE_TCP_LISTEN"
    using inv i that by (auto simp: el_inv_def el_wf_def)
  with Some run inv i fresh show ?thesis
    by (auto simp: dispatch_event_def split: if_splits
        intro: handle_accept_keeps client_event_keeps)
qed

lemma dispatch_events_keeps:
  assumes "fresh_fds E" and "el_inv B el w"
    and "\<And>i ev. (Some i, ev) \<in> set es \<Longrightarrow> i < length (connections el)"
    and "dispatch_events rd E el es w = Some r"
  shows "keeps B el r"
  using assms(2-4)
proof (induction es arbitrary: el w)
  case Nil
  then show ?case by auto
next
  case (Cons ev es)
  from Cons.prems(3) obtain el1 w1 where d: "dispatch_event rd E el ev w = Some (el1, w1)"
    and rest: "dispatch_events rd E el1 es w1 = Some r"
    by (auto split: option.splits)
  have "keeps B el (el1, w1)"
    using assms(1) Cons.prems(1) _ d
    by (rule dispatch_event_keeps) (metis Cons.prems(2) list.set_intros(1) prod.collapse)
  then have k: "el_inv B el1 w1" "el_frame el el1" by (simp_all add: keeps_def)
  have "i < length (connections el1)" if "(Some i, e) \<in> set es" for i e
    using Cons.prems(2) [of i e] that k(2) by (simp add: el_frame_def)
  then have "keeps B el1 r" using k(1) rest by (intro Cons.IH)
  then show ?case using k(2) by (rule keeps_trans)
qed

end

section \<open>Idle cleanup\<close>

lemma cleanup_slots_keeps:
  assumes "el_inv B el w" and "\<forall>i\<in>set is. i < length (connections el)"
  shows "keeps B el (cleanup_slots E now is el w)"
  using assms
proof (induction "is" arbitrary: el w)
  case Nil
  then show ?case by simp
next
  case (Cons i "is")
  show ?case
  proof (cases "c_type (slot el i) \<noteq> CONN_TYPE_FREE \<and> c_type (slot el i) \<noteq> CONN_TYPE_TCP_LISTEN \<and>
      c_state (slot el i) = CONN_STATE_ACTIVE \<and>
      idle_timeout_sec (config el) \<le> to_int32 (now - last_active (slot el i))")
    case False
    with Cons show ?thesis by (auto simp: Let_def)
  next
    case True
    obtain el1 w1 where c: "call_on_close E el i w = (el1, w1)" by fastforce
    obtain el2 w2 where r: "el_remove_connection E el1 i w1 = (el2, w2)" by fastforce
    have k1: "el_inv B el1 w1" "el_frame el el1"
      using keeps_on_close [OF Cons.prems(1), of i E] Cons.prems(2) c by (auto simp: keeps_def)
    have k2: "el_inv B el2 w2" "el_frame el1 el2"
      using keeps_remove [OF k1(1), of i E] Cons.prems(2) k1(2) r
      by (auto simp: keeps_def el_frame_def)
    have fr: "el_frame el el2" using k1(2) k2(2) by (rule el_frame_trans)
    then have "keeps B el2 (cleanup_slots E now is el2 w2)"
      using Cons.prems(2) k2(1) by (intro Cons.IH) (auto simp: el_frame_def)
    with True c r fr show ?thesis by (auto simp: Let_def intro: keeps_trans)
  qed
qed

lemma cleanup_keeps:
  assumes "el_inv B el w"
  shows "keeps B el (cleanup_idle_connections E el w)"
proof -
  have "nat (conn_capacity el) = length (connections el)"
    using assms by (auto simp: el_inv_def el_wf_def)
  with assms show ?thesis
    unfolding cleanup_idle_connections_def Let_def case_ext
    by (intro cleanup_slots_keeps) auto
qed

section \<open>The loop\<close>

context event_handlers begin

lemma idle_check_keeps:
  assumes fresh: "fresh_fds E" and inv: "el_inv B el w"
  shows "keeps B el (idle_check idl E el w)"
proof -
  let ?w = "(Time, E w Time) # w"
  obtain el1 w1 where c: "cleanup_idle_connections E el ?w = (el1, w1)" by fastforce
  have k: "el_inv B el1 w1" "el_frame el el1"
    using cleanup_keeps [of B el ?w E] inv c by (simp_all add: keeps_def)
  let ?el = "el1\<lparr>last_idle_check := rv (E w Time)\<rparr>"
  have "keeps B el (idl E ?el w1)"
    using idl_keeps [OF fresh, of B ?el w1] k by (auto intro: keeps_trans)
  with inv k c show ?thesis
    by (auto simp: idle_check_def Let_def keepsI split: option.splits on_idle_fn.splits)
qed

lemma turn_keeps:
  assumes fresh: "fresh_fds E" and polls: "polls_watched E" and inv: "el_inv B el w"
    and run: "el_turn rd idl E el w = Some (go, el', w')"
  shows "keeps B el (el', w')"
proof -
  let ?c = "Epoll_wait (epfd el) (epoll_max_events (config el)) (epoll_timeout_ms (config el))"
  let ?r = "E w ?c"
  let ?w = "(?c, ?r) # w"
  let ?el = "if sig ?r then el_stop el else el"
  have inv1: "el_inv B ?el ?w" and fr: "el_frame el ?el"
    using inv by simp_all
  have ptr: "i < length (connections ?el)" if ev: "(Some i, e) \<in> set (take (nat (rv ?r)) (evs ?r))" for i e
  proof -
    from ev polls obtain f where "watched w f = Some (Some i)"
      by (auto dest!: in_set_takeD dest: polls_watchedD)
    with inv have "i < length (connections el)" unfolding el_inv_def el_watches_def by blast
    then show ?thesis by (simp add: el_stop_def)
  qed
  show ?thesis
  proof (cases "rv ?r < 0")
    case True
    with run have "el' = ?el \<and> w' = ?w"
      unfolding el_turn_def Let_def case_ext by (simp split: if_splits)
    with inv1 fr show ?thesis by (blast intro: keepsI)
  next
    case False
    with run obtain el1 w1 where
      d: "dispatch_events rd E ?el (take (nat (rv ?r)) (evs ?r)) ?w = Some (el1, w1)"
      and i: "idle_check idl E el1 w1 = (el', w')"
      by (auto simp: el_turn_def Let_def split: option.splits prod.splits)
    have "keeps B ?el (el1, w1)" using fresh inv1 ptr d by (rule dispatch_events_keeps)
    then have "el_inv B el1 w1" "el_frame el el1"
      using fr by (auto simp: keeps_def intro: el_frame_trans)
    with idle_check_keeps [OF fresh, of B el1 w1] i show ?thesis by (auto intro: keeps_trans)
  qed
qed

lemma loop_keeps:
  assumes run: "el_loop rd idl E el w = Some r" and fresh: "fresh_fds E"
    and polls: "polls_watched E" and inv: "el_inv B el w"
  shows "keeps B el r"
proof -
  have "rd' = rd \<longrightarrow> idl' = idl \<longrightarrow> E' = E \<longrightarrow> el_inv B el w \<longrightarrow> keeps B el r"
    if run: "el_loop rd' idl' E' el w = Some r" for rd' idl' E'
  proof (rule el_loop.raw_induct [where P = "\<lambda>rd' idl' E' el w r. rd' = rd \<longrightarrow> idl' = idl \<longrightarrow>
      E' = E \<longrightarrow> el_inv B el w \<longrightarrow> keeps B el r", OF _ run], intro impI)
    fix loop :: "'v reader \<Rightarrow> 'v idler \<Rightarrow> env \<Rightarrow> 'v event_loop \<Rightarrow> world \<Rightarrow> ('v event_loop \<times> world) option"
    fix rd' idl' E' and el :: "'v event_loop" and w :: world and r
    assume IH: "\<And>rd' idl' E' el w r. loop rd' idl' E' el w = Some r \<Longrightarrow> rd' = rd \<longrightarrow> idl' = idl \<longrightarrow>
        E' = E \<longrightarrow> el_inv B el w \<longrightarrow> keeps B el r"
      and eq: "rd' = rd" "idl' = idl" "E' = E" and inv: "el_inv B el w"
    assume body: "(if \<not> running el then Some (el, w)
       else case el_turn rd' idl' E' el w of None \<Rightarrow> None
            | Some (go, el, w) \<Rightarrow> if go then loop rd' idl' E' el w else Some (el, w)) = Some r"
    show "keeps B el r"
    proof (cases "running el")
      case False
      with body inv show ?thesis by auto
    next
      case True
      with body [unfolded eq] obtain go el1 w1 where t: "el_turn rd idl E el w = Some (go, el1, w1)"
        and rest: "(if go then loop rd idl E el1 w1 else Some (el1, w1)) = Some r"
        by (auto split: option.splits)
      have k: "keeps B el (el1, w1)" using fresh polls inv t by (rule turn_keeps)
      then have "el_inv B el1 w1" "el_frame el el1" by (simp_all add: keeps_def)
      with rest IH [of rd idl E el1 w1 r] k show ?thesis
        by (auto intro: keeps_trans split: if_splits)
    qed
  qed
  with run inv show ?thesis by blast
qed

lemma run_keeps:
  assumes run: "el_run rd idl E el w = Some (ret, el', w')" and fresh: "fresh_fds E"
    and polls: "polls_watched E" and inv: "el_inv B el w"
  shows "el_inv B el' w' \<and> el_frame (el\<lparr>running := True\<rparr>) el'"
proof -
  let ?c = "Calloc (epoll_max_events (config el))"
  show ?thesis
  proof (cases "rv (E w ?c) = 0")
    case True
    with run inv show ?thesis by (auto simp: el_run_def el_frame_def)
  next
    case False
    with run have l: "el_loop rd idl E (el\<lparr>running := True\<rparr>) ((?c, E w ?c) # w) = Some (el', w')"
      by (simp add: el_run_def)
    have "keeps B (el\<lparr>running := True\<rparr>) (el', w')"
      using inv by (intro loop_keeps [OF l fresh polls]) simp
    then show ?thesis by (simp add: keeps_def)
  qed
qed

end


section \<open>Stopping\<close>

context event_handlers begin

text \<open>
  A turn during whose wait a termination signal arrives is the last one, whatever the
  handlers do.
\<close>

lemma turn_stops:
  assumes fresh: "fresh_fds E" and polls: "polls_watched E" and inv: "el_inv B el w"
    and run: "el_turn rd idl E el w = Some (go, el', w')"
    and sg: "sig (E w (Epoll_wait (epfd el) (epoll_max_events (config el))
                        (epoll_timeout_ms (config el))))"
  shows "\<not> running el'"
proof -
  let ?c = "Epoll_wait (epfd el) (epoll_max_events (config el)) (epoll_timeout_ms (config el))"
  let ?w = "(?c, E w ?c) # w"
  have inv1: "el_inv B (el_stop el) ?w" using inv by simp
  have ptr: "i < length (connections (el_stop el))"
    if ev: "(Some i, e) \<in> set (take (nat (rv (E w ?c))) (evs (E w ?c)))" for i e
  proof -
    from ev polls obtain f where "watched w f = Some (Some i)"
      by (auto dest!: in_set_takeD dest: polls_watchedD)
    with inv have "i < length (connections el)" unfolding el_inv_def el_watches_def by blast
    then show ?thesis by (simp add: el_stop_def)
  qed
  show ?thesis
  proof (cases "rv (E w ?c) < 0")
    case True
    with run sg have "el' = el_stop el"
      unfolding el_turn_def Let_def case_ext by (simp split: if_splits)
    then show ?thesis by (simp add: el_stop_def)
  next
    case False
    with run sg obtain el1 w1 where
      d: "dispatch_events rd E (el_stop el) (take (nat (rv (E w ?c))) (evs (E w ?c))) ?w = Some (el1, w1)"
      and i: "idle_check idl E el1 w1 = (el', w')"
      by (auto simp: el_turn_def Let_def split: option.splits prod.splits)
    have k: "keeps B (el_stop el) (el1, w1)" using fresh inv1 ptr d by (rule dispatch_events_keeps)
    then have "el_inv B el1 w1" "\<not> running el1"
      by (auto simp: keeps_def el_frame_def el_stop_def)
    with idle_check_keeps [OF fresh, of B el1 w1] i show ?thesis
      by (auto simp: keeps_def el_frame_def)
  qed
qed

lemma loop_stops:
  assumes "fresh_fds E" and "polls_watched E" and "el_inv B el w" and "running el"
    and "el_turn rd idl E el w = Some (go, el', w')"
    and "sig (E w (Epoll_wait (epfd el) (epoll_max_events (config el))
                    (epoll_timeout_ms (config el))))"
  shows "el_loop rd idl E el w = Some (el', w')"
proof -
  have "\<not> running el'" using assms(1-3,5,6) by (rule turn_stops)
  then show ?thesis
    using assms(4,5) by (simp add: el_loop.simps [of rd idl E el w] el_loop.simps [of rd idl E el' w'])
qed

end

section \<open>Creation\<close>

lemma el_inv_fresh_table:
  assumes w: "watched w = Map.empty" and ep: "open_fds w = insert (epfd el) B" "epfd el \<notin> B"
    and tab: "connections el = replicate n c" "\<not> used c" "c_fd c = - 1"
    and cap: "conn_capacity el = int n" and cnt: "active_count el = 0"
  shows "el_inv B el w"
proof -
  have "slot_fds el = {}" using tab by (auto simp: slot_fds_def)
  moreover have "count_slots used (replicate n c) = 0"
    using tab(2) by (induction n) simp_all
  ultimately show ?thesis
    using assms by (auto simp: el_inv_def el_wf_def el_owns_def el_watches_def used_def)
qed

lemma create_sip_inv:
  assumes inv: "el_inv B el w" and fresh: "fresh_fds E"
  shows "keeps B el (el_create_sip E el w)"
proof (cases "sip_port (config el) = 0")
  case True
  with inv show ?thesis by (simp add: el_create_sip_def)
next
  case False
  obtain ret out w1 where s: "es_create_udp_server E (sip_port (config el)) True True w = (ret, out, w1)"
    by (cases "es_create_udp_server E (sip_port (config el)) True True w") auto
  let ?f = "rv (E w (Socket SOCK_DGRAM))"
  have "watched w ?f = None" if "0 \<le> ?f"
  proof (rule ccontr)
    assume "watched w ?f \<noteq> None"
    then have "?f \<in> slot_fds el"
      using inv unfolding el_inv_def el_watches_def slot_fds_def by blast
    then have "?f \<in> open_fds w" using inv by (simp add: el_inv_def el_owns_def)
    with fresh_fdsD [OF fresh, of "Socket SOCK_DGRAM" w] that show False by simp
  qed
  then have "0 \<le> ?f \<Longrightarrow> (watched w)(?f := None) = watched w" by (simp add: fun_upd_idem)
  then have wt: "watched w1 = watched w"
    using s by (auto simp: es_create_udp_server_def es_wrapper_defs Let_def split: if_splits)
  from udp_server_cases [OF s fresh] show ?thesis
  proof (elim disjE conjE exE)
    assume "out = None" "open_fds w1 = open_fds w"
    with s inv wt False show ?thesis by (simp add: el_create_sip_def keeps_def el_inv_def)
  next
    fix f assume o: "out = Some f" "0 \<le> f" "f \<notin> open_fds w" "open_fds w1 = insert f (open_fds w)"
    have f: "f \<notin> B" and inv1: "el_inv (insert f B) el w1"
      using inv o wt by (auto simp: el_inv_def el_owns_def el_watches_def)
    obtain r el2 w2 where ad: "el_add_connection E el f CONN_TYPE_UDP_SIP DEFAULT_UDP_EVENTS None 0 w1
        = (r, el2, w2)"
      by (cases "el_add_connection E el f CONN_TYPE_UDP_SIP DEFAULT_UDP_EVENTS None 0 w1") auto
    from el_add_inv [OF inv1 f _ _ ad] have k: "el_frame el el2"
      "case r of None \<Rightarrow> el_inv (insert f B) el2 w2 | Some i \<Rightarrow> el_inv B el2 w2"
      by (auto split: option.splits)
    have "el_frame el (el2\<lparr>sip_listen_fd := f\<rparr>)" using k(1) by (simp add: el_frame_def)
    with False s o ad k f show ?thesis
      by (cases r) (auto simp: el_create_sip_def keeps_def intro: el_inv_closed)
  qed
qed

lemma el_create_inv:
  fixes el :: "'v event_loop"
  assumes run: "el_create E cfg w = (Some el, w')" and fresh: "fresh_fds E"
    and clean: "watched w = Map.empty"
  shows "el_inv (open_fds w) el w'"
proof -
  obtain c0 where cfg: "cfg = Some c0" using run by (cases cfg) (auto simp: el_create_def)
  let ?c = "config_defaults c0"
  let ?w1 = "(Calloc 1, E w (Calloc 1)) # w"
  obtain ep w2 where ep: "es_create E (epoll_max_events ?c) ?w1 = (ep, w2)" by fastforce
  let ?w3 = "(Calloc (max_connections ?c), E w2 (Calloc (max_connections ?c))) # w2"
  let ?el = "\<lparr>epfd = ep, running = False, config = ?c, callbacks = default_callbacks,
                connections = replicate (nat (max_connections ?c))
                                (zero_connection\<lparr>c_fd := - 1, c_type := CONN_TYPE_FREE\<rparr>),
                conn_capacity = max_connections ?c, active_count = 0, sip_listen_fd = 0,
                rtp_base_fd = 0, last_idle_check = 0, start_time = 0, user_data = None\<rparr>
              :: 'v event_loop"
  obtain el4 w4 where s: "el_create_sip E ?el ?w3 = (el4, w4)" by fastforce
  from run cfg ep s have ok: "0 \<le> ep" and
    el: "el = el4\<lparr>start_time := rv (E w4 Time), last_idle_check := rv (E w4 Time)\<rparr>"
    and w': "w' = (Time, E w4 Time) # w4"
    by (auto simp: el_create_def Let_def split: if_splits)
  have new: "ep \<notin> open_fds w" "open_fds w2 = insert ep (open_fds w)" "watched w2 = Map.empty"
    using ep ok clean fresh_fdsD [OF fresh, of Epoll_create1 ?w1]
    by (auto simp: es_create_def Let_def split: if_splits)
  have pos: "0 < max_connections ?c" by (simp add: config_defaults_def MAX_CONCURRENT_CALLS_def)
  have "el_inv (open_fds w) ?el ?w3"
    by (rule el_inv_fresh_table) (use new pos in \<open>auto simp: used_def\<close>)
  from create_sip_inv [OF this fresh] s have "el_inv (open_fds w) el4 w4" by (simp add: keeps_def)
  then show ?thesis by (simp add: el w')
qed

lemma el_create_none:
  assumes run: "el_create E cfg w = (None :: 'v event_loop option, w')" and fresh: "fresh_fds E"
  shows "open_fds w' = open_fds w"
proof (cases cfg)
  case None
  with run show ?thesis by (simp add: el_create_def)
next
  case (Some c0)
  let ?c = "config_defaults c0"
  let ?w1 = "(Calloc 1, E w (Calloc 1)) # w"
  obtain ep w2 where ep: "es_create E (epoll_max_events ?c) ?w1 = (ep, w2)" by fastforce
  have o: "open_fds w2 = (if 0 \<le> ep then insert ep (open_fds w) else open_fds w)"
    and new: "0 \<le> ep \<Longrightarrow> ep \<notin> open_fds w"
    using ep fresh_fdsD [OF fresh, of Epoll_create1 ?w1]
    by (auto simp: es_create_def Let_def split: if_splits)
  show ?thesis
  proof (cases "rv (E w (Calloc 1)) = 0 \<or> ep < 0")
    case True
    have "w' = (if rv (E w (Calloc 1)) = 0 then ?w1 else w2)"
      using run True by (simp add: el_create_def Some ep split: if_splits)
    with o True show ?thesis by (simp split: if_splits)
  next
    case False
    with run Some ep have "w' = snd (es_close E ep ((Calloc (max_connections ?c),
        E w2 (Calloc (max_connections ?c))) # w2))"
      by (simp add: el_create_def Let_def case_prod_beta split: if_splits)
    with o new False show ?thesis by (auto simp: es_close_def Let_def)
  qed
qed

section \<open>Destruction\<close>

text \<open>Destruction without an \<open>on_close\<close> callback lets \<open>active_count\<close> go stale.\<close>

definition inv_upto :: "fd set \<Rightarrow> 'v event_loop \<Rightarrow> world \<Rightarrow> bool" where
  "inv_upto B el w \<longleftrightarrow> (\<exists>n. el_inv B (el\<lparr>active_count := n\<rparr>) w)"

lemma remove_active_count:
  "el_remove_connection E (el\<lparr>active_count := n\<rparr>) i w =
     (let (el', w') = el_remove_connection E el i w
      in (el'\<lparr>active_count := (if c_type (slot el i) = CONN_TYPE_FREE then n else n - 1)\<rparr>, w'))"
  by (simp add: el_remove_connection_def Let_def upd_slot_def)

lemma remove_upto:
  assumes "inv_upto B el w" and "i < length (connections el)"
    and "el_remove_connection E el i w = (el', w')"
  shows "inv_upto B el' w' \<and> c_type (slot el' i) = CONN_TYPE_FREE \<and>
    length (connections el') = length (connections el) \<and> epfd el' = epfd el \<and>
    (\<forall>j. \<not> used (slot el j) \<longrightarrow> \<not> used (slot el' j))"
proof -
  from assms(1) obtain n where n: "el_inv B (el\<lparr>active_count := n\<rparr>) w" by (auto simp: inv_upto_def)
  obtain m where r: "el_remove_connection E (el\<lparr>active_count := n\<rparr>) i w = (el'\<lparr>active_count := m\<rparr>, w')"
    using assms(3) by (simp add: remove_active_count)
  have i: "i < length (connections (el\<lparr>active_count := n\<rparr>))" using assms(2) by simp
  have "\<forall>j. \<not> used (slot el j) \<longrightarrow> \<not> used (slot el' j)"
    using assms(2,3) slot_upd_cases [of i free_connection el]
    by (auto simp: el_remove_connection_def Let_def split: if_splits)
      (metis not_used_free(1))+
  with el_remove_inv [OF n i r] show ?thesis
    by (auto simp: inv_upto_def el_frame_def)
qed


lemma upd_slot_active_count:
  "upd_slot i g (el\<lparr>active_count := n\<rparr>) = (upd_slot i g el)\<lparr>active_count := n\<rparr>"
  by (simp add: upd_slot_def)

lemma shutdown_slot_upto:
  assumes inv: "inv_upto B el w" and i: "i < length (connections el)"
    and u: "c_type (slot el i) \<noteq> CONN_TYPE_FREE"
    and cl: "call_on_close E el i w = (el1, w1)"
    and w2: "w2 = (if 0 \<le> c_fd (slot el1 i)
       then es_close_socket E (c_fd (slot el1 i)) (snd (es_del_fd E (epfd el1) (c_fd (slot el1 i)) w1))
       else w1)"
  shows "inv_upto B (upd_slot i free_connection el1) w2 \<and>
    length (connections el1) = length (connections el) \<and> epfd el1 = epfd el \<and>
    (\<forall>j. \<not> used (slot el j) \<longrightarrow> \<not> used (slot el1 j))"
proof (cases "on_close (callbacks el)")
  case None
  with cl have eq: "el1 = el" "w1 = w" by (simp_all add: call_on_close_def)
  obtain el3 w3 where r: "el_remove_connection E el i w = (el3, w3)" by fastforce
  with u eq w2 have "w3 = w2" and "el3 = (upd_slot i free_connection el)\<lparr>active_count := active_count el - 1\<rparr>"
    by (auto simp: el_remove_connection_def Let_def split: if_splits)
  with remove_upto [OF inv i r] eq show ?thesis by (auto simp: inv_upto_def)
next
  case (Some fn)
  with cl have r: "el_remove_connection E el i w = (el1, w1)"
    by (cases fn) (simp add: call_on_close_def default_on_close_def)
  from remove_upto [OF inv i r] have k: "inv_upto B el1 w1" "\<not> used (slot el1 i)"
    "length (connections el1) = length (connections el)" "epfd el1 = epfd el"
    "\<forall>j. \<not> used (slot el j) \<longrightarrow> \<not> used (slot el1 j)"
    by (auto simp: used_def)
  from k(1) obtain n where n: "el_inv B (el1\<lparr>active_count := n\<rparr>) w1" by (auto simp: inv_upto_def)
  with i k have "c_fd (slot el1 i) = - 1" by (simp add: el_inv_def el_wf_def)
  then have "w2 = w1" by (simp add: w2)
  moreover have "el_inv B (upd_slot i free_connection (el1\<lparr>active_count := n\<rparr>)) w1"
    by (rule el_inv_unused_upd [OF n]) (use i k in simp_all)
  then have "inv_upto B (upd_slot i free_connection el1) w1"
    unfolding inv_upto_def upd_slot_active_count by blast
  ultimately show ?thesis using k by simp
qed

lemma destroy_slots_upto:
  assumes "inv_upto B el w" and "\<forall>i\<in>set is. i < length (connections el)"
    and "destroy_slots E is el w = (el', w')"
  shows "inv_upto B el' w' \<and> epfd el' = epfd el \<and>
    length (connections el') = length (connections el) \<and>
    (\<forall>j<length (connections el). j \<in> set is \<or> \<not> used (slot el j) \<longrightarrow> \<not> used (slot el' j))"
  using assms
proof (induction "is" arbitrary: el w)
  case Nil
  then show ?case by simp
next
  case (Cons i "is")
  show ?case
  proof (cases "c_type (slot el i) = CONN_TYPE_FREE")
    case True
    with Cons.prems have "destroy_slots E is el w = (el', w')" by simp
    with Cons.IH [of el w] Cons.prems True show ?thesis by (auto simp: used_def)
  next
    case False
    have i: "i < length (connections el)" using Cons.prems(2) by simp
    obtain el1 w1 where cl: "call_on_close E el i w = (el1, w1)" by fastforce
    define w2 where "w2 = (if 0 \<le> c_fd (slot el1 i)
       then es_close_socket E (c_fd (slot el1 i)) (snd (es_del_fd E (epfd el1) (c_fd (slot el1 i)) w1))
       else w1)"
    let ?el2 = "upd_slot i free_connection el1"
    from shutdown_slot_upto [OF Cons.prems(1) i False cl w2_def]
    have k: "inv_upto B ?el2 w2" "length (connections el1) = length (connections el)"
      "epfd el1 = epfd el" "\<forall>j. \<not> used (slot el j) \<longrightarrow> \<not> used (slot el1 j)" by blast+
    have rest: "destroy_slots E is ?el2 w2 = (el', w')"
      using Cons.prems(3) False cl by (simp add: w2_def Let_def)
    have mono: "\<not> used (slot ?el2 j)" if "j = i \<or> \<not> used (slot el j)" for j
      using that k i slot_upd_cases [of i free_connection el1 j] by (cases "j = i") auto
    have "\<forall>j\<in>set is. j < length (connections ?el2)" using Cons.prems(2) k by simp
    from Cons.IH [OF k(1) this rest] k mono show ?thesis by auto
  qed
qed

lemma destroy_releases:
  assumes inv: "el_inv B el w"
  shows "open_fds (el_destroy E el w) = B"
proof -
  obtain el1 w1 where d: "destroy_slots E [0..<nat (conn_capacity el)] el w = (el1, w1)" by fastforce
  have cap: "nat (conn_capacity el) = length (connections el)"
    using inv by (auto simp: el_inv_def el_wf_def)
  have "inv_upto B el w" unfolding inv_upto_def
    using inv by (intro exI [of _ "active_count el"]) simp
  from destroy_slots_upto [OF this _ d] cap
  have k: "inv_upto B el1 w1" "epfd el1 = epfd el" "length (connections el1) = length (connections el)"
    "\<forall>j<length (connections el). \<not> used (slot el1 j)"
    by auto
  then have "slot_fds el1 = {}" by (auto simp: slot_fds_def)
  with k(1) have "open_fds w1 = insert (epfd el1) B" "epfd el1 \<notin> B"
    by (auto simp: inv_upto_def el_inv_def el_owns_def)
  then show ?thesis by (simp add: el_destroy_def d world_simps)
qed

section \<open>The default handlers meet the contract\<close>

interpretation default_handlers: event_handlers el_default_on_read "\<lambda>E el w. (el, w)"
  by unfold_locales (auto intro: keeps_default_read)

end
