(* ===== verification/Event_Loop_Send.thy ===== *)
theory Event_Loop_Send
  imports Event_Loop_Run
begin

text \<open>
  The send path as a stream: the bytes the kernel took over for a connection, followed by
  the bytes still pending in its send buffer, are the bytes the application sent, in order,
  across partial writes and write events.
\<close>

section \<open>Pending bytes\<close>

definition pending :: "connection \<Rightarrow> bytes" where
  "pending c = take (nat (send_len c - send_offset c)) (drop (nat (send_offset c)) (send_buf c))"

definition send_wf :: "connection \<Rightarrow> bool" where
  "send_wf c \<longleftrightarrow> 0 \<le> send_offset c \<and> send_offset c \<le> send_len c \<and>
     nat (send_len c) \<le> length (send_buf c)"

text \<open>
  Sends report a byte count within the request, and fail only for want of buffer space or
  because of a signal.
\<close>

definition soft_sends :: "env \<Rightarrow> bool" where
  "soft_sends E \<longleftrightarrow> sends_at_most E \<and>
     (\<forall>w f b d. (rv (E w (Send f b)) < 0 \<longrightarrow> err (E w (Send f b)) \<in> {EAGAIN, EWOULDBLOCK, EINTR}) \<and>
        (rv (E w (Sendto f b d)) < 0 \<longrightarrow>
           err (E w (Sendto f b d)) \<in> {EAGAIN, EWOULDBLOCK, EINTR}))"

lemma soft_sends_at_most: "soft_sends E \<Longrightarrow> sends_at_most E"
  by (simp add: soft_sends_def)

definition send_result :: "int \<Rightarrow> extret \<Rightarrow> es_send_result" where
  "send_result len r = (if rv r < 0
     then (if err r \<in> {EAGAIN, EWOULDBLOCK, EINTR} then ES_SEND_PARTIAL else ES_SEND_ERR)
     else if len \<le> rv r then ES_SEND_DONE else ES_SEND_PARTIAL)"

definition send_call :: "fd \<Rightarrow> bytes \<Rightarrow> bool \<Rightarrow> sockaddr_in option \<Rightarrow> extcall" where
  "send_call f b u d = (if u then Sendto f b d else Send f b)"

lemma es_send_all_eq:
  assumes "0 < len" and "0 \<le> off"
  shows "es_send_all E f b off len u d w =
    (let c = send_call f (take (nat len) (drop (nat off) b)) u d
     in (send_result len (E w c), Some (max 0 (rv (E w c))), (c, E w c) # w))"
  using assms
  by (simp add: es_send_all_def Let_def send_result_def send_call_def)

lemma sent_step_send_call [simp]:
  "sent_step f (send_call f b u d) r = take (nat (rv r)) b"
  by (simp add: send_call_def)

lemma send_call_bound: "sends_at_most E \<Longrightarrow> rv (E w (send_call f b u d)) \<le> int (length b)"
  by (simp add: sends_at_most_def send_call_def)

lemma send_call_soft: "soft_sends E \<Longrightarrow> send_result len (E w (send_call f b u d)) \<noteq> ES_SEND_ERR"
  unfolding soft_sends_def send_call_def send_result_def by (cases u) auto

definition takes_some :: "env \<Rightarrow> bool" where
  "takes_some E \<longleftrightarrow>
     (\<forall>w f b d. b \<noteq> [] \<longrightarrow> 0 < rv (E w (Send f b)) \<and> 0 < rv (E w (Sendto f b d)))"

lemma send_call_takes: "takes_some E \<Longrightarrow> b \<noteq> [] \<Longrightarrow> 0 < rv (E w (send_call f b u d))"
  by (simp add: takes_some_def send_call_def)

lemma send_all_stream:
  assumes run: "es_send_all E f b off len u d w = (res, out, w')" and E: "sends_at_most E"
    and pos: "0 < len" "0 \<le> off" and ok: "res \<noteq> ES_SEND_ERR"
  shows "\<exists>n. out = Some n \<and> 0 \<le> n \<and> n \<le> len \<and> (res = ES_SEND_DONE \<longleftrightarrow> n = len) \<and>
     sent_bytes f w' = sent_bytes f w @ take (nat n) (take (nat len) (drop (nat off) b)) \<and>
     (takes_some E \<longrightarrow> off < int (length b) \<longrightarrow> 0 < n)"
proof -
  let ?b = "take (nat len) (drop (nat off) b)"
  let ?c = "send_call f ?b u d"
  let ?r = "E w ?c"
  have eqs: "res = send_result len ?r" "out = Some (max 0 (rv ?r))" "w' = (?c, ?r) # w"
    using run es_send_all_eq [OF pos, of E f b u d w] by (simp_all add: Let_def)
  have "int (length ?b) \<le> len" using pos by simp
  with send_call_bound [OF E, of w f ?b u d] have le: "rv ?r \<le> len" by linarith
  have "nat (max 0 (rv ?r)) = nat (rv ?r)" by simp
  then have "sent_bytes f w' = sent_bytes f w @ take (nat (max 0 (rv ?r))) ?b"
    unfolding eqs(3) by (simp only: sent_bytes.simps sent_step_send_call)
  moreover have "res = ES_SEND_DONE \<longleftrightarrow> max 0 (rv ?r) = len"
    using le pos unfolding eqs(1) send_result_def by simp
  moreover have "0 < rv ?r" if "takes_some E" "off < int (length b)"
    using that pos by (intro send_call_takes) simp_all
  ultimately show ?thesis using eqs(2) le pos by auto
qed

lemma sent_bytes_mod [simp]: "sent_bytes f (snd (es_mod_fd E ep g ev p w)) = sent_bytes f w"
  by (simp add: es_wrapper_defs Let_def)

lemma pending_cleared [simp]: "pending (clear_send c) = []"
  by (simp add: pending_def)

lemma take_app_take_drop:
  assumes "a \<le> b"
  shows "take a (drop k xs) @ take (b - a) (drop (k + a) xs) = take b (drop k xs)"
  using assms take_add [of a "b - a" "drop k xs"] by (simp add: add.commute)

lemma pending_split:
  assumes "send_wf c" and "0 \<le> n" and "n \<le> send_len c - send_offset c"
  shows "take (nat n) (pending c) @ pending (c\<lparr>send_offset := send_offset c + n\<rparr>) = pending c"
proof -
  have "nat (send_offset c + n) = nat (send_offset c) + nat n"
    and "nat (send_len c - (send_offset c + n)) = nat (send_len c - send_offset c) - nat n"
    and "nat n \<le> nat (send_len c - send_offset c)"
    using assms by (auto simp: send_wf_def nat_add_distrib nat_diff_distrib)
  then show ?thesis
    using take_app_take_drop [of "nat n" "nat (send_len c - send_offset c)" "nat (send_offset c)"]
    by (simp add: pending_def min_def)
qed

section \<open>One call\<close>

lemma send_data_stream:
  assumes run: "el_send_data E el (Some i) (Some bs) len u d w = (EL_SEND_OK, el', w')"
    and i: "i < length (connections el)" and E: "sends_at_most E" and bs: "nat len \<le> length bs"
  shows "sent_bytes (c_fd (slot el i)) w' @ pending (slot el' i) =
      sent_bytes (c_fd (slot el i)) w @ take (nat len) bs \<and> send_wf (slot el' i) \<and>
    c_fd (slot el' i) = c_fd (slot el i) \<and> length (connections el') = length (connections el)"
proof -
  have len: "0 < len" "len \<le> EL_SEND_BUF_SIZE"
    using run by (auto simp: el_send_data_def split: if_splits)
  let ?el = "upd_slot i (\<lambda>c. c\<lparr>send_buf := take (nat len) bs @ drop (nat len) (send_buf c),
                     send_len := len, send_offset := 0\<rparr>) el"
  let ?c = "slot ?el i" and ?f = "c_fd (slot el i)"
  obtain res out w1 where s: "es_send_all E ?f (send_buf ?c) 0 len u d w = (res, out, w1)"
    by (cases "es_send_all E ?f (send_buf ?c) 0 len u d w") auto
  have c: "c_fd ?c = ?f" "send_len ?c = len" "send_offset ?c = 0"
    "take (nat len) (send_buf ?c) = take (nat len) bs" "nat len \<le> length (send_buf ?c)"
    using i bs by simp_all
  have ne: "res \<noteq> ES_SEND_ERR"
    using run s c len by (auto simp: el_send_data_def Let_def split: if_splits prod.splits)
  from send_all_stream [OF s E len(1) order_refl ne] c obtain n where
    n: "out = Some n" "0 \<le> n" "n \<le> len" "res = ES_SEND_DONE \<longleftrightarrow> n = len"
    "sent_bytes ?f w1 = sent_bytes ?f w @ take (nat n) (take (nat len) bs)"
    by auto
  show ?thesis
  proof (cases res)
    case ES_SEND_DONE
    then have "el' = upd_slot i clear_send (upd_slot i (\<lambda>c. c\<lparr>send_offset := n\<rparr>) ?el) \<and> w' = w1"
      using run len s c n(1) by (simp add: el_send_data_def Let_def)
    with ES_SEND_DONE n c i show ?thesis by (simp add: send_wf_def)
  next
    case ES_SEND_PARTIAL
    define g where "g = ?c\<lparr>send_offset := n\<rparr>"
    have wf: "send_wf ?c" "pending ?c = take (nat len) bs"
      using c len i bs by (auto simp: send_wf_def pending_def)
    from pending_split [OF wf(1), of n] n c
    have split: "take (nat n) (take (nat len) bs) @ pending g = take (nat len) bs"
      by (simp add: g_def wf(2) del: slot_upd_same)
    obtain mr w2 where m: "es_mod_fd E (epfd el) ?f (rearm_events ?c OR EPOLLOUT) (Some i) w1 = (mr, w2)"
      by fastforce
    have "mr = ES_OK \<and> el' = upd_slot i (\<lambda>c. c\<lparr>send_offset := n\<rparr>) ?el \<and> w' = w2"
      using run len s [unfolded ES_SEND_PARTIAL n(1)] m c
      by (simp add: el_send_data_def Let_def split: if_splits)
    then have r: "slot el' i = g \<and> w' = snd (es_mod_fd E (epfd el) ?f (rearm_events ?c OR EPOLLOUT) (Some i) w1)"
      and l: "length (connections el') = length (connections el)"
      using m i by (simp_all add: g_def)
    have "send_wf g" using wf(1) n c by (simp add: send_wf_def g_def)
    moreover have "c_fd g = ?f" using c by (simp add: g_def)
    ultimately show ?thesis using r l n(5) split by simp
  next
    case ES_SEND_ERR
    with ne show ?thesis by simp
  qed
qed

lemma sent_bytes_send_all: "\<exists>b. sent_bytes f (snd (snd (es_send_all E g bs off len u d w))) = sent_bytes f w @ b"
proof (cases "0 < len \<and> 0 \<le> off")
  case True
  then show ?thesis by (simp add: es_send_all_eq Let_def)
next
  case False
  then show ?thesis by (auto simp: es_send_all_def)
qed

lemma send_data_grows:
  "\<exists>b. sent_bytes f (snd (snd (el_send_data E el (Some i) (Some bs) len u d w))) = sent_bytes f w @ b"
proof (cases "len \<le> 0 \<or> EL_SEND_BUF_SIZE < len")
  case True
  then show ?thesis by (auto simp: el_send_data_def)
next
  case False
  let ?c = "slot (upd_slot i (\<lambda>c. c\<lparr>send_buf := take (nat len) bs @ drop (nat len) (send_buf c),
                     send_len := len, send_offset := 0\<rparr>) el) i"
  have "sent_bytes f (snd (snd (el_send_data E el (Some i) (Some bs) len u d w))) =
      sent_bytes f (snd (snd (es_send_all E (c_fd ?c) (send_buf ?c) 0 (send_len ?c) u d w)))"
    using False by (simp add: el_send_data_def Let_def case_prod_beta split: es_send_result.split)
  with sent_bytes_send_all [of f E "c_fd ?c" "send_buf ?c" 0 "send_len ?c" u d w]
  show ?thesis by simp
qed

lemma on_write_stream:
  assumes run: "default_on_write E el i w = (el', w')" and i: "i < length (connections el)"
    and E: "soft_sends E" and wf: "send_wf (slot el i)"
  shows "\<exists>n. sent_bytes (c_fd (slot el i)) w' =
      sent_bytes (c_fd (slot el i)) w @ take n (pending (slot el i)) \<and>
    pending (slot el' i) = drop n (pending (slot el i)) \<and> send_wf (slot el' i) \<and>
    c_fd (slot el' i) = c_fd (slot el i) \<and> length (connections el') = length (connections el) \<and>
    (takes_some E \<longrightarrow>
       pending (slot el i) \<noteq> [] \<longrightarrow> 0 < n)"
proof -
  let ?c = "slot el i" and ?f = "c_fd (slot el i)"
  show ?thesis
  proof (cases "send_len ?c \<le> 0 \<or> send_len ?c \<le> send_offset ?c")
    case True
    then have "pending ?c = []" using wf by (auto simp: pending_def send_wf_def)
    moreover have "slot el' i = clear_send ?c \<and> w' = snd (es_mod_fd E (epfd el) ?f (rearm_events ?c) (Some i) w)
       \<and> length (connections el') = length (connections el)"
      using run True i by (auto simp: default_on_write_def Let_def split: prod.splits)
    ultimately show ?thesis by (auto simp: send_wf_def)
  next
    case False
    let ?r = "send_len ?c - send_offset ?c" and ?u = "is_udp_type (c_type ?c)"
    obtain res out w1 where s: "es_send_all E ?f (send_buf ?c) (send_offset ?c) ?r ?u None w = (res, out, w1)"
      by (cases "es_send_all E ?f (send_buf ?c) (send_offset ?c) ?r ?u None w") auto
    have pos: "0 < ?r" "0 \<le> send_offset ?c" using False wf by (auto simp: send_wf_def)
    have ne: "res \<noteq> ES_SEND_ERR"
      using s pos send_call_soft [OF E] by (simp add: es_send_all_eq Let_def) blast
    from send_all_stream [OF s soft_sends_at_most [OF E] pos ne] obtain n where
      n: "out = Some n" "0 \<le> n" "n \<le> ?r" "sent_bytes ?f w1 = sent_bytes ?f w @ take (nat n) (pending ?c)"
        "takes_some E \<longrightarrow> send_offset ?c < int (length (send_buf ?c)) \<longrightarrow> 0 < n"
      unfolding pending_def by blast
    let ?g = "?c\<lparr>send_offset := send_offset ?c + n\<rparr>"
    from pending_split [OF wf n(2,3)]
    have split: "take (nat n) (pending ?c) @ pending ?g = pending ?c" .
    have lp: "length (pending ?c) = nat ?r" using wf by (auto simp: pending_def send_wf_def)
    with split n(2,3) have dr: "pending ?g = drop (nat n) (pending ?c)"
      by (metis append_eq_conv_conj length_take min.absorb2 nat_mono)
    let ?el1 = "upd_slot i (\<lambda>c. c\<lparr>send_offset := send_offset c + n\<rparr>) el"
    have step: "(slot el' i = ?g \<or> slot el' i = clear_send ?g \<and> n = ?r) \<and>
        sent_bytes ?f w' = sent_bytes ?f w1 \<and> length (connections el') = length (connections el)"
    proof (cases "send_len ?c \<le> send_offset ?c + n")
      case True
      then have "el' = upd_slot i clear_send ?el1 \<and>
          w' = snd (es_mod_fd E (epfd el) ?f (rearm_events ?c) (Some i) w1)"
        using run s False n(1) ne i by (simp add: default_on_write_def Let_def split: prod.splits)
      with True n(3) i show ?thesis by simp
    next
      case less: False
      then have "el' = ?el1 \<and> w' = w1"
        using run s False n(1) ne i by (simp add: default_on_write_def Let_def)
      with i show ?thesis by simp
    qed
    have "send_offset ?c < int (length (send_buf ?c))"
      using False wf unfolding send_wf_def by linarith
    with n(5) have prog: "takes_some E \<longrightarrow> 0 < n" by blast
    have "send_wf (slot el' i)" "c_fd (slot el' i) = ?f" "pending (slot el' i) = drop (nat n) (pending ?c)"
      using step dr wf n lp by (auto simp: send_wf_def)
    with step n(4) prog show ?thesis by (intro exI [of _ "nat n"]) auto
  qed
qed

section \<open>A message to its end\<close>

text \<open>Write events reported for one connection, one after the other.\<close>

fun write_turns :: "env \<Rightarrow> nat \<Rightarrow> nat \<Rightarrow> 'v event_loop \<Rightarrow> world \<Rightarrow> 'v event_loop \<times> world" where
  "write_turns E i 0 el w = (el, w)"
| "write_turns E i (Suc n) el w =
     (let (el, w) = default_on_write E el i w in write_turns E i n el w)"

lemma write_turns_stream:
  assumes "write_turns E i n el w = (el', w')" and "i < length (connections el)"
    and "soft_sends E" and "send_wf (slot el i)"
  shows "sent_bytes (c_fd (slot el i)) w' @ pending (slot el' i) =
      sent_bytes (c_fd (slot el i)) w @ pending (slot el i) \<and>
    (takes_some E \<longrightarrow>
       length (pending (slot el' i)) \<le> length (pending (slot el i)) - n)"
  using assms
proof (induction n arbitrary: el w)
  case 0
  then show ?case by simp
next
  case (Suc n)
  obtain el1 w1 where s: "default_on_write E el i w = (el1, w1)" by fastforce
  with Suc.prems have rest: "write_turns E i n el1 w1 = (el', w')" by simp
  from on_write_stream [OF s Suc.prems(2-4)] obtain k where
    k: "sent_bytes (c_fd (slot el i)) w1 =
        sent_bytes (c_fd (slot el i)) w @ take k (pending (slot el i))"
      "pending (slot el1 i) = drop k (pending (slot el i))" "send_wf (slot el1 i)"
      "c_fd (slot el1 i) = c_fd (slot el i)" "length (connections el1) = length (connections el)"
      "takes_some E \<longrightarrow>
       pending (slot el i) \<noteq> [] \<longrightarrow> 0 < k"
    by blast
  from Suc.IH [OF rest] Suc.prems k
  have IH: "sent_bytes (c_fd (slot el i)) w' @ pending (slot el' i) =
      sent_bytes (c_fd (slot el i)) w1 @ pending (slot el1 i)"
    "takes_some E \<longrightarrow>
       length (pending (slot el' i)) \<le> length (pending (slot el1 i)) - n"
    by auto
  have "length (pending (slot el' i)) \<le> length (pending (slot el i)) - Suc n"
    if "takes_some E"
  proof (cases "pending (slot el i) = []")
    case True
    with IH(2) that k(2) show ?thesis by simp
  next
    case False
    with k(6) that have "0 < k" by blast
    with IH(2) that k(2) show ?thesis by force
  qed
  with IH(1) k(1,2) show ?case by simp
qed

text \<open>
  An environment whose sends take one byte at a time: the kernel buffer of a slow reader.
\<close>

definition trickle_os :: env where
  "trickle_os w c = (quiet_os w c)\<lparr>rv :=
     (case c of Send f b \<Rightarrow> (if b = [] then 0 else 1)
              | Sendto f b d \<Rightarrow> (if b = [] then 0 else 1) | _ \<Rightarrow> quiet_rv w c)\<rparr>"

lemma trickle_soft: "soft_sends trickle_os"
proof -
  have "b \<noteq> [] \<Longrightarrow> 1 \<le> int (length b)" for b :: bytes by (cases b) auto
  then show ?thesis by (simp add: soft_sends_def sends_at_most_def trickle_os_def)
qed


definition one_client :: "nat event_loop" where
  "one_client = \<lparr>epfd = 3, running = True,
     config = \<lparr>sip_port = 5060, rtp_port_min = 0, rtp_port_max = 0, tcp_backlog = 128,
       max_connections = 2, idle_timeout_sec = 300, epoll_timeout_ms = 100,
       epoll_max_events = 8\<rparr>,
     callbacks = default_callbacks,
     connections = [zero_connection\<lparr>c_fd := 4, c_type := CONN_TYPE_TCP_CLIENT\<rparr>,
                    zero_connection\<lparr>c_fd := - 1\<rparr>],
     conn_capacity = 2, active_count = 1, sip_listen_fd = 0, rtp_base_fd = 0,
     last_idle_check = 0, start_time = 0, user_data = None\<rparr>"

lemma one_client_sel [simp]:
  "length (connections one_client) = 2" "c_fd (slot one_client 0) = 4"
  by (simp_all add: one_client_def zero_connection_def)

lemmas send_eval = el_send_data_def es_send_all_def es_wrapper_defs Let_def one_client_def
  upd_slot_def trickle_os_def zero_connection_def EL_SEND_BUF_SIZE_def


text \<open>A second message sent while bytes of the first are pending replaces them: what
  follows the bytes already taken over is the second message alone, and the rest of the
  first is never sent.\<close>

theorem send_drops_pending:
  assumes "el_send_data E el (Some i) (Some bs) len u d w = (EL_SEND_OK, el1, w1)"
    and "i < length (connections el)" and "soft_sends E" and "nat len \<le> length bs"
    and "el_send_data E el1 (Some i) (Some cs) len' u d w1 = (EL_SEND_OK, el2, w2)"
    and "nat len' \<le> length cs"
  shows "\<exists>k. k + length (pending (slot el1 i)) = nat len \<and>
    sent_bytes (c_fd (slot el i)) w2 @ pending (slot el2 i) =
      sent_bytes (c_fd (slot el i)) w @ take k bs @ take (nat len') cs"
proof -
  let ?f = "c_fd (slot el i)" and ?p = "pending (slot el1 i)"
  note E = soft_sends_at_most [OF assms(3)]
  note s = send_data_stream [OF assms(1,2) E assms(4)]
  then have t: "sent_bytes ?f w2 @ pending (slot el2 i) = sent_bytes ?f w1 @ take (nat len') cs"
    using send_data_stream [OF assms(5) _ E assms(6)] assms(2) by auto
  obtain b where b: "sent_bytes ?f w1 = sent_bytes ?f w @ b"
    using send_data_grows [of ?f E el i bs len u d w] assms(1) by auto
  with s have bp: "b @ ?p = take (nat len) bs" by simp
  then have "length b + length ?p = nat len" using assms(4)
    by (metis length_append length_take min.absorb2)
  moreover from this have "b = take (length b) bs"
    using bp by (metis append_eq_conv_conj le_add1 min.absorb1 take_take)
  ultimately show ?thesis using t b by (intro exI [of _ "length b"]) simp
qed

theorem send_drops_pending_witness:
  "\<exists>el1 w1 el2 w2.
     el_send_data trickle_os one_client (Some 0) (Some ''ab'') 2 False None [] = (EL_SEND_OK, el1, w1) \<and>
     el_send_data trickle_os el1 (Some 0) (Some ''c'') 1 False None w1 = (EL_SEND_OK, el2, w2) \<and>
     sent_bytes 4 w2 @ pending (slot el2 0) = ''ac''"
proof -
  define s where "s = el_send_data trickle_os one_client (Some 0) (Some ''ab'') 2 False None []"
  define t where "t = el_send_data trickle_os (fst (snd s)) (Some 0) (Some ''c'') 1 False None (snd (snd s))"
  have s: "el_send_data trickle_os one_client (Some 0) (Some ''ab'') 2 False None [] =
      (EL_SEND_OK, fst (snd s), snd (snd s))" and p: "length (pending (slot (fst (snd s)) 0)) = 1"
    unfolding s_def by (simp_all add: send_eval pending_def)
  have t: "el_send_data trickle_os (fst (snd s)) (Some 0) (Some ''c'') 1 False None (snd (snd s)) =
      (EL_SEND_OK, fst (snd t), snd (snd t))"
    unfolding t_def s_def by (simp add: send_eval)
  from send_drops_pending [OF s _ trickle_soft _ t] p
  have "sent_bytes 4 (snd (snd t)) @ pending (slot (fst (snd t)) 0) = ''ac''"
    by auto
  with s t show ?thesis by blast
qed

end
