(* ===== verification/Event_Loop_Table.thy ===== *)
theory Event_Loop_Table
  imports Event_Loop_Send
begin

text \<open>
  The connection table as its callers see it: what \<open>el_add_connection\<close>,
  \<open>el_remove_connection\<close> and \<open>el_find_connection\<close> do to the slots, what the idle cleanup
  closes, and how accepting behaves on a full table and ends.
\<close>

section \<open>Adding and finding\<close>

lemma find_connection_used:
  assumes inv: "el_inv B el w" and i: "i < length (connections el)" and u: "used (slot el i)"
  shows "el_find_connection el (c_fd (slot el i)) = Some i"
proof -
  let ?P = "\<lambda>c. c_fd c = c_fd (slot el i) \<and> c_type c \<noteq> CONN_TYPE_FREE"
  have wf: "el_wf el" using inv by (simp add: el_inv_def)
  have f: "\<not> c_fd (slot el i) < 0" using wf i u by (auto simp: el_wf_def)
  have "?P (slot el i)" using u by (simp add: used_def)
  with i obtain j where j: "first_index ?P (connections el) = Some j"
    using first_index_Some_ex [of "slot el i" "connections el" ?P] by auto
  from first_index_SomeD [OF j] have "j < length (connections el)" "c_fd (slot el j) = c_fd (slot el i)"
    "used (slot el j)" by (auto simp: used_def)
  with wf i u have "j = i" unfolding el_wf_def by blast
  with j f show ?thesis by (simp add: el_find_connection_def)
qed

lemma add_connection_slots:
  assumes run: "el_add_connection E el f type ev addr port w = (Some i, el', w')"
  shows "\<not> used (slot el i) \<and> (\<forall>j<i. used (slot el j)) \<and> i < length (connections el) \<and>
    (\<forall>j. j \<noteq> i \<longrightarrow> slot el' j = slot el j) \<and> active_count el' = active_count el + 1 \<and>
    send_len (slot el' i) = 0 \<and> conn_user_data (slot el' i) = None \<and>
    remote_port (slot el' i) = port \<and> c_type (slot el' i) = type"
proof -
  have "\<not> f < 0" "\<not> conn_capacity el \<le> active_count el"
    using run by (auto simp: el_add_connection_def split: if_splits)
  moreover obtain r el1 where al: "alloc_connection el = (r, el1)" by fastforce
  moreover from this run calculation obtain k where "r = Some k"
    by (cases r) (auto simp: el_add_connection_def)
  ultimately have ok: "\<not> f < 0" "\<not> conn_capacity el \<le> active_count el"
    "alloc_connection el = (Some k, el1)" by simp_all
  from alloc_cases [OF ok(3)] have k: "k < length (connections el)" "\<not> used (slot el k)"
    "\<forall>j<k. used (slot el j)" "el1 = upd_slot k (\<lambda>c. zero_connection\<lparr>c_fd := - 1\<rparr>) el" by auto
  define g where "g c = c\<lparr>c_fd := f, c_type := type, c_state := CONN_STATE_ACTIVE,
      create_time := rv (E w Time), last_active := rv (E w Time),
      remote_addr := (case addr of None \<Rightarrow> remote_addr c | Some a \<Rightarrow> strncpy 63 a),
      remote_port := port\<rparr>" for c :: connection
  have "i = k \<and> el' = (upd_slot k g el1)\<lparr>active_count := active_count el1 + 1\<rparr>"
    using run ok by (auto simp: el_add_connection_def Let_def g_def [abs_def] split: if_splits prod.splits)
  with k show ?thesis by (simp add: g_def zero_connection_def)
qed

lemma add_connection_failed:
  assumes run: "el_add_connection E el f type ev addr port w = (None, el', w')"
    and i: "i < length (connections el)"
  shows "used (slot el' i) = used (slot el i) \<and> (used (slot el i) \<longrightarrow> slot el' i = slot el i) \<and>
    active_count el' = active_count el"
proof (cases "f < 0 \<or> conn_capacity el \<le> active_count el")
  case True
  with run show ?thesis by (cases "f < 0") (auto simp: el_add_connection_def)
next
  case False
  obtain r el1 where al: "alloc_connection el = (r, el1)" by fastforce
  show ?thesis
  proof (cases r)
    case None
    with run False al alloc_cases [OF al] show ?thesis by (auto simp: el_add_connection_def)
  next
    case (Some k)
    from alloc_cases [OF al [unfolded Some]] have k: "\<not> used (slot el k)" "k < length (connections el)"
      "el1 = upd_slot k (\<lambda>c. zero_connection\<lparr>c_fd := - 1\<rparr>) el" by auto
    obtain g where "el' = upd_slot k free_connection (upd_slot k g el1)"
      using run False al Some
      by (auto simp: el_add_connection_def Let_def split: if_splits prod.splits)
    with k show ?thesis by (cases "i = k") auto
  qed
qed

text \<open>A table without TCP listeners stays so when other kinds of sockets are added.\<close>

definition no_listener :: "'v event_loop \<Rightarrow> bool" where
  "no_listener el \<longleftrightarrow> (\<forall>i<length (connections el). c_type (slot el i) \<noteq> CONN_TYPE_TCP_LISTEN)"

lemma add_length:
  assumes "el_add_connection E el f type ev addr port w = (r, el', w')"
  shows "length (connections el') = length (connections el)"
proof -
  have "length (connections (snd (alloc_connection el))) = length (connections el)"
    by (simp add: alloc_connection_def split: option.split)
  then have "length (connections (fst (snd (el_add_connection E el f type ev addr port w)))) =
      length (connections el)"
    by (simp add: el_add_connection_def Let_def case_prod_beta split: option.split)
  with assms show ?thesis by simp
qed

lemma add_no_listener:
  assumes run: "el_add_connection E el f type ev addr port w = (r, el', w')"
    and "type \<noteq> CONN_TYPE_TCP_LISTEN" and "no_listener el"
  shows "no_listener el'"
  unfolding no_listener_def add_length [OF run]
proof (intro allI impI)
  fix j
  assume j: "j < length (connections el)"
  with assms(3) have nl: "c_type (slot el j) \<noteq> CONN_TYPE_TCP_LISTEN" by (simp add: no_listener_def)
  show "c_type (slot el' j) \<noteq> CONN_TYPE_TCP_LISTEN"
  proof (cases r)
    case None
    with add_connection_failed [OF run [unfolded None] j] nl show ?thesis
      by (cases "used (slot el j)") (auto simp: used_def)
  next
    case (Some i)
    with add_connection_slots [OF run [unfolded Some]] nl assms(2) show ?thesis
      by (cases "j = i") auto
  qed
qed

lemma create_no_listener:
  fixes el :: "'a event_loop"
  assumes run: "el_create E cfg w = (Some el, w')"
  shows "no_listener el"
proof -
  have sip: "no_listener (fst (el_create_sip E el0 w0))" if "no_listener el0" for el0 :: "'a event_loop" and w0
  proof (cases "es_create_udp_server E (sip_port (config el0)) True True w0")
    case (fields ret out w1)
    show ?thesis
    proof (cases "sip_port (config el0) = 0 \<or> out = None")
      case True
      with fields that show ?thesis by (cases out) (auto simp: el_create_sip_def)
    next
      case False
      then obtain f where f: "out = Some f" by auto
      obtain r el1 w2 where a: "el_add_connection E el0 f CONN_TYPE_UDP_SIP DEFAULT_UDP_EVENTS None 0 w1
          = (r, el1, w2)" by (metis prod_cases3)
      have "no_listener el1" using add_no_listener [OF a] that by simp
      with False fields f a show ?thesis
        by (cases r) (auto simp: el_create_sip_def no_listener_def)
    qed
  qed
  obtain c0 where cfg: "cfg = Some c0" using run by (cases cfg) (auto simp: el_create_def)
  let ?c = "config_defaults c0"
  let ?w1 = "(Calloc 1, E w (Calloc 1)) # w"
  obtain ep w2 where ep: "es_create E (epoll_max_events ?c) ?w1 = (ep, w2)" by fastforce
  let ?w3 = "(Calloc (max_connections ?c), E w2 (Calloc (max_connections ?c))) # w2"
  let ?el = "\<lparr>epfd = ep, running = False, config = ?c, callbacks = default_callbacks,
                connections = replicate (nat (max_connections ?c))
                                (zero_connection\<lparr>c_fd := - 1, c_type := CONN_TYPE_FREE\<rparr>),
                conn_capacity = max_connections ?c, active_count = 0, sip_listen_fd = 0,
                rtp_base_fd = 0, last_idle_check = 0, start_time = 0, user_data = None\<rparr>
              :: 'a event_loop"
  obtain el4 w4 where s: "el_create_sip E ?el ?w3 = (el4, w4)" by fastforce
  from run cfg ep s have el: "el = el4\<lparr>start_time := rv (E w4 Time), last_idle_check := rv (E w4 Time)\<rparr>"
    by (auto simp: el_create_def Let_def split: if_splits)
  have "no_listener ?el" by (simp add: no_listener_def)
  from sip [OF this, of ?w3] s el show ?thesis by (simp add: no_listener_def)
qed

section \<open>Removing\<close>

lemma remove_slots:
  assumes i: "i < length (connections el)" and run: "el_remove_connection E el i w = (el', w')"
  shows "slot el' j = (if j = i \<and> used (slot el i) then free_connection (slot el i) else slot el j)"
  using assms by (auto simp: el_remove_connection_def used_def Let_def slot_upd_if split: if_splits)

lemma remove_fields:
  assumes "el_remove_connection E el i w = (el', w')"
  shows "config el' = config el" "callbacks el' = callbacks el" "sip_listen_fd el' = sip_listen_fd el"
    "length (connections el') = length (connections el)" "conn_capacity el' = conn_capacity el"
  using assms by (auto simp: el_remove_connection_def Let_def split: if_splits)

text \<open>
  Closing through the callback and removing afterwards, as the cleanup does, is one removal,
  whatever callback is installed.
\<close>

lemma close_then_remove:
  assumes i: "i < length (connections el)"
  shows "(case call_on_close E el i w of (el, w) \<Rightarrow> el_remove_connection E el i w) =
    el_remove_connection E el i w"
proof (cases "on_close (callbacks el)")
  case None
  then show ?thesis by (simp add: call_on_close_def)
next
  case (Some fn)
  obtain el1 w1 where r: "el_remove_connection E el i w = (el1, w1)" by fastforce
  from remove_slots [OF i r, of i] have "c_type (slot el1 i) = CONN_TYPE_FREE"
    by (auto simp: used_def free_connection_def split: if_splits)
  then have "el_remove_connection E el1 i w1 = (el1, w1)" by (simp add: el_remove_connection_def)
  with Some r show ?thesis by (cases fn) (simp add: call_on_close_def default_on_close_def)
qed

section \<open>Idle cleanup\<close>

definition expired :: "int \<Rightarrow> int \<Rightarrow> connection \<Rightarrow> bool" where
  "expired now timeout c \<longleftrightarrow> c_type c \<noteq> CONN_TYPE_FREE \<and> c_type c \<noteq> CONN_TYPE_TCP_LISTEN \<and>
     c_state c = CONN_STATE_ACTIVE \<and> timeout \<le> to_int32 (now - last_active c)"

lemma cleanup_step:
  assumes "i < length (connections el)"
  shows "cleanup_slots E now (i # is) el w =
    (if expired now (idle_timeout_sec (config el)) (slot el i)
     then (case el_remove_connection E el i w of (el, w) \<Rightarrow> cleanup_slots E now is el w)
     else cleanup_slots E now is el w)"
proof (cases "expired now (idle_timeout_sec (config el)) (slot el i)")
  case True
  obtain el1 w1 where c: "call_on_close E el i w = (el1, w1)" by fastforce
  with close_then_remove [OF assms, of E w]
  have "el_remove_connection E el1 i w1 = el_remove_connection E el i w" by simp
  with True c show ?thesis by (simp add: expired_def Let_def)
next
  case False
  then show ?thesis by (auto simp: expired_def Let_def)
qed

declare cleanup_slots.simps(2) [simp del]

lemma cleanup_slots_effect:
  assumes "cleanup_slots E now is el w = (el', w')" and "\<forall>i\<in>set is. i < length (connections el)"
    and "distinct is"
  shows "length (connections el') = length (connections el) \<and> sip_listen_fd el' = sip_listen_fd el \<and>
    (\<forall>j<length (connections el). slot el' j =
       (if j \<in> set is \<and> expired now (idle_timeout_sec (config el)) (slot el j)
        then free_connection (slot el j) else slot el j))"
  using assms
proof (induction "is" arbitrary: el w)
  case Nil
  then show ?case by simp
next
  case (Cons i "is")
  have i: "i < length (connections el)" using Cons.prems(2) by simp
  show ?case
  proof (cases "expired now (idle_timeout_sec (config el)) (slot el i)")
    case False
    then have "cleanup_slots E now is el w = (el', w')"
      using Cons.prems(1) by (simp add: cleanup_step [OF i])
    from Cons.IH [OF this] Cons.prems False show ?thesis by auto
  next
    case True
    obtain el1 w1 where r: "el_remove_connection E el i w = (el1, w1)" by fastforce
    have u: "used (slot el i)" using True by (simp add: expired_def used_def)
    from Cons.prems(1) True r have "cleanup_slots E now is el1 w1 = (el', w')"
      by (simp add: cleanup_step [OF i])
    from Cons.IH [OF this] Cons.prems remove_fields [OF r] remove_slots [OF i r] u True
    show ?thesis by auto
  qed
qed

section \<open>Accepting\<close>

fun is_accept :: "extcall \<Rightarrow> bool" where
  "is_accept (Accept f) = True"
| "is_accept c = False"

definition accepts :: "world \<Rightarrow> nat" where
  "accepts w = count_slots is_accept (map fst w)"

lemma accepts_Nil [simp]: "accepts [] = 0"
  by (simp add: accepts_def)

lemma accepts_Cons [simp]:
  "accepts ((c, r) # w) = (if is_accept c then Suc (accepts w) else accepts w)"
  by (simp add: accepts_def)

lemma accepts_wrappers [simp]:
  "accepts (es_close_socket E f w) = accepts w"
  "accepts (snd (es_set_nonblocking E f w)) = accepts w"
  "accepts (snd (es_add_fd E ep f ev p w)) = accepts w"
  by (simp_all add: es_wrapper_defs Let_def)

lemma accepts_add: "accepts (snd (snd (el_add_connection E el f ty ev a p w))) = accepts w"
  by (simp add: el_add_connection_def Let_def case_prod_beta split: option.split)

lemma accepts_on_accept: "accepts (snd (call_on_accept E el f a w)) = accepts w"
proof (cases "on_accept (callbacks el)")
  case (Some fn)
  then show ?thesis
    using accepts_add [of E el f CONN_TYPE_TCP_CLIENT DEFAULT_TCP_EVENTS "Some (es_addr_to_str (Some a) 64)"
        "sin_port a" w]
    by (cases fn) (force simp: call_on_accept_def default_on_accept_def split: option.split prod.split)
qed (simp add: call_on_accept_def)

text \<open>After \<open>n\<close> accepts the backlog is empty: the next one fails, and not by a signal.\<close>

definition backlog_ends :: "env \<Rightarrow> nat \<Rightarrow> bool" where
  "backlog_ends E n \<longleftrightarrow>
     (\<forall>w f. n \<le> accepts w \<longrightarrow> rv (E w (Accept f)) < 0 \<and> err (E w (Accept f)) \<noteq> EINTR)"

lemma handle_accept_ends:
  fixes el :: "'v event_loop"
  assumes "backlog_ends E n"
  shows "\<exists>r. handle_accept E el l w = Some r"
proof (induction "n - accepts w" arbitrary: el w rule: less_induct)
  case less
  let ?c = "Accept (c_fd (slot el l))"
  let ?w = "(?c, E w ?c) # w"
  let ?n = "es_set_nonblocking E (rv (E w ?c)) ?w"
  note st = handle_accept.simps [of E el l w] Let_def
  show ?case
  proof (cases "n \<le> accepts w")
    case True
    with assms have "rv (E w ?c) < 0" "err (E w ?c) \<noteq> EINTR" by (simp_all add: backlog_ends_def)
    then show ?thesis by (simp add: st del: split_paired_Ex)
  next
    case False
    have IH: "\<exists>r. handle_accept E el' l w' = Some r" if "accepts w' = Suc (accepts w)" for el' :: "'v event_loop" and w'
      using less [of w' el'] that False by simp
    obtain el1 w1 where a: "call_on_accept E el (rv (E w ?c)) (peer (E w ?c)) (snd ?n) = (el1, w1)"
      by fastforce
    have "accepts w1 = Suc (accepts w)"
      using accepts_on_accept [of E el "rv (E w ?c)" "peer (E w ?c)" "snd ?n"] by (simp add: a)
    with a show ?thesis by (simp add: st IH del: split_paired_Ex)
  qed
qed

lemma accept_overloaded:
  assumes run: "handle_accept E el l w = Some r" and full: "conn_capacity el \<le> active_count el"
    and fresh: "fresh_fds E"
  shows "fst r = el \<and> open_fds (snd r) = open_fds w"
proof -
  have "E' = E \<longrightarrow> conn_capacity el \<le> active_count el \<longrightarrow> fst r = el \<and> open_fds (snd r) = open_fds w"
    if run: "handle_accept E' el l w = Some r" for E'
  proof (rule handle_accept.raw_induct [where P = "\<lambda>E' el l w r. E' = E \<longrightarrow>
      conn_capacity el \<le> active_count el \<longrightarrow> fst r = el \<and> open_fds (snd r) = open_fds w", OF _ run],
      intro impI, goal_cases)
    case (1 h E' el l w r)
    let ?c = "Accept (c_fd (slot el l))"
    have new: "0 \<le> rv (E w ?c) \<Longrightarrow> rv (E w ?c) \<notin> open_fds w"
      using fresh_fdsD [OF fresh, of ?c w] by simp
    show ?case
    proof (cases "rv (E w ?c) < 0")
      case True
      with 1(2) 1(1) [of E el l "(?c, E w ?c) # w" r] 1(3,4) show ?thesis
        by (auto simp: Let_def split: if_splits)
    next
      case False
      with 1(2-4) have "h E el l (es_close_socket E (rv (E w ?c)) ((?c, E w ?c) # w)) = Some r"
        by (simp add: Let_def)
      from 1(1) [OF this] False 1(4) new show ?thesis by (simp add: world_simps)
    qed
  qed
  with run full show ?thesis by blast
qed

section \<open>Properties of the event loop\<close>

text \<open>A loop with one client, as it stands after registering descriptor 4 on epoll 3.\<close>

definition one_client_world :: world where
  "one_client_world =
     [(Epoll_ctl EPOLL_CTL_ADD 3 4 DEFAULT_TCP_EVENTS (Some 0), null_ret),
      (Accept 9, null_ret\<lparr>rv := 4\<rparr>), (Epoll_create1, null_ret\<lparr>rv := 3\<rparr>)]"

lemma one_client_inv [simp]: "el_inv {} one_client one_client_world"
  by (auto simp: el_inv_defs one_client_def one_client_world_def zero_connection_def used_def
      null_ret_def All_less_Suc Ex_less_Suc)

lemma one_client_inv5: "el_inv {5} one_client ((Socket SOCK_DGRAM, null_ret\<lparr>rv := 5\<rparr>) # one_client_world)"
  by (auto simp: el_inv_defs one_client_def one_client_world_def zero_connection_def used_def
      null_ret_def All_less_Suc Ex_less_Suc)

text \<open>The same loop with the client's slot turned into another kind of socket.\<close>

definition one_socket :: "conn_type \<Rightarrow> nat event_loop" where
  "one_socket t = upd_slot 0 (\<lambda>c. c\<lparr>c_type := t\<rparr>) (one_client\<lparr>sip_listen_fd := 4\<rparr>)"

lemma one_socket_inv: "t \<noteq> CONN_TYPE_FREE \<Longrightarrow> el_inv {} (one_socket t) one_client_world"
  by (auto simp: el_inv_defs one_client_def one_client_world_def zero_connection_def used_def
      null_ret_def All_less_Suc Ex_less_Suc one_socket_def upd_slot_def
      default_callbacks_def)

lemma one_socket_sel [simp]:
  "length (connections (one_socket t)) = 2" "c_fd (slot (one_socket t) 0) = 4"
  "c_type (slot (one_socket t) 0) = t" "c_state (slot (one_socket t) 0) = CONN_STATE_ACTIVE"
  "sip_listen_fd (one_socket t) = 4" "last_active (slot (one_socket t) 0) = 0"
  "idle_timeout_sec (config (one_socket t)) = 300"
  by (simp_all add: one_socket_def one_client_def upd_slot_def zero_connection_def)

text \<open>An environment with a backlog of \<open>n\<close> connections.\<close>

definition backlog_os :: "nat \<Rightarrow> env" where
  "backlog_os n w c = (if is_accept c \<and> accepts w < n then (quiet_os w c)\<lparr>rv := next_fd w\<rparr>
     else quiet_os w c)"

lemma backlog_os_ends: "backlog_ends (backlog_os n) n"
  by (simp add: backlog_ends_def backlog_os_def)

lemma backlog_os_fresh: "fresh_fds (backlog_os n)"
proof -
  have "next_fd w \<notin> open_fds w" for w using open_fds_below [of "next_fd w" w] by auto
  then show ?thesis using quiet_os_fresh by (simp add: fresh_fds_def backlog_os_def)
qed

text \<open>Registering a descriptor takes the lowest free slot, leaves every other slot
  alone, counts the connection, starts it with an empty send buffer, registers it with epoll
  under its own slot, and makes \<open>el_find_connection\<close> return that slot.\<close>

theorem add_then_find:
  assumes "el_add_connection E el f type ev addr port w = (Some i, el', w')"
    and "el_inv (insert f B) el w" and "f \<notin> B" and "type \<noteq> CONN_TYPE_FREE"
    and "type \<noteq> CONN_TYPE_TCP_LISTEN"
  shows "el_find_connection el' f = Some i \<and> c_type (slot el i) = CONN_TYPE_FREE \<and>
    (\<forall>j<i. c_type (slot el j) \<noteq> CONN_TYPE_FREE) \<and> (\<forall>j. j \<noteq> i \<longrightarrow> slot el' j = slot el j) \<and>
    active_count el' = active_count el + 1 \<and> active_count el' \<le> conn_capacity el' \<and>
    send_len (slot el' i) = 0 \<and> watched w' f = Some (Some i)"
proof -
  note s = add_connection_slots [OF assms(1)]
  from el_add_inv [OF assms(2-4) _ assms(1)] assms(5)
  have k: "el_inv B el' w'" "i < length (connections el')" "c_fd (slot el' i) = f" "used (slot el' i)"
    using assms(4) by (auto simp: used_def)
  then have "active_count el' \<le> conn_capacity el'"
    unfolding el_inv_def el_wf_def by (metis count_slots_le of_nat_le_iff)
  moreover have "watched w' f = Some (Some i)"
    using k unfolding el_inv_def el_watches_def by blast
  ultimately show ?thesis using s find_connection_used [OF k(1,2,4)] k(3) by (simp add: used_def)
qed

theorem add_then_find_witness:
  "\<exists>i el' w'. el_add_connection quiet_os one_client 5 CONN_TYPE_UDP_RTP DEFAULT_UDP_EVENTS None 0
      ((Socket SOCK_DGRAM, null_ret\<lparr>rv := 5\<rparr>) # one_client_world) = (Some i, el', w') \<and>
    el_find_connection el' 5 = Some i"
proof -
  obtain r el' w' where a: "el_add_connection quiet_os one_client 5 CONN_TYPE_UDP_RTP DEFAULT_UDP_EVENTS
      None 0 ((Socket SOCK_DGRAM, null_ret\<lparr>rv := 5\<rparr>) # one_client_world) = (r, el', w')"
    by (metis prod_cases3)
  then have "r = Some 1"
    by (auto simp: el_add_connection_def alloc_connection_def one_client_def upd_slot_def
        zero_connection_def es_wrapper_defs Let_def)
  with a have a: "el_add_connection quiet_os one_client 5 CONN_TYPE_UDP_RTP DEFAULT_UDP_EVENTS
      None 0 ((Socket SOCK_DGRAM, null_ret\<lparr>rv := 5\<rparr>) # one_client_world) = (Some 1, el', w')" by simp
  from add_then_find [OF a one_client_inv5] have "el_find_connection el' 5 = Some 1" by simp
  with a show ?thesis by blast
qed

text \<open>a registration that fails, for a full table or because epoll refused, leaves
  every occupied slot, the set of free slots and the count as they were.\<close>

theorem add_failure_changes_nothing:
  assumes "el_add_connection E el f type ev addr port w = (None, el', w')"
    and "i < length (connections el)"
  shows "(c_type (slot el' i) = CONN_TYPE_FREE \<longleftrightarrow> c_type (slot el i) = CONN_TYPE_FREE) \<and>
    (c_type (slot el i) \<noteq> CONN_TYPE_FREE \<longrightarrow> slot el' i = slot el i) \<and>
    active_count el' = active_count el"
  using add_connection_failed [OF assms] by (auto simp: used_def)

theorem add_failure_changes_nothing_witness:
  "\<exists>el' w'. el_add_connection (\<lambda>w c. null_ret\<lparr>rv := - 1\<rparr>) one_client 5 CONN_TYPE_UDP_RTP
      DEFAULT_UDP_EVENTS None 0 one_client_world = (None, el', w') \<and> slot el' 0 = slot one_client 0"
proof -
  obtain r el' w' where a: "el_add_connection (\<lambda>w c. null_ret\<lparr>rv := - 1\<rparr>) one_client 5 CONN_TYPE_UDP_RTP
      DEFAULT_UDP_EVENTS None 0 one_client_world = (r, el', w')"
    by (metis prod_cases3)
  moreover from a have "r = None"
    by (auto simp: el_add_connection_def alloc_connection_def one_client_def upd_slot_def
        zero_connection_def es_wrapper_defs Let_def null_ret_def)
  ultimately have a: "el_add_connection (\<lambda>w c. null_ret\<lparr>rv := - 1\<rparr>) one_client 5 CONN_TYPE_UDP_RTP
      DEFAULT_UDP_EVENTS None 0 one_client_world = (None, el', w')" by simp
  have "c_type (slot one_client 0) = CONN_TYPE_TCP_CLIENT" by (simp add: one_client_def)
  with add_failure_changes_nothing [OF a, of 0] a show ?thesis by auto
qed

text \<open>C16: one idle check frees exactly the connections that are active, not TCP listeners
  and silent for the configured time, and leaves every other slot untouched.\<close>

theorem idle_cleanup_exact:
  assumes "cleanup_idle_connections E el w = (el', w')" and "el_inv B el w"
    and "j < length (connections el)"
  shows "slot el' j = (if expired (rv (E w Time)) (idle_timeout_sec (config el)) (slot el j)
     then free_connection (slot el j) else slot el j)"
proof -
  have "nat (conn_capacity el) = length (connections el)"
    using assms(2) by (auto simp: el_inv_def el_wf_def)
  with assms(1) have "cleanup_slots E (rv (E w Time)) [0..<length (connections el)] el ((Time, E w Time) # w)
      = (el', w')" by (simp add: cleanup_idle_connections_def)
  from cleanup_slots_effect [OF this] assms(3) show ?thesis by simp
qed

theorem idle_cleanup_exact_witness:
  "\<exists>el' w'. cleanup_idle_connections quiet_os (one_socket CONN_TYPE_TCP_CLIENT) one_client_world = (el', w') \<and>
     slot el' 0 = free_connection (slot (one_socket CONN_TYPE_TCP_CLIENT) 0)"
proof -
  obtain el' w' where a: "cleanup_idle_connections quiet_os (one_socket CONN_TYPE_TCP_CLIENT) one_client_world
      = (el', w')" by fastforce
  from idle_cleanup_exact [OF a one_socket_inv, of 0] a show ?thesis by (simp add: expired_def)
qed

text \<open>C19: the UDP socket on which SIP arrives is not exempt: when no datagram came for the
  idle time, the check frees its slot and closes it, while \<open>sip_listen_fd\<close> keeps its number.\<close>

theorem idle_cleanup_closes_sip_listener:
  assumes "cleanup_idle_connections E el w = (el', w')" and "el_inv B el w"
    and "i < length (connections el)" and "c_type (slot el i) = CONN_TYPE_UDP_SIP"
    and "c_state (slot el i) = CONN_STATE_ACTIVE" and "c_fd (slot el i) = sip_listen_fd el"
    and "idle_timeout_sec (config el) \<le> to_int32 (rv (E w Time) - last_active (slot el i))"
  shows "c_type (slot el' i) = CONN_TYPE_FREE \<and> sip_listen_fd el' = sip_listen_fd el \<and>
    sip_listen_fd el' \<notin> open_fds w'"
proof -
  have x: "expired (rv (E w Time)) (idle_timeout_sec (config el)) (slot el i)"
    using assms(4-7) by (simp add: expired_def)
  have len: "nat (conn_capacity el) = length (connections el)"
    using assms(2) by (auto simp: el_inv_def el_wf_def)
  with assms(1) have "cleanup_slots E (rv (E w Time)) [0..<length (connections el)] el ((Time, E w Time) # w)
      = (el', w')" by (simp add: cleanup_idle_connections_def)
  note c = cleanup_slots_effect [OF this]
  then have l: "length (connections el') = length (connections el)" "sip_listen_fd el' = sip_listen_fd el"
    and sl: "j < length (connections el) \<Longrightarrow> slot el' j = slot el j \<or> \<not> used (slot el' j)"
      "slot el' i = free_connection (slot el i)" for j
    using x assms(3) by auto
  have k: "el_inv B el' w'" "epfd el' = epfd el"
    using cleanup_keeps [OF assms(2), of E] assms(1) by (simp_all add: keeps_def el_frame_def)
  let ?f = "sip_listen_fd el"
  have u: "used (slot el i)" using assms(4) by (simp add: used_def)
  have inj: "j = i" if "j < length (connections el)" "used (slot el j)" "c_fd (slot el j) = ?f" for j
  proof -
    have "el_wf el" using assms(2) by (simp add: el_inv_def)
    with that u assms(3,6) show ?thesis unfolding el_wf_def by metis
  qed
  have "?f \<notin> slot_fds el'"
  proof
    assume "?f \<in> slot_fds el'"
    then obtain j where j: "j < length (connections el)" "used (slot el' j)" "c_fd (slot el' j) = ?f"
      using l(1) by (auto simp: slot_fds_def)
    with sl(1) [of j] inj [of j] have "j = i" by auto
    with j(2) sl(2) show False by simp
  qed
  moreover have "?f \<in> slot_fds el" using assms(3,6) u by (auto simp: slot_fds_def)
  then have "?f \<notin> B" "?f \<noteq> epfd el'"
    using assms(2) k(2) by (auto simp: el_inv_def el_owns_def)
  ultimately have "?f \<notin> open_fds w'" using k(1) by (auto simp: el_inv_def el_owns_def)
  with l sl(2) show ?thesis by (simp add: free_connection_def)
qed

theorem idle_cleanup_closes_sip_listener_witness:
  "\<exists>el' w'. cleanup_idle_connections quiet_os (one_socket CONN_TYPE_UDP_SIP) one_client_world = (el', w') \<and>
     sip_listen_fd el' = 4 \<and> 4 \<notin> open_fds w'"
proof -
  obtain el' w' where a: "cleanup_idle_connections quiet_os (one_socket CONN_TYPE_UDP_SIP) one_client_world
      = (el', w')" by fastforce
  from idle_cleanup_closes_sip_listener [OF a one_socket_inv, of 0] a show ?thesis by auto
qed

text \<open>with the table full, accepting changes nothing but drains the backlog: every
  connection accepted is closed again, none is registered and no descriptor leaks.\<close>

theorem full_table_rejects:
  assumes "handle_accept E el l w = Some (el', w')" and "conn_capacity el \<le> active_count el"
    and "fresh_fds E"
  shows "el' = el \<and> open_fds w' = open_fds w"
  using accept_overloaded [OF assms] by simp

theorem full_table_rejects_witness:
  "\<exists>w'. handle_accept (backlog_os 2) (one_client\<lparr>conn_capacity := 1\<rparr>) 0 one_client_world =
     Some (one_client\<lparr>conn_capacity := 1\<rparr>, w') \<and> open_fds w' = open_fds one_client_world"
proof -
  obtain el' w' where a: "handle_accept (backlog_os 2) (one_client\<lparr>conn_capacity := 1\<rparr>) 0 one_client_world =
      Some (el', w')"
    using handle_accept_ends [OF backlog_os_ends] by (metis surj_pair)
  from full_table_rejects [OF a _ backlog_os_fresh] a show ?thesis by (simp add: one_client_def)
qed

text \<open>Accepting ends: once the backlog is exhausted after at most \<open>n\<close> connections,
  \<open>handle_accept\<close> returns, whatever the callbacks did, and it keeps the loop's invariant.\<close>

theorem accept_returns:
  assumes "backlog_ends E n" and "fresh_fds E" and "el_inv B el w" and "l < length (connections el)"
    and "c_type (slot el l) = CONN_TYPE_TCP_LISTEN"
  shows "\<exists>el' w'. handle_accept E el l w = Some (el', w') \<and> el_inv B el' w'"
proof -
  obtain r where r: "handle_accept E el l w = Some r" using handle_accept_ends [OF assms(1)] by blast
  have "on_accept (callbacks el) \<noteq> None"
    using assms(3-5) by (auto simp: el_inv_def el_wf_def)
  from handle_accept_keeps [OF r assms(2) this assms(3)] show ?thesis
    using r by (cases r) (auto simp: keeps_def)
qed

theorem accept_returns_witness:
  "\<exists>el' w'. handle_accept (backlog_os 3) (one_socket CONN_TYPE_TCP_LISTEN) 0 one_client_world =
     Some (el', w') \<and> el_inv {} el' w'"
  by (rule accept_returns [OF backlog_os_ends backlog_os_fresh one_socket_inv]) simp_all

end
