(* ===== verification/Sip_Handler.thy ===== *)
theory Sip_Handler
  imports Sip_Facts Lua_Utils Event_Loop_Table
begin

text \<open>
  \<open>src/sip_handler.c\<close>, the operational part: sending responses, the handlers of the methods,
  dispatch, and the receive loop installed as the read callback of the event loop. The value
  behind \<open>user_data\<close> is the Lua context. \<open>None\<close> is an endless receive loop or undefined
  behaviour inside the Lua wrapper (which is shown not to occur).
\<close>

section \<open>Responses\<close>

definition sip_send_response ::
    "env \<Rightarrow> 'v event_loop \<Rightarrow> nat \<Rightarrow> sip_message option \<Rightarrow> int \<Rightarrow> bytes \<Rightarrow> world \<Rightarrow> world" where
  "sip_send_response E el i request status_code reason_phrase w =
     (case sip_generate_response request status_code (Some reason_phrase) (int SIP_RESP_BUF_SIZE) of
        None \<Rightarrow> w
      | Some buf \<Rightarrow>
          (case request of
             None \<Rightarrow> w
           | Some q \<Rightarrow>
               if 0 < m_src_len q then
                 snd (snd (es_send_all E (c_fd (slot el i)) buf 0 (int (length buf)) True
                             (Some (m_src_addr q)) w))
               else w))"

section \<open>Methods\<close>

definition ROUTE_RESULT_SUCCESS :: int where "ROUTE_RESULT_SUCCESS = 0"
definition ROUTE_RESULT_INVALID_DIGITS :: int where "ROUTE_RESULT_INVALID_DIGITS = 1"
definition ROUTE_RESULT_DEPT_FULL :: int where "ROUTE_RESULT_DEPT_FULL = 2"
definition ROUTE_RESULT_AGENT_OFFLINE :: int where "ROUTE_RESULT_AGENT_OFFLINE = 3"
definition ROUTE_RESULT_FALLBACK_AGENT :: int where "ROUTE_RESULT_FALLBACK_AGENT = 4"
definition ROUTE_RESULT_QUEUED :: int where "ROUTE_RESULT_QUEUED = 5"
definition ROUTE_RESULT_NIGHT_MODE :: int where "ROUTE_RESULT_NIGHT_MODE = 6"
definition ROUTE_RESULT_VOICEMAIL :: int where "ROUTE_RESULT_VOICEMAIL = 7"
definition ROUTE_RESULT_TIMEOUT_RETRY :: int where "ROUTE_RESULT_TIMEOUT_RETRY = 8"
definition ROUTE_RESULT_INVALID_KEY_RETRY :: int where "ROUTE_RESULT_INVALID_KEY_RETRY = 9"

lemmas route_results = ROUTE_RESULT_SUCCESS_def ROUTE_RESULT_INVALID_DIGITS_def
  ROUTE_RESULT_DEPT_FULL_def ROUTE_RESULT_AGENT_OFFLINE_def ROUTE_RESULT_FALLBACK_AGENT_def
  ROUTE_RESULT_QUEUED_def ROUTE_RESULT_NIGHT_MODE_def ROUTE_RESULT_VOICEMAIL_def
  ROUTE_RESULT_TIMEOUT_RETRY_def ROUTE_RESULT_INVALID_KEY_RETRY_def

text \<open>The switch on the routing result.\<close>

definition invite_status :: "int \<Rightarrow> int \<times> bytes" where
  "invite_status code =
     (if code = ROUTE_RESULT_SUCCESS then (180, ''Ringing'')
      else if code = ROUTE_RESULT_DEPT_FULL \<or> code = ROUTE_RESULT_AGENT_OFFLINE then (486, ''Busy Here'')
      else if code = ROUTE_RESULT_INVALID_DIGITS then (404, ''Not Found'')
      else if code = ROUTE_RESULT_NIGHT_MODE \<or> code = ROUTE_RESULT_VOICEMAIL
        then (480, ''Temporarily Unavailable'')
      else if code = ROUTE_RESULT_QUEUED \<or> code = ROUTE_RESULT_FALLBACK_AGENT \<or>
        code = ROUTE_RESULT_TIMEOUT_RETRY \<or> code = ROUTE_RESULT_INVALID_KEY_RETRY
        then (180, ''Ringing'')
      else (500, ''Server Internal Error''))"

type_synonym 'g server = "'g lua_vm event_loop"

definition sip_handle_invite ::
    "'g lua_interp \<Rightarrow> env \<Rightarrow> 'g server \<Rightarrow> nat \<Rightarrow> sip_message \<Rightarrow> world \<Rightarrow> ('g server \<times> world) option" where
  "sip_handle_invite I E el i msg w =
     (if m_caller_number msg = [] \<or> m_callee_number msg = [] then
        Some (el, sip_send_response E el i (Some msg) 400 ''Bad Request'' w)
      else case user_data el of
        None \<Rightarrow> Some (el, sip_send_response E el i (Some msg) 500 ''Server Internal Error'' w)
      | Some vm \<Rightarrow>
          (case lua_vm_call_route I vm (Some (m_caller_number msg)) (Some (m_callee_number msg))
                  zero_response of
             None \<Rightarrow> None
           | Some (result, route_resp, vm) \<Rightarrow>
               let el = el\<lparr>user_data := Some vm\<rparr> in
               if result < 0 then
                 Some (el, sip_send_response E el i (Some msg) 500 ''Server Internal Error'' w)
               else
                 let w = sip_send_response E el i (Some msg) 100 ''Trying'' w;
                     (status, reason) = invite_status (r_code route_resp)
                 in Some (el, sip_send_response E el i (Some msg) status reason w)))"

definition sip_handle_options :: "env \<Rightarrow> 'v event_loop \<Rightarrow> nat \<Rightarrow> sip_message \<Rightarrow> world \<Rightarrow> world" where
  "sip_handle_options E el i msg w = sip_send_response E el i (Some msg) 200 ''OK'' w"

definition sip_handle_bye :: "env \<Rightarrow> 'v event_loop \<Rightarrow> nat \<Rightarrow> sip_message \<Rightarrow> world \<Rightarrow> world" where
  "sip_handle_bye E el i msg w = sip_send_response E el i (Some msg) 200 ''OK'' w"

definition sip_handle_cancel :: "env \<Rightarrow> 'v event_loop \<Rightarrow> nat \<Rightarrow> sip_message \<Rightarrow> world \<Rightarrow> world" where
  "sip_handle_cancel E el i msg w = sip_send_response E el i (Some msg) 200 ''OK'' w"

definition sip_handle_refer :: "env \<Rightarrow> 'v event_loop \<Rightarrow> nat \<Rightarrow> sip_message \<Rightarrow> world \<Rightarrow> world" where
  "sip_handle_refer E el i msg w = sip_send_response E el i (Some msg) 202 ''Accepted'' w"

definition sip_dispatch ::
    "'g lua_interp \<Rightarrow> env \<Rightarrow> 'g server \<Rightarrow> nat \<Rightarrow> sip_message \<Rightarrow> world \<Rightarrow> ('g server \<times> world) option" where
  "sip_dispatch I E el i msg w =
     (if 0 < m_status_code msg then Some (el, w) else
      case m_method msg of
        SIP_METHOD_INVITE \<Rightarrow> sip_handle_invite I E el i msg w
      | SIP_METHOD_ACK \<Rightarrow> Some (el, w)
      | SIP_METHOD_BYE \<Rightarrow> Some (el, sip_handle_bye E el i msg w)
      | SIP_METHOD_CANCEL \<Rightarrow> Some (el, sip_handle_cancel E el i msg w)
      | SIP_METHOD_OPTIONS \<Rightarrow> Some (el, sip_handle_options E el i msg w)
      | SIP_METHOD_REFER \<Rightarrow> Some (el, sip_handle_refer E el i msg w)
      | SIP_METHOD_REGISTER \<Rightarrow> Some (el, sip_send_response E el i (Some msg) 200 ''OK'' w)
      | _ \<Rightarrow> Some (el, sip_send_response E el i (Some msg) 405 ''Method Not Allowed'' w))"

section \<open>Receiving\<close>

text \<open>One datagram, from the byte count check on; \<open>peer_len\<close> is the size of an IPv4 address.\<close>

definition sip_handle_datagram ::
    "'g lua_interp \<Rightarrow> env \<Rightarrow> 'g server \<Rightarrow> nat \<Rightarrow> bytes \<Rightarrow> int \<Rightarrow> sockaddr_in \<Rightarrow> world \<Rightarrow>
     ('g server \<times> world) option" where
  "sip_handle_datagram I E el i buf n peer_addr w =
     (let (parse_ret, msg) = sip_parse_message (Some buf) n zero_message in
      if parse_ret \<noteq> SIP_PARSE_OK then Some (el, w) else
      let msg = msg\<lparr>m_src_addr := peer_addr, m_src_len := 16\<rparr> in
      if sip_validate_message (Some msg) \<noteq> 0 then Some (el, w)
      else sip_dispatch I E el i msg w)"

partial_function (option) sip_receive ::
    "'g lua_interp \<Rightarrow> env \<Rightarrow> 'g server \<Rightarrow> nat \<Rightarrow> world \<Rightarrow> ('g server \<times> world) option" where
  "sip_receive I E el i w =
     (let c = Recvfrom (c_fd (slot el i)) (int SIP_MAX_RAW_LEN - 1);
          r = E w c;
          w = (c, r) # w
      in if rv r < 0 then
           (if would_block (err r) then Some (el, w)
            else if err r = EINTR then sip_receive I E el i w
            else Some (el, w))
         else if rv r = 0 then sip_receive I E el i w
         else (case sip_handle_datagram I E el i (take (nat (rv r)) (dat r)) (rv r) (peer r) w of
                 None \<Rightarrow> None
               | Some (el, w) \<Rightarrow> sip_receive I E el i w))"

definition sip_handler_on_read :: "'g lua_interp \<Rightarrow> 'g lua_vm reader" where
  "sip_handler_on_read I E el i w =
     (if c_type (slot el i) \<noteq> CONN_TYPE_UDP_SIP then el_default_on_read E el i w
      else sip_receive I E el i w)"

section \<open>Facts: what a response does\<close>

definition reply_call :: "'v event_loop \<Rightarrow> nat \<Rightarrow> sip_message \<Rightarrow> int \<times> bytes \<Rightarrow> extcall" where
  "reply_call el i q sr = Sendto (c_fd (slot el i)) (response_text (Some q) (fst sr) (Some (snd sr)))
     (Some (m_src_addr q))"

fun add_replies :: "env \<Rightarrow> 'v event_loop \<Rightarrow> nat \<Rightarrow> sip_message \<Rightarrow> (int \<times> bytes) list \<Rightarrow> world \<Rightarrow> world" where
  "add_replies E el i q [] w = w"
| "add_replies E el i q (sr # srs) w =
     add_replies E el i q srs ((reply_call el i q sr, E w (reply_call el i q sr)) # w)"

definition reply_fits :: "int \<times> bytes \<Rightarrow> bool" where
  "reply_fits sr \<longleftrightarrow> 0 \<le> fst sr \<and> fst sr < 1000 \<and> length (snd sr) \<le> 200"

lemma send_response_eq:
  assumes "headers_ok q" and "0 < m_src_len q" and "reply_fits (code, reason)"
  shows "sip_send_response E el i (Some q) code reason w = add_replies E el i q [(code, reason)] w"
proof -
  let ?t = "response_text (Some q) code (Some reason)"
  have "length ?t < SIP_RESP_BUF_SIZE"
    using assms by (intro response_fits) (simp_all add: reply_fits_def)
  moreover have "0 < length ?t" by (simp add: response_text_def)
  ultimately show ?thesis using assms(2)
    by (simp add: sip_send_response_def sip_generate_response_def Let_def es_send_all_eq
        send_call_def reply_call_def)
qed

text \<open>The responses each request must get.\<close>

definition invite_replies :: "'g lua_interp \<Rightarrow> 'g lua_vm option \<Rightarrow> sip_message \<Rightarrow> (int \<times> bytes) list" where
  "invite_replies I vm q =
     (if m_caller_number q = [] \<or> m_callee_number q = [] then [(400, ''Bad Request'')] else
      case vm of
        None \<Rightarrow> [(500, ''Server Internal Error'')]
      | Some v \<Rightarrow>
          (case lua_vm_call_route I v (Some (m_caller_number q)) (Some (m_callee_number q)) zero_response of
             Some (result, resp, v') \<Rightarrow>
               if result < 0 then [(500, ''Server Internal Error'')]
               else [(100, ''Trying''), invite_status (r_code resp)]
           | None \<Rightarrow> []))"

definition replies_to :: "'g lua_interp \<Rightarrow> 'g lua_vm option \<Rightarrow> sip_message \<Rightarrow> (int \<times> bytes) list" where
  "replies_to I vm q =
     (if 0 < m_status_code q then [] else
      case m_method q of
        SIP_METHOD_INVITE \<Rightarrow> invite_replies I vm q
      | SIP_METHOD_ACK \<Rightarrow> []
      | SIP_METHOD_REFER \<Rightarrow> [(202, ''Accepted'')]
      | SIP_METHOD_BYE \<Rightarrow> [(200, ''OK'')]
      | SIP_METHOD_CANCEL \<Rightarrow> [(200, ''OK'')]
      | SIP_METHOD_OPTIONS \<Rightarrow> [(200, ''OK'')]
      | SIP_METHOD_REGISTER \<Rightarrow> [(200, ''OK'')]
      | _ \<Rightarrow> [(405, ''Method Not Allowed'')])"

lemma invite_status_fits: "reply_fits (invite_status c)"
  by (simp add: invite_status_def reply_fits_def)

lemma call_route_total: "\<exists>c r vm'. lua_vm_call_route I vm caller (Some d) resp = Some (c, r, vm')"
proof (cases "vm_L vm")
  case None
  then show ?thesis by (simp add: lua_vm_call_route_def)
next
  case (Some L)
  then show ?thesis
    using lua_call_route_some [OF Some, of I caller d resp] by (simp add: routed_def split: prod.split sum.split)
qed

lemma add_replies_user_data [simp]: "add_replies E (el\<lparr>user_data := u\<rparr>) i q rs w = add_replies E el i q rs w"
  by (induction rs arbitrary: w) (simp_all add: reply_call_def)

lemma add_replies_append: "add_replies E el i q (xs @ ys) w = add_replies E el i q ys (add_replies E el i q xs w)"
  by (induction xs arbitrary: w) simp_all

lemma invite_eq:
  assumes q: "headers_ok q" "0 < m_src_len q"
  shows "\<exists>u. sip_handle_invite I E el i q w =
    Some (el\<lparr>user_data := u\<rparr>, add_replies E el i q (invite_replies I (user_data el) q) w)"
proof (cases "m_caller_number q = [] \<or> m_callee_number q = []")
  case True
  then show ?thesis
    by (intro exI [of _ "user_data el"])
       (simp add: sip_handle_invite_def invite_replies_def send_response_eq [OF q] reply_fits_def)
next
  case named: False
  show ?thesis
  proof (cases "user_data el")
    case None
    with named show ?thesis
      by (intro exI [of _ "user_data el"])
         (simp add: sip_handle_invite_def invite_replies_def send_response_eq [OF q] reply_fits_def)
  next
    case (Some vm)
    obtain c r vm' where call: "lua_vm_call_route I vm (Some (m_caller_number q))
        (Some (m_callee_number q)) zero_response = Some (c, r, vm')"
      using call_route_total by blast
    obtain st re where st: "invite_status (r_code r) = (st, re)" by fastforce
    have "0 \<le> st" "st < 1000" "length re \<le> 200"
      using invite_status_fits [of "r_code r"] st by (simp_all add: reply_fits_def)
    then show ?thesis
      using named Some call st
      by (intro exI [of _ "Some vm'"])
         (simp add: sip_handle_invite_def invite_replies_def send_response_eq [OF q] reply_fits_def Let_def
           reply_call_def)
  qed
qed

lemma dispatch_eq:
  assumes q: "headers_ok q" "0 < m_src_len q"
  shows "\<exists>u. sip_dispatch I E el i q w =
    Some (el\<lparr>user_data := u\<rparr>, add_replies E el i q (replies_to I (user_data el) q) w)"
proof (cases "0 < m_status_code q \<or> m_method q \<noteq> SIP_METHOD_INVITE")
  case True
  then show ?thesis
    by (intro exI [of _ "user_data el"])
       (auto simp: sip_dispatch_def replies_to_def send_response_eq [OF q] reply_fits_def
         sip_handle_options_def sip_handle_bye_def sip_handle_cancel_def sip_handle_refer_def split: sip_method.split)
next
  case False
  with invite_eq [OF q, of I E el i w] show ?thesis by (simp add: sip_dispatch_def replies_to_def)
qed

text \<open>The message a datagram is acted on as, if it is.\<close>

definition accepted :: "bytes \<Rightarrow> sockaddr_in \<Rightarrow> sip_message option" where
  "accepted d peer_addr =
     (let (r, m) = sip_parse_message (Some d) (int (length d)) zero_message;
          q = m\<lparr>m_src_addr := peer_addr, m_src_len := 16\<rparr>
      in if r = SIP_PARSE_OK \<and> sip_validate_message (Some q) = 0 then Some q else None)"

lemma accepted_ok: "accepted d a = Some q \<Longrightarrow> headers_ok q \<and> 0 < m_src_len q"
  using parsed_headers_ok [of d zero_message]
  by (auto simp: accepted_def Let_def headers_ok_def split: prod.splits if_splits)

lemma handle_datagram_eq:
  "\<exists>u. sip_handle_datagram I E el i d (int (length d)) a w =
    Some (el\<lparr>user_data := u\<rparr>, case accepted d a of None \<Rightarrow> w
       | Some q \<Rightarrow> add_replies E el i q (replies_to I (user_data el) q) w)"
proof (cases "accepted d a")
  case None
  then show ?thesis
    by (intro exI [of _ "user_data el"])
       (auto simp: accepted_def sip_handle_datagram_def Let_def split: prod.splits if_splits)
next
  case (Some q)
  then have "sip_handle_datagram I E el i d (int (length d)) a w = sip_dispatch I E el i q w"
    by (auto simp: accepted_def sip_handle_datagram_def Let_def split: prod.splits if_splits)
  with dispatch_eq [of q I E el i w] accepted_ok [OF Some] Some show ?thesis by simp
qed

section \<open>Facts: the read callback keeps the loop's invariant\<close>

lemma el_inv_send_response [simp]: "el_inv B X (sip_send_response E el i q c r w) = el_inv B X w"
  by (simp add: sip_send_response_def split: option.split)

fun is_recv :: "extcall \<Rightarrow> bool" where
  "is_recv (Recvfrom f n) = True"
| "is_recv c = False"

definition recvs :: "world \<Rightarrow> nat" where
  "recvs w = count_slots is_recv (map fst w)"

lemma recvs_Nil [simp]: "recvs [] = 0"
  by (simp add: recvs_def)

lemma recvs_Cons [simp]: "recvs ((c, r) # w) = (if is_recv c then Suc (recvs w) else recvs w)"
  by (simp add: recvs_def)

lemma recvs_send_response [simp]: "recvs (sip_send_response E el i q c r w) = recvs w"
  by (simp add: sip_send_response_def es_send_all_def Let_def split: option.split)

text \<open>What handling a message may change: the Lua context, and the trace by calls that touch
  no descriptor.\<close>

definition sip_keeps :: "'g server \<Rightarrow> world \<Rightarrow> 'g server \<times> world \<Rightarrow> bool" where
  "sip_keeps el w r \<longleftrightarrow> (\<exists>u. fst r = el\<lparr>user_data := u\<rparr>) \<and>
     (\<forall>B (X :: 'g server). el_inv B X (snd r) = el_inv B X w) \<and> recvs (snd r) = recvs w"

lemma sip_keeps_refl [simp]: "sip_keeps el w (el, w)"
  unfolding sip_keeps_def by (intro conjI exI [of _ "user_data el"]) simp_all

lemma sip_keeps_response [simp]: "sip_keeps el w (el, sip_send_response E el' i q c r w)"
  unfolding sip_keeps_def by (intro conjI exI [of _ "user_data el"]) simp_all

lemma dispatch_keeps:
  assumes "sip_dispatch I E el i q w = Some r"
  shows "sip_keeps el w r"
proof -
  have "sip_keeps el w r" if "sip_handle_invite I E el i q w = Some r"
    using that
    by (auto simp: sip_handle_invite_def Let_def sip_keeps_def split: if_splits option.splits prod.splits)
       (intro exI [of _ "user_data el"], simp)+
  with assms show ?thesis
    by (auto simp: sip_dispatch_def sip_handle_options_def sip_handle_bye_def sip_handle_cancel_def
        sip_handle_refer_def split: if_splits sip_method.splits)
qed

lemma datagram_keeps: "sip_handle_datagram I E el i d n a w = Some r \<Longrightarrow> sip_keeps el w r"
  by (auto simp: sip_handle_datagram_def Let_def dispatch_keeps split: if_splits prod.splits)

definition sip_grows :: "'g server \<Rightarrow> world \<Rightarrow> 'g server \<times> world \<Rightarrow> bool" where
  "sip_grows el w r \<longleftrightarrow> (\<exists>u. fst r = el\<lparr>user_data := u\<rparr>) \<and>
     (\<forall>B (X :: 'g server). el_inv B X (snd r) = el_inv B X w)"

lemma sip_grows_refl: "sip_grows el w (el, w)"
  unfolding sip_grows_def by (intro conjI exI [of _ "user_data el"]) simp_all

lemma receive_keeps:
  assumes "sip_receive I E el i w = Some r"
  shows "sip_grows el w r"
proof (rule sip_receive.raw_induct [where P = "\<lambda>I E el i w r. sip_grows el w r", OF _ assms],
    goal_cases)
  case (1 h I E el i w r)
  let ?c = "Recvfrom (c_fd (slot el i)) (int SIP_MAX_RAW_LEN - 1)"
  let ?w = "(?c, E w ?c) # w"
  have up: "sip_grows el w r" if "sip_grows el ?w r" for r
    using that by (simp add: sip_grows_def)
  show ?case
  proof (cases "rv (E w ?c) \<le> 0")
    case True
    with 1 up [of r] up [of "(el, ?w)"] sip_grows_refl [of el ?w] show ?thesis
      by (auto simp: Let_def split: if_splits)
  next
    case False
    with 1(2) obtain el1 w1 where
      d: "sip_handle_datagram I E el i (take (nat (rv (E w ?c))) (dat (E w ?c))) (rv (E w ?c))
            (peer (E w ?c)) ?w = Some (el1, w1)" and rest: "h I E el1 i w1 = Some r"
      by (auto simp: Let_def split: if_splits option.splits)
    from datagram_keeps [OF d] obtain u where "el1 = el\<lparr>user_data := u\<rparr>"
      "\<forall>B (X :: 'a server). el_inv B X w1 = el_inv B X ?w" by (auto simp: sip_keeps_def)
    moreover have "sip_grows el1 w1 r" using rest by (rule 1(1))
    ultimately have "sip_grows el ?w r" by (auto simp: sip_grows_def)
    then show ?thesis by (rule up)
  qed
qed

lemma on_read_keeps_inv:
  assumes "sip_handler_on_read I E el i w = Some r" and "el_inv B el w"
    and "i < length (connections el)"
  shows "keeps B el r"
proof (cases "c_type (slot el i) = CONN_TYPE_UDP_SIP")
  case True
  with assms(1) have "sip_grows el w r" by (auto simp: sip_handler_on_read_def intro: receive_keeps)
  with assms(2) show ?thesis by (auto simp: sip_grows_def keeps_def el_frame_def)
next
  case False
  with assms show ?thesis by (auto simp: sip_handler_on_read_def intro: keeps_default_read)
qed

interpretation sip_server: event_handlers "sip_handler_on_read I" "\<lambda>E el w. (el, w)" for I
  by unfold_locales (auto intro: on_read_keeps_inv)

section \<open>Facts: the receive loop ends\<close>

text \<open>After \<open>n\<close> receive calls the queue is empty, and the next call is not interrupted.\<close>

definition queue_ends :: "env \<Rightarrow> nat \<Rightarrow> bool" where
  "queue_ends E n \<longleftrightarrow>
     (\<forall>w f k. n \<le> recvs w \<longrightarrow> rv (E w (Recvfrom f k)) < 0 \<and> err (E w (Recvfrom f k)) \<noteq> EINTR)"

lemma datagram_total: "\<exists>r. sip_handle_datagram I E el i d n a w = Some r"
proof -
  have "\<exists>r. sip_handle_invite I E el i q w = Some r" for q
    using call_route_total [of I _ "Some (m_caller_number q)" "m_callee_number q" zero_response]
    by (cases "user_data el")
       (auto simp: sip_handle_invite_def Let_def split: option.split prod.split, metis option.distinct(1))
  then have "\<exists>r. sip_dispatch I E el i q w = Some r" for q
    by (simp add: sip_dispatch_def split: sip_method.split)
  then show ?thesis by (simp add: sip_handle_datagram_def Let_def split: prod.split)
qed

lemma receive_total:
  fixes el :: "'g server"
  assumes "queue_ends E n"
  shows "\<exists>r. sip_receive I E el i w = Some r"
proof (induction "n - recvs w" arbitrary: el w rule: less_induct)
  case less
  let ?c = "Recvfrom (c_fd (slot el i)) (int SIP_MAX_RAW_LEN - 1)"
  let ?w = "(?c, E w ?c) # w"
  note st = sip_receive.simps [of I E el i w] Let_def
  show ?case
  proof (cases "n \<le> recvs w")
    case True
    with assms have "rv (E w ?c) < 0" "err (E w ?c) \<noteq> EINTR" by (simp_all add: queue_ends_def)
    then show ?thesis by (simp add: st del: split_paired_Ex)
  next
    case False
    have IH: "\<exists>r. sip_receive I E el' i w' = Some r" if "recvs w' = Suc (recvs w)"
      for el' :: "'g server" and w'
      using less [of w' el'] that False by simp
    obtain el1 w1 where
      d: "sip_handle_datagram I E el i (take (nat (rv (E w ?c))) (dat (E w ?c))) (rv (E w ?c))
            (peer (E w ?c)) ?w = Some (el1, w1)"
      using datagram_total by (metis surj_pair)
    from datagram_keeps [OF d] have "recvs w1 = Suc (recvs w)" by (simp add: sip_keeps_def)
    with d IH show ?thesis by (simp add: st del: split_paired_Ex)
  qed
qed

section \<open>Properties\<close>

text \<open>C9: whatever bytes a datagram holds, it is answered as its request demands and in no
  other way: one that does not parse or validate leaves the server and the trace as they
  were; any other causes exactly the responses of \<open>replies_to\<close> (100 and the status of the
  routing result for an INVITE, 200 for BYE, CANCEL, OPTIONS and REGISTER, 202 for REFER,
  none for ACK and for responses, 405 otherwise), each sent to the sender's address from the
  socket it came in on. Only the Lua context of the server may change.\<close>

theorem datagram_answered:
  "\<exists>u. sip_handle_datagram I E el i d (int (length d)) a w =
    Some (el\<lparr>user_data := u\<rparr>, case accepted d a of None \<Rightarrow> w
       | Some q \<Rightarrow> add_replies E el i q (replies_to I (user_data el) q) w)"
  by (rule handle_datagram_eq)


lemma sample_accepted:
  "accepted sample_invite a = Some (sample_request\<lparr>m_src_addr := a, m_src_len := 16\<rparr>)"
  by (simp add: accepted_def Let_def sample_invite_parses sip_validate_message_def)


text \<open>C18: the read callback returns once the socket's queue is drained, whatever the datagrams
  hold, and keeps the event loop's invariant.\<close>

theorem on_read_returns:
  assumes "queue_ends E n" and "el_inv B el w" and "i < length (connections el)"
    and "c_type (slot el i) = CONN_TYPE_UDP_SIP"
  shows "\<exists>el' w'. sip_handler_on_read I E el i w = Some (el', w') \<and> el_inv B el' w' \<and>
    connections el' = connections el"
proof -
  obtain el' w' where r: "sip_receive I E el i w = Some (el', w')"
    using receive_total [OF assms(1)] by (metis surj_pair)
  then have rd: "sip_handler_on_read I E el i w = Some (el', w')"
    using assms(4) by (simp add: sip_handler_on_read_def)
  from on_read_keeps_inv [OF rd assms(2,3)] have "el_inv B el' w'" by (simp add: keeps_def)
  moreover have "connections el' = connections el"
    using receive_keeps [OF r] by (auto simp: sip_grows_def)
  ultimately show ?thesis using rd by blast
qed

lemma quiet_os_queue: "queue_ends quiet_os 0"
  by (simp add: queue_ends_def)

definition sip_loop :: "nat server" where
  "sip_loop = \<lparr>epfd = 3, running = True, config = config one_client,
     callbacks = default_callbacks\<lparr>on_read := Some App_On_Read\<rparr>,
     connections = [zero_connection\<lparr>c_fd := 4, c_type := CONN_TYPE_UDP_SIP\<rparr>,
                    zero_connection\<lparr>c_fd := - 1\<rparr>],
     conn_capacity = 2, active_count = 1, sip_listen_fd = 4, rtp_base_fd = 0,
     last_idle_check = 0, start_time = 0, user_data = Some sample_vm\<rparr>"

lemma sip_loop_inv: "el_inv {} sip_loop one_client_world"
  by (auto simp: el_inv_defs sip_loop_def one_client_world_def zero_connection_def used_def
      null_ret_def All_less_Suc Ex_less_Suc default_callbacks_def)

theorem on_read_returns_witness:
  "\<exists>el' w'. sip_handler_on_read sample_interp quiet_os sip_loop 0 one_client_world = Some (el', w') \<and>
     el_inv {} el' w' \<and> connections el' = connections sip_loop"
  by (rule on_read_returns [OF quiet_os_queue sip_loop_inv]) (simp_all add: sip_loop_def)

end
