(* ===== verification/Server.thy ===== *)
theory Server
  imports Sip_Handler
begin

text \<open>
  The server mode of \<open>src/main.c\<close>: the event loop is created with the fixed configuration,
  gets the Lua context and a callback table that holds the SIP read handler and nothing
  else, runs until a signal, and is destroyed by \<open>main\<close>. The start-up around it is in
  \<open>Program\<close>.
\<close>

section \<open>Server mode\<close>

definition server_mode_config :: server_config where
  "server_mode_config = \<lparr>sip_port = 5060, rtp_port_min = 16384, rtp_port_max = 32768,
     tcp_backlog = SERVER_TCP_BACKLOG, max_connections = MAX_CONCURRENT_CALLS,
     idle_timeout_sec = CONNECTION_IDLE_TIMEOUT_SEC, epoll_timeout_ms = EPOLL_WAIT_TIMEOUT_MS,
     epoll_max_events = MAX_EPOLL_EVENTS\<rparr>"

definition sip_cb :: el_callbacks where
  "sip_cb = \<lparr>on_accept = None, on_read = Some App_On_Read, on_write = None, on_error = None,
     on_close = None, on_idle = None\<rparr>"

text \<open>
  Without an event loop the result is that of the branch that logs at the level FATAL; as
  \<open>logger_write\<close> calls \<open>exit\<close> there, the process ends with that line and \<open>None\<close> in the place of the
  loop stands for it.
\<close>

definition start_server_mode ::
    "'g lua_interp \<Rightarrow> env \<Rightarrow> 'g lua_vm \<Rightarrow> world \<Rightarrow> (int \<times> 'g server option \<times> world) option" where
  "start_server_mode I E vm w =
     (case el_create E (Some server_mode_config) w of
        (None, w) \<Rightarrow> Some (- 1, None, w)
      | (Some el, w) \<Rightarrow>
          let el = el\<lparr>user_data := Some vm\<rparr>;
              el = el_set_callbacks el (Some sip_cb)
          in map_option (\<lambda>(ret, el, w). (ret, Some el, w))
               (el_run (sip_handler_on_read I) (\<lambda>E el w. (el, w)) E el w))"

text \<open>Server mode followed by the clean-up at the end of \<open>main\<close>.\<close>

definition run_server :: "'g lua_interp \<Rightarrow> env \<Rightarrow> 'g lua_vm \<Rightarrow> world \<Rightarrow> (int \<times> world) option" where
  "run_server I E vm w =
     map_option (\<lambda>(ret, el, w). (ret, case el of None \<Rightarrow> w | Some l \<Rightarrow> el_destroy E l w))
       (start_server_mode I E vm w)"

section \<open>Every turn of the loop ends\<close>

fun is_read :: "extcall \<Rightarrow> bool" where
  "is_read (Read f n) = True"
| "is_read c = False"

definition reads :: "world \<Rightarrow> nat" where
  "reads w = count_slots is_read (map fst w)"

lemma reads_Cons [simp]: "reads ((c, r) # w) = (if is_read c then Suc (reads w) else reads w)"
  by (simp add: reads_def)

definition reads_end :: "env \<Rightarrow> nat \<Rightarrow> bool" where
  "reads_end E n \<longleftrightarrow>
     (\<forall>w f k. n \<le> reads w \<longrightarrow> rv (E w (Read f k)) \<le> 0 \<and> err (E w (Read f k)) \<noteq> EINTR)"

text \<open>The peers' data runs out: backlog, datagrams and streams alike.\<close>

definition drains :: "env \<Rightarrow> nat \<Rightarrow> bool" where
  "drains E n \<longleftrightarrow> backlog_ends E n \<and> queue_ends E n \<and> reads_end E n"

lemma udp_drain_total:
  assumes "queue_ends E n"
  shows "\<exists>w'. udp_drain E f w = Some w'"
proof (induction "n - recvs w" arbitrary: w rule: less_induct)
  case less
  let ?c = "Recvfrom f EL_RECV_BUF_SIZE"
  note st = udp_drain.simps [of E f w] Let_def
  show ?case
  proof (cases "n \<le> recvs w")
    case True
    with assms have "rv (E w ?c) < 0" "err (E w ?c) \<noteq> EINTR" by (simp_all add: queue_ends_def)
    then show ?thesis by (simp add: st)
  next
    case False
    with less [of "(?c, E w ?c) # w"] show ?thesis by (simp add: st)
  qed
qed

lemma tcp_drain_total:
  assumes "reads_end E n"
  shows "\<exists>e w'. tcp_drain E f w = Some (e, w')"
proof (induction "n - reads w" arbitrary: w rule: less_induct)
  case less
  let ?c = "Read f (EL_RECV_BUF_SIZE - 1)"
  note st = tcp_drain.simps [of E f w] Let_def
  show ?case
  proof (cases "n \<le> reads w")
    case True
    with assms have "rv (E w ?c) \<le> 0" "err (E w ?c) \<noteq> EINTR" by (simp_all add: reads_end_def)
    then show ?thesis by (auto simp: st)
  next
    case False
    with less [of "(?c, E w ?c) # w"] show ?thesis by (auto simp: st)
  qed
qed

lemma default_on_read_total: "drains E n \<Longrightarrow> \<exists>r. el_default_on_read E el i w = Some r"
  using udp_drain_total [of E n "c_fd (slot el i)" w] tcp_drain_total [of E n "c_fd (slot el i)" w]
  by (auto simp: drains_def el_default_on_read_def split: read_end.split)

lemma call_on_read_total:
  assumes "drains E n"
  shows "\<exists>r. call_on_read (sip_handler_on_read I) E el i w = Some r"
  using default_on_read_total [OF assms, of el i w] receive_total [of E n I el i w] assms
  by (auto simp: call_on_read_def sip_handler_on_read_def drains_def simp del: split_paired_Ex
      split: option.split on_read_fn.split)

lemma dispatch_event_total:
  assumes "drains E n"
  shows "\<exists>r. dispatch_event (sip_handler_on_read I) E el ev w = Some r"
proof -
  have "\<exists>r. handle_accept E el i w = Some r" for i
    using handle_accept_ends [of E n] assms by (simp add: drains_def)
  moreover have "\<exists>r. handle_client_event (sip_handler_on_read I) E el i evs w = Some r" for i evs
    by (simp add: handle_client_event_def Let_def case_prod_beta call_on_read_total [OF assms]
        del: split_paired_Ex)
  ultimately show ?thesis
    by (simp add: dispatch_event_def split: option.split del: split_paired_Ex)
qed

lemma dispatch_events_total:
  assumes "drains E n"
  shows "\<exists>r. dispatch_events (sip_handler_on_read I) E el es w = Some r"
proof (induction es arbitrary: el w)
  case (Cons ev es)
  obtain el1 w1 where "dispatch_event (sip_handler_on_read I) E el ev w = Some (el1, w1)"
    using dispatch_event_total [OF assms] by (metis surj_pair)
  with Cons.IH show ?case by simp
qed simp

lemma turn_total:
  assumes "drains E n"
  shows "\<exists>go el' w'. el_turn (sip_handler_on_read I) idl E el w = Some (go, el', w')"
proof -
  let ?c = "Epoll_wait (epfd el) (epoll_max_events (config el)) (epoll_timeout_ms (config el))"
  let ?el = "if sig (E w ?c) then el_stop el else el"
  obtain el1 w1 where "dispatch_events (sip_handler_on_read I) E ?el
      (take (nat (rv (E w ?c))) (evs (E w ?c))) ((?c, E w ?c) # w) = Some (el1, w1)"
    using dispatch_events_total [OF assms] by (metis surj_pair)
  then show ?thesis
    unfolding el_turn_def Let_def case_ext by (auto split: prod.split)
qed

section \<open>Invariant of the server\<close>

lemma created_server_inv:
  assumes "el_create E (Some server_mode_config) w = (Some el, w1)" and "fresh_fds E"
    and "watched w = Map.empty"
  shows "el_inv (open_fds w) (el_set_callbacks (el\<lparr>user_data := Some (vm :: 'g lua_vm)\<rparr>) (Some sip_cb)) w1"
proof -
  have inv: "el_inv (open_fds w) el w1" using assms by (intro el_create_inv)
  have "\<forall>i<length (connections el). c_type (slot el i) \<noteq> CONN_TYPE_TCP_LISTEN"
    using create_no_listener [OF assms(1)] by (simp add: no_listener_def)
  with inv show ?thesis by (simp add: el_set_callbacks_def el_inv_defs sip_cb_def)
qed

lemma signal_ends:
  assumes "drains E n" and "fresh_fds E" and "polls_watched E" and "el_inv B el w" and "running el"
    and "sig (E w (Epoll_wait (epfd el) (epoll_max_events (config el)) (epoll_timeout_ms (config el))))"
  shows "\<exists>el' w'. el_loop (sip_handler_on_read I) (\<lambda>E el w. (el, w)) E el w = Some (el', w') \<and>
    \<not> running el' \<and> el_inv B el' w'"
proof -
  obtain go el' w' where t: "el_turn (sip_handler_on_read I) (\<lambda>E el w. (el, w)) E el w = Some (go, el', w')"
    using turn_total [OF assms(1)] by blast
  have l: "el_loop (sip_handler_on_read I) (\<lambda>E el w. (el, w)) E el w = Some (el', w')"
    by (rule sip_server.loop_stops [OF assms(2-5) t assms(6)])
  have "\<not> running el'" by (rule sip_server.turn_stops [OF assms(2-4) t assms(6)])
  moreover have "el_inv B el' w'"
    using sip_server.loop_keeps [OF l assms(2-4)] by (simp add: keeps_def)
  ultimately show ?thesis using l by blast
qed

lemma run_server_fds:
  fixes I :: "'g lua_interp"
  assumes "run_server I E vm w = Some (ret, w')" and "fresh_fds E" and "polls_watched E"
    and "watched w = Map.empty"
  shows "open_fds w' = open_fds w"
proof -
  obtain el :: "'g server option" and w1
    where c: "el_create E (Some server_mode_config) w = (el, w1)" by fastforce
  show ?thesis
  proof (cases el)
    case None
    with assms(1) c have "w' = w1" by (simp add: run_server_def start_server_mode_def)
    with el_create_none [OF c [unfolded None] assms(2)] show ?thesis by simp
  next
    case (Some e)
    let ?e = "el_set_callbacks (e\<lparr>user_data := Some vm\<rparr>) (Some sip_cb)"
    have inv: "el_inv (open_fds w) ?e w1"
      using c Some assms(2,4) by (intro created_server_inv) simp_all
    from assms(1) c Some obtain el2 w2 where
      r: "el_run (sip_handler_on_read I) (\<lambda>E el w. (el, w)) E ?e w1 = Some (ret, el2, w2)"
      and w': "w' = el_destroy E el2 w2"
      by (auto simp: run_server_def start_server_mode_def Let_def)
    from sip_server.run_keeps [OF r assms(2,3) inv] have "el_inv (open_fds w) el2 w2" by simp
    then show ?thesis unfolding w' by (rule destroy_releases)
  qed
qed

section \<open>Properties\<close>

text \<open>C7: running the server keeps the loop's invariant from any state that has it: the table
  agrees with its count, every occupied slot's descriptor is open, in no other slot and
  registered with epoll under that slot, no other descriptor is registered, and none of the
  loop's descriptors is lost.\<close>

theorem server_run_invariant:
  assumes "el_run (sip_handler_on_read I) (\<lambda>E el w. (el, w)) E el w = Some (ret, el', w')"
    and "fresh_fds E" and "polls_watched E" and "el_inv B el w"
  shows "el_inv B el' w'"
  using sip_server.run_keeps [OF assms] by simp

text \<open>C11: a signal delivered while the server waits ends the loop with that turn, provided the
  peers' data runs out: the loop returns, stopped and with its invariant intact.\<close>

theorem signal_ends_server:
  assumes "drains E n" and "fresh_fds E" and "polls_watched E" and "el_inv B el w" and "running el"
    and "sig (E w (Epoll_wait (epfd el) (epoll_max_events (config el)) (epoll_timeout_ms (config el))))"
  shows "\<exists>el' w'. el_loop (sip_handler_on_read I) (\<lambda>E el w. (el, w)) E el w = Some (el', w') \<and>
    \<not> running el' \<and> el_inv B el' w'"
  using assms by (rule signal_ends)

text \<open>No descriptor leaks over the life of a server: after creation, any run and the
  clean-up, exactly the descriptors that were open before are open, whatever failed on the
  way.\<close>

theorem server_leaks_nothing:
  fixes I :: "'g lua_interp"
  assumes "run_server I E vm w = Some (ret, w')" and "fresh_fds E" and "polls_watched E"
    and "watched w = Map.empty"
  shows "open_fds w' = open_fds w"
  using assms by (rule run_server_fds)

section \<open>The hypotheses can hold\<close>

lemma quiet_os_drains: "drains quiet_os 0"
  by (simp add: drains_def backlog_ends_def queue_ends_def reads_end_def)

theorem signal_ends_server_witness:
  "\<exists>el' w'. el_loop (sip_handler_on_read sample_interp) (\<lambda>E el w. (el, w)) quiet_os sip_loop
     one_client_world = Some (el', w') \<and> \<not> running el' \<and> el_inv {} el' w'"
  by (rule signal_ends_server [OF quiet_os_drains quiet_os_fresh quiet_os_polls sip_loop_inv])
     (simp_all add: sip_loop_def)

lemma sip_loop_runs:
  "\<exists>el' w'. el_run (sip_handler_on_read sample_interp) (\<lambda>E el w. (el, w)) quiet_os sip_loop
     one_client_world = Some (0, el', w')"
proof -
  let ?c = "Calloc (epoll_max_events (config sip_loop))"
  let ?w = "(?c, quiet_os one_client_world ?c) # one_client_world"
  have "sip_loop\<lparr>running := True\<rparr> = sip_loop" by (simp add: sip_loop_def)
  moreover obtain go el' w' where
    t: "el_turn (sip_handler_on_read sample_interp) (\<lambda>E el w. (el, w)) quiet_os sip_loop ?w = Some (go, el', w')"
    using turn_total [OF quiet_os_drains] by blast
  have "el_loop (sip_handler_on_read sample_interp) (\<lambda>E el w. (el, w)) quiet_os sip_loop ?w = Some (el', w')"
    by (rule sip_server.loop_stops [OF quiet_os_fresh quiet_os_polls _ _ t])
       (use sip_loop_inv in \<open>simp_all add: sip_loop_def\<close>)
  ultimately show ?thesis by (auto simp: el_run_def)
qed

theorem server_run_invariant_witness:
  "\<exists>el' w'. el_run (sip_handler_on_read sample_interp) (\<lambda>E el w. (el, w)) quiet_os sip_loop
     one_client_world = Some (0, el', w') \<and> el_inv {} el' w'"
proof -
  obtain el' w' where r: "el_run (sip_handler_on_read sample_interp) (\<lambda>E el w. (el, w)) quiet_os sip_loop
     one_client_world = Some (0, el', w')" using sip_loop_runs by blast
  from server_run_invariant [OF r quiet_os_fresh quiet_os_polls sip_loop_inv] r show ?thesis by blast
qed

lemma quiet_create: "\<exists>e w1. el_create quiet_os (Some server_mode_config) w = (Some (e :: 'g server), w1)"
  using next_fd_pos [of "(Calloc 1, quiet_os w (Calloc 1)) # w"]
  by (simp add: el_create_def es_create_def Let_def split_beta server_mode_config_def config_defaults_def)

lemma quiet_server_runs:
  fixes I :: "'g lua_interp"
  assumes "watched w = Map.empty"
  shows "\<exists>ret el w1. start_server_mode I quiet_os vm w = Some (ret, Some el, w1)"
proof -
  obtain e :: "'g server" and w1
    where c: "el_create quiet_os (Some server_mode_config) w = (Some e, w1)" using quiet_create by blast
  let ?e = "el_set_callbacks (e\<lparr>user_data := Some vm\<rparr>) (Some sip_cb)"
  have inv: "el_inv (open_fds w) ?e w1"
    by (rule created_server_inv [OF _ quiet_os_fresh]) (use c assms in simp_all)
  let ?c = "Calloc (epoll_max_events (config ?e))"
  let ?w = "(?c, quiet_os w1 ?c) # w1" and ?r = "?e\<lparr>running := True\<rparr>"
  have "\<exists>el' w'. el_loop (sip_handler_on_read I) (\<lambda>E el w. (el, w)) quiet_os ?r ?w =
      Some (el', w') \<and> \<not> running el' \<and> el_inv (open_fds w) el' w'"
    by (rule signal_ends [OF quiet_os_drains quiet_os_fresh quiet_os_polls])
       (use inv in simp_all)
  with c show ?thesis by (auto simp: start_server_mode_def Let_def el_run_def)
qed

theorem server_leaks_nothing_witness:
  "\<exists>ret w'. run_server sample_interp quiet_os sample_vm [] = Some (ret, w') \<and> open_fds w' = {}"
proof -
  obtain ret w' where r: "run_server sample_interp quiet_os sample_vm [] = Some (ret, w')"
    using quiet_server_runs [of "[]" sample_interp sample_vm] by (auto simp: run_server_def)
  from server_leaks_nothing [OF r quiet_os_fresh quiet_os_polls] r show ?thesis by auto
qed

end
