(* ===== verification/Task_Queue.thy ===== *)
theory Task_Queue
  imports C_String
begin

text \<open>
  The asynchronous task queue of \<open>src/db_sync.c\<close> and \<open>include/db_config.h\<close>: a singly linked
  list of heap nodes with head, tail and a count, bounded by dropping the oldest task. Every
  operation runs under the queue's mutex, so an operation is one step on the pair of queue
  and heap. The clients of the queue are proved against the interface \<open>bounded_fifo\<close>, which
  the linked list interprets.
\<close>

section \<open>Data\<close>

datatype db_task_type =
    DB_TASK_AGENT_STATUS
  | DB_TASK_AGENT_ONLINE
  | DB_TASK_CALL_START
  | DB_TASK_CALL_END
  | DB_TASK_DEPT_IDLE
  | DB_TASK_SHUTDOWN

record db_task =
  t_type :: db_task_type
  t_data :: bytes
  t_next :: "nat option"

record db_task_queue =
  q_head :: "nat option"
  q_tail :: "nat option"
  q_count :: int
  q_shutdown :: bool

type_synonym heap = "nat \<rightharpoonup> db_task"

definition DB_QUEUE_MAX_SIZE :: int where "DB_QUEUE_MAX_SIZE = 10000"
definition DB_TASK_DATA_LEN :: nat where "DB_TASK_DATA_LEN = 512"

section \<open>Operations\<close>

definition queue_init :: db_task_queue where
  "queue_init = \<lparr>q_head = None, q_tail = None, q_count = 0, q_shutdown = False\<rparr>"

abbreviation next_of :: "heap \<Rightarrow> nat \<Rightarrow> nat option" where
  "next_of h a \<equiv> t_next (the (h a))"

definition set_next :: "nat \<Rightarrow> nat option \<Rightarrow> heap \<Rightarrow> heap" where
  "set_next a p h = h(a \<mapsto> (the (h a))\<lparr>t_next := p\<rparr>)"

text \<open>Dropping the oldest task of a full queue.\<close>

definition drop_oldest :: "db_task_queue \<Rightarrow> heap \<Rightarrow> db_task_queue \<times> heap" where
  "drop_oldest q h =
     (if DB_QUEUE_MAX_SIZE \<le> q_count q then
        (case q_head q of
           None \<Rightarrow> (q, h)
         | Some old \<Rightarrow>
             let hd' = next_of h old in
             (q\<lparr>q_head := hd', q_tail := (if hd' = None then None else q_tail q),
                q_count := q_count q - 1\<rparr>, h(old := None)))
      else (q, h))"

definition queue_push :: "db_task_queue \<Rightarrow> nat option \<Rightarrow> heap \<Rightarrow> int \<times> db_task_queue \<times> heap" where
  "queue_push q task h =
     (case task of
        None \<Rightarrow> (- 1, q, h)
      | Some a \<Rightarrow>
          let (q, h) = drop_oldest q h;
              h = set_next a None h;
              (q, h) = (case q_tail q of
                 None \<Rightarrow> (q\<lparr>q_head := Some a, q_tail := Some a\<rparr>, h)
               | Some t \<Rightarrow> (q\<lparr>q_tail := Some a\<rparr>, set_next t (Some a) h))
          in (0, q\<lparr>q_count := q_count q + 1\<rparr>, h))"

text \<open>
  \<open>queue_pop\<close> under the lock: it waits while the queue is empty and not shut down, returns
  NULL when it is shut down and empty, and the first task otherwise.
\<close>

datatype pop_result = Pop_Wait | Pop_Null | Pop_Task nat

definition queue_pop :: "db_task_queue \<Rightarrow> heap \<Rightarrow> pop_result \<times> db_task_queue" where
  "queue_pop q h =
     (case q_head q of
        None \<Rightarrow> (if q_shutdown q then (Pop_Null, q) else (Pop_Wait, q))
      | Some a \<Rightarrow>
          let hd' = next_of h a in
          (Pop_Task a, q\<lparr>q_head := hd', q_tail := (if hd' = None then None else q_tail q),
             q_count := q_count q - 1\<rparr>))"

partial_function (option) free_nodes :: "nat option \<Rightarrow> heap \<Rightarrow> heap option" where
  "free_nodes node h =
     (case node of
        None \<Rightarrow> Some h
      | Some a \<Rightarrow> free_nodes (next_of h a) (h(a := None)))"

definition queue_destroy :: "db_task_queue \<Rightarrow> heap \<Rightarrow> (db_task_queue \<times> heap) option" where
  "queue_destroy q h =
     map_option (\<lambda>h. (q\<lparr>q_head := None, q_tail := None, q_count := 0\<rparr>, h)) (free_nodes (q_head q) h)"

definition db_sync_queue_size :: "db_task_queue option \<Rightarrow> int" where
  "db_sync_queue_size q = (case q of None \<Rightarrow> - 1 | Some q \<Rightarrow> q_count q)"

section \<open>Linked lists\<close>

fun chain :: "heap \<Rightarrow> nat option \<Rightarrow> nat list \<Rightarrow> bool" where
  "chain h p [] = (p = None)"
| "chain h p (a # as) = (p = Some a \<and> h a \<noteq> None \<and> chain h (next_of h a) as)"

lemma chain_upd [simp]: "x \<notin> set as \<Longrightarrow> chain (h(x := v)) p as = chain h p as"
  by (induction as arbitrary: p) auto

lemma chain_set_next [simp]: "x \<notin> set as \<Longrightarrow> chain (set_next x v h) p as = chain h p as"
  by (simp add: set_next_def)

lemma set_next_other [simp]: "x \<noteq> y \<Longrightarrow> set_next y v h x = h x"
  by (simp add: set_next_def)

lemma chain_None [simp]: "chain h None as = (as = [])"
  by (cases as) auto

lemma chain_Some: "chain h (Some a) as \<longleftrightarrow> (\<exists>bs. as = a # bs \<and> h a \<noteq> None \<and> chain h (next_of h a) bs)"
  by (cases as) auto

lemma chain_unique: "chain h p as \<Longrightarrow> chain h p bs \<Longrightarrow> as = bs"
  by (induction as arbitrary: p bs) (auto simp: chain_Some)

lemma chain_dom: "chain h p as \<Longrightarrow> set as \<subseteq> dom h"
  by (induction as arbitrary: p) auto

lemma chain_snoc:
  assumes "chain h p as" and "as \<noteq> []" and "distinct as" and "a \<notin> set as" and "h a \<noteq> None"
    and "next_of h a = None"
  shows "chain (set_next (last as) (Some a) h) p (as @ [a])"
  using assms
proof (induction as arbitrary: p)
  case (Cons x xs)
  show ?case
  proof (cases "xs = []")
    case True
    with Cons.prems show ?thesis by (auto simp: set_next_def)
  next
    case False
    with Cons have "chain (set_next (last xs) (Some a) h) (next_of h x) (xs @ [a])" by simp
    moreover have "x \<noteq> last xs" using Cons.prems False by auto
    ultimately show ?thesis using Cons.prems False by simp
  qed
qed simp

text \<open>What a task is to its consumer: its type and data.\<close>

definition task_val :: "heap \<Rightarrow> nat \<Rightarrow> db_task_type \<times> bytes" where
  "task_val h a = (t_type (the (h a)), t_data (the (h a)))"

lemma task_val_upd [simp]: "a \<noteq> x \<Longrightarrow> task_val (h(x := v)) a = task_val h a"
  by (simp add: task_val_def)

lemma task_val_dropped:
  "h1 = (if c then h else h(a := None)) \<Longrightarrow> x \<in> dom h1 \<Longrightarrow> task_val h1 x = task_val h x"
  by (cases c; cases "x = a") auto

lemma task_val_set_next [simp]: "h x \<noteq> None \<Longrightarrow> task_val (set_next x v h) a = task_val h a"
  by (auto simp: task_val_def set_next_def)

section \<open>The invariant\<close>

definition queue_rep :: "db_task_queue \<Rightarrow> heap \<Rightarrow> nat list \<Rightarrow> bool" where
  "queue_rep q h as \<longleftrightarrow> chain h (q_head q) as \<and> distinct as \<and>
     q_tail q = (if as = [] then None else Some (last as)) \<and> q_count q = int (length as) \<and>
     int (length as) \<le> DB_QUEUE_MAX_SIZE"

lemma queue_rep_unique: "queue_rep q h as \<Longrightarrow> queue_rep q h bs \<Longrightarrow> as = bs"
  using chain_unique by (auto simp: queue_rep_def)

lemma drop_oldest_rep:
  assumes r: "queue_rep q h as" and d: "drop_oldest q h = (q', h')"
  shows "queue_rep q' h' (if int (length as) < DB_QUEUE_MAX_SIZE then as else tl as) \<and>
    int (length (if int (length as) < DB_QUEUE_MAX_SIZE then as else tl as)) < DB_QUEUE_MAX_SIZE \<and>
    h' = (if int (length as) < DB_QUEUE_MAX_SIZE then h else h(hd as := None)) \<and>
    q_shutdown q' = q_shutdown q"
proof (cases "int (length as) < DB_QUEUE_MAX_SIZE")
  case True
  with r d show ?thesis by (auto simp: drop_oldest_def queue_rep_def)
next
  case False
  with r have full: "int (length as) = DB_QUEUE_MAX_SIZE" by (simp add: queue_rep_def)
  then obtain a bs where as: "as = a # bs" by (cases as) (auto simp: DB_QUEUE_MAX_SIZE_def)
  with r have h: "q_head q = Some a" "chain h (next_of h a) bs" "a \<notin> set bs" "distinct bs"
    "q_tail q = Some (last as)" "q_count q = int (length as)"
    by (auto simp: queue_rep_def)
  have nx: "next_of h a = None \<longleftrightarrow> bs = []" using h(2) by (cases bs) auto
  have "q' = q\<lparr>q_head := next_of h a, q_tail := (if next_of h a = None then None else q_tail q),
       q_count := q_count q - 1\<rparr> \<and> h' = h(a := None)"
    using d h(1,6) full by (simp add: drop_oldest_def Let_def)
  with h nx full False as show ?thesis by (auto simp: queue_rep_def)
qed

lemma push_rep:
  assumes r: "queue_rep q h as" and a: "a \<notin> set as" "h a \<noteq> None"
    and p: "queue_push q (Some a) h = (ret, q', h')"
  defines "bs \<equiv> (if int (length as) < DB_QUEUE_MAX_SIZE then as else tl as)"
  shows "queue_rep q' h' (bs @ [a]) \<and> ret = 0 \<and>
    dom h' = dom h - (set as - set bs) \<and> q_shutdown q' = q_shutdown q \<and>
    (\<forall>x\<in>dom h'. task_val h' x = task_val h x)"
proof -
  obtain q1 h1 where d: "drop_oldest q h = (q1, h1)" by fastforce
  note rep1 = drop_oldest_rep [OF r d, folded bs_def]
  then have r1: "queue_rep q1 h1 bs" and len: "int (length bs) < DB_QUEUE_MAX_SIZE"
    and h1: "h1 = (if int (length as) < DB_QUEUE_MAX_SIZE then h else h(hd as := None))"
    and sd: "q_shutdown q1 = q_shutdown q"
    by blast+
  have ne: "as \<noteq> []" if "\<not> int (length as) < DB_QUEUE_MAX_SIZE"
    using that by (auto simp: DB_QUEUE_MAX_SIZE_def)
  have abs: "a \<notin> set bs" using a(1) by (auto simp: bs_def dest: list.set_sel(2) [rotated])
      (metis a(1) list.sel(2) list.set_sel(2))
  have ha: "h1 a \<noteq> None" using a ne h1 by (auto split: if_splits)
  let ?h2 = "set_next a None h1"
  have r2: "chain ?h2 (q_head q1) bs" "distinct bs"
    "q_tail q1 = (if bs = [] then None else Some (last bs))" "q_count q1 = int (length bs)"
    using r1 abs by (simp_all add: queue_rep_def)
  have dom1: "dom h1 = dom h - (set as - set bs)"
  proof (cases "int (length as) < DB_QUEUE_MAX_SIZE")
    case True
    then show ?thesis by (simp add: h1 bs_def)
  next
    case False
    with r ne obtain x xs where "as = x # xs" "x \<notin> set xs"
      by (cases as) (auto simp: queue_rep_def)
    with False show ?thesis by (auto simp: h1 bs_def)
  qed
  have val1: "\<forall>x\<in>dom h1. task_val h1 x = task_val h x"
    using task_val_dropped [OF h1] by blast
  have h2: "?h2 a \<noteq> None" "next_of ?h2 a = None" by (simp_all add: set_next_def)
  have dom2: "dom ?h2 = dom h1" using ha by (auto simp: set_next_def)
  have val2: "\<forall>x\<in>dom h1. task_val ?h2 x = task_val h1 x" using ha by simp
  show ?thesis
  proof (cases "bs = []")
    case True
    with p d r2 have "q' = q1\<lparr>q_head := Some a, q_tail := Some a, q_count := q_count q1 + 1\<rparr>"
      "h' = ?h2" "ret = 0"
      by (auto simp: queue_push_def)
    with True r2 h2 len sd dom1 dom2 val1 val2 show ?thesis by (simp add: queue_rep_def)
  next
    case False
    let ?h3 = "set_next (last bs) (Some a) ?h2"
    from False p d r2 have q': "q' = q1\<lparr>q_tail := Some a, q_count := q_count q1 + 1\<rparr>"
      "h' = ?h3" "ret = 0"
      by (auto simp: queue_push_def)
    have "chain ?h3 (q_head q1) (bs @ [a])"
      using r2 False abs h2 by (intro chain_snoc)
    moreover have lb: "?h2 (last bs) \<noteq> None"
      using chain_dom [OF r2(1)] last_in_set [OF False] by blast
    then have "dom ?h3 = dom ?h2" by (auto simp: set_next_def)
    moreover have "\<forall>x\<in>dom ?h2. task_val ?h3 x = task_val ?h2 x" using lb by simp
    ultimately show ?thesis
      using False r2 abs len sd dom1 dom2 val1 val2 q' by (simp add: queue_rep_def)
  qed
qed

lemma pop_rep:
  assumes r: "queue_rep q h as"
  shows "queue_pop q h =
      (case as of [] \<Rightarrow> (if q_shutdown q then Pop_Null else Pop_Wait, q)
                | a # bs \<Rightarrow> (Pop_Task a, snd (queue_pop q h))) \<and>
    (as \<noteq> [] \<longrightarrow> queue_rep (snd (queue_pop q h)) h (tl as)) \<and>
    q_shutdown (snd (queue_pop q h)) = q_shutdown q"
proof (cases as)
  case Nil
  with r show ?thesis by (auto simp: queue_rep_def queue_pop_def)
next
  case (Cons a bs)
  with r have nx: "next_of h a = None \<longleftrightarrow> bs = []" by (cases bs) (auto simp: queue_rep_def)
  with r Cons show ?thesis by (auto simp: queue_rep_def queue_pop_def Let_def)
qed

lemma free_nodes_chain:
  "chain h p as \<Longrightarrow> distinct as \<Longrightarrow> free_nodes p h = Some (h |` (- set as))"
proof (induction as arbitrary: p h)
  case Nil
  have "h |` (- {}) = h" by (rule ext) simp
  with Nil show ?case by (simp add: free_nodes.simps [of None])
next
  case (Cons a as)
  then have a: "a \<notin> set as" "distinct as" "chain h (next_of h a) as" "p = Some a" by auto
  have "chain (h(a := None)) (next_of h a) as" by (subst chain_upd [OF a(1)]) (rule a(3))
  then have "free_nodes (next_of h a) (h(a := None)) = Some ((h(a := None)) |` (- set as))"
    using a(2) by (rule Cons.IH)
  moreover have "(h(a := None)) |` (- set as) = h |` (- set (a # as))"
    by (auto simp: restrict_map_def)
  ultimately show ?case using a(4) by (simp add: free_nodes.simps [of "Some a"])
qed

section \<open>The interface of a bounded FIFO\<close>

text \<open>
  What producer and consumer rely on: \<open>put\<close> appends a value (in a cell that is not in use)
  and drops the oldest one when the capacity is reached, \<open>get\<close> takes the oldest one.
\<close>

definition bounded_put :: "nat \<Rightarrow> 'v list \<Rightarrow> 'v \<Rightarrow> 'v list" where
  "bounded_put n xs v = (if length xs < n then xs else tl xs) @ [v]"

datatype ('a, 'v) queue_op = Put 'a 'v | Get

fun run_ops :: "('s \<Rightarrow> 'a \<Rightarrow> 'v \<Rightarrow> 's) \<Rightarrow> ('s \<Rightarrow> 'v option \<times> 's) \<Rightarrow> ('a, 'v) queue_op list \<Rightarrow>
    's \<Rightarrow> 'v list \<times> 's" where
  "run_ops put get [] s = ([], s)"
| "run_ops put get (Put a v # ops) s = run_ops put get ops (put s a v)"
| "run_ops put get (Get # ops) s =
     (let (r, s) = get s; (out, s) = run_ops put get ops s
      in ((case r of None \<Rightarrow> out | Some v \<Rightarrow> v # out), s))"

text \<open>Every \<open>Put\<close> of a run uses a fresh cell.\<close>

fun run_fresh :: "('s \<Rightarrow> 'a \<Rightarrow> 'v \<Rightarrow> 's) \<Rightarrow> ('s \<Rightarrow> 'v option \<times> 's) \<Rightarrow> ('s \<Rightarrow> 'a \<Rightarrow> bool) \<Rightarrow>
    ('a, 'v) queue_op list \<Rightarrow> 's \<Rightarrow> bool" where
  "run_fresh put get fresh [] s = True"
| "run_fresh put get fresh (Put a v # ops) s =
     (fresh s a \<and> run_fresh put get fresh ops (put s a v))"
| "run_fresh put get fresh (Get # ops) s = run_fresh put get fresh ops (snd (get s))"

fun puts :: "('a, 'v) queue_op list \<Rightarrow> 'v list" where
  "puts [] = []"
| "puts (Put a v # ops) = v # puts ops"
| "puts (Get # ops) = puts ops"

text \<open>No \<open>Put\<close> of the run meets a full queue, starting from \<open>k\<close> pending values.\<close>

fun never_full :: "nat \<Rightarrow> nat \<Rightarrow> ('a, 'v) queue_op list \<Rightarrow> bool" where
  "never_full n k [] = True"
| "never_full n k (Put a v # ops) = (k < n \<and> never_full n (Suc k) ops)"
| "never_full n k (Get # ops) = never_full n (k - 1) ops"

locale bounded_fifo =
  fixes put :: "'s \<Rightarrow> 'a \<Rightarrow> 'v \<Rightarrow> 's"
    and get :: "'s \<Rightarrow> 'v option \<times> 's"
    and fresh :: "'s \<Rightarrow> 'a \<Rightarrow> bool"
    and inv :: "'s \<Rightarrow> bool"
    and contents :: "'s \<Rightarrow> 'v list"
    and cap :: nat
  assumes put_inv: "inv s \<Longrightarrow> fresh s a \<Longrightarrow> inv (put s a v)"
    and put_contents: "inv s \<Longrightarrow> fresh s a \<Longrightarrow> contents (put s a v) = bounded_put cap (contents s) v"
    and get_empty: "inv s \<Longrightarrow> contents s = [] \<Longrightarrow> get s = (None, s)"
    and get_value: "inv s \<Longrightarrow> contents s = v # vs \<Longrightarrow> fst (get s) = Some v"
    and get_inv: "inv s \<Longrightarrow> inv (snd (get s))"
    and get_contents: "inv s \<Longrightarrow> contents (snd (get s)) = tl (contents s)"
begin

lemma run_step_Get:
  assumes "inv s"
  shows "run_ops put get (Get # ops) s =
    (case contents s of [] \<Rightarrow> run_ops put get ops s
     | v # vs \<Rightarrow> (v # fst (run_ops put get ops (snd (get s))), snd (run_ops put get ops (snd (get s)))))"
proof (cases "contents s")
  case Nil
  with get_empty [OF assms] show ?thesis by (simp add: split_beta)
next
  case (Cons v vs)
  from get_value [OF assms Cons] show ?thesis by (simp add: Cons split_beta)
qed

lemma run_inv: "inv s \<Longrightarrow> run_fresh put get fresh ops s \<Longrightarrow> inv (snd (run_ops put get ops s))"
proof (induction ops arbitrary: s)
  case (Cons op ops)
  then show ?case
  proof (cases op)
    case (Put a v)
    with Cons show ?thesis by (simp add: put_inv)
  next
    case Get
    with Cons.prems Cons.IH [of "snd (get s)"] show ?thesis
      by (simp add: split_beta get_inv)
  qed
qed simp

text \<open>Values come out in the order they went in, none twice; a full queue only loses some.\<close>

lemma run_subseq:
  "inv s \<Longrightarrow> run_fresh put get fresh ops s \<Longrightarrow>
   subseq (fst (run_ops put get ops s) @ contents (snd (run_ops put get ops s))) (contents s @ puts ops)"
proof (induction ops arbitrary: s)
  case (Cons op ops)
  show ?case
  proof (cases op)
    case (Put a v)
    have "subseq ((if length (contents s) < cap then contents s else tl (contents s)) @ v # puts ops)
        (contents s @ v # puts ops)"
      by (cases "contents s") (auto intro: list_emb_append2)
    with Cons.IH [of "put s a v"] Cons.prems Put show ?thesis
      by (auto simp: put_inv put_contents bounded_put_def elim: subseq_order.trans)
  next
    case Get
    with Cons.prems have i: "inv (snd (get s))" "run_fresh put get fresh ops (snd (get s))"
      by (simp_all add: get_inv)
    from Cons.IH [OF i] get_contents [OF Cons.prems(1)] Get
    show ?thesis
      using Cons.IH [of s] Cons.prems get_empty [of s]
      by (cases "contents s") (simp_all add: run_step_Get del: run_ops.simps)
  qed
qed simp

text \<open>Without overflow nothing is lost either.\<close>

lemma run_exact:
  "inv s \<Longrightarrow> run_fresh put get fresh ops s \<Longrightarrow> never_full cap (length (contents s)) ops \<Longrightarrow>
   fst (run_ops put get ops s) @ contents (snd (run_ops put get ops s)) = contents s @ puts ops"
proof (induction ops arbitrary: s)
  case (Cons op ops)
  show ?case
  proof (cases op)
    case (Put a v)
    with Cons.IH [of "put s a v"] Cons.prems show ?thesis
      by (simp add: put_inv put_contents bounded_put_def)
  next
    case Get
    with Cons.prems have i: "inv (snd (get s))" "run_fresh put get fresh ops (snd (get s))"
      by (simp_all add: get_inv)
    from Cons.IH [OF i] get_contents [OF Cons.prems(1)] Get Cons.prems
    show ?thesis
      using Cons.IH [of s] get_empty [of s]
      by (cases "contents s") (simp_all add: run_step_Get del: run_ops.simps)
  qed
qed simp

text \<open>A burst of puts keeps the newest values, in order.\<close>

lemma burst_keeps_newest:
  "inv s \<Longrightarrow> run_fresh put get fresh ops s \<Longrightarrow> Get \<notin> set ops \<Longrightarrow> 0 < cap \<Longrightarrow>
   length (contents s) \<le> cap \<Longrightarrow>
   contents (snd (run_ops put get ops s)) =
     drop (length (contents s) + length (puts ops) - cap) (contents s @ puts ops)"
proof (induction ops arbitrary: s)
  case (Cons op ops)
  then obtain a v where op: "op = Put a v" by (cases op) auto
  let ?c = "contents s"
  have c: "contents (put s a v) = bounded_put cap ?c v"
    using Cons.prems op by (simp add: put_contents)
  have len: "length (bounded_put cap ?c v) \<le> cap"
    using Cons.prems by (auto simp: bounded_put_def)
  have IH: "contents (snd (run_ops put get ops (put s a v))) =
      drop (length (bounded_put cap ?c v) + length (puts ops) - cap) (bounded_put cap ?c v @ puts ops)"
    using Cons.IH [of "put s a v"] Cons.prems op c len by (simp add: put_inv)
  show ?case
  proof (cases "length ?c < cap")
    case True
    with IH op show ?thesis by (simp add: bounded_put_def)
  next
    case False
    then obtain y ys where y: "?c = y # ys" "Suc (length ys) = cap"
      using Cons.prems(4,5) by (cases ?c) auto
    with IH op False show ?thesis by (simp add: bounded_put_def)
  qed
qed simp

end

section \<open>The linked list implements it\<close>

text \<open>
  What the callers of the queue do around it: the producers allocate a task, fill it and push
  it (\<open>calloc\<close> returned \<open>a\<close>), the worker pops a task, reads it and frees it. The worker owns
  the task it popped, so reading and freeing it commute with the other threads' operations.
\<close>

fun queue_nodes :: "nat \<Rightarrow> heap \<Rightarrow> nat option \<Rightarrow> nat list" where
  "queue_nodes 0 h p = []"
| "queue_nodes (Suc n) h p = (case p of None \<Rightarrow> [] | Some a \<Rightarrow> a # queue_nodes n h (next_of h a))"

definition nodes :: "db_task_queue \<times> heap \<Rightarrow> nat list" where
  "nodes s = queue_nodes (nat (q_count (fst s))) (snd s) (q_head (fst s))"

definition tasks :: "db_task_queue \<times> heap \<Rightarrow> (db_task_type \<times> bytes) list" where
  "tasks s = map (task_val (snd s)) (nodes s)"

text \<open>The list is well formed and the heap holds no other task: nothing has leaked.\<close>

definition queue_ok :: "db_task_queue \<times> heap \<Rightarrow> bool" where
  "queue_ok s \<longleftrightarrow> queue_rep (fst s) (snd s) (nodes s) \<and> dom (snd s) = set (nodes s)"

definition fresh_cell :: "db_task_queue \<times> heap \<Rightarrow> nat \<Rightarrow> bool" where
  "fresh_cell s a \<longleftrightarrow> snd s a = None"

definition enqueue :: "db_task_queue \<times> heap \<Rightarrow> nat \<Rightarrow> db_task_type \<times> bytes \<Rightarrow> db_task_queue \<times> heap" where
  "enqueue s a v =
     snd (queue_push (fst s) (Some a) ((snd s)(a \<mapsto> \<lparr>t_type = fst v, t_data = snd v, t_next = None\<rparr>)))"

definition take_task :: "db_task_queue \<times> heap \<Rightarrow> (db_task_type \<times> bytes) option \<times> db_task_queue \<times> heap" where
  "take_task s =
     (let (r, q) = queue_pop (fst s) (snd s)
      in case r of
           Pop_Task a \<Rightarrow> (Some (task_val (snd s) a), q, (snd s)(a := None))
         | _ \<Rightarrow> (None, q, snd s))"

lemma chain_nodes: "chain h p as \<Longrightarrow> queue_nodes (length as) h p = as"
  by (induction as arbitrary: p) auto

lemma rep_nodes: "queue_rep q h as \<Longrightarrow> nodes (q, h) = as"
  by (simp add: nodes_def queue_rep_def chain_nodes)

lemma queue_okI: "queue_rep q h as \<Longrightarrow> dom h = set as \<Longrightarrow> queue_ok (q, h)"
  using rep_nodes [of q h as] by (simp add: queue_ok_def)

lemma queue_okD: "queue_ok (q, h) \<Longrightarrow> queue_rep q h (nodes (q, h)) \<and> dom h = set (nodes (q, h))"
  by (simp add: queue_ok_def)

lemma queue_ok_init: "queue_ok (queue_init, Map.empty)"
  by (rule queue_okI [of _ _ "[]"]) (simp_all add: queue_rep_def queue_init_def DB_QUEUE_MAX_SIZE_def)

lemma nodes_init [simp]: "nodes (queue_init, h) = []"
  by (simp add: nodes_def queue_init_def)

lemma queue_rep_upd: "a \<notin> set as \<Longrightarrow> queue_rep q (h(a := v)) as = queue_rep q h as"
  unfolding queue_rep_def by (subst chain_upd) simp_all

lemma enqueue_rep:
  assumes ok: "queue_ok s" and a: "fresh_cell s a"
  shows "queue_ok (enqueue s a v) \<and> tasks (enqueue s a v) = bounded_put (nat DB_QUEUE_MAX_SIZE) (tasks s) v \<and>
    q_shutdown (fst (enqueue s a v)) = q_shutdown (fst s) \<and>
    dom (snd (enqueue s a v)) \<subseteq> insert a (dom (snd s))"
proof -
  obtain q h where s: "s = (q, h)" by (cases s)
  let ?as = "nodes (q, h)" and ?h = "h(a \<mapsto> \<lparr>t_type = fst v, t_data = snd v, t_next = None\<rparr>)"
  let ?bs = "if int (length ?as) < DB_QUEUE_MAX_SIZE then ?as else tl ?as"
  have r: "queue_rep q h ?as" and d: "dom h = set ?as" using queue_okD ok s by auto
  have na: "a \<notin> set ?as" using a d s by (auto simp: fresh_cell_def)
  obtain ret q' h' where p: "queue_push q (Some a) ?h = (ret, q', h')" by (cases "queue_push q (Some a) ?h") auto
  have r': "queue_rep q ?h ?as" using queue_rep_upd [OF na] r by blast
  have P: "queue_rep q' h' (?bs @ [a])" "dom h' = dom ?h - (set ?as - set ?bs)"
    "q_shutdown q' = q_shutdown q" "\<forall>x\<in>dom h'. task_val h' x = task_val ?h x"
    using push_rep [OF r' na _ p] by auto
  have sub: "set ?bs \<subseteq> set ?as" by (cases ?as) auto
  have dom': "dom h' = set (?bs @ [a])"
    using P(2) d sub na by auto
  have e: "enqueue s a v = (q', h')" by (simp add: enqueue_def s p)
  have n: "nodes (q', h') = ?bs @ [a]" by (rule rep_nodes [OF P(1)])
  have "task_val h' x = task_val h x" if "x \<in> set ?bs" for x
  proof -
    have "x \<in> dom h'" and "x \<noteq> a" using that dom' sub na by (simp, blast)
    then show ?thesis using P(4) task_val_upd by metis
  qed
  then have "map (task_val h') ?bs = map (task_val h) ?bs" by (intro map_cong) simp_all
  moreover have "task_val h' a = v" using P(4) dom' by (auto simp: task_val_def)
  ultimately have "tasks (q', h') = bounded_put (nat DB_QUEUE_MAX_SIZE) (tasks s) v"
    by (auto simp: tasks_def n s bounded_put_def DB_QUEUE_MAX_SIZE_def simp flip: map_tl)
  moreover have "dom h' \<subseteq> insert a (dom h)" using dom' sub d by auto
  ultimately show ?thesis using queue_okI [OF P(1) dom'] P(3) e unfolding s by simp
qed

lemma take_rep:
  assumes ok: "queue_ok s"
  shows "(tasks s = [] \<longrightarrow> take_task s = (None, s)) \<and>
    (\<forall>v vs. tasks s = v # vs \<longrightarrow> fst (take_task s) = Some v) \<and>
    queue_ok (snd (take_task s)) \<and> tasks (snd (take_task s)) = tl (tasks s) \<and>
    q_shutdown (fst (snd (take_task s))) = q_shutdown (fst s)"
proof -
  obtain q h where s: "s = (q, h)" by (cases s)
  let ?as = "nodes (q, h)"
  have r: "queue_rep q h ?as" and d: "dom h = set ?as" using queue_okD ok s by auto
  note pop = pop_rep [OF r]
  show ?thesis
  proof (cases ?as)
    case Nil
    with pop have "queue_pop q h = (if q_shutdown q then Pop_Null else Pop_Wait, q)" by simp
    then have "take_task s = (None, s)" by (simp add: take_task_def s)
    with Nil ok show ?thesis by (simp add: tasks_def s)
  next
    case (Cons a bs)
    obtain q' where q': "queue_pop q h = (Pop_Task a, q')" and r': "queue_rep q' h bs"
      and sd: "q_shutdown q' = q_shutdown q"
      using pop Cons by auto
    have t: "take_task s = (Some (task_val h a), q', h(a := None))" unfolding s by (simp add: take_task_def q')
    have dist: "a \<notin> set bs" using r Cons by (simp add: queue_rep_def)
    have r2: "queue_rep q' (h(a := None)) bs" using queue_rep_upd [OF dist] r' by blast
    have n: "nodes (q', h(a := None)) = bs" by (rule rep_nodes [OF r2])
    have "queue_ok (q', h(a := None))" using d Cons dist by (intro queue_okI [OF r2]) auto
    moreover have "tasks (q', h(a := None)) = map (task_val h) bs"
      unfolding tasks_def n using dist by (auto intro!: task_val_upd)
    ultimately show ?thesis unfolding s using t [unfolded s] by (simp add: sd tasks_def Cons)
  qed
qed

interpretation task_fifo: bounded_fifo enqueue take_task fresh_cell queue_ok tasks "nat DB_QUEUE_MAX_SIZE"
  by unfold_locales (use enqueue_rep take_rep in blast)+

section \<open>Properties\<close>

text \<open>
  A full list of 10000 nodes is too long to write out in an example; the examples use short
  runs, the theorems hold for every length.
\<close>

abbreviation run_queue :: "(nat, db_task_type \<times> bytes) queue_op list \<Rightarrow>
    (db_task_type \<times> bytes) list \<times> db_task_queue \<times> heap" where
  "run_queue ops \<equiv> run_ops enqueue take_task ops (queue_init, Map.empty)"

abbreviation fresh_run :: "(nat, db_task_type \<times> bytes) queue_op list \<Rightarrow> bool" where
  "fresh_run ops \<equiv> run_fresh enqueue take_task fresh_cell ops (queue_init, Map.empty)"

lemma tasks_init [simp]: "tasks (queue_init, h) = []"
  by (simp add: tasks_def)

definition sample_ops :: "(nat, db_task_type \<times> bytes) queue_op list" where
  "sample_ops = [Put 7 (DB_TASK_AGENT_ONLINE, ''2001|1''), Put 3 (DB_TASK_CALL_END, ''c1|5|200|0|ok''),
     Get, Put 7 (DB_TASK_SHUTDOWN, []), Get]"

lemmas queue_eval = sample_ops_def fresh_cell_def enqueue_def take_task_def queue_push_def
  queue_pop_def drop_oldest_def set_next_def queue_init_def DB_QUEUE_MAX_SIZE_def task_val_def Let_def

lemma sample_fresh: "fresh_run sample_ops"
  by (simp add: queue_eval)

text \<open>C20: As long as no task is pushed onto a full queue, the worker receives the tasks in the
  order they were pushed, each exactly once: what it has received followed by what is still
  queued is what was pushed, whatever the interleaving of pushes and pops.\<close>
theorem queue_exactly_once:
  assumes "fresh_run ops" and "never_full (nat DB_QUEUE_MAX_SIZE) 0 ops"
  shows "fst (run_queue ops) @ tasks (snd (run_queue ops)) = puts ops"
  using task_fifo.run_exact [OF queue_ok_init assms(1)] assms(2) by simp

lemma queue_exactly_once_witness:
  "fst (run_queue sample_ops) @ tasks (snd (run_queue sample_ops)) =
     [(DB_TASK_AGENT_ONLINE, ''2001|1''), (DB_TASK_CALL_END, ''c1|5|200|0|ok''), (DB_TASK_SHUTDOWN, [])]"
  using queue_exactly_once [OF sample_fresh]
  by (simp add: sample_ops_def DB_QUEUE_MAX_SIZE_def)

text \<open>C21: Whatever is pushed and popped, also when the queue overflows, the list stays well
  formed, its count is the number of its nodes and never above 10000, the heap holds exactly
  the queued tasks (a dropped task is freed, nothing leaks), and the worker receives a
  subsequence of what was pushed: no task twice and none out of order.\<close>
theorem queue_safe:
  assumes "fresh_run ops" and "run_queue ops = (out, q, h)"
  shows "queue_ok (q, h) \<and> db_sync_queue_size (Some q) = int (length (tasks (q, h))) \<and>
    db_sync_queue_size (Some q) \<le> DB_QUEUE_MAX_SIZE \<and> finite (dom h) \<and>
    card (dom h) = length (tasks (q, h)) \<and> subseq (out @ tasks (q, h)) (puts ops)"
proof -
  have ok: "queue_ok (q, h)" using task_fifo.run_inv [OF queue_ok_init assms(1)] assms(2) by simp
  have "subseq (out @ tasks (q, h)) (puts ops)"
    using task_fifo.run_subseq [OF queue_ok_init assms(1)] assms(2) by simp
  with ok queue_okD [OF ok] show ?thesis
    by (simp add: queue_rep_def db_sync_queue_size_def tasks_def distinct_card)
qed

lemma queue_safe_witness:
  "\<exists>out q h. run_queue sample_ops = (out, q, h) \<and> db_sync_queue_size (Some q) = 1 \<and> card (dom h) = 1"
proof -
  obtain out q h where r: "run_queue sample_ops = (out, q, h)" by (cases "run_queue sample_ops") auto
  then have "q_count q = 1" by (auto simp: queue_eval split_beta)
  with queue_safe [OF sample_fresh r] have "db_sync_queue_size (Some q) = 1 \<and> card (dom h) = 1"
    by (simp add: db_sync_queue_size_def)
  with r show ?thesis by blast
qed

text \<open>A burst of pushes without a pop keeps exactly the newest 10000 tasks, in order: the
  overflow drops the oldest ones.\<close>
theorem queue_keeps_newest:
  assumes "fresh_run ops" and "Get \<notin> set ops"
  shows "tasks (snd (run_queue ops)) = drop (length (puts ops) - nat DB_QUEUE_MAX_SIZE) (puts ops)"
  using task_fifo.burst_keeps_newest [OF queue_ok_init assms] by (simp add: DB_QUEUE_MAX_SIZE_def)

lemma queue_keeps_newest_witness:
  "tasks (snd (run_queue [Put 7 (DB_TASK_AGENT_ONLINE, ''2001|1''), Put 3 (DB_TASK_SHUTDOWN, [])])) =
     [(DB_TASK_AGENT_ONLINE, ''2001|1''), (DB_TASK_SHUTDOWN, [])]"
proof -
  let ?ops = "[Put 7 (DB_TASK_AGENT_ONLINE, ''2001|1''), Put 3 (DB_TASK_SHUTDOWN, [])]"
  have "fresh_run ?ops" by (simp add: queue_eval)
  from queue_keeps_newest [OF this] show ?thesis by (simp add: DB_QUEUE_MAX_SIZE_def)
qed

lemma destroy_ok: "queue_ok (q, h) \<Longrightarrow>
  queue_destroy q h = Some (q\<lparr>q_head := None, q_tail := None, q_count := 0\<rparr>, Map.empty)"
proof -
  assume ok: "queue_ok (q, h)"
  then have r: "queue_rep q h (nodes (q, h))" and d: "dom h = set (nodes (q, h))"
    using queue_okD by auto
  then have "free_nodes (q_head q) h = Some (h |` (- dom h))"
    using free_nodes_chain [of h "q_head q" "nodes (q, h)"] by (simp add: queue_rep_def)
  moreover have "h |` (- dom h) = Map.empty" by (rule ext) (auto simp: restrict_map_def)
  ultimately show ?thesis by (simp add: queue_destroy_def)
qed

text \<open>After any use of the queue \<open>queue_destroy\<close> terminates and frees every task that is
  still queued: the heap is empty afterwards.\<close>
theorem queue_destroy_frees:
  assumes "fresh_run ops" and "run_queue ops = (out, q, h)"
  shows "\<exists>q'. queue_destroy q h = Some (q', Map.empty) \<and> q_head q' = None \<and> q_count q' = 0"
proof -
  have "queue_ok (q, h)" using task_fifo.run_inv [OF queue_ok_init assms(1)] assms(2) by simp
  from destroy_ok [OF this] show ?thesis by simp
qed

lemma queue_destroy_frees_witness:
  "\<exists>q'. queue_destroy (fst (snd (run_queue sample_ops))) (snd (snd (run_queue sample_ops))) = Some (q', Map.empty)"
  using queue_destroy_frees [OF sample_fresh, of "fst (run_queue sample_ops)"
      "fst (snd (run_queue sample_ops))" "snd (snd (run_queue sample_ops))"] by auto

end
