(* ===== verification/Task_Codec.thy ===== *)
theory Task_Codec
  imports Task_Queue
begin

text \<open>
  The text format of the asynchronous tasks of \<open>src/db_sync.c\<close>: the four \<open>pack_\<close> functions
  that write a task with \<open>snprintf\<close> into its 512 bytes of data, and the decoding with \<open>sscanf\<close>
  in \<open>db_sync_worker\<close>, which ends in a call of the database layer. A local buffer that
  \<open>sscanf\<close> did not reach is uninitialised in the code; it is \<open>None\<close> here.
\<close>

section \<open>Packing\<close>

abbreviation bar :: char where
  "bar \<equiv> CHR ''|''"

definition pack_agent_status :: "bytes \<Rightarrow> bytes \<Rightarrow> int \<Rightarrow> db_task_type \<times> bytes" where
  "pack_agent_status extension status concurrent_calls =
     (DB_TASK_AGENT_STATUS, snprintf DB_TASK_DATA_LEN
        (cstr extension @ bar # cstr status @ bar # show_int concurrent_calls))"

definition pack_agent_online :: "bytes \<Rightarrow> int \<Rightarrow> db_task_type \<times> bytes" where
  "pack_agent_online extension is_online =
     (DB_TASK_AGENT_ONLINE, snprintf DB_TASK_DATA_LEN (cstr extension @ bar # show_int is_online))"

definition or_empty :: "bytes option \<Rightarrow> bytes" where
  "or_empty s = (case s of None \<Rightarrow> [] | Some t \<Rightarrow> cstr t)"

definition pack_call_start ::
  "bytes \<Rightarrow> bytes \<Rightarrow> bytes \<Rightarrow> bytes \<Rightarrow> bytes option \<Rightarrow> bytes option \<Rightarrow> db_task_type \<times> bytes" where
  "pack_call_start call_id caller callee direction department start_time =
     (DB_TASK_CALL_START, snprintf DB_TASK_DATA_LEN
        (cstr call_id @ bar # cstr caller @ bar # cstr callee @ bar # cstr direction @ bar #
         or_empty department @ bar # or_empty start_time))"

definition pack_call_end :: "bytes \<Rightarrow> int \<Rightarrow> int \<Rightarrow> int \<Rightarrow> bytes option \<Rightarrow> db_task_type \<times> bytes" where
  "pack_call_end call_id duration sip_status result_code result_desc =
     (DB_TASK_CALL_END, snprintf DB_TASK_DATA_LEN
        (cstr call_id @ bar # show_int duration @ bar # show_int sip_status @ bar #
         show_int result_code @ bar # or_empty result_desc))"

section \<open>Scanning\<close>

text \<open>
  The conversions the formats use: \<open>%n[^c]\<close>, \<open>%d\<close> and a literal character. \<open>sscanf\<close> gives
  the values assigned before the first failure; its result is their number (no value at all
  stands for both 0 and \<open>EOF\<close>, which every caller treats alike).
\<close>

datatype conv = Conv_set nat char | Conv_int | Conv_lit char
datatype scanned = Str bytes | Num int

fun sscanf :: "conv list \<Rightarrow> bytes \<Rightarrow> scanned list" where
  "sscanf [] s = []"
| "sscanf (Conv_set n c # fs) s =
     (let w = take n (takeWhile (\<lambda>x. x \<noteq> c) s)
      in if w = [] then [] else Str w # sscanf fs (drop (length w) s))"
| "sscanf (Conv_int # fs) s =
     (case scan_int s of None \<Rightarrow> [] | Some (v, r) \<Rightarrow> Num v # sscanf fs r)"
| "sscanf (Conv_lit c # fs) s =
     (if s \<noteq> [] \<and> hd s = c then sscanf fs (tl s) else [])"

text \<open>The contents of an uninitialised buffer and of a zeroed integer after the call.\<close>

definition str_at :: "scanned list \<Rightarrow> nat \<Rightarrow> bytes option" where
  "str_at rs k = (if k < length rs then (case rs ! k of Str w \<Rightarrow> Some w | Num v \<Rightarrow> None) else None)"

definition num_at :: "scanned list \<Rightarrow> nat \<Rightarrow> int" where
  "num_at rs k = (if k < length rs then (case rs ! k of Str w \<Rightarrow> 0 | Num v \<Rightarrow> v) else 0)"

section \<open>Performing a task\<close>

datatype db_action =
    Update_agent_status "bytes option" "bytes option" int
  | Insert_call_record "bytes option" "bytes option" "bytes option" "bytes option"
      "bytes option" "bytes option" int bytes
  | Update_call_end "bytes option" bytes int int int "bytes option"

definition perform_task :: "bytes \<Rightarrow> db_task_type \<times> bytes \<Rightarrow> db_action list" where
  "perform_task now task =
     (let data = cstr (snd task) in
      case fst task of
        DB_TASK_AGENT_STATUS \<Rightarrow>
          let rs = sscanf [Conv_set 31 bar, Conv_lit bar, Conv_set 31 bar, Conv_lit bar, Conv_int] data
          in if 2 \<le> length rs then [Update_agent_status (str_at rs 0) (str_at rs 1) (num_at rs 2)] else []
      | DB_TASK_AGENT_ONLINE \<Rightarrow>
          let rs = sscanf [Conv_set 31 bar, Conv_lit bar, Conv_int] data
          in if 1 \<le> length rs
             then [Update_agent_status (str_at rs 0)
                     (Some (if num_at rs 1 \<noteq> 0 then ''idle'' else ''offline'')) 0]
             else []
      | DB_TASK_CALL_START \<Rightarrow>
          let rs = sscanf [Conv_set 255 bar, Conv_lit bar, Conv_set 31 bar, Conv_lit bar,
                 Conv_set 31 bar, Conv_lit bar, Conv_set 31 bar, Conv_lit bar,
                 Conv_set 63 bar, Conv_lit bar, Conv_set 31 lf] data
          in if 3 \<le> length rs
             then [Insert_call_record (str_at rs 0) (str_at rs 1) (str_at rs 2) (str_at rs 3)
                     (str_at rs 4) (str_at rs 5) 0 []]
             else []
      | DB_TASK_CALL_END \<Rightarrow>
          let rs = sscanf [Conv_set 255 bar, Conv_lit bar, Conv_int, Conv_lit bar, Conv_int,
                 Conv_lit bar, Conv_int, Conv_lit bar, Conv_set 127 lf] data
          in if 3 \<le> length rs
             then [Update_call_end (str_at rs 0) now (num_at rs 1) (num_at rs 2) (num_at rs 3)
                     (str_at rs 4)]
             else []
      | DB_TASK_DEPT_IDLE \<Rightarrow> []
      | DB_TASK_SHUTDOWN \<Rightarrow> [])"

section \<open>Scanning what was packed\<close>

text \<open>A field the format can carry: not empty, no separator, no NUL, not too long.\<close>

definition field :: "nat \<Rightarrow> bytes \<Rightarrow> bool" where
  "field n w \<longleftrightarrow> w \<noteq> [] \<and> length w \<le> n \<and> bar \<notin> set w \<and> nul \<notin> set w"

lemma nul_bar [simp]: "nul \<noteq> bar" "bar \<noteq> nul" "bar \<noteq> lf"
  by (simp_all add: nul_def lf_def)

lemma fieldD: "field n w \<Longrightarrow> cstr w = w"
  by (simp add: field_def cstr_id)

lemma takeWhile_field: "c \<notin> set w \<Longrightarrow> takeWhile (\<lambda>x. x \<noteq> c) (w @ c # t) = w"
  by (induction w) auto

lemma takeWhile_whole: "c \<notin> set w \<Longrightarrow> takeWhile (\<lambda>x. x \<noteq> c) w = w"
  by (induction w) auto

lemma sscanf_field:
  "field n w \<Longrightarrow> sscanf (Conv_set n bar # Conv_lit bar # fs) (w @ bar # t) = Str w # sscanf fs t"
  by (simp add: field_def takeWhile_field)

lemma sscanf_last:
  "w \<noteq> [] \<Longrightarrow> length w \<le> n \<Longrightarrow> c \<notin> set w \<Longrightarrow> sscanf [Conv_set n c] w = [Str w]"
  by (simp add: takeWhile_whole)

lemma sscanf_empty_field [simp]: "sscanf (Conv_set n bar # fs) (bar # t) = []"
  by simp

lemma sscanf_empty_end [simp]: "sscanf (Conv_set n c # fs) [] = []"
  by simp

text \<open>An overlong field is cut, and the separator is then not where the format wants it.\<close>

lemma sscanf_overlong:
  assumes "n < length w" and "0 < n" and "bar \<notin> set w"
  shows "sscanf (Conv_set n bar # Conv_lit bar # fs) (w @ bar # t) = [Str (take n w)]"
proof -
  have "hd (drop n w) \<noteq> bar"
    using assms hd_in_set [of "drop n w"] by (metis drop_eq_Nil in_set_dropD leD)
  moreover have "take n w \<noteq> []" "drop n w \<noteq> []" using assms by auto
  ultimately show ?thesis using assms by (simp add: takeWhile_field Let_def)
qed

lemma sscanf_int:
  "int_range i \<Longrightarrow> sscanf (Conv_int # Conv_lit bar # fs) (show_int i @ bar # t) = Num i # sscanf fs t"
  using scan_int_show_int [of i "bar # t"] by (simp add: int_range_def isdigit_def)

lemma sscanf_int_last: "int_range i \<Longrightarrow> sscanf [Conv_int] (show_int i) = [Num i]"
  using scan_int_show_int [of i "[]"] by (simp add: int_range_def)

lemma data_cstr: "length s < DB_TASK_DATA_LEN \<Longrightarrow> nul \<notin> set s \<Longrightarrow> cstr (snprintf DB_TASK_DATA_LEN s) = s"
  by (simp add: snprintf_def cstr_id)

lemmas scan_rules = sscanf_field sscanf_last sscanf_int sscanf_int_last data_cstr

lemma status_performed:
  assumes e: "field 31 extension" and s: "field 31 status" and c: "int_range calls"
  shows "perform_task now (pack_agent_status extension status calls) =
    [Update_agent_status (Some extension) (Some status) calls]"
proof -
  let ?d = "extension @ bar # status @ bar # show_int calls"
  have "length ?d < DB_TASK_DATA_LEN"
    using e s length_show_int [OF c] by (simp add: field_def DB_TASK_DATA_LEN_def)
  moreover have "nul \<notin> set ?d" using e s by (simp add: field_def)
  ultimately have "cstr (snprintf DB_TASK_DATA_LEN ?d) = ?d" by (rule data_cstr)
  then show ?thesis
    using e s c by (simp add: perform_task_def pack_agent_status_def fieldD scan_rules str_at_def
        num_at_def del: sscanf.simps)
qed


lemma online_performed:
  assumes e: "field 31 extension" and c: "int_range online"
  shows "perform_task now (pack_agent_online extension online) =
    [Update_agent_status (Some extension) (Some (if online = 0 then ''offline'' else ''idle'')) 0]"
proof -
  let ?d = "extension @ bar # show_int online"
  have "length ?d < DB_TASK_DATA_LEN"
    using e length_show_int [OF c] by (simp add: field_def DB_TASK_DATA_LEN_def)
  moreover have "nul \<notin> set ?d" using e by (simp add: field_def)
  ultimately have "cstr (snprintf DB_TASK_DATA_LEN ?d) = ?d" by (rule data_cstr)
  then show ?thesis
    using e c by (simp add: perform_task_def pack_agent_online_def fieldD scan_rules str_at_def
        num_at_def del: sscanf.simps)
qed

text \<open>
  The last field of a call record may hold separators but no line end. An empty one, and an
  empty field before the last, end the scan.
\<close>

definition last_field :: "nat \<Rightarrow> bytes \<Rightarrow> bool" where
  "last_field n w \<longleftrightarrow> length w \<le> n \<and> lf \<notin> set w \<and> nul \<notin> set w"

definition opt_field :: "bytes \<Rightarrow> bytes option" where
  "opt_field w = (if w = [] then None else Some w)"

lemma last_fieldD: "last_field n w \<Longrightarrow> cstr w = w"
  by (simp add: last_field_def cstr_id)

lemma sscanf_last_field:
  "last_field n w \<Longrightarrow> sscanf [Conv_set n lf] w = (if w = [] then [] else [Str w])"
  by (simp add: last_field_def takeWhile_whole)

lemma call_start_data:
  assumes "field 255 call_id" and "field 31 caller" and "field 31 callee" and "field 31 direction"
    and "dept = [] \<or> field 63 dept" and "last_field 31 time"
  shows "cstr (snd (pack_call_start call_id caller callee direction (opt_field dept) (Some time))) =
      call_id @ bar # caller @ bar # callee @ bar # direction @ bar # dept @ bar # time"
proof -
  let ?d = "call_id @ bar # caller @ bar # callee @ bar # direction @ bar # dept @ bar # time"
  have l: "length dept \<le> 63" "nul \<notin> set dept" using assms(5) by (auto simp: field_def)
  have "length ?d < DB_TASK_DATA_LEN"
    using assms(1-4,6) l by (simp add: field_def last_field_def DB_TASK_DATA_LEN_def)
  moreover have "nul \<notin> set ?d" using assms(1-4,6) l by (simp add: field_def last_field_def)
  ultimately have "cstr (snprintf DB_TASK_DATA_LEN ?d) = ?d" by (rule data_cstr)
  moreover have "or_empty (opt_field dept) = dept" using l by (simp add: or_empty_def opt_field_def cstr_id)
  ultimately show ?thesis
    using assms by (simp add: pack_call_start_def fieldD last_fieldD or_empty_def)
qed

lemma call_start_performed:
  assumes f: "field 255 call_id" "field 31 caller" "field 31 callee" "field 31 direction"
    and d: "dept = [] \<or> field 63 dept" and t: "last_field 31 time"
  shows "perform_task now (pack_call_start call_id caller callee direction (opt_field dept) (Some time)) =
    [Insert_call_record (Some call_id) (Some caller) (Some callee) (Some direction)
       (opt_field dept) (if dept = [] then None else opt_field time) 0 []]"
proof -
  note data = call_start_data [OF f d t]
  have ty: "fst (pack_call_start call_id caller callee direction (opt_field dept) (Some time)) = DB_TASK_CALL_START"
    by (simp add: pack_call_start_def)
  let ?fs = "[Conv_set 255 bar, Conv_lit bar, Conv_set 31 bar, Conv_lit bar, Conv_set 31 bar, Conv_lit bar,
    Conv_set 31 bar, Conv_lit bar, Conv_set 63 bar, Conv_lit bar, Conv_set 31 lf]"
  let ?d = "call_id @ bar # caller @ bar # callee @ bar # direction @ bar # dept @ bar # time"
  have p: "perform_task now (pack_call_start call_id caller callee direction (opt_field dept) (Some time)) =
    (let rs = sscanf ?fs ?d in if 3 \<le> length rs then [Insert_call_record (str_at rs 0) (str_at rs 1)
       (str_at rs 2) (str_at rs 3) (str_at rs 4) (str_at rs 5) 0 []] else [])"
    unfolding perform_task_def data ty Let_def by (simp del: sscanf.simps)
  show ?thesis
  proof (cases "dept = []")
    case True
    then have "sscanf (Conv_set 63 bar # fs) (dept @ bar # time) = []" for fs by simp
    then show ?thesis
      unfolding p using f True by (simp add: sscanf_field str_at_def opt_field_def del: sscanf.simps)
  next
    case False
    with d have d': "field 63 dept" by simp
    show ?thesis
      unfolding p using f d' False by (simp add: sscanf_field str_at_def opt_field_def
          sscanf_last_field [OF t] del: sscanf.simps)
  qed
qed

text \<open>The description of a call end is read up to its first line end.\<close>

definition first_line :: "bytes \<Rightarrow> bytes" where
  "first_line s = takeWhile (\<lambda>c. c \<noteq> lf) s"

lemma sscanf_first_line:
  "length w \<le> n \<Longrightarrow> sscanf [Conv_set n lf] w = (if first_line w = [] then [] else [Str (first_line w)])"
  using length_takeWhile_le [of "\<lambda>c. c \<noteq> lf" w] by (simp add: first_line_def Let_def)

lemma call_end_scanned:
  assumes f: "field 255 call_id" and i: "int_range duration" "int_range sip_status" "int_range result_code"
    and d: "length desc \<le> 127" "nul \<notin> set desc"
  shows "perform_task now (pack_call_end call_id duration sip_status result_code (Some desc)) =
    [Update_call_end (Some call_id) now duration sip_status result_code (opt_field (first_line desc))]"
proof -
  let ?d = "call_id @ bar # show_int duration @ bar # show_int sip_status @ bar # show_int result_code @
    bar # desc"
  have "length ?d < DB_TASK_DATA_LEN"
    using f d length_show_int [OF i(1)] length_show_int [OF i(2)] length_show_int [OF i(3)]
    by (simp add: field_def DB_TASK_DATA_LEN_def)
  moreover have "nul \<notin> set ?d" using f d by (simp add: field_def)
  ultimately have "cstr (snprintf DB_TASK_DATA_LEN ?d) = ?d" by (rule data_cstr)
  then have data: "cstr (snd (pack_call_end call_id duration sip_status result_code (Some desc))) = ?d"
    using f d by (simp add: pack_call_end_def fieldD cstr_id or_empty_def)
  have ty: "fst (pack_call_end call_id duration sip_status result_code (Some desc)) = DB_TASK_CALL_END"
    by (simp add: pack_call_end_def)
  show ?thesis
    using f i by (simp add: perform_task_def ty data sscanf_field sscanf_int str_at_def num_at_def opt_field_def
        sscanf_first_line [OF d(1)] del: sscanf.simps)
qed

lemma call_end_performed:
  assumes "field 255 call_id" and "int_range duration" "int_range sip_status" "int_range result_code"
    and "last_field 127 desc"
  shows "perform_task now (pack_call_end call_id duration sip_status result_code (Some desc)) =
    [Update_call_end (Some call_id) now duration sip_status result_code (opt_field desc)]"
proof -
  have "length desc \<le> 127" "nul \<notin> set desc" "first_line desc = desc"
    using assms(5) by (simp_all add: last_field_def first_line_def takeWhile_whole)
  with call_end_scanned [OF assms(1-4)] show ?thesis by simp
qed

section \<open>Properties\<close>

text \<open>C22: What the producers pack, the worker performs: for fields that are not empty, hold no
  separator and no NUL and fit the widths of the formats, each of the four kinds of tasks
  decodes to the database call with exactly the packed values; nothing is cut at 512 bytes.\<close>
theorem task_roundtrip:
  assumes "field 31 ext" and "field 31 status" and "int_range calls" and "int_range online"
    and "field 255 call_id" and "field 31 caller" and "field 31 callee" and "field 31 direction"
    and "field 63 dept" and "last_field 31 time" and "time \<noteq> []"
    and "int_range duration" and "int_range sip_status" and "int_range result_code"
    and "last_field 127 desc" and "desc \<noteq> []"
  shows "perform_task now (pack_agent_status ext status calls) =
      [Update_agent_status (Some ext) (Some status) calls] \<and>
    perform_task now (pack_agent_online ext online) =
      [Update_agent_status (Some ext) (Some (if online = 0 then ''offline'' else ''idle'')) 0] \<and>
    perform_task now (pack_call_start call_id caller callee direction (Some dept) (Some time)) =
      [Insert_call_record (Some call_id) (Some caller) (Some callee) (Some direction)
         (Some dept) (Some time) 0 []] \<and>
    perform_task now (pack_call_end call_id duration sip_status result_code (Some desc)) =
      [Update_call_end (Some call_id) now duration sip_status result_code (Some desc)]"
proof -
  have "dept \<noteq> []" using assms(9) by (simp add: field_def)
  then show ?thesis
    using status_performed [OF assms(1-3)] online_performed [OF assms(1,4)]
      call_start_performed [OF assms(5-8), of dept time now] call_end_performed [OF assms(5,12-15)] assms(9-11,16)
    by (simp add: opt_field_def)
qed

lemma task_roundtrip_witness:
  "perform_task ''2024-01-01'' (pack_agent_status ''2001'' ''busy'' 1) =
      [Update_agent_status (Some ''2001'') (Some ''busy'') 1] \<and>
    perform_task ''2024-01-01'' (pack_agent_online ''2001'' 0) =
      [Update_agent_status (Some ''2001'') (Some ''offline'') 0] \<and>
    perform_task ''2024-01-01'' (pack_call_start ''c1'' ''1001'' ''2001'' ''in'' (Some ''sales'') (Some ''10:00'')) =
      [Insert_call_record (Some ''c1'') (Some ''1001'') (Some ''2001'') (Some ''in'')
         (Some ''sales'') (Some ''10:00'') 0 []] \<and>
    perform_task ''2024-01-01'' (pack_call_end ''c1'' 17 200 0 (Some ''ok'')) =
      [Update_call_end (Some ''c1'') ''2024-01-01'' 17 200 0 (Some ''ok'')]"
  using task_roundtrip [of "''2001''" "''busy''" 1 0 "''c1''" "''1001''" "''2001''" "''in''" "''sales''"
      "''10:00''" 17 200 0 "''ok''" "''2024-01-01''"]
  by (simp add: field_def last_field_def int_range_def nul_def lf_def)

text \<open>A call without a department, which the producer allows, still inserts a call record,
  but its department and its start time are the contents of uninitialised buffers; in the same
  way an empty result description leaves that field of the call end indeterminate.\<close>
theorem empty_field_indeterminate:
  assumes "field 255 call_id" and "field 31 caller" and "field 31 callee" and "field 31 direction"
    and "last_field 31 time" and "int_range duration" and "int_range sip_status" and "int_range result_code"
  shows "perform_task now (pack_call_start call_id caller callee direction None (Some time)) =
      [Insert_call_record (Some call_id) (Some caller) (Some callee) (Some direction) None None 0 []] \<and>
    perform_task now (pack_call_end call_id duration sip_status result_code None) =
      [Update_call_end (Some call_id) now duration sip_status result_code None]"
proof -
  have "pack_call_end call_id duration sip_status result_code None =
      pack_call_end call_id duration sip_status result_code (Some [])"
    by (simp add: pack_call_end_def or_empty_def)
  then show ?thesis
    using call_start_performed [OF assms(1-4), of "[]" time now] assms(5)
      call_end_performed [OF assms(1,6-8), of "[]" now]
    by (simp add: opt_field_def last_field_def)
qed

lemma empty_field_indeterminate_witness:
  "perform_task ''now'' (pack_call_start ''c1'' ''1001'' ''2001'' ''in'' None (Some ''10:00'')) =
      [Insert_call_record (Some ''c1'') (Some ''1001'') (Some ''2001'') (Some ''in'') None None 0 []] \<and>
    perform_task ''now'' (pack_call_end ''c1'' 17 200 0 None) =
      [Update_call_end (Some ''c1'') ''now'' 17 200 0 None]"
  using empty_field_indeterminate [of "''c1''" "''1001''" "''2001''" "''in''" "''10:00''" 17 200 0 "''now''"]
  by (simp add: field_def last_field_def int_range_def nul_def lf_def)

lemma cstr_overlong: "bar \<notin> set w \<Longrightarrow> nul \<notin> set w \<Longrightarrow> n < length w \<Longrightarrow> n < 511 \<Longrightarrow>
   \<exists>t. cstr (snprintf DB_TASK_DATA_LEN (w @ bar # r)) = take 511 w @ t \<and> (t = [] \<or> hd t = bar)"
  by (cases "511 \<le> length w")
    (auto simp: snprintf_def DB_TASK_DATA_LEN_def cstr_append nul_take cstr_id take_Cons split: nat.splits)

lemma sscanf_cut:
  assumes "n < length w" and "0 < n" and "bar \<notin> set w" and "t = [] \<or> hd t = bar"
  shows "sscanf (Conv_set n bar # Conv_lit bar # fs) (w @ t) = [Str (take n w)]"
proof (cases t)
  case Nil
  have "hd (drop n w) \<noteq> bar"
    using assms hd_in_set [of "drop n w"] by (metis drop_eq_Nil in_set_dropD leD)
  moreover have "take n w \<noteq> []" "drop n w \<noteq> []" using assms by auto
  ultimately show ?thesis using assms Nil by (simp add: takeWhile_whole Let_def)
next
  case (Cons x t')
  with assms sscanf_overlong [OF assms(1-3), of fs t'] show ?thesis by simp
qed

text \<open>A status change of an agent whose extension is longer than the 31 bytes of the
  worker's buffer is dropped: the task performs nothing at all.\<close>
theorem overlong_extension_dropped:
  assumes "31 < length ext" and "bar \<notin> set ext" and "nul \<notin> set ext"
  shows "perform_task now (pack_agent_status ext status calls) = []"
proof -
  obtain t where d: "cstr (snprintf DB_TASK_DATA_LEN (ext @ bar # cstr status @ bar # show_int calls)) =
      take 511 ext @ t" "t = [] \<or> hd t = bar"
    using cstr_overlong [OF assms(2,3,1)] by auto
  have "sscanf [Conv_set 31 bar, Conv_lit bar, Conv_set 31 bar, Conv_lit bar, Conv_int] (take 511 ext @ t) =
      [Str (take 31 (take 511 ext))]"
    using assms d(2) by (intro sscanf_cut) (auto dest: in_set_takeD)
  then show ?thesis
    using assms d(1) by (simp add: perform_task_def pack_agent_status_def cstr_id del: sscanf.simps)
qed

lemma overlong_extension_dropped_witness:
  "perform_task ''now'' (pack_agent_status (replicate 32 (CHR ''7'')) ''busy'' 1) = []"
  by (rule overlong_extension_dropped) (simp_all add: nul_def)

end
