(* ===== verification/Db_Worker.thy ===== *)
theory Db_Worker
  imports Task_Codec
begin

text \<open>
  The worker thread of \<open>src/db_sync.c\<close>: its loop over the task queue, and stopping it. The
  calls into the database layer are recorded in the order they are made. The worker and the
  producers meet only at the queue, under its mutex; here the worker runs after the producers'
  last push, which is the situation in \<open>db_sync_stop_worker\<close>.
\<close>

section \<open>The loop\<close>

text \<open>
  \<open>now\<close> gives the time stamp read when a task is performed (it may depend on what was performed
  before). Waiting on the condition variable with nobody left to signal it is the undefined
  value: the loop does not return.
\<close>

partial_function (option) db_sync_worker ::
  "(db_action list \<Rightarrow> bytes) \<Rightarrow> bool \<Rightarrow> db_task_queue \<times> heap \<Rightarrow> db_action list \<Rightarrow>
   ((db_task_queue \<times> heap) \<times> db_action list) option" where
  "db_sync_worker now db_enabled s acts =
     (case queue_pop (fst s) (snd s) of
        (r, q) \<Rightarrow> (case r of
            Pop_Wait \<Rightarrow> db_sync_worker now db_enabled (q, snd s) acts
          | Pop_Null \<Rightarrow> Some ((q, snd s), acts)
          | Pop_Task a \<Rightarrow>
              db_sync_worker now db_enabled (q, (snd s)(a := None))
                (if db_enabled then acts @ perform_task (now acts) (task_val (snd s) a) else acts)))"

text \<open>
  Stopping: push the shutdown task if it could be allocated, set the flag, and join the worker,
  which then runs to its end. The last component is \<open>worker_running\<close>.
\<close>

definition shut :: "db_task_queue \<times> heap \<Rightarrow> db_task_queue \<times> heap" where
  "shut s = ((fst s)\<lparr>q_shutdown := True\<rparr>, snd s)"

definition db_sync_stop_worker ::
  "(db_action list \<Rightarrow> bytes) \<Rightarrow> bool \<Rightarrow> bool \<Rightarrow> nat option \<Rightarrow> db_task_queue \<times> heap \<Rightarrow> db_action list \<Rightarrow>
   ((db_task_queue \<times> heap) \<times> db_action list \<times> bool) option" where
  "db_sync_stop_worker now db_enabled worker_running stop_task s acts =
     (if \<not> worker_running then Some (s, acts, worker_running)
      else
        let s = (case stop_task of None \<Rightarrow> s | Some a \<Rightarrow> enqueue s a (DB_TASK_SHUTDOWN, []));
            s = shut s
        in map_option (\<lambda>(s, acts). (s, acts, False)) (db_sync_worker now db_enabled s acts))"

section \<open>What the worker performs\<close>

definition perform_next :: "(db_action list \<Rightarrow> bytes) \<Rightarrow> bool \<Rightarrow> db_action list \<Rightarrow> db_task_type \<times> bytes \<Rightarrow> db_action list" where
  "perform_next now db_enabled acts t = (if db_enabled then acts @ perform_task (now acts) t else acts)"

lemma queue_rep_shut: "queue_rep (q\<lparr>q_shutdown := b\<rparr>) h as = queue_rep q h as"
  by (simp add: queue_rep_def)

lemma shut_facts [simp]:
  "nodes (shut s) = nodes s" "tasks (shut s) = tasks s" "queue_ok (shut s) = queue_ok s"
  "q_shutdown (fst (shut s))" "snd (shut s) = snd s"
  by (simp_all add: shut_def nodes_def tasks_def queue_ok_def queue_rep_shut)

lemma worker_unfold:
  assumes ok: "queue_ok s" and sd: "q_shutdown (fst s)"
  shows "db_sync_worker now db s acts =
    (case tasks s of
       [] \<Rightarrow> Some (s, acts)
     | t # ts \<Rightarrow> db_sync_worker now db (snd (take_task s)) (perform_next now db acts t))"
proof -
  obtain q h where s: "s = (q, h)" by (cases s)
  then have r: "queue_rep q h (nodes (q, h))" using queue_okD ok by auto
  note pop = pop_rep [OF r]
  show ?thesis
  proof (cases "nodes (q, h)")
    case Nil
    with pop sd s have "queue_pop q h = (Pop_Null, q)" by simp
    with Nil show ?thesis
      by (simp add: s tasks_def db_sync_worker.simps [of now db "(q, h)"])
  next
    case (Cons a as)
    then obtain q' where q': "queue_pop q h = (Pop_Task a, q')" using pop by auto
    then have "snd (take_task (q, h)) = (q', h(a := None))" by (simp add: take_task_def)
    with q' Cons show ?thesis
      by (simp add: s tasks_def perform_next_def db_sync_worker.simps [of now db "(q, h)"])
  qed
qed

lemma worker_drains:
  "queue_ok s \<Longrightarrow> q_shutdown (fst s) \<Longrightarrow>
   \<exists>s'. db_sync_worker now db s acts = Some (s', foldl (perform_next now db) acts (tasks s)) \<and>
     queue_ok s' \<and> tasks s' = [] \<and> snd s' = Map.empty"
proof (induction "tasks s" arbitrary: s acts)
  case Nil
  then have "nodes s = []" by (simp add: tasks_def)
  with Nil.prems have "snd s = Map.empty" by (simp add: queue_ok_def)
  with Nil worker_unfold [OF Nil.prems] show ?case by auto
next
  case (Cons t ts)
  let ?s = "snd (take_task s)"
  from take_rep [OF Cons.prems(1)] Cons(2) [symmetric] have s: "tasks ?s = ts" "queue_ok ?s"
    "q_shutdown (fst ?s) = q_shutdown (fst s)" by simp_all
  from Cons(1) [of ?s "perform_next now db acts t"] s Cons.prems(2)
  obtain s' where "db_sync_worker now db ?s (perform_next now db acts t) =
      Some (s', foldl (perform_next now db) (perform_next now db acts t) ts)"
    "queue_ok s'" "tasks s' = []" "snd s' = Map.empty" by auto
  with worker_unfold [OF Cons.prems, of now db acts] Cons(2) [symmetric] show ?case by auto
qed

lemma perform_shutdown [simp]: "perform_next now db acts (DB_TASK_SHUTDOWN, d) = acts"
  by (simp add: perform_next_def perform_task_def)

lemma stop_result:
  assumes ok: "queue_ok s" and a: "case stop_task of None \<Rightarrow> True | Some a \<Rightarrow> fresh_cell s a"
  shows "\<exists>s'. db_sync_stop_worker now db True stop_task s acts =
      Some (s', foldl (perform_next now db) acts
        (if stop_task = None \<or> length (tasks s) < nat DB_QUEUE_MAX_SIZE then tasks s else tl (tasks s)), False) \<and>
    queue_ok s' \<and> tasks s' = [] \<and> snd s' = Map.empty"
proof (cases stop_task)
  case None
  with worker_drains [of "shut s" now db acts] ok show ?thesis
    by (auto simp: db_sync_stop_worker_def)
next
  case (Some a)
  let ?s = "enqueue s a (DB_TASK_SHUTDOWN, [])"
  from enqueue_rep [OF ok, of a "(DB_TASK_SHUTDOWN, [])"] a Some
  have s: "queue_ok ?s" "tasks ?s = bounded_put (nat DB_QUEUE_MAX_SIZE) (tasks s) (DB_TASK_SHUTDOWN, [])"
    by simp_all
  have "foldl (perform_next now db) acts (tasks ?s) = foldl (perform_next now db) acts
      (if length (tasks s) < nat DB_QUEUE_MAX_SIZE then tasks s else tl (tasks s))"
    by (simp add: s(2) bounded_put_def)
  with worker_drains [of "shut ?s" now db acts] s(1) Some show ?thesis
    by (auto simp: db_sync_stop_worker_def)
qed

section \<open>Properties\<close>

text \<open>C23: \<open>db_sync_stop_worker\<close> returns, and before it does the worker has performed every queued
  task in order, once each (none if the database is disabled), and freed them all: the queue is
  empty and no task is left on the heap. The shutdown task itself performs nothing; pushed onto
  a queue that is full, it costs the oldest task.\<close>
theorem stop_worker_drains:
  assumes "queue_ok s" and "case stop_task of None \<Rightarrow> True | Some a \<Rightarrow> fresh_cell s a"
  shows "\<exists>s'. db_sync_stop_worker now db True stop_task s acts =
      Some (s', foldl (perform_next now db) acts
        (if stop_task = None \<or> length (tasks s) < nat DB_QUEUE_MAX_SIZE then tasks s else tl (tasks s)), False) \<and>
    queue_ok s' \<and> tasks s' = [] \<and> snd s' = Map.empty"
  by (rule stop_result [OF assms])

abbreviation sample_state :: "db_task_queue \<times> heap" where
  "sample_state \<equiv> snd (run_queue [Put 7 (DB_TASK_AGENT_ONLINE, ''2001|1'')])"

lemma sample_state_ok: "queue_ok sample_state" "fresh_cell sample_state 3"
    "tasks sample_state = [(DB_TASK_AGENT_ONLINE, ''2001|1'')]"
proof -
  have "fresh_run [Put 7 (DB_TASK_AGENT_ONLINE, ''2001|1'')]" by (simp add: queue_eval)
  from task_fifo.run_inv [OF queue_ok_init this] task_fifo.burst_keeps_newest [OF queue_ok_init this]
  show "queue_ok sample_state" "tasks sample_state = [(DB_TASK_AGENT_ONLINE, ''2001|1'')]"
    by (simp_all add: DB_QUEUE_MAX_SIZE_def)
  show "fresh_cell sample_state 3" by (simp add: queue_eval)
qed

lemma stop_worker_drains_witness:
  "\<exists>s'. db_sync_stop_worker (\<lambda>acts. ''now'') True True (Some 3) sample_state [] =
      Some (s', [Update_agent_status (Some ''2001'') (Some ''idle'') 0], False) \<and> snd s' = Map.empty"
proof -
  have "pack_agent_online ''2001'' 1 = (DB_TASK_AGENT_ONLINE, ''2001|1'')"
    by code_simp
  with online_performed [of "''2001''" 1 "''now''"]
  have "perform_task ''now'' (DB_TASK_AGENT_ONLINE, ''2001|1'') = [Update_agent_status (Some ''2001'') (Some ''idle'') 0]"
    by (simp add: field_def int_range_def nul_def)
  with stop_worker_drains [of sample_state "Some 3" "\<lambda>acts. ''now''" True "[]"] sample_state_ok
  show ?thesis by (auto simp: perform_next_def DB_QUEUE_MAX_SIZE_def simp del: run_ops.simps)
qed

text \<open>A series of status changes as the main thread submits them.\<close>

type_synonym status_change = "nat \<times> bytes \<times> bytes \<times> int"

definition submit_ops :: "status_change list \<Rightarrow> (nat, db_task_type \<times> bytes) queue_op list" where
  "submit_ops = map (\<lambda>(a, ext, status, calls). Put a (pack_agent_status ext status calls))"

definition clean_change :: "status_change \<Rightarrow> bool" where
  "clean_change = (\<lambda>(a, ext, status, calls). field 31 ext \<and> field 31 status \<and> int_range calls)"

lemma puts_submit [simp]:
  "puts (submit_ops cs) = map (\<lambda>(a, ext, status, calls). pack_agent_status ext status calls) cs"
  by (induction cs) (auto simp: submit_ops_def)

lemma submit_no_get [simp]: "Get \<notin> set (submit_ops cs)"
  by (auto simp: submit_ops_def)

lemma perform_submitted:
  "\<forall>c\<in>set cs. clean_change c \<Longrightarrow>
   foldl (perform_next now True) acts (map (\<lambda>(a, ext, status, calls). pack_agent_status ext status calls) cs) =
   acts @ map (\<lambda>(a, ext, status, calls). Update_agent_status (Some ext) (Some status) calls) cs"
  by (induction cs arbitrary: acts)
    (auto simp: clean_change_def perform_next_def status_performed)

text \<open>Status changes are persistent across a shutdown: every change submitted before
  \<open>db_sync_stop_worker\<close> (fewer than 10000, with fields the format can carry) has reached the
  database layer when it returns, with its own extension, status and number of calls, in the
  order of submission.\<close>
theorem status_changes_persist:
  assumes "fresh_run (submit_ops cs)" and "\<forall>c\<in>set cs. clean_change c"
    and "length cs < nat DB_QUEUE_MAX_SIZE" and "snd (run_queue (submit_ops cs)) = s"
    and "fresh_cell s a"
  shows "\<exists>s'. db_sync_stop_worker now True True (Some a) s [] =
      Some (s', map (\<lambda>(a, ext, status, calls). Update_agent_status (Some ext) (Some status) calls) cs, False) \<and>
    tasks s' = [] \<and> snd s' = Map.empty"
proof -
  have ok: "queue_ok s" using task_fifo.run_inv [OF queue_ok_init assms(1)] assms(4) by simp
  have t: "tasks s = map (\<lambda>(a, ext, status, calls). pack_agent_status ext status calls) cs"
    using task_fifo.burst_keeps_newest [OF queue_ok_init assms(1) submit_no_get] assms(3,4) by simp
  from stop_result [OF ok, of "Some a" now True "[]"] assms(3,5) perform_submitted [OF assms(2), of now "[]"]
  show ?thesis by (auto simp: t)
qed

lemma status_changes_persist_witness:
  "\<exists>s'. db_sync_stop_worker (\<lambda>acts. ''now'') True True (Some 9)
      (snd (run_queue (submit_ops [(7, ''2001'', ''busy'', 1), (3, ''2002'', ''idle'', 0)]))) [] =
    Some (s', [Update_agent_status (Some ''2001'') (Some ''busy'') 1,
      Update_agent_status (Some ''2002'') (Some ''idle'') 0], False)"
proof -
  let ?cs = "[(7, ''2001'', ''busy'', 1), (3, ''2002'', ''idle'', 0)] :: status_change list"
  have f: "fresh_run (submit_ops ?cs)" by (simp add: submit_ops_def queue_eval)
  have c: "\<forall>c\<in>set ?cs. clean_change c"
    by (simp add: clean_change_def field_def int_range_def nul_def)
  have l: "length ?cs < nat DB_QUEUE_MAX_SIZE" by (simp add: DB_QUEUE_MAX_SIZE_def)
  have n: "fresh_cell (snd (run_queue (submit_ops ?cs))) 9" by (simp add: submit_ops_def queue_eval)
  from status_changes_persist [OF f c l refl n, of "\<lambda>acts. ''now''"] show ?thesis by auto
qed

end
