(* ===== verification/Db_Config.thy ===== *)
theory Db_Config
  imports World C_String
begin

text \<open>
  What the database components share: constants of \<open>include/db_config.h\<close>, and the idiom by which
  both of them build JSON and SQL in a buffer.
\<close>

definition DB_RECONNECT_BASE_SEC :: int where "DB_RECONNECT_BASE_SEC = 1"
definition DB_RECONNECT_MAX_SEC :: int where "DB_RECONNECT_MAX_SEC = 30"
definition DB_MAX_REDIS_KEY_LEN :: nat where "DB_MAX_REDIS_KEY_LEN = 256"
definition DB_MAX_SQL_LEN :: nat where "DB_MAX_SQL_LEN = 4096"
definition MYSQL_POOL_DEFAULT_SIZE :: int where "MYSQL_POOL_DEFAULT_SIZE = 8"
definition MYSQL_POOL_MAX_SIZE :: int where "MYSQL_POOL_MAX_SIZE = 32"

section \<open>Appending with \<open>snprintf\<close>\<close>

text \<open>
  \<open>offset += snprintf(buf + offset, size - offset, ...)\<close> appends at a running offset, which is
  advanced by the length the text would have had. Once the offset has passed the end of the
  buffer, the size argument is negative, converted to a huge \<open>size_t\<close>, and the next append
  writes outside the buffer; the last component records that.
\<close>

record out_buf =
  ob_text :: bytes
  ob_offset :: int
  ob_overrun :: bool

definition buf_append :: "int \<Rightarrow> out_buf \<Rightarrow> bytes \<Rightarrow> out_buf" where
  "buf_append bsize b s =
     (if bsize < ob_offset b then b\<lparr>ob_overrun := True, ob_offset := ob_offset b + int (length s)\<rparr>
      else b\<lparr>ob_text := take (nat (bsize - 1)) (take (nat (ob_offset b)) (ob_text b) @ s),
             ob_offset := ob_offset b + int (length s)\<rparr>)"

definition empty_buf :: out_buf where
  "empty_buf = \<lparr>ob_text = [], ob_offset = 0, ob_overrun = False\<rparr>"

definition quoted :: "bytes \<Rightarrow> bytes" where
  "quoted s = CHR 0x22 # cstr s @ [CHR 0x22]"

text \<open>Appends in sequence: the text is a prefix of what was meant until the end has been passed.\<close>

definition buf_holds :: "int \<Rightarrow> bytes \<Rightarrow> out_buf \<Rightarrow> bool" where
  "buf_holds n t b \<longleftrightarrow> ob_offset b = int (length t) \<and>
     (\<not> ob_overrun b \<longrightarrow> ob_text b = take (nat (n - 1)) t)"

lemma buf_holds_append:
  assumes "buf_holds n t b" and "0 < n"
  shows "buf_holds n (t @ s) (buf_append n b s) \<and>
    ob_overrun (buf_append n b s) = (ob_overrun b \<or> n < int (length t))"
proof (cases "n < ob_offset b")
  case True
  with assms show ?thesis by (simp add: buf_holds_def buf_append_def)
next
  case False
  with assms have "\<not> ob_overrun b \<longrightarrow> take (length t) (ob_text b) = take (nat (n - 1)) t"
    by (simp add: buf_holds_def min_def)
  with False assms show ?thesis
    by (auto simp: buf_holds_def buf_append_def min_def not_less)
qed


end
