(* ===== verification/Db_Mysql.thy ===== *)
theory Db_Mysql
  imports Db_Config
begin

text \<open>
  The MySQL connection pool of \<open>src/db_mysql.c\<close> and \<open>include/db_mysql.h\<close>: slots of connections that
  threads borrow and return, reconnection by one thread with exponential backoff, and the
  borrow-execute-return functions every statement goes through. libmysqlclient is the
  environment. A NULL pool, rejected first by every function, is not represented. The options set
  on a new handle (character set, timeouts) have no effect the code observes and are left out.
\<close>

section \<open>Data\<close>

record mysql_config =
  mc_host :: bytes
  mc_port :: uint16
  mc_user :: bytes
  mc_password :: bytes
  mc_database :: bytes
  mc_pool_size :: int
  mc_connect_timeout :: int
  mc_read_timeout :: int

record mysql_slot =
  s_conn :: int
  s_in_use :: bool
  s_connected :: bool

record mysql_pool =
  p_slots :: "mysql_slot list"
  p_size :: int
  p_config :: mysql_config
  p_reconnecting :: bool
  p_last_attempt :: int
  p_backoff :: int
  p_active :: int

definition ETIMEDOUT :: int where "ETIMEDOUT = 110"

definition zero_slot :: mysql_slot where
  "zero_slot = \<lparr>s_conn = 0, s_in_use = False, s_connected = False\<rparr>"

definition upd_conn :: "nat \<Rightarrow> (mysql_slot \<Rightarrow> mysql_slot) \<Rightarrow> mysql_pool \<Rightarrow> mysql_pool" where
  "upd_conn i f p = p\<lparr>p_slots := (p_slots p)[i := f (p_slots p ! i)]\<rparr>"

section \<open>Life cycle\<close>

definition db_mysql_pool_create :: "env \<Rightarrow> mysql_config \<Rightarrow> world \<Rightarrow> mysql_pool option \<times> world" where
  "db_mysql_pool_create E config w =
     (let (m, w) = ext E (Calloc 1) w in
      if rv m = 0 then (None, w)
      else
        let n = (if 0 < mc_pool_size config then mc_pool_size config else MYSQL_POOL_DEFAULT_SIZE);
            n = (if MYSQL_POOL_MAX_SIZE < n then MYSQL_POOL_MAX_SIZE else n);
            (s, w) = ext E (Calloc n) w in
        if rv s = 0 then (None, w)
        else (Some \<lparr>p_slots = replicate (nat n) zero_slot, p_size = n, p_config = config,
                p_reconnecting = False, p_last_attempt = 0, p_backoff = DB_RECONNECT_BASE_SEC,
                p_active = 0\<rparr>, w))"

fun close_slots :: "env \<Rightarrow> mysql_slot list \<Rightarrow> world \<Rightarrow> world" where
  "close_slots E [] w = w"
| "close_slots E (s # ss) w =
     close_slots E ss (if s_conn s \<noteq> 0 then snd (ext E (Mysql_close (s_conn s)) w) else w)"

definition db_mysql_pool_destroy :: "env \<Rightarrow> mysql_pool \<Rightarrow> world \<Rightarrow> world" where
  "db_mysql_pool_destroy E p w = close_slots E (p_slots p) w"

definition slot_connect :: "env \<Rightarrow> nat \<Rightarrow> mysql_pool \<Rightarrow> world \<Rightarrow> int \<times> mysql_pool \<times> world" where
  "slot_connect E i p w =
     (let old = s_conn (p_slots p ! i);
          w = (if old \<noteq> 0 then snd (ext E (Mysql_close old) w) else w);
          (h, w) = ext E Mysql_init w;
          p = upd_conn i (\<lambda>s. s\<lparr>s_conn := rv h\<rparr>) p in
      if rv h = 0 then (- 1, p, w)
      else
        let (r, w) = ext E (Mysql_real_connect (rv h)) w in
        if rv r = 0 then
          (- 1, upd_conn i (\<lambda>s. s\<lparr>s_conn := 0, s_connected := False\<rparr>) p, snd (ext E (Mysql_close (rv h)) w))
        else (0, upd_conn i (\<lambda>s. s\<lparr>s_connected := True, s_in_use := False\<rparr>) p, w))"

text \<open>
  The loops over the slots: \<open>connect_all\<close> connects every slot, reconnecting only those that are
  not connected; both count the slots that are connected then.
\<close>

fun connect_slots :: "env \<Rightarrow> bool \<Rightarrow> nat list \<Rightarrow> int \<Rightarrow> mysql_pool \<Rightarrow> world \<Rightarrow> int \<times> mysql_pool \<times> world" where
  "connect_slots E every [] ok p w = (ok, p, w)"
| "connect_slots E every (i # is) ok p w =
     (if every \<or> \<not> s_connected (p_slots p ! i) then
        let (ret, p, w) = slot_connect E i p w
        in connect_slots E every is (if ret = 0 then ok + 1 else ok) p w
      else connect_slots E every is (ok + 1) p w)"

definition db_mysql_pool_connect_all :: "env \<Rightarrow> mysql_pool \<Rightarrow> world \<Rightarrow> int \<times> mysql_pool \<times> world" where
  "db_mysql_pool_connect_all E p w =
     (let (ok, p, w) = connect_slots E True [0..<nat (p_size p)] 0 p w
      in (if 0 < ok then 0 else - 1, p\<lparr>p_active := ok\<rparr>, w))"

definition db_mysql_pool_health :: "mysql_pool \<Rightarrow> int" where
  "db_mysql_pool_health p = p_active p"

definition pool_try_reconnect :: "env \<Rightarrow> mysql_pool \<Rightarrow> world \<Rightarrow> int \<times> mysql_pool \<times> world" where
  "pool_try_reconnect E p w =
     (if p_reconnecting p then (- 1, p, w)
      else
        let (t, w) = ext E Time w; now = rv t in
        if now - p_last_attempt p < p_backoff p then (- 1, p, w)
        else
          let p = p\<lparr>p_reconnecting := True, p_last_attempt := now\<rparr>;
              (ok, p, w) = connect_slots E False [0..<nat (p_size p)] 0 p w;
              p = p\<lparr>p_active := ok\<rparr>;
              p = (if ok = p_size p then p\<lparr>p_backoff := DB_RECONNECT_BASE_SEC\<rparr>
                   else if DB_RECONNECT_MAX_SEC < p_backoff p * 2 then p\<lparr>p_backoff := DB_RECONNECT_MAX_SEC\<rparr>
                   else p\<lparr>p_backoff := p_backoff p * 2\<rparr>)
          in (if 0 < ok then 0 else - 1, p\<lparr>p_reconnecting := False\<rparr>, w))"

section \<open>Borrowing and returning\<close>

text \<open>
  One turn of the loop of \<open>db_mysql_pool_borrow\<close>: a free connected slot is taken; otherwise,
  when some slot is not connected, a reconnection is tried and the loop continues; otherwise
  the thread waits, until it is woken or the deadline passes. The lock is held for a turn, save
  for the reconnection and the wait.
\<close>

datatype borrow_result = Got int | Timed_out | Again

definition free_slot :: "mysql_slot \<Rightarrow> bool" where
  "free_slot s \<longleftrightarrow> \<not> s_in_use s \<and> s_connected s"

definition borrow_turn :: "env \<Rightarrow> mysql_pool \<Rightarrow> world \<Rightarrow> borrow_result \<times> mysql_pool \<times> world" where
  "borrow_turn E p w =
     (case first_index free_slot (p_slots p) of
        Some i \<Rightarrow> (Got (s_conn (p_slots p ! i)), upd_conn i (\<lambda>s. s\<lparr>s_in_use := True\<rparr>) p, w)
      | None \<Rightarrow>
          if p_active p < p_size p \<and> \<not> p_reconnecting p then
            let (ret, p, w) = pool_try_reconnect E p w in (Again, p, w)
          else
            let (r, w) = ext E Cond_timedwait w
            in (if rv r = ETIMEDOUT then Timed_out else Again, p, w))"

text \<open>
  The loop. \<open>others\<close> is what the other threads do to the pool while this one does not hold the
  lock between two turns. The result is the connection, 0 for NULL.
\<close>

partial_function (option) db_mysql_pool_borrow ::
  "env \<Rightarrow> (world \<Rightarrow> mysql_pool \<Rightarrow> mysql_pool) \<Rightarrow> mysql_pool \<Rightarrow> world \<Rightarrow> (int \<times> mysql_pool \<times> world) option" where
  "db_mysql_pool_borrow E others p w =
     (case borrow_turn E p w of
        (r, p, w) \<Rightarrow> (case r of
            Got c \<Rightarrow> Some (c, p, w)
          | Timed_out \<Rightarrow> Some (0, p, w)
          | Again \<Rightarrow> db_mysql_pool_borrow E others (others w p) w))"

definition db_mysql_pool_return :: "int \<Rightarrow> mysql_pool \<Rightarrow> mysql_pool" where
  "db_mysql_pool_return conn p =
     (if conn = 0 then p
      else case first_index (\<lambda>s. s_conn s = conn) (p_slots p) of
             None \<Rightarrow> p
           | Some i \<Rightarrow> upd_conn i (\<lambda>s. s\<lparr>s_in_use := False\<rparr>) p)"

section \<open>Executing statements\<close>

type_synonym others = "world \<Rightarrow> mysql_pool \<Rightarrow> mysql_pool"

text \<open>Borrow, run \<open>body\<close> on the connection, return it; \<open>dflt\<close> when there is none.\<close>

definition with_conn :: "env \<Rightarrow> others \<Rightarrow> 'a \<Rightarrow> (int \<Rightarrow> world \<Rightarrow> 'a \<times> world) \<Rightarrow> mysql_pool \<Rightarrow> world \<Rightarrow>
    ('a \<times> mysql_pool \<times> world) option" where
  "with_conn E others dflt body p w =
     (case db_mysql_pool_borrow E others p w of
        None \<Rightarrow> None
      | Some (conn, p, w) \<Rightarrow>
          if conn = 0 then Some (dflt, p, w)
          else let (r, w) = body conn w in Some (r, db_mysql_pool_return conn p, w))"

definition run_statement :: "env \<Rightarrow> bytes \<Rightarrow> int \<Rightarrow> world \<Rightarrow> int \<times> world" where
  "run_statement E sql conn w =
     (let (r, w) = ext E (Mysql_real_query conn sql) w in
      if rv r = 0 then (let (n, w) = ext E (Mysql_affected_rows conn) w in (to_int32 (rv n), w))
      else (- 1, w))"

definition db_mysql_execute :: "env \<Rightarrow> others \<Rightarrow> bytes \<Rightarrow> mysql_pool \<Rightarrow> world \<Rightarrow> (int \<times> mysql_pool \<times> world) option" where
  "db_mysql_execute E others sql = with_conn E others (- 1) (run_statement E (cstr sql))"

definition db_mysql_execute_long ::
  "env \<Rightarrow> others \<Rightarrow> bytes \<Rightarrow> int \<Rightarrow> mysql_pool \<Rightarrow> world \<Rightarrow> (int \<times> mysql_pool \<times> world) option" where
  "db_mysql_execute_long E others sql sql_len =
     with_conn E others (- 1) (run_statement E (take (nat sql_len) sql))"

text \<open>A stored result is its pointer and its rows; \<open>None\<close> is NULL.\<close>

type_synonym mysql_res = "int \<times> bytes option list list"

definition run_query :: "env \<Rightarrow> bytes \<Rightarrow> int \<Rightarrow> world \<Rightarrow> mysql_res option \<times> world" where
  "run_query E sql conn w =
     (let (r, w) = ext E (Mysql_real_query conn sql) w in
      if rv r = 0 then
        (let (s, w) = ext E (Mysql_store_result conn) w
         in (if rv s = 0 then None else Some (rv s, rows s), w))
      else (None, w))"

definition db_mysql_query ::
  "env \<Rightarrow> others \<Rightarrow> bytes \<Rightarrow> mysql_pool \<Rightarrow> world \<Rightarrow> (mysql_res option \<times> mysql_pool \<times> world) option" where
  "db_mysql_query E others sql = with_conn E others None (run_query E (cstr sql))"

definition mysql_free_result :: "env \<Rightarrow> mysql_res \<Rightarrow> world \<Rightarrow> world" where
  "mysql_free_result E res w = snd (ext E (Mysql_free_result (fst res)) w)"

end
