(* ===== verification/Db_Sql.thy ===== *)
theory Db_Sql
  imports Db_Mysql
begin

text \<open>
  The statements of \<open>src/db_mysql.c\<close>: every function that builds a text of SQL and has it executed
  or queried through the pool, and what it reads from the rows. Names of the
  functions and order of their arguments are the code's; strings are put between the quotes of
  the statement as they are.
\<close>

section \<open>Building and reading\<close>

text \<open>\<open>snprintf\<close> into the 4096 bytes of \<open>sql\<close>; an optional string that is NULL prints as empty.\<close>

definition sql_text :: "bytes list \<Rightarrow> bytes" where
  "sql_text parts = snprintf DB_MAX_SQL_LEN (concat parts)"

definition sql_quote :: "bytes \<Rightarrow> bytes" where
  "sql_quote s = CHR 0x27 # s @ [CHR 0x27]"

definition opt_str :: "bytes option \<Rightarrow> bytes" where
  "opt_str s = (case s of None \<Rightarrow> [] | Some t \<Rightarrow> cstr t)"

definition col :: "bytes option list \<Rightarrow> nat \<Rightarrow> bytes option" where
  "col row k = (if k < length row then row ! k else None)"

text \<open>Run a query; \<open>f\<close> reads the result, which is freed afterwards, \<open>dflt\<close> stands for NULL.\<close>

definition on_result :: "env \<Rightarrow> others \<Rightarrow> bytes \<Rightarrow> 'a \<Rightarrow> (bytes option list list \<Rightarrow> 'a) \<Rightarrow> mysql_pool \<Rightarrow> world \<Rightarrow>
    ('a \<times> mysql_pool \<times> world) option" where
  "on_result E others sql dflt f p w =
     (case db_mysql_query E others sql p w of
        None \<Rightarrow> None
      | Some (None, p, w) \<Rightarrow> Some (dflt, p, w)
      | Some (Some res, p, w) \<Rightarrow> Some (f (snd res), p, mysql_free_result E res w))"

text \<open>The result of \<open>SELECT COUNT\<close>: the first column of the first row.\<close>

definition count_of :: "bytes option list list \<Rightarrow> int" where
  "count_of rs = (case rs of [] \<Rightarrow> 0 | r # rs \<Rightarrow> (case col r 0 of None \<Rightarrow> 0 | Some t \<Rightarrow> atoi t))"

section \<open>Departments and extensions\<close>

definition db_mysql_insert_department ::
  "env \<Rightarrow> others \<Rightarrow> bytes \<Rightarrow> bytes \<Rightarrow> bytes \<Rightarrow> bytes \<Rightarrow> bytes \<Rightarrow> int \<Rightarrow> mysql_pool \<Rightarrow> world \<Rightarrow>
   (int \<times> mysql_pool \<times> world) option" where
  "db_mysql_insert_department E others dept_key dept_name short_number range_start range_end external_access =
     db_mysql_execute E others (sql_text
       [''INSERT INTO departments (dept_key, dept_name, short_number, '',
        ''range_start, range_end, external_access) VALUES '',
        ''('', sql_quote (cstr dept_key), '','', sql_quote (cstr dept_name), '','',
        sql_quote (cstr short_number), '','', sql_quote (cstr range_start), '','',
        sql_quote (cstr range_end), '','', show_int external_access, '') '',
        ''ON DUPLICATE KEY UPDATE dept_name=VALUES(dept_name), '',
        ''range_start=VALUES(range_start), range_end=VALUES(range_end), '',
        ''external_access=VALUES(external_access)''])"

definition db_mysql_load_departments ::
  "env \<Rightarrow> others \<Rightarrow> mysql_pool \<Rightarrow> world \<Rightarrow> (int \<times> mysql_pool \<times> world) option" where
  "db_mysql_load_departments E others =
     on_result E others ''SELECT COUNT(*) FROM departments'' (- 1) count_of"

definition db_mysql_insert_extension ::
  "env \<Rightarrow> others \<Rightarrow> bytes \<Rightarrow> bytes \<Rightarrow> int \<Rightarrow> mysql_pool \<Rightarrow> world \<Rightarrow> (int \<times> mysql_pool \<times> world) option" where
  "db_mysql_insert_extension E others extension employee_name department_id =
     db_mysql_execute E others (sql_text
       [''INSERT INTO extensions (extension, employee_name, department_id) '',
        ''VALUES ('', sql_quote (cstr extension), '','', sql_quote (cstr employee_name), '','',
        show_int department_id, '') '',
        ''ON DUPLICATE KEY UPDATE employee_name=VALUES(employee_name)''])"

text \<open>The second component is what is written to \<open>dept_name_out\<close>, if anything.\<close>

definition db_mysql_find_extension ::
  "env \<Rightarrow> others \<Rightarrow> bytes \<Rightarrow> int \<Rightarrow> mysql_pool \<Rightarrow> world \<Rightarrow> ((int \<times> bytes option) \<times> mysql_pool \<times> world) option" where
  "db_mysql_find_extension E others extension dept_name_size =
     on_result E others (sql_text
       [''SELECT d.dept_name FROM extensions e '',
        ''JOIN departments d ON e.department_id = d.id '',
        ''WHERE e.extension = '', sql_quote (cstr extension), '' AND e.is_active = 1''])
       (- 1, None)
       (\<lambda>rs. case rs of [] \<Rightarrow> (0, None)
         | r # rs \<Rightarrow> (1, map_option (strncpy (nat (dept_name_size - 1))) (col r 0)))"

section \<open>Agents\<close>

definition db_mysql_upsert_agent ::
  "env \<Rightarrow> others \<Rightarrow> bytes \<Rightarrow> int \<Rightarrow> int \<Rightarrow> bytes \<Rightarrow> int \<Rightarrow> mysql_pool \<Rightarrow> world \<Rightarrow> (int \<times> mysql_pool \<times> world) option" where
  "db_mysql_upsert_agent E others extension department_id is_online status concurrent_calls =
     db_mysql_execute E others (sql_text
       [''INSERT INTO agents (extension, department_id, is_online, '',
        ''status, concurrent_calls) '',
        ''VALUES ('', sql_quote (cstr extension), '', '', show_int department_id, '', '',
        show_int is_online, '', '', sql_quote (cstr status), '', '', show_int concurrent_calls,
        '') '',
        ''ON DUPLICATE KEY UPDATE is_online='', show_int is_online, '', status='',
        sql_quote (cstr status), '', '',
        ''concurrent_calls='', show_int concurrent_calls, '', last_active=NOW()''])"

definition update_status_sql :: "bytes \<Rightarrow> bytes \<Rightarrow> int \<Rightarrow> bytes" where
  "update_status_sql extension status concurrent_calls = sql_text
     [''UPDATE agents SET status='', sql_quote (cstr status), '', concurrent_calls='',
        show_int concurrent_calls, '', '',
        ''last_active=NOW() WHERE extension='', sql_quote (cstr extension)]"

definition db_mysql_update_agent_status ::
  "env \<Rightarrow> others \<Rightarrow> bytes \<Rightarrow> bytes \<Rightarrow> int \<Rightarrow> mysql_pool \<Rightarrow> world \<Rightarrow> (int \<times> mysql_pool \<times> world) option" where
  "db_mysql_update_agent_status E others extension status concurrent_calls =
     db_mysql_execute E others (update_status_sql extension status concurrent_calls)"

definition query_agent_sql :: "bytes \<Rightarrow> bytes" where
  "query_agent_sql extension = sql_text
     [''SELECT status, concurrent_calls FROM agents '',
        ''WHERE extension = '', sql_quote (cstr extension)]"

text \<open>The outputs: \<open>None\<close> where the buffer is left as it was.\<close>

definition db_mysql_query_agent_single ::
  "env \<Rightarrow> others \<Rightarrow> bytes \<Rightarrow> int \<Rightarrow> mysql_pool \<Rightarrow> world \<Rightarrow>
   ((int \<times> bytes option \<times> int) \<times> mysql_pool \<times> world) option" where
  "db_mysql_query_agent_single E others extension status_size =
     (let missing = (- 1, if 0 < status_size then Some (strncpy (nat (status_size - 1)) ''offline'') else None, 0)
      in on_result E others (query_agent_sql extension)
           missing
           (\<lambda>rs. case rs of [] \<Rightarrow> missing
             | r # rs \<Rightarrow>
                 (0, map_option (strncpy (nat (status_size - 1))) (col r 0),
                  case col r 1 of None \<Rightarrow> 0 | Some t \<Rightarrow> atoi t)))"

fun idle_json :: "int \<Rightarrow> bool \<Rightarrow> bytes option list list \<Rightarrow> out_buf \<Rightarrow> out_buf" where
  "idle_json bsize first [] b = b"
| "idle_json bsize first (r # rs) b =
     idle_json bsize False rs
       (buf_append bsize b ((if first then [] else '','') @ CHR 0x22 # opt_str (col r 0) @ [CHR 0x22]))"

definition db_mysql_find_idle_agents ::
  "env \<Rightarrow> others \<Rightarrow> bytes \<Rightarrow> int \<Rightarrow> int \<Rightarrow> mysql_pool \<Rightarrow> world \<Rightarrow>
   ((int \<times> out_buf option) \<times> mysql_pool \<times> world) option" where
  "db_mysql_find_idle_agents E others dept_key result_size limit_count =
     on_result E others (sql_text
       [''SELECT a.extension FROM agents a '',
        ''JOIN departments d ON a.department_id = d.id '',
        ''WHERE d.dept_key = '', sql_quote (cstr dept_key), '' AND a.is_online = 1 '',
        ''AND a.status = '', sql_quote ''idle'', '' AND a.concurrent_calls = 0 '',
        ''ORDER BY a.last_active ASC LIMIT '', show_int limit_count])
       (- 1, None)
       (\<lambda>rs. (int (length rs),
          Some (buf_append result_size
            (idle_json result_size True rs (buf_append result_size empty_buf ''['')) '']'')))"

section \<open>Calls, logs and voicemails\<close>

definition db_mysql_insert_call_record ::
  "env \<Rightarrow> others \<Rightarrow> bytes \<Rightarrow> bytes \<Rightarrow> bytes \<Rightarrow> bytes \<Rightarrow> bytes option \<Rightarrow> bytes \<Rightarrow> int \<Rightarrow> bytes option \<Rightarrow>
   mysql_pool \<Rightarrow> world \<Rightarrow> (int \<times> mysql_pool \<times> world) option" where
  "db_mysql_insert_call_record E others call_id caller callee direction department start_time result_code result_desc =
     db_mysql_execute E others (sql_text
       [''INSERT INTO call_records (call_id, caller_number, callee_number, '',
        ''direction, department, start_time, result_code, result_desc) '',
        ''VALUES ('', sql_quote (cstr call_id), '','', sql_quote (cstr caller), '','',
        sql_quote (cstr callee), '','', sql_quote (cstr direction), '','',
        sql_quote (opt_str department), '','', sql_quote (cstr start_time), '','',
        show_int result_code, '','', sql_quote (opt_str result_desc), '')''])"

definition db_mysql_update_call_end ::
  "env \<Rightarrow> others \<Rightarrow> bytes \<Rightarrow> bytes \<Rightarrow> int \<Rightarrow> int \<Rightarrow> int \<Rightarrow> bytes option \<Rightarrow> mysql_pool \<Rightarrow> world \<Rightarrow>
   (int \<times> mysql_pool \<times> world) option" where
  "db_mysql_update_call_end E others call_id end_time duration sip_status result_code result_desc =
     db_mysql_execute E others (sql_text
       [''UPDATE call_records SET end_time='', sql_quote (cstr end_time), '', duration='',
        show_int duration, '', '',
        ''sip_status='', show_int sip_status, '', result_code='', show_int result_code,
        '', result_desc='', sql_quote (opt_str result_desc), '' '',
        ''WHERE call_id='', sql_quote (cstr call_id)])"

definition db_mysql_insert_call_log ::
  "env \<Rightarrow> others \<Rightarrow> bytes option \<Rightarrow> bytes \<Rightarrow> bytes \<Rightarrow> bytes option \<Rightarrow> bytes option \<Rightarrow> bytes option \<Rightarrow> bytes option \<Rightarrow>
   mysql_pool \<Rightarrow> world \<Rightarrow> (int \<times> mysql_pool \<times> world) option" where
  "db_mysql_insert_call_log E others call_id log_level event_type message caller callee department =
     db_mysql_execute E others (sql_text
       [''INSERT INTO call_logs (call_id, log_level, event_type, message, '',
        ''caller_number, callee_number, department) '',
        ''VALUES ('', sql_quote (opt_str call_id), '','', sql_quote (cstr log_level), '','',
        sql_quote (cstr event_type), '','', sql_quote (opt_str message), '','',
        sql_quote (opt_str caller), '','', sql_quote (opt_str callee), '','',
        sql_quote (opt_str department), '')''])"

definition db_mysql_insert_voicemail ::
  "env \<Rightarrow> others \<Rightarrow> bytes \<Rightarrow> bytes option \<Rightarrow> bytes option \<Rightarrow> bytes option \<Rightarrow> int \<Rightarrow> mysql_pool \<Rightarrow> world \<Rightarrow>
   (int \<times> mysql_pool \<times> world) option" where
  "db_mysql_insert_voicemail E others caller_number department message_text file_path duration =
     db_mysql_execute E others (sql_text
       [''INSERT INTO voicemails (caller_number, department, message_text, '',
        ''file_path, duration) '',
        ''VALUES ('', sql_quote (cstr caller_number), '','', sql_quote (opt_str department), '','',
        sql_quote (opt_str message_text), '','', sql_quote (opt_str file_path), '','',
        show_int duration, '')''])"

section \<open>Counts for the cache\<close>

definition db_mysql_load_all_departments_for_cache ::
  "env \<Rightarrow> others \<Rightarrow> mysql_pool \<Rightarrow> world \<Rightarrow> (int \<times> mysql_pool \<times> world) option" where
  "db_mysql_load_all_departments_for_cache E others =
     on_result E others
       (concat [''SELECT dept_key, dept_name, short_number, '', ''range_start, range_end, external_access, '',
        ''min_agents_per_shift FROM departments''])
       (- 1) (\<lambda>rs. int (length rs))"

definition db_mysql_load_all_agents_for_cache ::
  "env \<Rightarrow> others \<Rightarrow> mysql_pool \<Rightarrow> world \<Rightarrow> (int \<times> mysql_pool \<times> world) option" where
  "db_mysql_load_all_agents_for_cache E others =
     on_result E others ''SELECT COUNT(*) FROM agents'' (- 1) count_of"

end
