(* ===== verification/Mysql_Facts.thy ===== *)
theory Mysql_Facts
  imports Db_Mysql
begin

text \<open>
  What the MySQL pool guarantees: its invariant, operation by operation, with the count of open
  handles in the trace, and the backoff of reconnection. \<open>Pool_Use\<close> builds on it.
\<close>

section \<open>Open handles\<close>

text \<open>MySQL handles not closed yet. A new handle is a pointer that is not in use.\<close>

fun open_conns :: "world \<Rightarrow> int set" where
  "open_conns [] = {}"
| "open_conns ((Mysql_init, r) # w) = (if rv r = 0 then open_conns w else insert (rv r) (open_conns w))"
| "open_conns ((Mysql_close c, r) # w) = open_conns w - {c}"
| "open_conns ((c, r) # w) = open_conns w"

definition fresh_conns :: "env \<Rightarrow> bool" where
  "fresh_conns E \<longleftrightarrow> (\<forall>w. rv (E w Mysql_init) \<noteq> 0 \<longrightarrow> rv (E w Mysql_init) \<notin> open_conns w)"

section \<open>The invariant of the pool\<close>

definition conn_at :: "mysql_pool \<Rightarrow> nat \<Rightarrow> int" where
  "conn_at p i = s_conn (p_slots p ! i)"

definition handles :: "mysql_pool \<Rightarrow> int set" where
  "handles p = {conn_at p i |i. i < length (p_slots p) \<and> conn_at p i \<noteq> 0}"

definition distinct_conns :: "mysql_pool \<Rightarrow> bool" where
  "distinct_conns p \<longleftrightarrow> (\<forall>i<length (p_slots p). \<forall>j<length (p_slots p).
     conn_at p i = conn_at p j \<longrightarrow> conn_at p i \<noteq> 0 \<longrightarrow> i = j)"

definition slot_ok :: "mysql_slot \<Rightarrow> bool" where
  "slot_ok s \<longleftrightarrow> (s_connected s \<longrightarrow> s_conn s \<noteq> 0) \<and> (s_in_use s \<longrightarrow> s_connected s)"

definition slots_inv :: "mysql_pool \<Rightarrow> world \<Rightarrow> bool" where
  "slots_inv p w \<longleftrightarrow> p_size p = int (length (p_slots p)) \<and> p_slots p \<noteq> [] \<and> p_size p \<le> MYSQL_POOL_MAX_SIZE \<and>
     (\<forall>s\<in>set (p_slots p). slot_ok s) \<and> distinct_conns p \<and> open_conns w = handles p"

definition pool_inv :: "mysql_pool \<Rightarrow> world \<Rightarrow> bool" where
  "pool_inv p w \<longleftrightarrow> slots_inv p w \<and> p_active p = int (count_slots s_connected (p_slots p)) \<and>
     1 \<le> p_backoff p \<and> p_backoff p \<le> DB_RECONNECT_MAX_SEC \<and> \<not> p_reconnecting p"

text \<open>The connections in use.\<close>

definition busy :: "mysql_pool \<Rightarrow> int set" where
  "busy p = {conn_at p i |i. i < length (p_slots p) \<and> s_in_use (p_slots p ! i)}"

lemma busy_image: "busy p = conn_at p ` {i. i < length (p_slots p) \<and> s_in_use (p_slots p ! i)}"
  by (auto simp: busy_def)

lemma upd_conn_sel [simp]:
  "length (p_slots (upd_conn i f p)) = length (p_slots p)" "p_size (upd_conn i f p) = p_size p"
  "p_config (upd_conn i f p) = p_config p" "p_active (upd_conn i f p) = p_active p"
  "p_backoff (upd_conn i f p) = p_backoff p" "p_reconnecting (upd_conn i f p) = p_reconnecting p"
  "p_last_attempt (upd_conn i f p) = p_last_attempt p" "p_slots (upd_conn i f p) = [] \<longleftrightarrow> p_slots p = []"
  by (simp_all add: upd_conn_def)

lemma slot_upd_conn: "i < length (p_slots p) \<Longrightarrow>
   p_slots (upd_conn i f p) ! j = (if i = j then f (p_slots p ! i) else p_slots p ! j)"
  by (simp add: upd_conn_def nth_list_update)

lemma conn_at_upd: "i < length (p_slots p) \<Longrightarrow>
   conn_at (upd_conn i f p) j = (if j = i then s_conn (f (p_slots p ! i)) else conn_at p j)"
  by (cases "j = i") (simp_all add: conn_at_def slot_upd_conn)

lemma upd_conn_twice [simp]:
  "i < length (p_slots p) \<Longrightarrow> upd_conn i g (upd_conn i f p) = upd_conn i (\<lambda>s. g (f s)) p"
  by (simp add: upd_conn_def)

lemma slots_inv_fields [simp]:
  "slots_inv (p\<lparr>p_active := a\<rparr>) w = slots_inv p w" "slots_inv (p\<lparr>p_backoff := b\<rparr>) w = slots_inv p w"
  "slots_inv (p\<lparr>p_reconnecting := r\<rparr>) w = slots_inv p w" "slots_inv (p\<lparr>p_last_attempt := t\<rparr>) w = slots_inv p w"
  by (simp_all add: slots_inv_def distinct_conns_def handles_def conn_at_def)

lemma busy_fields [simp]:
  "busy (p\<lparr>p_active := a\<rparr>) = busy p" "busy (p\<lparr>p_backoff := b\<rparr>) = busy p"
  "busy (p\<lparr>p_reconnecting := r\<rparr>) = busy p" "busy (p\<lparr>p_last_attempt := t\<rparr>) = busy p"
  by (simp_all add: busy_def conn_at_def)

lemma slot_okD: "slots_inv p w \<Longrightarrow> i < length (p_slots p) \<Longrightarrow> slot_ok (p_slots p ! i)"
  by (simp add: slots_inv_def)

lemma slots_ok_upd:
  "\<forall>s\<in>set (p_slots p). slot_ok s \<Longrightarrow> i < length (p_slots p) \<Longrightarrow> slot_ok (f (p_slots p ! i)) \<Longrightarrow>
   \<forall>s\<in>set (p_slots (upd_conn i f p)). slot_ok s"
  by (auto simp: upd_conn_def dest!: set_update_subset_insert [THEN subsetD])

text \<open>A change that keeps the connection of a slot keeps the invariant when the slot stays well formed.\<close>

lemma slots_inv_flags:
  assumes "slots_inv p w" and i: "i < length (p_slots p)" and c: "s_conn (f (p_slots p ! i)) = s_conn (p_slots p ! i)"
    and "slot_ok (f (p_slots p ! i))"
  shows "slots_inv (upd_conn i f p) w"
proof -
  have "conn_at (upd_conn i f p) j = conn_at p j" for j
    using c by (cases "j = i") (simp_all add: conn_at_upd [OF i], simp add: conn_at_def)
  with assms slots_ok_upd [of p i f] show ?thesis
    by (auto simp: slots_inv_def distinct_conns_def handles_def)
qed

text \<open>A slot that gets another handle, the old one having been closed.\<close>

lemma handles_upd:
  assumes d: "distinct_conns p" and i: "i < length (p_slots p)"
  shows "handles (upd_conn i f p) =
    (if s_conn (f (p_slots p ! i)) = 0 then {} else {s_conn (f (p_slots p ! i))}) \<union> (handles p - {conn_at p i})"
    (is "?l = ?r")
proof
  show "?l \<subseteq> ?r"
  proof
    fix c
    assume "c \<in> ?l"
    then obtain j where j: "j < length (p_slots p)" "c = conn_at (upd_conn i f p) j" "c \<noteq> 0"
      by (auto simp: handles_def)
    show "c \<in> ?r"
    proof (cases "i = j")
      case True
      have "c = s_conn (f (p_slots p ! i))" using j(2) conn_at_upd [OF i, of f j] True by simp
      with j(3) show ?thesis by simp
    next
      case False
      with j have c: "c = conn_at p j" by (simp add: conn_at_upd [OF i])
      have "c \<noteq> conn_at p i" using d i j c False by (auto simp: distinct_conns_def)
      with c j show ?thesis by (auto simp: handles_def)
    qed
  qed
  show "?r \<subseteq> ?l"
  proof
    fix c
    assume c: "c \<in> ?r"
    show "c \<in> ?l"
    proof (cases "c \<in> handles p - {conn_at p i}")
      case True
      then obtain j where "j < length (p_slots p)" "c = conn_at p j" "c \<noteq> 0" "c \<noteq> conn_at p i"
        by (auto simp: handles_def)
      moreover from this have "conn_at (upd_conn i f p) j = conn_at p j"
        by (auto simp: conn_at_upd [OF i])
      ultimately show ?thesis
        unfolding handles_def upd_conn_sel mem_Collect_eq by (intro exI [of _ j]) simp
    next
      case False
      with c have "s_conn (f (p_slots p ! i)) \<noteq> 0" "c = s_conn (f (p_slots p ! i))" by (auto split: if_splits)
      then have "conn_at (upd_conn i f p) i = c" "c \<noteq> 0" by (simp_all add: conn_at_upd [OF i])
      with i show ?thesis by (auto simp: handles_def)
    qed
  qed
qed

lemma distinct_conns_upd:
  assumes "distinct_conns p" and i: "i < length (p_slots p)"
    and "s_conn (f (p_slots p ! i)) \<noteq> 0 \<Longrightarrow> s_conn (f (p_slots p ! i)) \<notin> handles p - {conn_at p i}"
  shows "distinct_conns (upd_conn i f p)"
proof -
  have n: "s_conn (f (p_slots p ! i)) \<noteq> conn_at p j"
    if "j < length (p_slots p)" "j \<noteq> i" "s_conn (f (p_slots p ! i)) \<noteq> 0" for j
  proof
    assume e: "s_conn (f (p_slots p ! i)) = conn_at p j"
    have "conn_at p j \<noteq> conn_at p i"
      using assms(1) i that e by (auto simp: distinct_conns_def)
    then have "s_conn (f (p_slots p ! i)) \<in> handles p - {conn_at p i}"
      using e that by (auto simp: handles_def)
    with assms(3) that(3) show False by blast
  qed
  show ?thesis
    unfolding distinct_conns_def
  proof (intro allI impI)
    fix j k
    assume jk: "j < length (p_slots (upd_conn i f p))" "k < length (p_slots (upd_conn i f p))"
      and e: "conn_at (upd_conn i f p) j = conn_at (upd_conn i f p) k" "conn_at (upd_conn i f p) j \<noteq> 0"
    have *: "conn_at (upd_conn i f p) m = (if m = i then s_conn (f (p_slots p ! i)) else conn_at p m)" for m
      by (rule conn_at_upd [OF i])
    show "j = k"
      using assms(1) jk e n [of j] n [of k] unfolding * distinct_conns_def
      by (auto split: if_splits)
  qed
qed

text \<open>\<open>slot_connect\<close> on a slot that is not in use.\<close>

lemma slot_connect_inv:
  assumes inv: "slots_inv p w" and i: "i < length (p_slots p)" and free: "\<not> s_in_use (p_slots p ! i)"
    and fresh: "fresh_conns E" and r: "slot_connect E i p w = (ret, p', w')"
    and nc: "\<not> s_connected (p_slots p ! i)"
  shows "slots_inv p' w' \<and> length (p_slots p') = length (p_slots p) \<and>
    (ret = 0 \<longleftrightarrow> s_connected (p_slots p' ! i)) \<and> \<not> s_in_use (p_slots p' ! i) \<and>
    (\<forall>j. j \<noteq> i \<longrightarrow> p_slots p' ! j = p_slots p ! j) \<and>
    p_config p' = p_config p \<and> p_backoff p' = p_backoff p \<and> p_reconnecting p' = p_reconnecting p \<and>
    p_last_attempt p' = p_last_attempt p \<and> p_size p' = p_size p \<and> (ret = 0 \<or> ret = - 1)"
proof -
  let ?old = "conn_at p i"
  define w1 where "w1 = (if ?old \<noteq> 0 then snd (ext E (Mysql_close ?old) w) else w)"
  let ?h = "rv (E w1 Mysql_init)"
  let ?w2 = "(Mysql_init, E w1 Mysql_init) # w1"
  have H: "open_conns w = handles p" and D: "distinct_conns p" and S: "\<forall>s\<in>set (p_slots p). slot_ok s"
    using inv by (simp_all add: slots_inv_def)
  have "0 \<notin> handles p" by (auto simp: handles_def)
  then have h1: "open_conns w1 = handles p - {?old}" using H by (auto simp: w1_def)
  then have hf: "?h \<noteq> 0 \<Longrightarrow> ?h \<notin> handles p - {?old}" using fresh by (metis fresh_conns_def)
  have fin: "slots_inv (upd_conn i f p) w''"
    if "s_conn (f (p_slots p ! i)) = (if ok then ?h else 0)" "slot_ok (f (p_slots p ! i))"
      "open_conns w'' = (if ok \<and> ?h \<noteq> 0 then insert ?h (handles p - {?old}) else handles p - {?old})"
    for f ok w''
  proof -
    have "distinct_conns (upd_conn i f p)"
      by (rule distinct_conns_upd [OF D i]) (use that(1) hf in \<open>auto split: if_splits\<close>)
    with inv that slots_ok_upd [where f = f, OF S i that(2)] show ?thesis
      by (auto simp: slots_inv_def handles_upd [OF D i])
  qed
  have old: "s_conn (p_slots p ! i) = ?old" by (simp add: conn_at_def)
  note r = r [unfolded slot_connect_def old Let_def, folded w1_def]
  show ?thesis
  proof (cases "?h = 0")
    case True
    with r i have e: "ret = - 1" "p' = upd_conn i (\<lambda>s. s\<lparr>s_conn := 0\<rparr>) p" "w' = ?w2"
      by auto
    have "slots_inv p' w'"
      unfolding e by (rule fin [where ok = False]) (use True free nc h1 in \<open>auto simp: slot_ok_def\<close>)
    with e free nc show ?thesis by (simp add: slot_upd_conn [OF i])
  next
    case False
    let ?r = "rv (E ?w2 (Mysql_real_connect ?h))"
    let ?w3 = "(Mysql_real_connect ?h, E ?w2 (Mysql_real_connect ?h)) # ?w2"
    show ?thesis
    proof (cases "?r = 0")
      case True
      let ?f = "\<lambda>s. s\<lparr>s_conn := 0, s_connected := False\<rparr>"
      from True False r i have e: "ret = - 1" "p' = upd_conn i ?f p" "w' = (Mysql_close ?h, E ?w3 (Mysql_close ?h)) # ?w3"
        by auto
      have "slots_inv p' w'"
        unfolding e by (rule fin [where ok = False]) (use False free h1 hf in \<open>auto simp: slot_ok_def\<close>)
      with e free show ?thesis by (simp add: slot_upd_conn [OF i])
    next
      case c: False
      let ?f = "\<lambda>s. s\<lparr>s_conn := ?h, s_connected := True, s_in_use := False\<rparr>"
      from c False r i have e: "ret = 0" "p' = upd_conn i ?f p" "w' = ?w3"
        by auto
      have "slots_inv p' w'"
        unfolding e by (rule fin [where ok = True]) (use False h1 in \<open>auto simp: slot_ok_def\<close>)
      with e show ?thesis by (simp add: slot_upd_conn [OF i])
    qed
  qed
qed

section \<open>Connecting and reconnecting\<close>

definition keeps_connected :: "mysql_pool \<Rightarrow> mysql_pool \<Rightarrow> bool" where
  "keeps_connected p p' \<longleftrightarrow> length (p_slots p') = length (p_slots p) \<and> p_config p' = p_config p \<and>
     p_backoff p' = p_backoff p \<and> p_reconnecting p' = p_reconnecting p \<and>
     p_last_attempt p' = p_last_attempt p \<and> p_size p' = p_size p \<and>
     (\<forall>j<length (p_slots p). s_connected (p_slots p ! j) \<longrightarrow> p_slots p' ! j = p_slots p ! j) \<and>
     (\<forall>j<length (p_slots p). \<not> s_connected (p_slots p ! j) \<longrightarrow> \<not> s_in_use (p_slots p' ! j))"

lemma connect_slots_inv:
  assumes "fresh_conns E"
  shows "slots_inv p w \<Longrightarrow> \<forall>i\<in>set is. i < length (p_slots p) \<Longrightarrow> distinct is \<Longrightarrow>
    (every \<longrightarrow> (\<forall>i\<in>set is. \<not> s_connected (p_slots p ! i))) \<Longrightarrow>
    connect_slots E every is ok p w = (ok', p', w') \<Longrightarrow>
    slots_inv p' w' \<and> keeps_connected p p' \<and>
    (\<forall>j<length (p_slots p). j \<notin> set is \<longrightarrow> p_slots p' ! j = p_slots p ! j) \<and>
    ok' = ok + int (length (filter (\<lambda>i. s_connected (p_slots p' ! i)) is))"
proof (induction "is" arbitrary: ok p w)
  case Nil
  have "\<not> s_in_use (p_slots p ! j)" if "j < length (p_slots p)" "\<not> s_connected (p_slots p ! j)" for j
    using slot_okD [OF Nil.prems(1) that(1)] that(2) by (auto simp: slot_ok_def)
  with Nil show ?case by (auto simp: keeps_connected_def)
next
  case (Cons i js)
  have i: "i < length (p_slots p)" using Cons.prems(2) by simp
  show ?case
  proof (cases "s_connected (p_slots p ! i)")
    case True
    with Cons.prems have r: "connect_slots E every js (ok + 1) p w = (ok', p', w')" by auto
    from Cons.IH [OF Cons.prems(1) _ _ _ r] Cons.prems True i
    have IH: "slots_inv p' w'" "keeps_connected p p'"
      "\<forall>j<length (p_slots p). j \<notin> set js \<longrightarrow> p_slots p' ! j = p_slots p ! j"
      "ok' = ok + 1 + int (length (filter (\<lambda>i. s_connected (p_slots p' ! i)) js))" by auto
    moreover from IH(2) True i have "p_slots p' ! i = p_slots p ! i" by (simp add: keeps_connected_def)
    ultimately show ?thesis using True by simp
  next
    case False
    obtain ret p1 w1 where c: "slot_connect E i p w = (ret, p1, w1)" by (cases "slot_connect E i p w") auto
    have nu: "\<not> s_in_use (p_slots p ! i)" using slot_okD [OF Cons.prems(1) i] False by (auto simp: slot_ok_def)
    note S = slot_connect_inv [OF Cons.prems(1) i nu assms c False]
    have r: "connect_slots E every js (if ret = 0 then ok + 1 else ok) p1 w1 = (ok', p', w')"
      using Cons.prems(5) False c by simp
    have pre: "slots_inv p1 w1" "\<forall>j\<in>set js. j < length (p_slots p1)" "distinct js"
      "every \<longrightarrow> (\<forall>j\<in>set js. \<not> s_connected (p_slots p1 ! j))"
      using S Cons.prems by auto
    from Cons.IH [OF pre r] S
    have IH: "slots_inv p' w'" "keeps_connected p1 p'"
      "\<forall>j<length (p_slots p). j \<notin> set js \<longrightarrow> p_slots p' ! j = p_slots p1 ! j"
      "ok' = (if ret = 0 then ok + 1 else ok) + int (length (filter (\<lambda>i. s_connected (p_slots p' ! i)) js))"
      by auto
    have pi: "p_slots p' ! i = p_slots p1 ! i" using IH(3) i Cons.prems(3) by simp
    have "keeps_connected p p'"
      unfolding keeps_connected_def
    proof (intro conjI allI impI)
      fix j
      assume j: "j < length (p_slots p)" "s_connected (p_slots p ! j)"
      then have "j \<noteq> i" using False by auto
      with j S IH(2) show "p_slots p' ! j = p_slots p ! j" by (simp add: keeps_connected_def)
    next
      fix j
      assume j: "j < length (p_slots p)" "\<not> s_connected (p_slots p ! j)"
      show "\<not> s_in_use (p_slots p' ! j)"
      proof (cases "j = i")
        case True
        with pi S show ?thesis by simp
      next
        case False
        with j S IH(2) show ?thesis by (simp add: keeps_connected_def)
      qed
    qed (use S IH(2) in \<open>simp_all add: keeps_connected_def\<close>)
    then show ?thesis using IH S pi by auto
  qed
qed

lemma filter_upt_count: "length (filter (\<lambda>i. P (xs ! i)) [0..<length xs]) = count_slots P xs"
proof (induction xs)
  case (Cons x xs)
  have "[0..<length (x # xs)] = 0 # map Suc [0..<length xs]" by (simp add: upt_conv_Cons map_Suc_upt del: upt_Suc)
  with Cons show ?case by (simp add: filter_map comp_def)
qed simp

lemma busy_kept:
  assumes "slots_inv p w" and "keeps_connected p p'"
  shows "busy p' = busy p"
proof -
  have "s_in_use (p_slots p' ! j) = s_in_use (p_slots p ! j) \<and>
      (s_in_use (p_slots p ! j) \<longrightarrow> conn_at p' j = conn_at p j)" if j: "j < length (p_slots p)" for j
  proof (cases "s_connected (p_slots p ! j)")
    case True
    with assms(2) j show ?thesis by (simp add: keeps_connected_def conn_at_def)
  next
    case False
    with assms j slot_okD [OF assms(1) j] show ?thesis by (auto simp: keeps_connected_def slot_ok_def)
  qed
  with assms(2) show ?thesis unfolding busy_def keeps_connected_def by auto metis+
qed

lemma connect_all_inv:
  assumes "fresh_conns E" and "slots_inv p w" and "\<forall>s\<in>set (p_slots p). \<not> s_connected s"
    and "1 \<le> p_backoff p" and "p_backoff p \<le> DB_RECONNECT_MAX_SEC" and "\<not> p_reconnecting p"
    and r: "db_mysql_pool_connect_all E p w = (ret, p', w')"
  shows "pool_inv p' w' \<and> busy p' = busy p \<and> (ret = 0 \<longleftrightarrow> (\<exists>s\<in>set (p_slots p'). s_connected s))"
proof -
  obtain ok p1 w1 where c: "connect_slots E True [0..<nat (p_size p)] 0 p w = (ok, p1, w1)"
    by (cases "connect_slots E True [0..<nat (p_size p)] 0 p w") auto
  have n: "nat (p_size p) = length (p_slots p)" using assms(2) by (simp add: slots_inv_def)
  note S = connect_slots_inv [OF assms(1,2) _ _ _ c]
  have S: "slots_inv p1 w1" "keeps_connected p p1" "ok = int (count_slots s_connected (p_slots p1))"
    using S assms(3) n filter_upt_count [of s_connected "p_slots p1"] by (auto simp: keeps_connected_def)
  have "p' = p1\<lparr>p_active := ok\<rparr>" "w' = w1" "ret = (if 0 < ok then 0 else - 1)"
    using r c by (simp_all add: db_mysql_pool_connect_all_def)
  with S assms(4-6) busy_kept [OF assms(2) S(2)] show ?thesis
    by (auto simp: pool_inv_def keeps_connected_def count_slots_def filter_empty_conv)
qed

text \<open>The next delay after a round of reconnection.\<close>

definition next_backoff :: "bool \<Rightarrow> int \<Rightarrow> int" where
  "next_backoff all_ok b = (if all_ok then DB_RECONNECT_BASE_SEC else min DB_RECONNECT_MAX_SEC (b * 2))"

lemma try_reconnect_inv:
  assumes "fresh_conns E" and inv: "pool_inv p w" and r: "pool_try_reconnect E p w = (ret, p', w')"
  shows "pool_inv p' w' \<and> busy p' = busy p \<and> length (p_slots p') = length (p_slots p) \<and> p_size p' = p_size p \<and>
    (rv (E w Time) - p_last_attempt p < p_backoff p \<longrightarrow> p' = p \<and> ret = - 1) \<and>
    (p_backoff p \<le> rv (E w Time) - p_last_attempt p \<longrightarrow>
       p_last_attempt p' = rv (E w Time) \<and> p_backoff p' = next_backoff (p_active p' = p_size p) (p_backoff p) \<and>
       (ret = 0 \<longleftrightarrow> 0 < p_active p') \<and>
       (\<forall>j<length (p_slots p). s_connected (p_slots p ! j) \<longrightarrow> p_slots p' ! j = p_slots p ! j))"
proof -
  let ?w = "(Time, E w Time) # w"
  have si: "slots_inv p ?w" using inv by (simp add: pool_inv_def slots_inv_def)
  have nr: "\<not> p_reconnecting p" using inv by (simp add: pool_inv_def)
  show ?thesis
  proof (cases "rv (E w Time) - p_last_attempt p < p_backoff p")
    case True
    with r nr have "p' = p" "w' = ?w" "ret = - 1" by (simp_all add: pool_try_reconnect_def Let_def)
    with True inv si show ?thesis by (simp add: pool_inv_def)
  next
    case False
    let ?p = "p\<lparr>p_reconnecting := True, p_last_attempt := rv (E w Time)\<rparr>"
    obtain ok p1 w1 where c: "connect_slots E False [0..<nat (p_size p)] 0 ?p ?w = (ok, p1, w1)"
      by (cases "connect_slots E False [0..<nat (p_size p)] 0 ?p ?w") auto
    have si': "slots_inv ?p ?w" using si by simp
    have n: "nat (p_size p) = length (p_slots p)" using si by (simp add: slots_inv_def)
    note S = connect_slots_inv [OF assms(1) si' _ _ _ c]
    have S: "slots_inv p1 w1" "keeps_connected ?p p1" "ok = int (count_slots s_connected (p_slots p1))"
      using S n filter_upt_count [of s_connected "p_slots p1"] by (auto simp: keeps_connected_def)
    have e: "w' = w1" "ret = (if 0 < ok then 0 else - 1)"
      "p' = p1\<lparr>p_active := ok, p_backoff := next_backoff (ok = p_size p) (p_backoff p), p_reconnecting := False\<rparr>"
      using r c False nr S(2)
      by (auto simp: pool_try_reconnect_def Let_def next_backoff_def keeps_connected_def split: if_splits)
    have "1 \<le> next_backoff (ok = p_size p) (p_backoff p)" "next_backoff (ok = p_size p) (p_backoff p) \<le> DB_RECONNECT_MAX_SEC"
      using inv by (auto simp: pool_inv_def next_backoff_def DB_RECONNECT_BASE_SEC_def DB_RECONNECT_MAX_SEC_def)
    with S e busy_kept [OF si' S(2)] False show ?thesis
      by (simp add: pool_inv_def keeps_connected_def)
  qed
qed

section \<open>Borrowing and returning\<close>

lemma pool_inv_time [simp]: "pool_inv p ((Cond_timedwait, r) # w) = pool_inv p w"
  by (simp add: pool_inv_def slots_inv_def)

lemma busy_upd:
  assumes "slots_inv p w" and i: "i < length (p_slots p)" and c: "conn_at p i \<noteq> 0"
  shows "busy (upd_conn i (\<lambda>s. s\<lparr>s_in_use := b\<rparr>) p) =
    (if b then insert (conn_at p i) (busy p) else busy p - {conn_at p i})"
proof -
  have d: "conn_at p j = conn_at p i \<Longrightarrow> j < length (p_slots p) \<Longrightarrow> j = i" for j
    using assms by (auto simp: slots_inv_def distinct_conns_def)
  have *: "conn_at (upd_conn i (\<lambda>s. s\<lparr>s_in_use := b\<rparr>) p) j = conn_at p j" for j
    by (cases "j = i") (simp_all add: conn_at_upd [OF i], simp add: conn_at_def)
  have **: "s_in_use (p_slots (upd_conn i (\<lambda>s. s\<lparr>s_in_use := b\<rparr>) p) ! j) =
      (if j = i then b else s_in_use (p_slots p ! j))" for j
    by (simp add: slot_upd_conn [OF i])
  let ?S = "{j. j < length (p_slots p) \<and> s_in_use (p_slots p ! j)}"
  have "{j. j < length (p_slots p) \<and> (if j = i then b else s_in_use (p_slots p ! j))} =
      (if b then insert i ?S else ?S - {i})" using i by auto
  then have "busy (upd_conn i (\<lambda>s. s\<lparr>s_in_use := b\<rparr>) p) = conn_at p ` (if b then insert i ?S else ?S - {i})"
    unfolding busy_image * ** upd_conn_sel by simp
  moreover have "conn_at p ` (?S - {i}) = conn_at p ` ?S - {conn_at p i}" using d by auto
  ultimately show ?thesis by (simp add: busy_image)
qed

lemma pool_inv_flag:
  assumes "pool_inv p w" and "i < length (p_slots p)" and "s_connected (p_slots p ! i)"
  shows "pool_inv (upd_conn i (\<lambda>s. s\<lparr>s_in_use := b\<rparr>) p) w"
proof -
  have "slot_ok (p_slots p ! i)" using assms slot_okD by (auto simp: pool_inv_def)
  then have "slots_inv (upd_conn i (\<lambda>s. s\<lparr>s_in_use := b\<rparr>) p) w"
    using assms by (intro slots_inv_flags) (auto simp: pool_inv_def slot_ok_def)
  moreover have "count_slots s_connected (p_slots (upd_conn i (\<lambda>s. s\<lparr>s_in_use := b\<rparr>) p)) =
      count_slots s_connected (p_slots p)"
    using assms by (simp add: upd_conn_def slot_simps)
  ultimately show ?thesis using assms(1) by (simp add: pool_inv_def)
qed

lemma borrow_turn_inv:
  assumes "fresh_conns E" and inv: "pool_inv p w" and r: "borrow_turn E p w = (res, p', w')"
  shows "pool_inv p' w' \<and> (case res of
      Got c \<Rightarrow> c \<noteq> 0 \<and> c \<in> handles p \<and> c \<notin> busy p \<and> busy p' = insert c (busy p) \<and> w' = w
    | Timed_out \<Rightarrow> p' = p | Again \<Rightarrow> busy p' = busy p)"
proof (cases "first_index free_slot (p_slots p)")
  case None
  show ?thesis
  proof (cases "p_active p < p_size p \<and> \<not> p_reconnecting p")
    case True
    then obtain ret where "pool_try_reconnect E p w = (ret, p', w')" "res = Again"
      using r None by (auto simp: borrow_turn_def split_beta prod_eq_iff)
    with try_reconnect_inv [OF assms(1) inv] show ?thesis by auto
  next
    case False
    with r None have "p' = p" "w' = (Cond_timedwait, E w Cond_timedwait) # w"
      "res = (if rv (E w Cond_timedwait) = ETIMEDOUT then Timed_out else Again)"
      by (auto simp: borrow_turn_def)
    with inv show ?thesis by simp
  qed
next
  case (Some i)
  have i: "i < length (p_slots p)" "free_slot (p_slots p ! i)" using first_index_SomeD [OF Some] by auto
  then have c: "s_connected (p_slots p ! i)" "\<not> s_in_use (p_slots p ! i)" by (simp_all add: free_slot_def)
  have si: "slots_inv p w" using inv by (simp add: pool_inv_def)
  have nz: "conn_at p i \<noteq> 0" using slot_okD [OF si i(1)] c by (simp add: slot_ok_def conn_at_def)
  have nb: "conn_at p i \<notin> busy p"
  proof
    assume "conn_at p i \<in> busy p"
    then obtain j where j: "j < length (p_slots p)" "s_in_use (p_slots p ! j)" "conn_at p i = conn_at p j"
      by (auto simp: busy_def)
    have "i = j" using si i(1) j(1,3) nz unfolding slots_inv_def distinct_conns_def by blast
    with j(2) c(2) show False by simp
  qed
  have h: "conn_at p i \<in> handles p" using i(1) nz by (auto simp: handles_def)
  have "res = Got (conn_at p i)" "p' = upd_conn i (\<lambda>s. s\<lparr>s_in_use := True\<rparr>) p" "w' = w"
    using r Some by (simp_all add: borrow_turn_def conn_at_def)
  with pool_inv_flag [OF inv i(1) c(1)] busy_upd [OF si i(1) nz, of True] nz nb h show ?thesis
    by simp
qed

lemma return_inv:
  assumes inv: "pool_inv p w" and c: "c \<in> busy p"
  shows "pool_inv (db_mysql_pool_return c p) w \<and> busy (db_mysql_pool_return c p) = busy p - {c}"
proof -
  obtain j where j: "j < length (p_slots p)" "s_in_use (p_slots p ! j)" "c = conn_at p j"
    using c by (auto simp: busy_def)
  have si: "slots_inv p w" using inv by (simp add: pool_inv_def)
  have jc: "s_connected (p_slots p ! j)" "c \<noteq> 0"
    using slot_okD [OF si j(1)] j by (auto simp: slot_ok_def conn_at_def)
  obtain i where f: "first_index (\<lambda>s. s_conn s = c) (p_slots p) = Some i"
    using first_index_Some_ex [of "p_slots p ! j" "p_slots p" "\<lambda>s. s_conn s = c"] j by (auto simp: conn_at_def)
  have i: "i < length (p_slots p)" "conn_at p i = c"
    using first_index_SomeD [OF f] by (auto simp: conn_at_def)
  then have "i = j" using si j jc unfolding slots_inv_def distinct_conns_def by metis
  with f jc have "db_mysql_pool_return c p = upd_conn j (\<lambda>s. s\<lparr>s_in_use := False\<rparr>) p"
    by (simp add: db_mysql_pool_return_def)
  with pool_inv_flag [OF inv j(1) jc(1)] busy_upd [OF si j(1), of False] j(3) jc show ?thesis by simp
qed

end
