(* ===== verification/Pool_Use.thy ===== *)
theory Pool_Use
  imports Mysql_Facts
begin

text \<open>
  Using the pool: threads that borrow and return through the interface \<open>resource_pool\<close>, which
  the MySQL pool interprets; executing a statement; the life of a pool; and a server that
  stays away.
\<close>

section \<open>The interface of a resource pool\<close>

text \<open>
  A thread tries to acquire a resource, and releases the one it acquired last. The state of
  the threads is the list of what each holds.
\<close>

datatype 't pool_step = Try 't | Release 't

fun pool_steps :: "('s \<Rightarrow> 'r option \<times> 's) \<Rightarrow> ('r \<Rightarrow> 's \<Rightarrow> 's) \<Rightarrow> 't pool_step list \<Rightarrow>
    's \<times> ('t \<Rightarrow> 'r list) \<Rightarrow> 's \<times> ('t \<Rightarrow> 'r list)" where
  "pool_steps acq rel [] sh = sh"
| "pool_steps acq rel (Try t # ops) (s, held) =
     (let (r, s) = acq s
      in pool_steps acq rel ops (s, case r of None \<Rightarrow> held | Some c \<Rightarrow> held(t := c # held t)))"
| "pool_steps acq rel (Release t # ops) (s, held) =
     (case held t of
        [] \<Rightarrow> pool_steps acq rel ops (s, held)
      | c # cs \<Rightarrow> pool_steps acq rel ops (rel c s, held(t := cs)))"

text \<open>Every resource taken is held by exactly one thread, and only once.\<close>

definition exclusive :: "'r set \<Rightarrow> ('t \<Rightarrow> 'r list) \<Rightarrow> bool" where
  "exclusive T held \<longleftrightarrow> (\<forall>t. distinct (held t)) \<and>
     (\<forall>t u. t \<noteq> u \<longrightarrow> set (held t) \<inter> set (held u) = {}) \<and> T = (\<Union>t. set (held t))"

lemma exclusive_take:
  "exclusive T held \<Longrightarrow> c \<notin> T \<Longrightarrow> exclusive (insert c T) (held(t := c # held t))"
  unfolding exclusive_def by (auto split: if_splits)

lemma exclusive_drop:
  assumes "exclusive T held" and h: "held t = c # cs"
  shows "c \<in> T \<and> exclusive (T - {c}) (held(t := cs))"
proof -
  have d: "distinct (c # cs)" using assms by (metis exclusive_def)
  have o: "c \<notin> set (held u)" if "u \<noteq> t" for u
  proof -
    have "set (held u) \<inter> set (held t) = {}" using assms(1) that by (simp add: exclusive_def)
    then show ?thesis using h by auto
  qed
  have T: "T = (\<Union>u. set (held u))" using assms(1) by (simp add: exclusive_def)
  have "c \<in> T" unfolding T using h by (intro UN_I [of t]) simp_all
  moreover have "T - {c} = (\<Union>u. set ((held(t := cs)) u))"
  proof (intro equalityI subsetI)
    fix x
    assume "x \<in> T - {c}"
    then obtain u where "x \<in> set (held u)" "x \<noteq> c" using T by blast
    then have "x \<in> set ((held(t := cs)) u)" using h by (cases "u = t") auto
    then show "x \<in> (\<Union>u. set ((held(t := cs)) u))" by blast
  next
    fix x
    assume "x \<in> (\<Union>u. set ((held(t := cs)) u))"
    then obtain u where u: "x \<in> set ((held(t := cs)) u)" by blast
    then have "x \<in> set (held u)" "x \<noteq> c" using h d o [of u] by (cases "u = t"; auto)+
    then show "x \<in> T - {c}" using T by blast
  qed
  moreover have "distinct ((held(t := cs)) u)" for u
    using assms(1) d by (cases "u = t") (simp_all add: exclusive_def)
  moreover have "set ((held(t := cs)) u) \<inter> set ((held(t := cs)) v) = {}" if "u \<noteq> v" for u v
  proof -
    have "set (held u) \<inter> set (held v) = {}" using assms(1) that by (simp add: exclusive_def)
    then show ?thesis using h by (cases "u = t"; cases "v = t") auto
  qed
  ultimately show ?thesis unfolding exclusive_def by blast
qed

locale resource_pool =
  fixes try_acquire :: "'s \<Rightarrow> 'r option \<times> 's"
    and release :: "'r \<Rightarrow> 's \<Rightarrow> 's"
    and inv :: "'s \<Rightarrow> bool"
    and taken :: "'s \<Rightarrow> 'r set"
  assumes acquire_inv: "inv s \<Longrightarrow> inv (snd (try_acquire s))"
    and acquire_none: "inv s \<Longrightarrow> fst (try_acquire s) = None \<Longrightarrow> taken (snd (try_acquire s)) = taken s"
    and acquire_some: "inv s \<Longrightarrow> fst (try_acquire s) = Some r \<Longrightarrow>
      r \<notin> taken s \<and> taken (snd (try_acquire s)) = insert r (taken s)"
    and release_inv: "inv s \<Longrightarrow> r \<in> taken s \<Longrightarrow> inv (release r s) \<and> taken (release r s) = taken s - {r}"
begin

lemma steps_exclusive:
  "inv s \<Longrightarrow> exclusive (taken s) held \<Longrightarrow> pool_steps try_acquire release ops (s, held) = (s', held') \<Longrightarrow>
   inv s' \<and> exclusive (taken s') held'"
proof (induction ops arbitrary: s held)
  case (Cons op ops)
  show ?case
  proof (cases op)
    case (Try t)
    obtain r s1 where a: "try_acquire s = (r, s1)" by (cases "try_acquire s")
    have i: "inv s1" using acquire_inv [OF Cons.prems(1)] a by simp
    show ?thesis
    proof (cases r)
      case None
      then have "taken s1 = taken s" using acquire_none [OF Cons.prems(1)] a by simp
      with Cons.IH [OF i] Cons.prems Try a None show ?thesis by simp
    next
      case (Some c)
      with acquire_some [OF Cons.prems(1), of c] a have "c \<notin> taken s" "taken s1 = insert c (taken s)"
        by simp_all
      with exclusive_take [OF Cons.prems(2)] have "exclusive (taken s1) (held(t := c # held t))" by metis
      from Cons.IH [OF i this] Cons.prems(3) Try a Some show ?thesis by (simp del: fun_upd_apply)
    qed
  next
    case (Release t)
    show ?thesis
    proof (cases "held t")
      case Nil
      with Cons Release show ?thesis by simp
    next
      case (Cons c cs)
      from exclusive_drop [OF Cons.prems(2) this]
      have d: "c \<in> taken s" "exclusive (taken s - {c}) (held(t := cs))" by auto
      from release_inv [OF Cons.prems(1) d(1)] d(2)
      have "inv (release c s)" "exclusive (taken (release c s)) (held(t := cs))" by simp_all
      from Cons.IH [OF this] Cons.prems(3) Release Cons show ?thesis by (simp del: fun_upd_apply)
    qed
  qed
qed simp

text \<open>A bracket of acquiring and releasing leaves the pool as it found it.\<close>

lemma bracket:
  "inv s \<Longrightarrow> try_acquire s = (Some r, s') \<Longrightarrow> inv (release r s') \<and> taken (release r s') = taken s"
  using acquire_inv [of s] acquire_some [of s r] release_inv [of s' r] by auto

end

section \<open>The MySQL pool\<close>

text \<open>
  One turn of borrowing tries to acquire a connection. The environment is part of the state's
  invariant: new handles are fresh.
\<close>

definition try_borrow :: "env \<Rightarrow> mysql_pool \<times> world \<Rightarrow> int option \<times> mysql_pool \<times> world" where
  "try_borrow E s =
     (let (r, p, w) = borrow_turn E (fst s) (snd s)
      in (case r of Got c \<Rightarrow> Some c | _ \<Rightarrow> None, p, w))"

definition give_back :: "int \<Rightarrow> mysql_pool \<times> world \<Rightarrow> mysql_pool \<times> world" where
  "give_back c s = (db_mysql_pool_return c (fst s), snd s)"

definition pool_state :: "env \<Rightarrow> mysql_pool \<times> world \<Rightarrow> bool" where
  "pool_state E s \<longleftrightarrow> fresh_conns E \<and> pool_inv (fst s) (snd s)"

lemma try_borrow_cases:
  assumes "pool_state E s"
  shows "pool_state E (snd (try_borrow E s)) \<and>
    (case fst (try_borrow E s) of
       None \<Rightarrow> busy (fst (snd (try_borrow E s))) = busy (fst s)
     | Some c \<Rightarrow> c \<notin> busy (fst s) \<and> busy (fst (snd (try_borrow E s))) = insert c (busy (fst s)))"
proof -
  obtain res p' w' where b: "borrow_turn E (fst s) (snd s) = (res, p', w')"
    by (cases "borrow_turn E (fst s) (snd s)") auto
  with borrow_turn_inv [of E "fst s" "snd s" res p' w'] assms show ?thesis
    by (cases res) (auto simp: try_borrow_def pool_state_def)
qed

interpretation mysql: resource_pool "try_borrow E" give_back "pool_state E" "\<lambda>s. busy (fst s)" for E
proof
  fix s :: "mysql_pool \<times> world" and r
  assume s: "pool_state E s"
  show "pool_state E (snd (try_borrow E s))"
    using try_borrow_cases [OF s] by blast
  show "busy (fst (snd (try_borrow E s))) = busy (fst s)" if "fst (try_borrow E s) = None"
    using try_borrow_cases [OF s] that by simp
  show "r \<notin> busy (fst s) \<and> busy (fst (snd (try_borrow E s))) = insert r (busy (fst s))"
    if "fst (try_borrow E s) = Some r"
    using try_borrow_cases [OF s] that by simp
  show "pool_state E (give_back r s) \<and> busy (fst (give_back r s)) = busy (fst s) - {r}"
    if "r \<in> busy (fst s)"
    using return_inv [of "fst s" "snd s" r] s that by (simp add: pool_state_def give_back_def)
qed

text \<open>The borrowing loop as a whole, with other threads that respect the pool's invariant.\<close>

definition polite :: "others \<Rightarrow> bool" where
  "polite others \<longleftrightarrow> (\<forall>p w. pool_inv p w \<longrightarrow> pool_inv (others w p) w)"

lemma borrow_inv:
  assumes "db_mysql_pool_borrow E others p w = Some r" and "fresh_conns E" and "polite others"
    and "pool_inv p w"
  shows "case r of (c, p', w') \<Rightarrow> pool_inv p' w' \<and> (c \<noteq> 0 \<longrightarrow> c \<in> busy p')"
proof -
  let ?P = "\<lambda>E others p w r. fresh_conns E \<longrightarrow> polite others \<longrightarrow> pool_inv p w \<longrightarrow>
    (case r of (c, p', w') \<Rightarrow> pool_inv p' w' \<and> (c \<noteq> 0 \<longrightarrow> c \<in> busy p'))"
  have "?P E others p w r"
  proof (rule db_mysql_pool_borrow.raw_induct [where P = ?P, OF _ assms(1)], intro impI)
    fix borrow E others p w r
    assume IH: "\<And>E others p w r. borrow E others p w = Some r \<Longrightarrow> ?P E others p w r"
      and e: "(case borrow_turn E p w of (r, p, w) \<Rightarrow> (case r of Got c \<Rightarrow> Some (c, p, w)
          | Timed_out \<Rightarrow> Some (0, p, w) | Again \<Rightarrow> borrow E others (others w p) w)) = Some r"
      and a: "fresh_conns E" "polite others" "pool_inv p w"
    obtain res p1 w1 where t: "borrow_turn E p w = (res, p1, w1)" by (cases "borrow_turn E p w") auto
    note T = borrow_turn_inv [OF a(1,3) t]
    show "case r of (c, p', w') \<Rightarrow> pool_inv p' w' \<and> (c \<noteq> 0 \<longrightarrow> c \<in> busy p')"
    proof (cases res)
      case Again
      have "pool_inv (others w1 p1) w1" using T a(2) by (auto simp: polite_def)
      moreover have "borrow E others (others w1 p1) w1 = Some r" using e t Again by simp
      ultimately show ?thesis using IH a by blast
    qed (use T e t in auto)
  qed
  with assms show ?thesis by blast
qed

section \<open>Executing on a free connection\<close>

lemma upd_conn_undo:
  "i < length (p_slots p) \<Longrightarrow> g (f (p_slots p ! i)) = p_slots p ! i \<Longrightarrow> upd_conn i g (upd_conn i f p) = p"
  by (simp add: upd_conn_def)

lemma with_conn_free:
  assumes inv: "pool_inv p w" and free: "\<exists>s\<in>set (p_slots p). free_slot s"
  shows "\<exists>c. c \<in> handles p \<and> c \<notin> busy p \<and>
    (\<forall>dflt body. with_conn E others dflt body p w = Some (fst (body c w), p, snd (body c w)))"
proof -
  obtain i where f: "first_index free_slot (p_slots p) = Some i"
    using first_index_Some_ex free by metis
  then have i: "i < length (p_slots p)" "free_slot (p_slots p ! i)" using first_index_SomeD by blast+
  let ?c = "conn_at p i" and ?p = "upd_conn i (\<lambda>s. s\<lparr>s_in_use := True\<rparr>) p"
  have t: "borrow_turn E p w = (Got ?c, ?p, w)" by (simp add: borrow_turn_def f conn_at_def)
  have si: "slots_inv p w" using inv by (simp add: pool_inv_def)
  have nz: "?c \<noteq> 0" using slot_okD [OF si i(1)] i(2) by (simp add: free_slot_def slot_ok_def conn_at_def)
  have nb: "?c \<notin> busy p"
  proof
    assume "?c \<in> busy p"
    then obtain j where "j < length (p_slots p)" "s_in_use (p_slots p ! j)" "?c = conn_at p j"
      by (auto simp: busy_def)
    then have "i = j" using si i(1) nz unfolding slots_inv_def distinct_conns_def by metis
    with \<open>s_in_use (p_slots p ! j)\<close> i(2) show False by (simp add: free_slot_def)
  qed
  have b: "db_mysql_pool_borrow E others p w = Some (?c, ?p, w)"
    by (simp add: db_mysql_pool_borrow.simps [of E others p w] t)
  have "first_index (\<lambda>s. s_conn s = ?c) (p_slots ?p) = Some i"
  proof -
    have slot: "s_conn (p_slots ?p ! j) = conn_at p j" for j
      by (cases "j = i") (simp_all add: slot_upd_conn [OF i(1)] conn_at_def)
    then obtain k where k: "first_index (\<lambda>s. s_conn s = ?c) (p_slots ?p) = Some k"
      using first_index_Some_ex [of "p_slots ?p ! i" "p_slots ?p" "\<lambda>s. s_conn s = ?c"] i(1) by auto
    then have "k < length (p_slots p)" "conn_at p k = ?c" using first_index_SomeD [OF k] slot by auto
    then have "k = i" using si i(1) nz unfolding slots_inv_def distinct_conns_def by metis
    with k show ?thesis by simp
  qed
  then have "db_mysql_pool_return ?c ?p = upd_conn i (\<lambda>s. s\<lparr>s_in_use := False\<rparr>) ?p"
    using nz by (simp add: db_mysql_pool_return_def)
  also have "\<dots> = p" by (rule upd_conn_undo [OF i(1)]) (use i(2) in \<open>simp add: free_slot_def\<close>)
  finally have r: "db_mysql_pool_return ?c ?p = p" .
  have "with_conn E others dflt body p w = Some (fst (body ?c w), p, snd (body ?c w))" for dflt :: 'a and body
    using b nz r by (simp add: with_conn_def split_beta)
  moreover have "?c \<in> handles p" using i(1) nz by (auto simp: handles_def)
  ultimately show ?thesis using nb by blast
qed

section \<open>The life of a pool\<close>

lemma close_slots_conns [simp]: "open_conns (close_slots E ss w) = open_conns w - {s_conn s |s. s \<in> set ss \<and> s_conn s \<noteq> 0}"
proof (induction ss arbitrary: w)
  case (Cons s ss)
  then show ?case by (cases "s_conn s = 0") auto
qed simp

lemma handles_set: "handles p = {s_conn s |s. s \<in> set (p_slots p) \<and> s_conn s \<noteq> 0}"
  by (auto simp: handles_def conn_at_def set_conv_nth)

lemma destroy_closes: "pool_inv p w \<Longrightarrow> open_conns (db_mysql_pool_destroy E p w) = {}"
  by (auto simp: db_mysql_pool_destroy_def pool_inv_def slots_inv_def handles_set)

lemma create_pool:
  assumes "db_mysql_pool_create E config w = (Some p, w')" and "open_conns w = {}"
  shows "slots_inv p w' \<and> (\<forall>s\<in>set (p_slots p). \<not> s_connected s \<and> \<not> s_in_use s) \<and> p_backoff p = 1 \<and>
    \<not> p_reconnecting p \<and> busy p = {} \<and>
    p_size p = (if mc_pool_size config \<le> 0 then MYSQL_POOL_DEFAULT_SIZE else min MYSQL_POOL_MAX_SIZE (mc_pool_size config))"
  using assms
  by (auto simp: db_mysql_pool_create_def Let_def slots_inv_def distinct_conns_def conn_at_def handles_def
      slot_ok_def busy_def zero_slot_def MYSQL_POOL_MAX_SIZE_def MYSQL_POOL_DEFAULT_SIZE_def DB_RECONNECT_BASE_SEC_def
      split: if_splits)

section \<open>A server that stays away\<close>

definition refuses :: "env \<Rightarrow> bool" where
  "refuses E \<longleftrightarrow> (\<forall>w h. rv (E w (Mysql_real_connect h)) = 0)"

definition dead :: "mysql_pool \<Rightarrow> bool" where
  "dead p \<longleftrightarrow> (\<forall>s\<in>set (p_slots p). \<not> s_connected s) \<and> p_active p < p_size p \<and> \<not> p_reconnecting p \<and>
     p_size p = int (length (p_slots p)) \<and> p_slots p \<noteq> []"

lemma unconnected_upd:
  "\<forall>s\<in>set (p_slots p). \<not> s_connected s \<Longrightarrow> \<not> s_connected (f (p_slots p ! i)) \<Longrightarrow>
   \<forall>s\<in>set (p_slots (upd_conn i f p)). \<not> s_connected s"
  by (auto simp: upd_conn_def dest!: set_update_subset_insert [THEN subsetD])

lemma slot_connect_refused:
  assumes "refuses E" and u: "\<forall>s\<in>set (p_slots p). \<not> s_connected s" and i: "i < length (p_slots p)"
    and r: "slot_connect E i p w = (ret, p', w')"
  shows "ret = - 1 \<and> (\<forall>s\<in>set (p_slots p'). \<not> s_connected s) \<and> length (p_slots p') = length (p_slots p) \<and>
    p_size p' = p_size p \<and> p_reconnecting p' = p_reconnecting p"
proof -
  define w1 where "w1 = (if s_conn (p_slots p ! i) \<noteq> 0 then snd (ext E (Mysql_close (s_conn (p_slots p ! i))) w) else w)"
  note r = r [unfolded slot_connect_def Let_def, folded w1_def]
  have n: "\<not> s_connected (p_slots p ! i)" using u i by simp
  show ?thesis
  proof (cases "rv (E w1 Mysql_init) = 0")
    case True
    with r have "ret = - 1" "p' = upd_conn i (\<lambda>s. s\<lparr>s_conn := 0\<rparr>) p" by auto
    with unconnected_upd [OF u, of "\<lambda>s. s\<lparr>s_conn := 0\<rparr>" i] n show ?thesis by simp
  next
    case False
    with r assms(1) i have "ret = - 1" "p' = upd_conn i (\<lambda>s. s\<lparr>s_conn := 0, s_connected := False\<rparr>) p"
      by (auto simp: refuses_def)
    with unconnected_upd [OF u, of "\<lambda>s. s\<lparr>s_conn := 0, s_connected := False\<rparr>" i] show ?thesis by simp
  qed
qed

lemma connect_slots_refused:
  assumes "refuses E"
  shows "\<forall>s\<in>set (p_slots p). \<not> s_connected s \<Longrightarrow> \<forall>i\<in>set is. i < length (p_slots p) \<Longrightarrow>
    connect_slots E every is ok p w = (ok', p', w') \<Longrightarrow>
    ok' = ok \<and> (\<forall>s\<in>set (p_slots p'). \<not> s_connected s) \<and> length (p_slots p') = length (p_slots p) \<and>
    p_size p' = p_size p \<and> p_reconnecting p' = p_reconnecting p"
proof (induction "is" arbitrary: ok p w)
  case (Cons i js)
  obtain ret p1 w1 where c: "slot_connect E i p w = (ret, p1, w1)" by (cases "slot_connect E i p w") auto
  have i: "i < length (p_slots p)" using Cons.prems by simp
  note S = slot_connect_refused [OF assms Cons.prems(1) i c]
  have "connect_slots E every js ok p1 w1 = (ok', p', w')"
    using Cons.prems i S c by simp
  with Cons.IH [of p1 ok w1] S Cons.prems(2) show ?case by auto
qed simp

lemma borrow_turn_dead:
  assumes "refuses E" and d: "dead p" and r: "borrow_turn E p w = (res, p', w')"
  shows "res = Again \<and> dead p'"
proof -
  have "first_index free_slot (p_slots p) = None"
    using d by (auto simp: first_index_None_iff free_slot_def dead_def)
  then obtain ret where t: "pool_try_reconnect E p w = (ret, p', w')" and res: "res = Again"
    using r d by (auto simp: borrow_turn_def dead_def split_beta prod_eq_iff)
  let ?w = "(Time, E w Time) # w"
  show ?thesis
  proof (cases "rv (E w Time) - p_last_attempt p < p_backoff p")
    case True
    with t d res show ?thesis by (simp add: pool_try_reconnect_def dead_def Let_def)
  next
    case False
    let ?p = "p\<lparr>p_reconnecting := True, p_last_attempt := rv (E w Time)\<rparr>"
    obtain ok p1 w1 where c: "connect_slots E False [0..<nat (p_size p)] 0 ?p ?w = (ok, p1, w1)"
      by (cases "connect_slots E False [0..<nat (p_size p)] 0 ?p ?w") auto
    have S: "ok = 0" "\<forall>s\<in>set (p_slots p1). \<not> s_connected s" "length (p_slots p1) = length (p_slots p)"
      "p_size p1 = p_size p"
      using connect_slots_refused [OF assms(1) _ _ c] d by (auto simp: dead_def)
    with t c False d res show ?thesis
      by (auto simp: pool_try_reconnect_def dead_def Let_def split: if_splits)
  qed
qed

lemma borrow_dead:
  assumes "db_mysql_pool_borrow E others p w = Some r"
  shows "\<not> (refuses E \<and> (\<forall>p w. dead p \<longrightarrow> dead (others w p)) \<and> dead p)"
proof -
  let ?P = "\<lambda>E others p (w :: world) (r :: int \<times> mysql_pool \<times> world).
    \<not> (refuses E \<and> (\<forall>p w. dead p \<longrightarrow> dead (others w p)) \<and> dead p)"
  show "?P E others p w r"
  proof (rule db_mysql_pool_borrow.raw_induct [where P = ?P, OF _ assms], intro notI)
    fix borrow E others p w r
    assume IH: "\<And>E others p w r. borrow E others p w = Some r \<Longrightarrow> ?P E others p w r"
      and e: "(case borrow_turn E p w of (r, p, w) \<Rightarrow> (case r of Got c \<Rightarrow> Some (c, p, w)
          | Timed_out \<Rightarrow> Some (0, p, w) | Again \<Rightarrow> borrow E others (others w p) w)) = Some r"
      and a: "refuses E \<and> (\<forall>p w. dead p \<longrightarrow> dead (others w p)) \<and> dead p"
    obtain res p1 w1 where t: "borrow_turn E p w = (res, p1, w1)" by (cases "borrow_turn E p w") auto
    with borrow_turn_dead [of E p w] a have d: "res = Again" "dead p1" by auto
    with e t have "borrow E others (others w1 p1) w1 = Some r" by simp
    with IH a d(2) show False by blast
  qed
qed

section \<open>Concrete servers\<close>

text \<open>A server that accepts every connection and statement, and one that refuses connections.\<close>

fun next_conn :: "world \<Rightarrow> int" where
  "next_conn [] = 1"
| "next_conn ((c, r) # w) = max (next_conn w) (rv r + 1)"

definition mysql_os :: "bool \<Rightarrow> env" where
  "mysql_os up w c = null_ret\<lparr>rv :=
     (case c of Mysql_init \<Rightarrow> next_conn w
      | Mysql_real_connect h \<Rightarrow> if up then 1 else 0
      | Calloc n \<Rightarrow> 1 | Time \<Rightarrow> 1000 | Mysql_affected_rows h \<Rightarrow> 1 | Mysql_store_result h \<Rightarrow> 5
      | _ \<Rightarrow> 0)\<rparr>"

lemma next_conn_pos: "0 < next_conn w"
  by (induction w rule: next_conn.induct) auto

lemma open_conns_below: "c \<in> open_conns w \<Longrightarrow> c < next_conn w"
proof (induction w rule: next_conn.induct)
  case (2 c r w)
  then show ?case by (cases c) (auto split: if_splits)
qed simp

lemma mysql_os_fresh: "fresh_conns (mysql_os up)"
  using open_conns_below by (fastforce simp: fresh_conns_def mysql_os_def null_ret_def)

definition sample_mysql :: mysql_config where
  "sample_mysql = \<lparr>mc_host = ''localhost'', mc_port = 3306, mc_user = ''cc'', mc_password = ''pw'',
     mc_database = ''call_center'', mc_pool_size = 2, mc_connect_timeout = 5, mc_read_timeout = 10\<rparr>"

definition made_pool :: mysql_pool where
  "made_pool = \<lparr>p_slots = [zero_slot, zero_slot], p_size = 2, p_config = sample_mysql,
     p_reconnecting = False, p_last_attempt = 0, p_backoff = 1, p_active = 0\<rparr>"

abbreviation made_world :: "bool \<Rightarrow> world" where
  "made_world up \<equiv> [(Calloc 2, mysql_os up [] (Calloc 2)), (Calloc 1, mysql_os up [] (Calloc 1))]"

lemma mysql_os_calloc [simp]: "mysql_os up w (Calloc n) = null_ret\<lparr>rv := 1\<rparr>"
  by (simp add: mysql_os_def)

lemma made: "db_mysql_pool_create (mysql_os up) sample_mysql [] = (Some made_pool, made_world up)"
  by (simp add: db_mysql_pool_create_def sample_mysql_def made_pool_def null_ret_def
      MYSQL_POOL_MAX_SIZE_def DB_RECONNECT_BASE_SEC_def numeral_2_eq_2)

definition ready_pool :: mysql_pool where
  "ready_pool = made_pool\<lparr>p_slots := [\<lparr>s_conn = 2, s_in_use = False, s_connected = True\<rparr>,
     \<lparr>s_conn = 3, s_in_use = False, s_connected = True\<rparr>], p_active := 2\<rparr>"

lemma made_connected: "\<exists>w. db_mysql_pool_connect_all (mysql_os True) made_pool (made_world True) = (0, ready_pool, w)"
  by (simp add: db_mysql_pool_connect_all_def made_pool_def slot_connect_def upd_conn_def zero_slot_def
      ready_pool_def mysql_os_def null_ret_def Let_def numeral_2_eq_2 upt_rec)

section \<open>Properties\<close>

lemma started_pool:
  assumes "db_mysql_pool_create E config w = (Some p, w1)" and "open_conns w = {}" and "fresh_conns E"
    and "db_mysql_pool_connect_all E p w1 = (ret, p2, w2)"
  shows "pool_inv p2 w2 \<and> busy p2 = {}"
proof -
  note C = create_pool [OF assms(1,2)]
  with connect_all_inv [OF assms(3) _ _ _ _ _ assms(4)] show ?thesis
    by (auto simp: DB_RECONNECT_MAX_SEC_def)
qed



text \<open>C26: With a connection to spare, executing a statement sends exactly that statement, up to its
  NUL, on one connection that was open and nobody's, returns the affected rows as a C \<open>int\<close> or -1 when the
  query fails, and leaves the pool as it was: the connection has been given back.\<close>
theorem execute_exact:
  assumes "pool_inv p w" and "\<exists>s\<in>set (p_slots p). free_slot s"
  shows "\<exists>c. c \<in> open_conns w - busy p \<and>
    db_mysql_execute E others sql p w =
      (let q = E w (Mysql_real_query c (cstr sql)); w1 = (Mysql_real_query c (cstr sql), q) # w;
           n = E w1 (Mysql_affected_rows c)
       in if rv q = 0 then Some (to_int32 (rv n), p, (Mysql_affected_rows c, n) # w1) else Some (- 1, p, w1))"
proof -
  from with_conn_free [OF assms] obtain c where c: "c \<in> handles p" "c \<notin> busy p"
    and r: "\<And>dflt body. with_conn E others dflt body p w = Some (fst (body c w), p, snd (body c w :: int \<times> world))"
    by blast
  have "open_conns w = handles p" using assms(1) by (simp add: pool_inv_def slots_inv_def)
  with c r [of "- 1" "run_statement E (cstr sql)"] show ?thesis
    by (intro exI [of _ c]) (simp add: db_mysql_execute_def run_statement_def Let_def)
qed

lemma ready_pool_inv: "db_mysql_pool_connect_all (mysql_os True) made_pool (made_world True) = (0, ready_pool, w) \<Longrightarrow>
   pool_inv ready_pool w \<and> (\<exists>s\<in>set (p_slots ready_pool). free_slot s)"
  using started_pool [OF made _ mysql_os_fresh, of True 0 ready_pool w]
  by (simp add: ready_pool_def free_slot_def)

lemma execute_exact_witness:
  "\<exists>w w'. pool_inv ready_pool w \<and>
     db_mysql_execute (mysql_os True) (\<lambda>w p. p) ''SELECT 1'' ready_pool w = Some (1, ready_pool, w')"
proof -
  obtain w where c: "db_mysql_pool_connect_all (mysql_os True) made_pool (made_world True) = (0, ready_pool, w)"
    using made_connected by blast
  from execute_exact [OF conjunct1 [OF ready_pool_inv [OF c]] conjunct2 [OF ready_pool_inv [OF c]],
      of "mysql_os True" "\<lambda>w p. p" "''SELECT 1''"] ready_pool_inv [OF c]
  show ?thesis by (auto simp: Let_def mysql_os_def null_ret_def)
qed

text \<open>C27: Reconnecting is paced: within the current delay
  nothing is attempted; after it every slot without connection is tried, those that have one are left
  alone, \<open>active_count\<close> becomes the number of connected slots, and the delay doubles up to 30
  seconds or falls back to 1 when all slots are connected: after \<open>n\<close> incomplete rounds in a row it is \<open>min 30 (2^n)\<close>.\<close>
theorem reconnect_paced:
  assumes "fresh_conns E" and "pool_inv p w" and "pool_try_reconnect E p w = (ret, p', w')"
  shows "(rv (E w Time) - p_last_attempt p < p_backoff p \<longrightarrow> p' = p \<and> ret = - 1) \<and>
    (p_backoff p \<le> rv (E w Time) - p_last_attempt p \<longrightarrow>
       p_last_attempt p' = rv (E w Time) \<and>
       p_active p' = int (count_slots s_connected (p_slots p')) \<and> (ret = 0 \<longleftrightarrow> 0 < p_active p') \<and>
       (\<forall>j<length (p_slots p). s_connected (p_slots p ! j) \<longrightarrow> p_slots p' ! j = p_slots p ! j) \<and>
       p_backoff p' = (if p_active p' = p_size p then 1 else min 30 (2 * p_backoff p)) \<and>
       (\<forall>n. p_backoff p = min 30 (2 ^ n) \<longrightarrow> p_active p' < p_size p \<longrightarrow> p_backoff p' = min 30 (2 ^ Suc n)))"
  using try_reconnect_inv [OF assms]
  by (auto simp: pool_inv_def next_backoff_def DB_RECONNECT_BASE_SEC_def DB_RECONNECT_MAX_SEC_def)

lemma reconnect_paced_witness:
  "\<exists>w p' w'. pool_try_reconnect (mysql_os True) ready_pool w = (0, p', w') \<and>
     p_active p' = int (count_slots s_connected (p_slots p'))"
proof -
  obtain w where c: "db_mysql_pool_connect_all (mysql_os True) made_pool (made_world True) = (0, ready_pool, w)"
    using made_connected by blast
  obtain ret p' w' where r: "pool_try_reconnect (mysql_os True) ready_pool w = (ret, p', w')"
    by (metis prod.exhaust)
  then have "ret = 0"
    by (auto simp: pool_try_reconnect_def ready_pool_def made_pool_def mysql_os_def null_ret_def Let_def
        numeral_2_eq_2 upt_rec)
  with reconnect_paced [OF mysql_os_fresh conjunct1 [OF ready_pool_inv [OF c]] r] r show ?thesis
    by (auto simp: ready_pool_def made_pool_def mysql_os_def null_ret_def)
qed

text \<open>C28: While no slot is connected and the server refuses connections, \<open>db_mysql_pool_borrow\<close>
  never returns: it goes from one reconnection attempt, or the refusal to make one, to the
  next without ever looking at its deadline.\<close>
theorem borrow_never_returns:
  assumes "refuses E" and "dead p" and "\<forall>p w. dead p \<longrightarrow> dead (others w p)"
  shows "db_mysql_pool_borrow E others p w = None"
proof (cases "db_mysql_pool_borrow E others p w")
  case (Some r)
  with borrow_dead assms show ?thesis by blast
qed

lemma borrow_never_returns_witness:
  "db_mysql_pool_borrow (mysql_os False) (\<lambda>w p. p) made_pool (made_world False) = None"
  by (rule borrow_never_returns) (simp_all add: refuses_def dead_def made_pool_def zero_slot_def mysql_os_def null_ret_def)

end
