(* ===== verification/Db_Seed.thy ===== *)
theory Db_Seed
  imports Db_Sql Pool_Use
begin

text \<open>
  Seeding of demonstration data in \<open>src/db_sync.c\<close>: employees named from two tables in rotation,
  and agents in three shifts, inserted in batches of at most 200 rows. The names are the UTF-8
  bytes of the source's strings.
\<close>

section \<open>Tables\<close>

definition surnames :: "bytes list" where
  "surnames =
    [[CHR 0xE5, CHR 0xBC, CHR 0xA0], [CHR 0xE6, CHR 0x9D, CHR 0x8E], [CHR 0xE7, CHR 0x8E, CHR 0x8B],
     [CHR 0xE5, CHR 0x88, CHR 0x98], [CHR 0xE9, CHR 0x99, CHR 0x88], [CHR 0xE6, CHR 0x9D, CHR 0xA8],
     [CHR 0xE8, CHR 0xB5, CHR 0xB5], [CHR 0xE9, CHR 0xBB, CHR 0x84], [CHR 0xE5, CHR 0x91, CHR 0xA8],
     [CHR 0xE5, CHR 0x90, CHR 0xB4], [CHR 0xE5, CHR 0xBE, CHR 0x90], [CHR 0xE5, CHR 0xAD, CHR 0x99],
     [CHR 0xE9, CHR 0xA9, CHR 0xAC], [CHR 0xE8, CHR 0x83, CHR 0xA1], [CHR 0xE6, CHR 0x9C, CHR 0xB1],
     [CHR 0xE9, CHR 0x83, CHR 0xAD], [CHR 0xE4, CHR 0xBD, CHR 0x95], [CHR 0xE6, CHR 0x9E, CHR 0x97],
     [CHR 0xE7, CHR 0xBD, CHR 0x97], [CHR 0xE9, CHR 0xAB, CHR 0x98]]"

definition given_names :: "bytes list" where
  "given_names =
    [[CHR 0xE6, CHR 0x98, CHR 0x8E], [CHR 0xE5, CHR 0x8D, CHR 0x8E], [CHR 0xE4, CHR 0xBC, CHR 0x9F],
     [CHR 0xE8, CHR 0x8A, CHR 0xB3], [CHR 0xE5, CHR 0xBC, CHR 0xBA], [CHR 0xE4, CHR 0xB8, CHR 0xBD],
     [CHR 0xE5, CHR 0x8B, CHR 0x87], [CHR 0xE6, CHR 0x95, CHR 0x8F], [CHR 0xE9, CHR 0x9D, CHR 0x99],
     [CHR 0xE7, CHR 0xA3, CHR 0x8A], [CHR 0xE6, CHR 0xB4, CHR 0x8B], [CHR 0xE5, CHR 0xA9, CHR 0xB7],
     [CHR 0xE5, CHR 0x86, CHR 0x9B], [CHR 0xE9, CHR 0x9B, CHR 0xAA], [CHR 0xE5, CHR 0xB3, CHR 0xB0],
     [CHR 0xE7, CHR 0x8E, CHR 0xB2], [CHR 0xE6, CHR 0xB6, CHR 0x9B], [CHR 0xE5, CHR 0xA8, CHR 0x9C],
     [CHR 0xE5, CHR 0x88, CHR 0x9A], [CHR 0xE5, CHR 0xA8, CHR 0x9F], [CHR 0xE6, CHR 0x96, CHR 0x87],
     [CHR 0xE8, CHR 0xB6, CHR 0x85], [CHR 0xE8, CHR 0x89, CHR 0xB3], [CHR 0xE6, CHR 0x9D, CHR 0xB0],
     [CHR 0xE7, CHR 0xA7, CHR 0x80], [CHR 0xE8, CHR 0xBE, CHR 0x89], [CHR 0xE9, CHR 0x91, CHR 0xAB],
     [CHR 0xE5, CHR 0x85, CHR 0xB0], [CHR 0xE5, CHR 0xAE, CHR 0x81], [CHR 0xE9, CHR 0xBE, CHR 0x99],
     [CHR 0xE5, CHR 0x87, CHR 0xA4], [CHR 0xE5, CHR 0xAE, CHR 0x87], [CHR 0xE9, CHR 0x9C, CHR 0x9E],
     [CHR 0xE5, CHR 0x8D, CHR 0x9A], [CHR 0xE6, CHR 0x80, CHR 0xA1], [CHR 0xE9, CHR 0xA3, CHR 0x9E],
     [CHR 0xE6, CHR 0x99, CHR 0xA8], [CHR 0xE8, CHR 0x90, CHR 0x8D], [CHR 0xE6, CHR 0xB5, CHR 0xA9],
     [CHR 0xE6, CHR 0x85, CHR 0xA7], [CHR 0xE5, CHR 0xBF, CHR 0x97], [CHR 0xE7, CHR 0x87, CHR 0x95],
     [CHR 0xE9, CHR 0xB9, CHR 0x8F], [CHR 0xE5, CHR 0x87, CHR 0xAF], [CHR 0xE7, CHR 0x90, CHR 0xB4],
     [CHR 0xE6, CHR 0x97, CHR 0xAD], [CHR 0xE7, CHR 0x90, CHR 0xB3], [CHR 0xE7, CHR 0x9D, CHR 0xBF],
     [CHR 0xE4, CHR 0xBD, CHR 0xB3], [CHR 0xE6, CHR 0x81, CHR 0x92]]"

definition SURNAME_COUNT :: nat where "SURNAME_COUNT = 20"
definition GIVEN_COUNT :: nat where "GIVEN_COUNT = 50"
definition SEED_BATCH_ROWS :: int where "SEED_BATCH_ROWS = 200"
definition SEED_SQL_BUF_SIZE :: int where "SEED_SQL_BUF_SIZE = 131072"

record dept_seed =
  ds_dept_key :: bytes
  ds_dept_id :: int
  ds_range_start :: bytes
  ds_range_end :: bytes
  ds_external_access :: bool

definition dept_seeds :: "dept_seed list" where
  "dept_seeds =
     [\<lparr>ds_dept_key = ''hr'', ds_dept_id = 1, ds_range_start = ''1001'', ds_range_end = ''1050'', ds_external_access = False\<rparr>,
      \<lparr>ds_dept_key = ''finance'', ds_dept_id = 2, ds_range_start = ''1101'', ds_range_end = ''1150'', ds_external_access = False\<rparr>,
      \<lparr>ds_dept_key = ''admin'', ds_dept_id = 3, ds_range_start = ''1201'', ds_range_end = ''1250'', ds_external_access = False\<rparr>,
      \<lparr>ds_dept_key = ''management'', ds_dept_id = 4, ds_range_start = ''1301'', ds_range_end = ''1330'', ds_external_access = False\<rparr>,
      \<lparr>ds_dept_key = ''sales'', ds_dept_id = 5, ds_range_start = ''2001'', ds_range_end = ''2400'', ds_external_access = True\<rparr>,
      \<lparr>ds_dept_key = ''service'', ds_dept_id = 6, ds_range_start = ''2501'', ds_range_end = ''2800'', ds_external_access = True\<rparr>,
      \<lparr>ds_dept_key = ''market'', ds_dept_id = 7, ds_range_start = ''2901'', ds_range_end = ''2980'', ds_external_access = True\<rparr>,
      \<lparr>ds_dept_key = ''rnd'', ds_dept_id = 8, ds_range_start = ''3001'', ds_range_end = ''3200'', ds_external_access = False\<rparr>,
      \<lparr>ds_dept_key = ''support'', ds_dept_id = 9, ds_range_start = ''9001'', ds_range_end = ''9050'', ds_external_access = True\<rparr>]"

section \<open>Batches\<close>

text \<open>\<open>%04d\<close> of a number that is not negative.\<close>

definition show_int4 :: "int \<Rightarrow> bytes" where
  "show_int4 i = (let s = show_int i in replicate (4 - length s) (CHR ''0'') @ s)"

definition seed_name :: "nat \<Rightarrow> bytes" where
  "seed_name idx = surnames ! (idx mod SURNAME_COUNT) @ given_names ! (idx mod GIVEN_COUNT)"

text \<open>
  The loops over the extensions of a batch. Each row takes the next name; the loop ends after
  200 rows, or early when the buffer is nearly full.
\<close>

fun extension_rows :: "int \<Rightarrow> int list \<Rightarrow> int \<Rightarrow> nat \<Rightarrow> out_buf \<Rightarrow> int \<times> nat \<times> out_buf" where
  "extension_rows dept_id [] count idx b = (count, idx, b)"
| "extension_rows dept_id (e # es) count idx b =
     (if SEED_BATCH_ROWS \<le> count then (count, idx, b)
      else
        let b = (if 0 < count then buf_append SEED_SQL_BUF_SIZE b '','' else b);
            b = buf_append SEED_SQL_BUF_SIZE b
              (''('' @ sql_quote (show_int4 e) @ '','' @ sql_quote (seed_name idx) @ '','' @ show_int dept_id @ '')'')
        in if SEED_SQL_BUF_SIZE - 256 \<le> ob_offset b then (count, Suc idx, b)
           else extension_rows dept_id es (count + 1) (Suc idx) b)"

definition shift_letter :: "int \<Rightarrow> bytes" where
  "shift_letter count = [char_of (65 + nat (count mod 3))]"

fun agent_rows :: "int \<Rightarrow> int list \<Rightarrow> int \<Rightarrow> out_buf \<Rightarrow> int \<times> out_buf" where
  "agent_rows dept_id [] count b = (count, b)"
| "agent_rows dept_id (e # es) count b =
     (if SEED_BATCH_ROWS \<le> count then (count, b)
      else
        let b' = (if 0 < count then buf_append SEED_SQL_BUF_SIZE b '','' else b);
            b' = buf_append SEED_SQL_BUF_SIZE b'
              (''('' @ sql_quote (show_int4 e) @ '','' @ show_int dept_id @ '',1,'' @ sql_quote ''idle'' @ '',0,'' @
               sql_quote (shift_letter count) @ '')'')
        in if SEED_SQL_BUF_SIZE - 256 \<le> ob_offset b' then (count, b')
           else agent_rows dept_id es (count + 1) b')"

definition seed_insert_batch ::
  "env \<Rightarrow> others \<Rightarrow> bytes \<Rightarrow> bytes \<Rightarrow> int \<Rightarrow> int \<Rightarrow> int \<Rightarrow> nat \<Rightarrow> mysql_pool \<Rightarrow> world \<Rightarrow>
   ((int \<times> nat) \<times> mysql_pool \<times> world) option" where
  "seed_insert_batch E others table columns start_ext end_ext dept_id idx p w =
     (let b = buf_append SEED_SQL_BUF_SIZE empty_buf (''INSERT INTO '' @ table @ '' ('' @ columns @ '') VALUES '');
          (count, idx, b) = extension_rows dept_id [start_ext..end_ext] 0 idx b
      in if count = 0 then Some ((0, idx), p, w)
         else (case db_mysql_execute_long E others (ob_text b) (ob_offset b) p w of
                 None \<Rightarrow> None
               | Some (r, p, w) \<Rightarrow> Some ((r, idx), p, w)))"

definition agent_insert_head :: bytes where
  "agent_insert_head = ''INSERT INTO agents (extension, department_id, is_online, status, '' @
     ''concurrent_calls, shift) VALUES ''"

definition agent_insert_tail :: bytes where
  "agent_insert_tail = '' ON DUPLICATE KEY UPDATE is_online=1, status='' @ sql_quote ''idle'' @ '', '' @
     ''concurrent_calls=0, last_active=NOW()''"

definition seed_insert_agents_batch ::
  "env \<Rightarrow> others \<Rightarrow> int \<Rightarrow> int \<Rightarrow> int \<Rightarrow> mysql_pool \<Rightarrow> world \<Rightarrow> (int \<times> mysql_pool \<times> world) option" where
  "seed_insert_agents_batch E others start_ext end_ext dept_id p w =
     (let (count, b) = agent_rows dept_id [start_ext..end_ext] 0 (buf_append SEED_SQL_BUF_SIZE empty_buf agent_insert_head)
      in if count = 0 then Some (0, p, w)
         else let b = buf_append SEED_SQL_BUF_SIZE b agent_insert_tail
              in db_mysql_execute_long E others (ob_text b) (ob_offset b) p w)"

section \<open>The whole range\<close>

text \<open>
  The batches of a range, as the loops \<open>batch_start += SEED_BATCH_ROWS\<close> cut it.
\<close>

function batches :: "int \<Rightarrow> int \<Rightarrow> (int \<times> int) list" where
  "batches s e = (if e < s then [] else (s, min e (s + SEED_BATCH_ROWS - 1)) # batches (s + SEED_BATCH_ROWS) e)"
  by pat_completeness auto
termination
  by (relation "measure (\<lambda>(s, e). nat (e - s + 1))") (auto simp: SEED_BATCH_ROWS_def)

declare batches.simps [simp del]

fun seed_extensions :: "env \<Rightarrow> others \<Rightarrow> int \<Rightarrow> (int \<times> int) list \<Rightarrow> nat \<Rightarrow> int \<Rightarrow> mysql_pool \<Rightarrow> world \<Rightarrow>
    ((nat \<times> int) \<times> mysql_pool \<times> world) option" where
  "seed_extensions E others dept_id [] idx tot p w = Some ((idx, tot), p, w)"
| "seed_extensions E others dept_id ((s, e) # bs) idx tot p w =
     (case seed_insert_batch E others ''extensions'' ''extension,employee_name,department_id'' s e dept_id idx p w of
        None \<Rightarrow> None
      | Some ((r, idx), p, w) \<Rightarrow> seed_extensions E others dept_id bs idx (if 0 \<le> r then tot + r else tot) p w)"

fun seed_agents :: "env \<Rightarrow> others \<Rightarrow> int \<Rightarrow> (int \<times> int) list \<Rightarrow> mysql_pool \<Rightarrow> world \<Rightarrow>
    (mysql_pool \<times> world) option" where
  "seed_agents E others dept_id [] p w = Some (p, w)"
| "seed_agents E others dept_id ((s, e) # bs) p w =
     (case seed_insert_agents_batch E others s e dept_id p w of
        None \<Rightarrow> None
      | Some (r, p, w) \<Rightarrow> seed_agents E others dept_id bs p w)"

fun seed_depts :: "env \<Rightarrow> others \<Rightarrow> dept_seed list \<Rightarrow> nat \<Rightarrow> int \<Rightarrow> mysql_pool \<Rightarrow> world \<Rightarrow>
    (int \<times> mysql_pool \<times> world) option" where
  "seed_depts E others [] idx tot p w = Some (tot, p, w)"
| "seed_depts E others (d # ds) idx tot p w =
     (let bs = batches (atoi (ds_range_start d)) (atoi (ds_range_end d)) in
      case seed_extensions E others (ds_dept_id d) bs idx tot p w of
        None \<Rightarrow> None
      | Some ((idx, tot), p, w) \<Rightarrow>
          (case (if ds_external_access d then seed_agents E others (ds_dept_id d) bs p w else Some (p, w)) of
             None \<Rightarrow> None
           | Some (p, w) \<Rightarrow> seed_depts E others ds idx tot p w))"

text \<open>
  The number of agents seeded is only logged and is left out; the result counts extensions.
  The caller has made sure that the database is enabled and the pool exists.
\<close>

definition db_sync_seed_demo_data :: "env \<Rightarrow> others \<Rightarrow> mysql_pool \<Rightarrow> world \<Rightarrow> (int \<times> mysql_pool \<times> world) option" where
  "db_sync_seed_demo_data E others p w =
     (case db_mysql_load_all_agents_for_cache E others p w of
        None \<Rightarrow> None
      | Some (existing, p, w) \<Rightarrow>
          if 100 < existing then Some (existing, p, w)
          else seed_depts E others dept_seeds 0 0 p w)"


section \<open>What a batch inserts\<close>

text \<open>The rows of the extensions \<open>es\<close>, named from the index on, as they should stand in the statement.\<close>

fun rows_text :: "int \<Rightarrow> bool \<Rightarrow> int list \<Rightarrow> nat \<Rightarrow> bytes" where
  "rows_text dept_id first [] idx = []"
| "rows_text dept_id first (e # es) idx =
     (if first then [] else '','') @
     ''('' @ sql_quote (show_int4 e) @ '','' @ sql_quote (seed_name idx) @ '','' @ show_int dept_id @ '')'' @
     rows_text dept_id False es (Suc idx)"

lemma table_facts:
  "length surnames = 20" "length given_names = 50"
  "\<forall>n\<in>set surnames. length n = 3 \<and> nul \<notin> set n" "\<forall>n\<in>set given_names. length n = 3 \<and> nul \<notin> set n"
  by (simp_all add: surnames_def given_names_def nul_def)

lemma length_seed_name: "length (seed_name idx) = 6"
proof -
  have "surnames ! (idx mod 20) \<in> set surnames" "given_names ! (idx mod 50) \<in> set given_names"
    by (simp_all add: table_facts(1,2))
  with table_facts(3,4) show ?thesis by (simp add: seed_name_def SURNAME_COUNT_def GIVEN_COUNT_def)
qed

lemma seed_name_period: "seed_name (idx + 100) = seed_name idx"
proof -
  have "(idx + 100) mod 20 = idx mod 20" "(idx + 100) mod 50 = idx mod 50"
    using mod_mult_self1 [of idx 5 20] mod_mult_self1 [of idx 2 50] by simp_all
  then show ?thesis by (simp add: seed_name_def SURNAME_COUNT_def GIVEN_COUNT_def)
qed

lemma length_show_int4: "int_range i \<Longrightarrow> length (show_int4 i) \<le> 11"
  using length_show_int [of i] by (simp add: show_int4_def Let_def)

definition row_text :: "int \<Rightarrow> int \<Rightarrow> nat \<Rightarrow> bytes" where
  "row_text dept_id e idx =
     ''('' @ sql_quote (show_int4 e) @ '','' @ sql_quote (seed_name idx) @ '','' @ show_int dept_id @ '')''"

lemma row_length: "int_range e \<Longrightarrow> int_range dept_id \<Longrightarrow> length (row_text dept_id e idx) \<le> 40"
  using length_show_int4 [of e] length_show_int [of dept_id]
  by (simp add: row_text_def sql_quote_def length_seed_name)


lemma rows_text_Cons: "rows_text dept_id first (e # es) idx =
    (if first then [] else '','') @ row_text dept_id e idx @ rows_text dept_id False es (Suc idx)"
  by (simp add: row_text_def)

lemma extension_rows_Cons: "extension_rows dept_id (e # es) count idx b =
     (if SEED_BATCH_ROWS \<le> count then (count, idx, b)
      else
        let b = buf_append SEED_SQL_BUF_SIZE (if 0 < count then buf_append SEED_SQL_BUF_SIZE b '','' else b)
                  (row_text dept_id e idx)
        in if SEED_SQL_BUF_SIZE - 256 \<le> ob_offset b then (count, Suc idx, b)
           else extension_rows dept_id es (count + 1) (Suc idx) b)"
  by (simp add: row_text_def Let_def)

lemma extension_rows_exact:
  assumes d: "int_range dept_id"
  shows "\<forall>e\<in>set es. int_range e \<Longrightarrow> 0 \<le> count \<Longrightarrow> count + int (length es) \<le> SEED_BATCH_ROWS \<Longrightarrow>
    buf_holds SEED_SQL_BUF_SIZE t b \<Longrightarrow> \<not> ob_overrun b \<Longrightarrow>
    int (length t) + 41 * int (length es) < SEED_SQL_BUF_SIZE - 256 \<Longrightarrow>
    \<exists>b'. extension_rows dept_id es count idx b = (count + int (length es), idx + length es, b') \<and>
      buf_holds SEED_SQL_BUF_SIZE (t @ rows_text dept_id (count = 0) es idx) b' \<and> \<not> ob_overrun b'"
proof (induction es arbitrary: count idx b t)
  case (Cons e es)
  let ?n = SEED_SQL_BUF_SIZE
  have n: "0 < ?n" by (simp add: SEED_SQL_BUF_SIZE_def)
  let ?t1 = "t @ (if count = 0 then [] else '','')"
  let ?b1 = "if 0 < count then buf_append ?n b '','' else b"
  have b1: "buf_holds ?n ?t1 ?b1" "\<not> ob_overrun ?b1"
    using buf_holds_append [OF Cons.prems(4) n, of "'',''"] Cons.prems by (auto simp: SEED_SQL_BUF_SIZE_def)
  let ?r = "row_text dept_id e idx"
  let ?b2 = "buf_append ?n ?b1 ?r"
  have r: "length ?r \<le> 40" using row_length d Cons.prems(1) by simp
  have b2: "buf_holds ?n (?t1 @ ?r) ?b2" "\<not> ob_overrun ?b2"
    using buf_holds_append [OF b1(1) n, of ?r] b1(2) Cons.prems(6) by auto
  have off: "\<not> ?n - 256 \<le> ob_offset ?b2"
    using b2(1) Cons.prems(6) r by (auto simp: buf_holds_def)
  have "\<exists>b'. extension_rows dept_id es (count + 1) (Suc idx) ?b2 = (count + 1 + int (length es), Suc idx + length es, b') \<and>
      buf_holds ?n ((?t1 @ ?r) @ rows_text dept_id (count + 1 = 0) es (Suc idx)) b' \<and> \<not> ob_overrun b'"
    using Cons.prems b2 r by (intro Cons.IH) auto
  moreover have "\<not> SEED_BATCH_ROWS \<le> count" "(count + 1 = 0) = False" using Cons.prems(2,3) by auto
  ultimately show ?case
    using off by (simp add: extension_rows_Cons rows_text_Cons Let_def del: extension_rows.simps rows_text.simps)
      (auto simp: algebra_simps)
qed simp

lemma batches_step: "batches s e = (if e < s then [] else (s, min e (s + SEED_BATCH_ROWS - 1)) # batches (s + SEED_BATCH_ROWS) e)"
  by (rule batches.simps)

lemma batches_cover:
  "concat (map (\<lambda>(a, b). [a..b]) (batches s e)) = [s..e] \<and>
   (\<forall>(a, b)\<in>set (batches s e). s \<le> a \<and> a \<le> b \<and> b \<le> e \<and> b - a < SEED_BATCH_ROWS)"
proof (induction s e rule: batches.induct)
  case (1 s e)
  show ?case
  proof (cases "e < s")
    case True
    then show ?thesis by (simp add: batches_step [of s e])
  next
    case False
    let ?m = "min e (s + SEED_BATCH_ROWS - 1)"
    have IH: "concat (map (\<lambda>(a, b). [a..b]) (batches (s + SEED_BATCH_ROWS) e)) = [s + SEED_BATCH_ROWS..e]"
      "\<forall>(a, b)\<in>set (batches (s + SEED_BATCH_ROWS) e). s + SEED_BATCH_ROWS \<le> a \<and> a \<le> b \<and> b \<le> e \<and> b - a < SEED_BATCH_ROWS"
      using 1 [OF False] by blast+
    have "[s..e] = [s..?m] @ [s + SEED_BATCH_ROWS..e]"
    proof (cases "e \<le> s + SEED_BATCH_ROWS - 1")
      case True
      then show ?thesis by simp
    next
      case e: False
      then have "[s..e] = [s..s + SEED_BATCH_ROWS - 1] @ [s + SEED_BATCH_ROWS - 1 + 1..e]"
        by (intro upto_split2) (simp_all add: SEED_BATCH_ROWS_def)
      with e show ?thesis by (simp add: min_def)
    qed
    with IH False show ?thesis
      by (auto simp: batches_step [of s e] SEED_BATCH_ROWS_def)
  qed
qed

definition insert_statement :: "bytes \<Rightarrow> bytes \<Rightarrow> int \<Rightarrow> int \<Rightarrow> int \<Rightarrow> nat \<Rightarrow> bytes" where
  "insert_statement table columns dept_id s e idx =
     ''INSERT INTO '' @ table @ '' ('' @ columns @ '') VALUES '' @ rows_text dept_id True [s..e] idx"

lemma seed_batch_exact:
  fixes idx :: nat
  assumes "length table \<le> 100" and "length columns \<le> 100" and "s \<le> e" and "e - s < SEED_BATCH_ROWS"
    and "int_range s" and "int_range e" and "int_range dept_id"
  defines "sql \<equiv> insert_statement table columns dept_id s e idx"
  shows "seed_insert_batch E others table columns s e dept_id idx p w =
    (case db_mysql_execute_long E others sql (int (length sql)) p w of
       None \<Rightarrow> None
     | Some (r, p, w) \<Rightarrow> Some ((r, idx + nat (e - s + 1)), p, w))"
proof -
  let ?n = SEED_SQL_BUF_SIZE
  let ?h = "''INSERT INTO '' @ table @ '' ('' @ columns @ '') VALUES ''"
  have n: "0 < ?n" by (simp add: SEED_SQL_BUF_SIZE_def)
  have e0: "buf_holds ?n [] empty_buf" by (simp add: buf_holds_def empty_buf_def)
  have h: "buf_holds ?n ?h (buf_append ?n empty_buf ?h)" "\<not> ob_overrun (buf_append ?n empty_buf ?h)"
    using buf_holds_append [OF e0 n, of ?h] n by (simp_all add: empty_buf_def)
  have len: "length [s..e] = nat (e - s + 1)" by simp
  have "\<exists>b'. extension_rows dept_id [s..e] 0 idx (buf_append ?n empty_buf ?h) =
        (0 + int (length [s..e]), idx + length [s..e], b') \<and>
      buf_holds ?n (?h @ rows_text dept_id (0 = (0::int)) [s..e] idx) b' \<and> \<not> ob_overrun b'"
    using h assms(1-7)
    by (intro extension_rows_exact) (auto simp: int_range_def SEED_BATCH_ROWS_def SEED_SQL_BUF_SIZE_def)
  then obtain b' where r: "extension_rows dept_id [s..e] 0 idx (buf_append ?n empty_buf ?h) =
      (e - s + 1, idx + nat (e - s + 1), b')" and b': "buf_holds ?n sql b'" "\<not> ob_overrun b'"
    using assms(3) unfolding len sql_def insert_statement_def by auto
  have rl: "length (rows_text dept_id f es i) \<le> 41 * length es" if "\<forall>k\<in>set es. int_range k" for f es i
    using that
  proof (induction es arbitrary: f i)
    case (Cons k es)
    have "length (row_text dept_id k i) \<le> 40" using row_length assms(7) Cons.prems by simp
    moreover have "length (rows_text dept_id False es (Suc i)) \<le> 41 * length es"
      using Cons.prems by (intro Cons.IH) simp
    ultimately show ?case by (simp add: rows_text_Cons del: rows_text.simps)
  qed simp
  have "length (rows_text dept_id True [s..e] idx) \<le> 41 * length [s..e]"
    by (rule rl) (use assms(5,6) in \<open>auto simp: int_range_def\<close>)
  then have "int (length sql) < ?n - 1"
    using assms(1-4) by (simp add: sql_def insert_statement_def SEED_BATCH_ROWS_def SEED_SQL_BUF_SIZE_def)
  with b' have "ob_text b' = sql" "ob_offset b' = int (length sql)"
    by (simp_all add: buf_holds_def)
  with r assms(3) show ?thesis
    by (simp add: seed_insert_batch_def Let_def)
qed

section \<open>Properties\<close>

text \<open>C34: Seeding a department's range inserts every extension of the range exactly once and in
  order: the batches are consecutive, hold at most 200 rows each, and the statement of a batch
  is complete, it names every extension of the batch with the next employee name, and the 128
  KiB buffer is never overrun nor filled so far that rows are left out.\<close>
theorem seed_batches_exact:
  assumes "int_range s" and "int_range e" and "int_range dept_id" and "length table \<le> 100" and "length columns \<le> 100"
  shows "concat (map (\<lambda>(a, b). [a..b]) (batches s e)) = [s..e] \<and>
    (\<forall>(a, b)\<in>set (batches s e). b - a < SEED_BATCH_ROWS \<and>
       (\<forall>idx. let sql = insert_statement table columns dept_id a b idx in
          seed_insert_batch E others table columns a b dept_id idx p w =
            (case db_mysql_execute_long E others sql (int (length sql)) p w of
               None \<Rightarrow> None
             | Some (r, p, w) \<Rightarrow> Some ((r, idx + nat (b - a + 1)), p, w))))"
proof -
  have "seed_insert_batch E others table columns a b dept_id idx p w =
      (let sql = insert_statement table columns dept_id a b idx in
       case db_mysql_execute_long E others sql (int (length sql)) p w of
         None \<Rightarrow> None | Some (r, p, w) \<Rightarrow> Some ((r, idx + nat (b - a + 1)), p, w))"
    if "(a, b) \<in> set (batches s e)" for a b idx
  proof -
    have "s \<le> a" "a \<le> b" "b \<le> e" "b - a < SEED_BATCH_ROWS" using batches_cover [of s e] that by auto
    moreover from this have "int_range a" "int_range b" using assms(1,2) by (auto simp: int_range_def)
    ultimately show ?thesis
      using seed_batch_exact [OF assms(4,5), of a b dept_id E others idx p w] assms(3) by (simp add: Let_def)
  qed
  with batches_cover [of s e] show ?thesis by (auto simp: Let_def)
qed

lemma seed_batches_exact_witness:
  "concat (map (\<lambda>(a, b). [a..b]) (batches 1001 1003)) = [1001, 1002, 1003]"
proof -
  have "int_range 1001" "int_range 1003" "int_range 1" by (simp_all add: int_range_def)
  from conjunct1 [OF seed_batches_exact [OF this, of "''extensions''" "''extension''"]]
  show ?thesis by simp
qed

text \<open>The employee names repeat after a hundred rows, because both tables are indexed by the same
  running number: of the thousand combinations only a hundred occur.\<close>
theorem seed_names_repeat: "card (range seed_name) \<le> 100 \<and> seed_name (idx + 100) = seed_name idx"
proof -
  have "seed_name i = seed_name (i mod 100)" for i
  proof (induction i rule: less_induct)
    case (less i)
    show ?case
    proof (cases "i < 100")
      case False
      then have "seed_name i = seed_name (i - 100)" using seed_name_period [of "i - 100"] by simp
      also have "\<dots> = seed_name ((i - 100) mod 100)" using False by (intro less) simp
      finally show ?thesis using False by (simp add: le_mod_geq)
    qed simp
  qed
  then have "range seed_name \<subseteq> seed_name ` {..<100}"
    by (metis image_subsetI imageI lessThan_iff mod_less_divisor zero_less_numeral)
  then have "card (range seed_name) \<le> card (seed_name ` {..<100})" by (intro card_mono) simp_all
  also have "\<dots> \<le> card {..<100::nat}" by (rule card_image_le) simp
  finally show ?thesis by (simp add: seed_name_period)
qed

end
