(* ===== verification/Db_Schema.thy ===== *)
theory Db_Schema
  imports Db_Sql Pool_Use
begin

text \<open>
  \<open>db_mysql_init_schema\<close> of \<open>src/db_mysql.c\<close>: reading a schema file line by line, collecting
  statements and executing each at the line that ends in a semicolon. The file is its content,
  or \<open>None\<close> when it cannot be opened.
\<close>

section \<open>The code\<close>

definition fgets :: "nat \<Rightarrow> bytes \<Rightarrow> bytes \<times> bytes" where
  "fgets n s =
     (let k = (case memchr lf s of None \<Rightarrow> length s | Some i \<Rightarrow> Suc i);
          m = min k (n - 1)
      in (take m s, drop m s))"

definition tab :: char where
  "tab = CHR 0x09"

definition STATEMENT_SIZE :: nat where
  "STATEMENT_SIZE = DB_MAX_SQL_LEN * 4"

text \<open>Lines that are skipped: comments and blank lines.\<close>

definition skipped :: "bytes \<Rightarrow> bool" where
  "skipped line =
     (let t = dropWhile (\<lambda>c. c = CHR '' '' \<or> c = tab) (cstr line)
      in take 2 t = ''--'' \<or> t = [] \<or> hd t = lf \<or> hd t = cr)"

text \<open>The line without its line end.\<close>

definition chomp :: "bytes \<Rightarrow> bytes" where
  "chomp line =
     (let l = cstr line in
      if l \<noteq> [] \<and> last l = lf then
        let l = butlast l in (if l \<noteq> [] \<and> last l = cr then butlast l else l)
      else l)"

text \<open>One line: the statement collected so far, and the text to execute, if it is complete.\<close>

definition schema_line :: "bytes \<Rightarrow> bytes \<Rightarrow> bytes \<times> bytes option" where
  "schema_line stmt line =
     (if skipped line then (stmt, None)
      else
        let stmt = (if length stmt + length (cstr line) < STATEMENT_SIZE - 2 then stmt @ cstr line else stmt);
            l = chomp line
        in if l \<noteq> [] \<and> last l = CHR '';'' then
             let s = dropWhile (\<lambda>c. c = CHR '' '' \<or> c = tab \<or> c = lf \<or> c = cr) stmt
             in ([], if s \<noteq> [] then Some s else None)
           else (stmt, None))"

lemma fgets_shorter: "s \<noteq> [] \<Longrightarrow> 1 < n \<Longrightarrow> length (snd (fgets n s)) < length s"
  by (auto simp: fgets_def Let_def split: option.splits)

function schema_loop :: "env \<Rightarrow> others \<Rightarrow> bytes \<Rightarrow> bytes \<Rightarrow> int \<Rightarrow> mysql_pool \<Rightarrow> world \<Rightarrow>
    (int \<times> mysql_pool \<times> world) option" where
  "schema_loop E others content stmt count p w =
     (if content = [] then Some (count, p, w)
      else
        case fgets DB_MAX_SQL_LEN content of (line, content') \<Rightarrow>
        (case schema_line stmt line of
           (stmt, None) \<Rightarrow> schema_loop E others content' stmt count p w
         | (stmt, Some sql) \<Rightarrow>
             (case db_mysql_execute E others sql p w of
                None \<Rightarrow> None
              | Some (r, p, w) \<Rightarrow>
                  schema_loop E others content' stmt (if 0 \<le> r then count + 1 else count) p w)))"
  by pat_completeness auto
termination
  by (relation "measure (\<lambda>(E, others, content, stmt, count, p, w). length content)")
    (use fgets_shorter [of _ DB_MAX_SQL_LEN] in \<open>auto simp: DB_MAX_SQL_LEN_def dest: sym\<close>,
     (metis fgets_shorter numeral_eq_one_iff one_less_numeral_iff semiring_norm(76) snd_conv)+)

definition db_mysql_init_schema :: "env \<Rightarrow> others \<Rightarrow> bytes option \<Rightarrow> mysql_pool \<Rightarrow> world \<Rightarrow>
    (int \<times> mysql_pool \<times> world) option" where
  "db_mysql_init_schema E others file p w =
     (case file of None \<Rightarrow> Some (- 2, p, w) | Some content \<Rightarrow> schema_loop E others content [] 0 p w)"

section \<open>Reading a well-formed file\<close>

text \<open>Executing a list of statements in order, counting those that succeed.\<close>

fun execute_all :: "env \<Rightarrow> others \<Rightarrow> bytes list \<Rightarrow> int \<Rightarrow> mysql_pool \<Rightarrow> world \<Rightarrow> (int \<times> mysql_pool \<times> world) option" where
  "execute_all E others [] count p w = Some (count, p, w)"
| "execute_all E others (sql # sqls) count p w =
     (case db_mysql_execute E others sql p w of
        None \<Rightarrow> None
      | Some (r, p, w) \<Rightarrow> execute_all E others sqls (if 0 \<le> r then count + 1 else count) p w)"

text \<open>
  A schema file as written by hand: comment and blank lines, and statements over one or more
  lines, the last of which is the first to end in a semicolon. Lines end in LF or CR LF; they are
  shorter than the line buffer, statements than the statement buffer.
\<close>

datatype schema_item = Noise bytes | Statement "bytes list" bytes

definition text_line :: "bytes \<Rightarrow> bool" where
  "text_line l \<longleftrightarrow> lf \<notin> set l \<and> nul \<notin> set l \<and> length l < 4000"

definition code_line :: "bytes \<Rightarrow> bool" where
  "code_line l \<longleftrightarrow> text_line l \<and> \<not> skipped (l @ [lf])"

definition no_cr :: "bytes \<Rightarrow> bytes" where
  "no_cr l = (if l \<noteq> [] \<and> last l = cr then butlast l else l)"

definition ends_statement :: "bytes \<Rightarrow> bool" where
  "ends_statement l \<longleftrightarrow> no_cr l \<noteq> [] \<and> last (no_cr l) = CHR '';''"

definition joined :: "bytes list \<Rightarrow> bytes" where
  "joined ls = concat (map (\<lambda>l. l @ [lf]) ls)"

fun item_ok :: "schema_item \<Rightarrow> bool" where
  "item_ok (Noise l) = (text_line l \<and> skipped (l @ [lf]))"
| "item_ok (Statement ls l) =
     (list_all (\<lambda>k. code_line k \<and> \<not> ends_statement k) ls \<and> code_line l \<and> ends_statement l \<and>
      length (joined (ls @ [l])) < STATEMENT_SIZE - 2)"

fun item_lines :: "schema_item \<Rightarrow> bytes list" where
  "item_lines (Noise l) = [l]"
| "item_lines (Statement ls l) = ls @ [l]"

definition blanks :: "char \<Rightarrow> bool" where
  "blanks = (\<lambda>c. c = CHR '' '' \<or> c = tab \<or> c = lf \<or> c = cr)"

fun item_sql :: "schema_item \<Rightarrow> bytes list" where
  "item_sql (Noise l) = []"
| "item_sql (Statement ls l) = [dropWhile blanks (joined (ls @ [l]))]"

definition schema_file :: "schema_item list \<Rightarrow> bytes" where
  "schema_file items = joined (concat (map item_lines items))"

definition statements :: "schema_item list \<Rightarrow> bytes list" where
  "statements items = concat (map item_sql items)"

lemma joined_simps [simp]: "joined [] = []" "joined (l # ls) = l @ lf # joined ls"
  "joined (ls @ ks) = joined ls @ joined ks"
  by (simp_all add: joined_def)

lemma fgets_line: "text_line l \<Longrightarrow> fgets DB_MAX_SQL_LEN (l @ lf # rest) = (l @ [lf], rest)"
  by (simp add: fgets_def text_line_def DB_MAX_SQL_LEN_def)

declare schema_loop.simps [simp del]

lemma loop_Nil [simp]: "schema_loop E others [] stmt count p w = Some (count, p, w)"
  by (simp add: schema_loop.simps)

lemma loop_line:
  "text_line l \<Longrightarrow> schema_loop E others (l @ lf # rest) stmt count p w =
     (case schema_line stmt (l @ [lf]) of
        (stmt, None) \<Rightarrow> schema_loop E others rest stmt count p w
      | (stmt, Some sql) \<Rightarrow>
          (case db_mysql_execute E others sql p w of
             None \<Rightarrow> None
           | Some (r, p, w) \<Rightarrow> schema_loop E others rest stmt (if 0 \<le> r then count + 1 else count) p w))"
  by (subst schema_loop.simps) (simp add: fgets_line)

lemma cstr_line: "text_line l \<Longrightarrow> cstr (l @ [lf]) = l @ [lf]"
  by (simp add: cstr_id text_line_def)

lemma skipped_line: "skipped line \<Longrightarrow> schema_line stmt line = (stmt, None)"
  by (simp add: schema_line_def)

lemma chomp_line: "code_line l \<Longrightarrow> chomp (l @ [lf]) = no_cr l"
  by (simp add: chomp_def cstr_line code_line_def no_cr_def)

lemma code_line_step:
  assumes "code_line l" and "length stmt + length l + 1 < STATEMENT_SIZE - 2"
  shows "schema_line stmt (l @ [lf]) =
    (if ends_statement l then
       ([], let s = dropWhile blanks (stmt @ l @ [lf]) in if s \<noteq> [] then Some s else None)
     else (stmt @ l @ [lf], None))"
  using assms chomp_line [OF assms(1)]
  by (simp add: schema_line_def code_line_def cstr_line blanks_def ends_statement_def Let_def)

lemma loop_body:
  "list_all (\<lambda>k. code_line k \<and> \<not> ends_statement k) ls \<Longrightarrow>
   length stmt + length (joined ls) < STATEMENT_SIZE - 2 \<Longrightarrow>
   schema_loop E others (joined ls @ rest) stmt count p w = schema_loop E others rest (stmt @ joined ls) count p w"
proof (induction ls arbitrary: stmt)
  case (Cons l ls)
  have l: "code_line l" "\<not> ends_statement l" "text_line l" using Cons.prems(1) by (simp_all add: code_line_def)
  have "schema_line stmt (l @ [lf]) = (stmt @ l @ [lf], None)"
    using code_line_step [OF l(1), of stmt] l(2) Cons.prems(2) by simp
  then have "schema_loop E others (joined (l # ls) @ rest) stmt count p w =
      schema_loop E others (joined ls @ rest) (stmt @ l @ [lf]) count p w"
    by (simp add: loop_line [OF l(3)])
  also have "\<dots> = schema_loop E others rest ((stmt @ l @ [lf]) @ joined ls) count p w"
    using Cons.prems by (intro Cons.IH) simp_all
  finally show ?case by simp
qed simp

lemma not_blank_dropped:
  assumes "ends_statement l"
  shows "dropWhile blanks (t @ l @ [lf]) \<noteq> []"
proof -
  have "CHR '';'' \<in> set (no_cr l)" using assms last_in_set by (metis ends_statement_def)
  then have "CHR '';'' \<in> set l" by (auto simp: no_cr_def dest: in_set_butlastD split: if_splits)
  moreover have "\<not> blanks (CHR '';'')" by (simp add: blanks_def tab_def lf_def cr_def)
  ultimately show ?thesis by (auto simp: dropWhile_eq_Nil_conv)
qed

lemma loop_statement:
  assumes ok: "item_ok (Statement ls l)"
  shows "schema_loop E others (joined (ls @ [l]) @ rest) [] count p w =
    (case db_mysql_execute E others (dropWhile blanks (joined (ls @ [l]))) p w of
       None \<Rightarrow> None
     | Some (r, p, w) \<Rightarrow> schema_loop E others rest [] (if 0 \<le> r then count + 1 else count) p w)"
proof -
  have l: "code_line l" "ends_statement l" "text_line l" using ok by (auto simp: code_line_def)
  have "schema_loop E others (joined ls @ (l @ lf # rest)) [] count p w =
      schema_loop E others (l @ lf # rest) ([] @ joined ls) count p w"
    using ok by (intro loop_body) (simp_all)
  moreover have "schema_line (joined ls) (l @ [lf]) = ([], Some (dropWhile blanks (joined (ls @ [l]))))"
    using code_line_step [OF l(1), of "joined ls"] not_blank_dropped [OF l(2), of "joined ls"] l(2) ok
    by simp
  ultimately show ?thesis by (simp add: loop_line [OF l(3)])
qed

lemma loop_items:
  "list_all item_ok items \<Longrightarrow>
   schema_loop E others (joined (concat (map item_lines items))) [] count p w =
   execute_all E others (concat (map item_sql items)) count p w"
proof (induction items arbitrary: count p w)
  case (Cons i items)
  show ?case
  proof (cases i)
    case (Noise l)
    with Cons show ?thesis by (simp add: loop_line skipped_line)
  next
    case (Statement ls l)
    with Cons.prems have "item_ok (Statement ls l)" by simp
    note loop_statement [OF this, of E others "joined (concat (map item_lines items))" count p w]
    with Cons.IH Cons.prems Statement show ?thesis by (auto split: option.splits)
  qed
qed simp

section \<open>Properties\<close>

text \<open>A schema file of comments, blank lines and statements is executed statement by
  statement, each exactly as its lines stand in the file (leading blanks dropped, line ends of both kinds kept), in order; the result is
  the number of statements that succeeded.\<close>
theorem schema_executes:
  assumes "list_all item_ok items"
  shows "db_mysql_init_schema E others (Some (schema_file items)) p w =
    execute_all E others (statements items) 0 p w"
  using loop_items [OF assms] by (simp add: db_mysql_init_schema_def schema_file_def statements_def)

definition sample_items :: "schema_item list" where
  "sample_items = [Noise ''-- tables'', Noise [], Statement [''CREATE TABLE a (''] ''  id INT);'',
     Statement [] (''USE b;'' @ [cr])]"

lemma schema_executes_witness:
  "\<forall>E others p w. db_mysql_init_schema E others (Some (schema_file sample_items)) p w =
   execute_all E others [joined [''CREATE TABLE a ('', ''  id INT);''], joined [''USE b;'' @ [cr]]] 0 p w"
proof -
  have "list_all item_ok sample_items"
    by (simp add: sample_items_def text_line_def code_line_def ends_statement_def no_cr_def skipped_def STATEMENT_SIZE_def
        DB_MAX_SQL_LEN_def lf_def cr_def nul_def tab_def Let_def)
  from schema_executes [OF this] show ?thesis
    by (simp add: statements_def sample_items_def blanks_def tab_def lf_def cr_def)
qed

end
