(* ===== verification/Db_Redis.thy ===== *)
theory Db_Redis
  imports Db_Config
begin

text \<open>
  The Redis cache client of \<open>src/db_redis.c\<close> and \<open>include/db_redis.h\<close>: the connection with its
  reconnection limit, one operation per Redis command, and the key scheme of the call centre.
  hiredis is the environment: a command is a list of argument strings, its reply a value of
  \<open>redis_reply\<close> or NULL. Every operation rejects a NULL context before anything else; its
  callers in \<open>db_sync.c\<close> test the pointer, so a context is always present here.
\<close>

section \<open>Data\<close>

record redis_config =
  rc_host :: bytes
  rc_port :: uint16
  rc_password :: bytes
  rc_db_index :: int
  rc_pool_size :: int
  rc_connect_timeout :: int

record redis_context =
  r_ctx :: int
  r_config :: redis_config
  r_connected :: bool
  r_retry_count :: int
  r_last_attempt :: int


text \<open>The keys: a prefix and a name, in a buffer of 256 bytes.\<close>

definition redis_key :: "bytes \<Rightarrow> bytes \<Rightarrow> bytes" where
  "redis_key pre name = snprintf DB_MAX_REDIS_KEY_LEN (pre @ cstr name)"

definition REDIS_KEY_AGENT_STATUS :: bytes where "REDIS_KEY_AGENT_STATUS = ''agent:status:''"
definition REDIS_KEY_AGENT_ONLINE :: bytes where "REDIS_KEY_AGENT_ONLINE = ''agent:online:''"
definition REDIS_KEY_DEPT_CONFIG :: bytes where "REDIS_KEY_DEPT_CONFIG = ''dept:config:''"
definition REDIS_KEY_DEPT_IDLE :: bytes where "REDIS_KEY_DEPT_IDLE = ''dept:idle:''"
definition REDIS_KEY_CALL_SESSION :: bytes where "REDIS_KEY_CALL_SESSION = ''call:session:''"
definition REDIS_KEY_SYSTEM_STATUS :: bytes where "REDIS_KEY_SYSTEM_STATUS = ''system:status''"

section \<open>Calls of hiredis\<close>

definition redisCommand :: "env \<Rightarrow> bytes list \<Rightarrow> redis_context \<Rightarrow> world \<Rightarrow> extret \<times> world" where
  "redisCommand E args c w = ext E (Redis_command (r_ctx c) args) w"

definition redisFree :: "env \<Rightarrow> int \<Rightarrow> world \<Rightarrow> world" where
  "redisFree E p w = snd (ext E (Redis_free p) w)"

text \<open>\<open>if (reply) freeReplyObject(reply)\<close>, and the test for a missing or an error reply.\<close>

definition free_reply :: "env \<Rightarrow> extret \<Rightarrow> world \<Rightarrow> world" where
  "free_reply E r w = (if reply r = None then w else snd (ext E (Free_reply (rv r)) w))"

definition reply_failed :: "extret \<Rightarrow> bool" where
  "reply_failed r = (case reply r of None \<Rightarrow> True | Some (REDIS_REPLY_ERROR e) \<Rightarrow> True | _ \<Rightarrow> False)"

section \<open>Life cycle\<close>

definition db_redis_create :: "env \<Rightarrow> redis_config \<Rightarrow> world \<Rightarrow> redis_context option \<times> world" where
  "db_redis_create E config w =
     (let (p, w) = ext E (Calloc 1) w in
      if rv p = 0 then (None, w)
      else (Some \<lparr>r_ctx = 0, r_config = config, r_connected = False, r_retry_count = 0,
              r_last_attempt = 0\<rparr>, w))"

definition db_redis_connect :: "env \<Rightarrow> redis_context \<Rightarrow> world \<Rightarrow> int \<times> redis_context \<times> world" where
  "db_redis_connect E c w =
     (let (p, w) = ext E Redis_connect w;
          c = c\<lparr>r_ctx := rv p\<rparr> in
      if rv p = 0 \<or> err p \<noteq> EOTHER 0 then
        let w = (if rv p \<noteq> 0 then redisFree E (rv p) w else w)
        in (- 1, c\<lparr>r_ctx := 0, r_connected := False\<rparr>, w)
      else
        let (auth_ok, w) =
              (if cstr (rc_password (r_config c)) \<noteq> [] then
                 let (r, w) = redisCommand E [''AUTH'', cstr (rc_password (r_config c))] c w
                 in (\<not> reply_failed r, free_reply E r w)
               else (True, w)) in
        if \<not> auth_ok then (- 1, c\<lparr>r_ctx := 0, r_connected := False\<rparr>, redisFree E (r_ctx c) w)
        else
          let w = (if 0 < rc_db_index (r_config c) then
                     let (r, w) = redisCommand E [''SELECT'', show_int (rc_db_index (r_config c))] c w
                     in free_reply E r w
                   else w)
          in (0, c\<lparr>r_connected := True, r_retry_count := 0\<rparr>, w))"

definition db_redis_disconnect :: "env \<Rightarrow> redis_context \<Rightarrow> world \<Rightarrow> redis_context \<times> world" where
  "db_redis_disconnect E c w =
     (c\<lparr>r_ctx := 0, r_connected := False\<rparr>, if r_ctx c \<noteq> 0 then redisFree E (r_ctx c) w else w)"

definition db_redis_destroy :: "env \<Rightarrow> redis_context \<Rightarrow> world \<Rightarrow> world" where
  "db_redis_destroy E c w = snd (db_redis_disconnect E c w)"

definition db_redis_reconnect :: "env \<Rightarrow> redis_context \<Rightarrow> world \<Rightarrow> int \<times> redis_context \<times> world" where
  "db_redis_reconnect E c w =
     (let (t, w) = ext E Time w; now = rv t in
      if now - r_last_attempt c < DB_RECONNECT_BASE_SEC then (- 1, c, w)
      else
        let w = (if r_ctx c \<noteq> 0 then redisFree E (r_ctx c) w else w);
            c = c\<lparr>r_last_attempt := now, r_ctx := 0, r_retry_count := r_retry_count c + 1\<rparr>;
            (ret, c, w) = db_redis_connect E c w
        in (ret, if ret = 0 then c\<lparr>r_retry_count := 0\<rparr> else c, w))"

definition db_redis_ping :: "env \<Rightarrow> redis_context \<Rightarrow> world \<Rightarrow> int \<times> redis_context \<times> world" where
  "db_redis_ping E c w =
     (if r_ctx c = 0 \<or> \<not> r_connected c then (- 1, c, w)
      else
        let (r, w) = redisCommand E [''PING''] c w;
            w = free_reply E r w
        in if reply_failed r then (- 1, c\<lparr>r_connected := False\<rparr>, w) else (0, c, w))"

definition db_redis_ensure_connected :: "env \<Rightarrow> redis_context \<Rightarrow> world \<Rightarrow> int \<times> redis_context \<times> world" where
  "db_redis_ensure_connected E c w =
     (if r_connected c \<and> r_ctx c \<noteq> 0 then
        let (ret, c, w) = db_redis_ping E c w
        in if ret = 0 then (0, c, w) else db_redis_reconnect E c w
      else db_redis_reconnect E c w)"

section \<open>Commands\<close>

text \<open>
  Every command function has the same frame: ensure the connection, send the command, read the
  reply and free it. \<open>on_reply\<close> is that frame; what a function makes of the reply is its
  argument, the value of a failed connection and of a NULL reply its default.
\<close>

definition on_reply :: "env \<Rightarrow> bytes list \<Rightarrow> 'a \<Rightarrow> (redis_reply \<Rightarrow> 'a) \<Rightarrow> redis_context \<Rightarrow> world \<Rightarrow>
    'a \<times> redis_context \<times> world" where
  "on_reply E args dflt f c w =
     (let (ok, c, w) = db_redis_ensure_connected E c w in
      if ok \<noteq> 0 then (dflt, c, w)
      else
        let (r, w) = redisCommand E args c w
        in (case reply r of None \<Rightarrow> dflt | Some rep \<Rightarrow> f rep, c, free_reply E r w))"

definition done_reply :: "redis_reply \<Rightarrow> int" where
  "done_reply r = (case r of REDIS_REPLY_ERROR e \<Rightarrow> - 1 | _ \<Rightarrow> 0)"

definition int_reply :: "redis_reply \<Rightarrow> int" where
  "int_reply r = (case r of REDIS_REPLY_INTEGER i \<Rightarrow> to_int32 i | _ \<Rightarrow> - 1)"

text \<open>A string reply copied to a buffer of \<open>out_size\<close> bytes; \<open>None\<close> leaves the buffer alone.\<close>

definition str_reply :: "int \<Rightarrow> redis_reply \<Rightarrow> int \<times> bytes option" where
  "str_reply out_size r =
     (case r of REDIS_REPLY_STRING s \<Rightarrow>
        if 0 < out_size then (0, Some (strncpy (nat (out_size - 1)) s)) else (- 1, None)
      | _ \<Rightarrow> (- 1, None))"

definition db_redis_set :: "env \<Rightarrow> bytes \<Rightarrow> bytes \<Rightarrow> redis_context \<Rightarrow> world \<Rightarrow> int \<times> redis_context \<times> world" where
  "db_redis_set E key val = on_reply E [''SET'', cstr key, cstr val] (- 1) done_reply"

definition db_redis_get :: "env \<Rightarrow> bytes \<Rightarrow> int \<Rightarrow> redis_context \<Rightarrow> world \<Rightarrow> (int \<times> bytes option) \<times> redis_context \<times> world" where
  "db_redis_get E key out_size = on_reply E [''GET'', cstr key] (- 1, None) (str_reply out_size)"

definition db_redis_del :: "env \<Rightarrow> bytes \<Rightarrow> redis_context \<Rightarrow> world \<Rightarrow> int \<times> redis_context \<times> world" where
  "db_redis_del E key = on_reply E [''DEL'', cstr key] (- 1) int_reply"

definition db_redis_exists :: "env \<Rightarrow> bytes \<Rightarrow> redis_context \<Rightarrow> world \<Rightarrow> int \<times> redis_context \<times> world" where
  "db_redis_exists E key = on_reply E [''EXISTS'', cstr key] (- 1) int_reply"

definition db_redis_expire :: "env \<Rightarrow> bytes \<Rightarrow> int \<Rightarrow> redis_context \<Rightarrow> world \<Rightarrow> int \<times> redis_context \<times> world" where
  "db_redis_expire E key seconds = on_reply E [''EXPIRE'', cstr key, show_int seconds] (- 1) int_reply"

definition db_redis_incr :: "env \<Rightarrow> bytes \<Rightarrow> redis_context \<Rightarrow> world \<Rightarrow> int \<times> redis_context \<times> world" where
  "db_redis_incr E key = on_reply E [''INCR'', cstr key] (- 1) int_reply"

definition db_redis_decr :: "env \<Rightarrow> bytes \<Rightarrow> redis_context \<Rightarrow> world \<Rightarrow> int \<times> redis_context \<times> world" where
  "db_redis_decr E key = on_reply E [''DECR'', cstr key] (- 1) int_reply"

definition db_redis_hset :: "env \<Rightarrow> bytes \<Rightarrow> bytes \<Rightarrow> bytes \<Rightarrow> redis_context \<Rightarrow> world \<Rightarrow> int \<times> redis_context \<times> world" where
  "db_redis_hset E key field val = on_reply E [''HSET'', cstr key, cstr field, cstr val] (- 1) done_reply"

definition db_redis_hget :: "env \<Rightarrow> bytes \<Rightarrow> bytes \<Rightarrow> int \<Rightarrow> redis_context \<Rightarrow> world \<Rightarrow>
    (int \<times> bytes option) \<times> redis_context \<times> world" where
  "db_redis_hget E key field out_size =
     on_reply E [''HGET'', cstr key, cstr field] (- 1, None) (str_reply out_size)"

definition db_redis_hdel :: "env \<Rightarrow> bytes \<Rightarrow> bytes \<Rightarrow> redis_context \<Rightarrow> world \<Rightarrow> int \<times> redis_context \<times> world" where
  "db_redis_hdel E key field = on_reply E [''HDEL'', cstr key, cstr field] (- 1) int_reply"

definition db_redis_hmset :: "env \<Rightarrow> bytes \<Rightarrow> (bytes \<times> bytes) list \<Rightarrow> redis_context \<Rightarrow> world \<Rightarrow>
    int \<times> redis_context \<times> world" where
  "db_redis_hmset E key fvs c w =
     (let (ok, c, w) = db_redis_ensure_connected E c w in
      if ok \<noteq> 0 then (- 1, c, w)
      else if fvs = [] then (0, c, w)
      else
        let (r, w) = redisCommand E (''HMSET'' # cstr key # concat (map (\<lambda>(f, v). [cstr f, cstr v]) fvs)) c w
        in (case reply r of None \<Rightarrow> - 1 | Some rep \<Rightarrow> done_reply rep, c, free_reply E r w))"

text \<open>The JSON that \<open>HGETALL\<close> is turned into.\<close>

fun json_pairs :: "int \<Rightarrow> bool \<Rightarrow> bytes list \<Rightarrow> out_buf \<Rightarrow> out_buf" where
  "json_pairs bsize first (f # v # es) b =
     (let b = (if first then b else buf_append bsize b '','')
      in json_pairs bsize False es (buf_append bsize b (quoted f @ '':'' @ quoted v)))"
| "json_pairs bsize first es b = b"

definition hgetall_json :: "int \<Rightarrow> bytes list \<Rightarrow> out_buf" where
  "hgetall_json bsize es =
     buf_append bsize (json_pairs bsize True es (buf_append bsize empty_buf ''{'')) ''}''"

definition db_redis_hgetall :: "env \<Rightarrow> bytes \<Rightarrow> int \<Rightarrow> redis_context \<Rightarrow> world \<Rightarrow>
    (int \<times> out_buf option) \<times> redis_context \<times> world" where
  "db_redis_hgetall E key result_size =
     on_reply E [''HGETALL'', cstr key] (- 1, None)
       (\<lambda>r. case r of REDIS_REPLY_ARRAY es \<Rightarrow> (0, Some (hgetall_json result_size es)) | _ \<Rightarrow> (- 1, None))"

text \<open>Sorted sets. The score is given as the text \<open>%.6f\<close> prints for it.\<close>

definition db_redis_zadd :: "env \<Rightarrow> bytes \<Rightarrow> bytes \<Rightarrow> bytes \<Rightarrow> redis_context \<Rightarrow> world \<Rightarrow> int \<times> redis_context \<times> world" where
  "db_redis_zadd E key score member = on_reply E [''ZADD'', cstr key, score, cstr member] (- 1) int_reply"

definition db_redis_zrem :: "env \<Rightarrow> bytes \<Rightarrow> bytes \<Rightarrow> redis_context \<Rightarrow> world \<Rightarrow> int \<times> redis_context \<times> world" where
  "db_redis_zrem E key member = on_reply E [''ZREM'', cstr key, cstr member] (- 1) int_reply"

definition db_redis_zcard :: "env \<Rightarrow> bytes \<Rightarrow> redis_context \<Rightarrow> world \<Rightarrow> int \<times> redis_context \<times> world" where
  "db_redis_zcard E key = on_reply E [''ZCARD'', cstr key] (- 1) int_reply"

definition db_redis_zpopmin :: "env \<Rightarrow> bytes \<Rightarrow> int \<Rightarrow> redis_context \<Rightarrow> world \<Rightarrow>
    (int \<times> bytes option) \<times> redis_context \<times> world" where
  "db_redis_zpopmin E key member_size =
     on_reply E [''ZPOPMIN'', cstr key] (- 1, None)
       (\<lambda>r. case r of
          REDIS_REPLY_ARRAY (m # s # es) \<Rightarrow>
            (0, if 0 < member_size then Some (strncpy (nat (member_size - 1)) m) else None)
        | _ \<Rightarrow> (- 1, None))"

section \<open>The call centre's keys\<close>

definition db_redis_cache_agent_status :: "env \<Rightarrow> bytes \<Rightarrow> bytes \<Rightarrow> int \<Rightarrow> redis_context \<Rightarrow> world \<Rightarrow>
    int \<times> redis_context \<times> world" where
  "db_redis_cache_agent_status E extension status concurrent_calls c w =
     (let (t, w) = ext E Time w in
      db_redis_hmset E (redis_key REDIS_KEY_AGENT_STATUS extension)
        [(''extension'', extension), (''status'', status),
         (''concurrent_calls'', snprintf 16 (show_int concurrent_calls)),
         (''updated_at'', snprintf 32 (show_int (rv t)))] c w)"

text \<open>The outputs are the status and the number of calls, \<open>None\<close> where nothing is stored.\<close>

definition db_redis_get_agent_status :: "env \<Rightarrow> bytes \<Rightarrow> int \<Rightarrow> redis_context \<Rightarrow> world \<Rightarrow>
    (int \<times> bytes option \<times> int option) \<times> redis_context \<times> world" where
  "db_redis_get_agent_status E extension out_size c w =
     (let key = redis_key REDIS_KEY_AGENT_STATUS extension;
          ((ret, status), c, w) = db_redis_hget E key ''status'' 32 c w in
      if ret \<noteq> 0 then ((- 1, None, None), c, w)
      else
        let ((ret, calls), c, w) = db_redis_hget E key ''concurrent_calls'' 16 c w
        in ((0, Some (strncpy (nat (out_size - 1)) (the status)),
             Some (if ret = 0 then atoi (the calls) else 0)), c, w))"

definition db_redis_cache_agent_online :: "env \<Rightarrow> bytes \<Rightarrow> int \<Rightarrow> redis_context \<Rightarrow> world \<Rightarrow>
    int \<times> redis_context \<times> world" where
  "db_redis_cache_agent_online E extension is_online =
     db_redis_set E (redis_key REDIS_KEY_AGENT_ONLINE extension) (snprintf 8 (show_int is_online))"

definition db_redis_update_dept_idle :: "env \<Rightarrow> bytes \<Rightarrow> int \<Rightarrow> redis_context \<Rightarrow> world \<Rightarrow>
    int \<times> redis_context \<times> world" where
  "db_redis_update_dept_idle E dept_key idle_count =
     db_redis_set E (redis_key REDIS_KEY_DEPT_IDLE dept_key) (snprintf 16 (show_int idle_count))"

definition db_redis_get_dept_idle :: "env \<Rightarrow> bytes \<Rightarrow> redis_context \<Rightarrow> world \<Rightarrow> int \<times> redis_context \<times> world" where
  "db_redis_get_dept_idle E dept_key c w =
     (let ((ret, val), c, w) = db_redis_get E (redis_key REDIS_KEY_DEPT_IDLE dept_key) 16 c w
      in (if ret \<noteq> 0 then - 1 else atoi (the val), c, w))"

definition db_redis_cache_dept_config :: "env \<Rightarrow> bytes \<Rightarrow> bytes \<Rightarrow> redis_context \<Rightarrow> world \<Rightarrow>
    int \<times> redis_context \<times> world" where
  "db_redis_cache_dept_config E dept_key config_json =
     db_redis_set E (redis_key REDIS_KEY_DEPT_CONFIG dept_key) config_json"

definition db_redis_get_dept_config :: "env \<Rightarrow> bytes \<Rightarrow> int \<Rightarrow> redis_context \<Rightarrow> world \<Rightarrow>
    (int \<times> bytes option) \<times> redis_context \<times> world" where
  "db_redis_get_dept_config E dept_key out_size = db_redis_get E (redis_key REDIS_KEY_DEPT_CONFIG dept_key) out_size"

definition db_redis_cache_system_status :: "env \<Rightarrow> bytes \<Rightarrow> redis_context \<Rightarrow> world \<Rightarrow> int \<times> redis_context \<times> world" where
  "db_redis_cache_system_status E status_json = db_redis_set E REDIS_KEY_SYSTEM_STATUS status_json"

definition db_redis_get_system_status :: "env \<Rightarrow> int \<Rightarrow> redis_context \<Rightarrow> world \<Rightarrow>
    (int \<times> bytes option) \<times> redis_context \<times> world" where
  "db_redis_get_system_status E out_size = db_redis_get E REDIS_KEY_SYSTEM_STATUS out_size"

end
