(* ===== verification/Redis_Facts.thy ===== *)
theory Redis_Facts
  imports Db_Redis
begin

text \<open>
  What the Redis client guarantees: it neither leaks contexts nor replies and connects at most
  once a second whatever is asked of it; with a server that answers, the agent status cache is
  a map from extensions to status and number of calls; and the exact condition under which the
  JSON of \<open>HGETALL\<close> leaves its buffer.
\<close>

section \<open>Observers\<close>

text \<open>Contexts and replies not freed yet, and the number of connections attempted.\<close>

fun redis_ctxs :: "world \<Rightarrow> int set" where
  "redis_ctxs [] = {}"
| "redis_ctxs ((Redis_connect, r) # w) = (if rv r = 0 then redis_ctxs w else insert (rv r) (redis_ctxs w))"
| "redis_ctxs ((Redis_free p, r) # w) = redis_ctxs w - {p}"
| "redis_ctxs ((c, r) # w) = redis_ctxs w"

fun live_replies :: "world \<Rightarrow> int set" where
  "live_replies [] = {}"
| "live_replies ((Redis_command p args, r) # w) =
     (if reply r = None then live_replies w else insert (rv r) (live_replies w))"
| "live_replies ((Free_reply p, r) # w) = live_replies w - {p}"
| "live_replies ((c, r) # w) = live_replies w"

fun connects :: "world \<Rightarrow> int" where
  "connects [] = 0"
| "connects ((Redis_connect, r) # w) = connects w + 1"
| "connects ((c, r) # w) = connects w"

section \<open>Nothing leaks, and reconnecting is limited\<close>

definition redis_clean :: "redis_context \<Rightarrow> world \<Rightarrow> bool" where
  "redis_clean c w \<longleftrightarrow> redis_ctxs w = (if r_ctx c = 0 then {} else {r_ctx c}) \<and> live_replies w = {}"

definition redis_good :: "redis_context \<Rightarrow> world \<Rightarrow> redis_context \<Rightarrow> world \<Rightarrow> bool" where
  "redis_good c w c' w' \<longleftrightarrow>
     (redis_clean c w \<longrightarrow> redis_clean c' w') \<and>
     connects w' - connects w \<le> r_last_attempt c' - r_last_attempt c \<and> r_config c' = r_config c"

lemma good_refl [simp, intro]: "redis_good c w c w"
  by (simp add: redis_good_def)

lemma good_trans [trans]: "redis_good c w c' w' \<Longrightarrow> redis_good c' w' c'' w'' \<Longrightarrow> redis_good c w c'' w''"
  by (auto simp: redis_good_def)

lemma good_time [simp]: "redis_good c w c ((Time, r) # w)"
  by (simp add: redis_good_def redis_clean_def)

lemma good_command: "redis_good c w c (free_reply E (fst (redisCommand E args c w)) (snd (redisCommand E args c w)))"
  by (auto simp: redis_good_def redis_clean_def redisCommand_def free_reply_def)

lemma good_connected [simp]: "redis_good c w (c'\<lparr>r_connected := b\<rparr>) w' = redis_good c w c' w'"
  "redis_good c w (c'\<lparr>r_retry_count := n\<rparr>) w' = redis_good c w c' w'"
  by (simp_all add: redis_good_def redis_clean_def)

lemma connect_clean:
  assumes "redis_ctxs w = {}" and "live_replies w = {}"
  shows "case db_redis_connect E c w of (ret, c', w') \<Rightarrow> redis_clean c' w'"
  using assms
  by (auto simp: db_redis_connect_def Let_def redis_clean_def redisFree_def redisCommand_def free_reply_def)

lemma connect_counts:
  "case db_redis_connect E c w of (ret, c', w') \<Rightarrow>
     connects w' = connects w + 1 \<and> r_last_attempt c' = r_last_attempt c \<and> r_config c' = r_config c"
  by (auto simp: db_redis_connect_def Let_def redisFree_def redisCommand_def free_reply_def)

lemma good_reconnect:
  "case db_redis_reconnect E c w of (ret, c', w') \<Rightarrow> redis_good c w c' w'"
proof (cases "rv (E w Time) - r_last_attempt c < DB_RECONNECT_BASE_SEC")
  case True
  then show ?thesis by (simp add: db_redis_reconnect_def Let_def)
next
  case False
  let ?w = "(Time, E w Time) # w"
  let ?w1 = "if r_ctx c \<noteq> 0 then redisFree E (r_ctx c) ?w else ?w"
  let ?c1 = "c\<lparr>r_last_attempt := rv (E w Time), r_ctx := 0, r_retry_count := r_retry_count c + 1\<rparr>"
  obtain ret c2 w2 where d: "db_redis_connect E ?c1 ?w1 = (ret, c2, w2)"
    by (cases "db_redis_connect E ?c1 ?w1") auto
  have ctxs: "redis_ctxs ?w1 = {}" "live_replies ?w1 = {}" if "redis_clean c w"
    using that by (auto simp: redis_clean_def redisFree_def)
  have n: "connects ?w1 = connects w" by (simp add: redisFree_def)
  have "redis_good c w c2 w2"
    using connect_clean [OF ctxs, of E ?c1] connect_counts [of ?w1 ?c1 E] d n False
    by (auto simp: redis_good_def DB_RECONNECT_BASE_SEC_def)
  with False d show ?thesis by (simp add: db_redis_reconnect_def Let_def split_beta)
qed

lemma good_ping: "case db_redis_ping E c w of (ret, c', w') \<Rightarrow> redis_good c w c' w'"
  using good_command [of c w E "[''PING'']"]
  by (simp add: db_redis_ping_def Let_def split_beta)

lemma good_ensure: "case db_redis_ensure_connected E c w of (ret, c', w') \<Rightarrow> redis_good c w c' w'"
proof -
  obtain ret c1 w1 where p: "db_redis_ping E c w = (ret, c1, w1)" by (cases "db_redis_ping E c w") auto
  with good_ping [of c w E] have "redis_good c w c1 w1" by simp
  with p good_reconnect [of c w E] good_reconnect [of c1 w1 E] show ?thesis
    by (auto simp: db_redis_ensure_connected_def split_beta intro: good_trans)
qed

lemma good_on_reply: "case on_reply E args d f c w of (r, c', w') \<Rightarrow> redis_good c w c' w'"
proof -
  obtain ok c1 w1 where e: "db_redis_ensure_connected E c w = (ok, c1, w1)"
    by (cases "db_redis_ensure_connected E c w") auto
  with good_ensure [of c w E] have "redis_good c w c1 w1" by simp
  with e good_trans [OF _ good_command [of c1 w1 E args]] show ?thesis
    by (auto simp: on_reply_def split_beta)
qed

lemma good_hmset: "case db_redis_hmset E key fvs c w of (r, c', w') \<Rightarrow> redis_good c w c' w'"
proof -
  obtain ok c1 w1 where e: "db_redis_ensure_connected E c w = (ok, c1, w1)"
    by (cases "db_redis_ensure_connected E c w") auto
  with good_ensure [of c w E] have "redis_good c w c1 w1" by simp
  with e good_trans [OF _ good_command [of c1 w1 E]] show ?thesis
    by (auto simp: db_redis_hmset_def split_beta)
qed

text \<open>Every operation of the interface, as one type of calls.\<close>

datatype redis_call =
    Ping | Reconnect | Set_key bytes bytes | Get_key bytes int | Del_key bytes | Exists_key bytes
  | Expire_key bytes int | Incr_key bytes | Decr_key bytes | Hset bytes bytes bytes
  | Hget bytes bytes int | Hgetall bytes int | Hdel bytes bytes | Hmset bytes "(bytes \<times> bytes) list"
  | Zadd bytes bytes bytes | Zrem bytes bytes | Zcard bytes | Zpopmin bytes int
  | Cache_agent_status bytes bytes int | Get_agent_status bytes int | Cache_agent_online bytes int
  | Update_dept_idle bytes int | Get_dept_idle bytes

fun redis_do :: "env \<Rightarrow> redis_call \<Rightarrow> redis_context \<Rightarrow> world \<Rightarrow> redis_context \<times> world" where
  "redis_do E Ping c w = snd (db_redis_ping E c w)"
| "redis_do E Reconnect c w = snd (db_redis_reconnect E c w)"
| "redis_do E (Set_key k v) c w = snd (db_redis_set E k v c w)"
| "redis_do E (Get_key k n) c w = snd (db_redis_get E k n c w)"
| "redis_do E (Del_key k) c w = snd (db_redis_del E k c w)"
| "redis_do E (Exists_key k) c w = snd (db_redis_exists E k c w)"
| "redis_do E (Expire_key k n) c w = snd (db_redis_expire E k n c w)"
| "redis_do E (Incr_key k) c w = snd (db_redis_incr E k c w)"
| "redis_do E (Decr_key k) c w = snd (db_redis_decr E k c w)"
| "redis_do E (Hset k f v) c w = snd (db_redis_hset E k f v c w)"
| "redis_do E (Hget k f n) c w = snd (db_redis_hget E k f n c w)"
| "redis_do E (Hgetall k n) c w = snd (db_redis_hgetall E k n c w)"
| "redis_do E (Hdel k f) c w = snd (db_redis_hdel E k f c w)"
| "redis_do E (Hmset k fvs) c w = snd (db_redis_hmset E k fvs c w)"
| "redis_do E (Zadd k s m) c w = snd (db_redis_zadd E k s m c w)"
| "redis_do E (Zrem k m) c w = snd (db_redis_zrem E k m c w)"
| "redis_do E (Zcard k) c w = snd (db_redis_zcard E k c w)"
| "redis_do E (Zpopmin k n) c w = snd (db_redis_zpopmin E k n c w)"
| "redis_do E (Cache_agent_status e s n) c w = snd (db_redis_cache_agent_status E e s n c w)"
| "redis_do E (Get_agent_status e n) c w = snd (db_redis_get_agent_status E e n c w)"
| "redis_do E (Cache_agent_online e b) c w = snd (db_redis_cache_agent_online E e b c w)"
| "redis_do E (Update_dept_idle d n) c w = snd (db_redis_update_dept_idle E d n c w)"
| "redis_do E (Get_dept_idle d) c w = snd (db_redis_get_dept_idle E d c w)"

fun redis_do_all :: "env \<Rightarrow> redis_call list \<Rightarrow> redis_context \<Rightarrow> world \<Rightarrow> redis_context \<times> world" where
  "redis_do_all E [] c w = (c, w)"
| "redis_do_all E (op # ops) c w = (let (c, w) = redis_do E op c w in redis_do_all E ops c w)"

lemmas redis_commands = db_redis_set_def db_redis_get_def db_redis_del_def db_redis_exists_def
  db_redis_expire_def db_redis_incr_def db_redis_decr_def db_redis_hset_def db_redis_hget_def
  db_redis_hgetall_def db_redis_hdel_def db_redis_zadd_def db_redis_zrem_def db_redis_zcard_def
  db_redis_zpopmin_def db_redis_cache_agent_online_def db_redis_update_dept_idle_def

lemma good_snd [intro]:
  "redis_good c w (fst (snd (on_reply E args d f c w))) (snd (snd (on_reply E args d f c w)))"
  "redis_good c w (fst (snd (db_redis_hmset E key fvs c w))) (snd (snd (db_redis_hmset E key fvs c w)))"
  "redis_good c w (fst (snd (db_redis_ping E c w))) (snd (snd (db_redis_ping E c w)))"
  "redis_good c w (fst (snd (db_redis_reconnect E c w))) (snd (snd (db_redis_reconnect E c w)))"
  using good_on_reply [of c w E args d f] good_hmset [of c w E key fvs] good_ping [of c w E]
    good_reconnect [of c w E] by (simp_all add: split_beta)

lemma good_get_agent_status:
  "redis_good c w (fst (snd (db_redis_get_agent_status E e n c w))) (snd (snd (db_redis_get_agent_status E e n c w)))"
proof -
  let ?key = "redis_key REDIS_KEY_AGENT_STATUS e"
  obtain r c1 w1 where a: "db_redis_hget E ?key ''status'' 32 c w = (r, c1, w1)"
    by (cases "db_redis_hget E ?key ''status'' 32 c w") auto
  have g: "redis_good c w c1 w1"
    using a good_snd(1) [of c w E] unfolding db_redis_hget_def by (metis fst_conv snd_conv)
  have "redis_good c1 w1 (fst (snd (db_redis_hget E ?key ''concurrent_calls'' 16 c1 w1)))
      (snd (snd (db_redis_hget E ?key ''concurrent_calls'' 16 c1 w1)))"
    unfolding db_redis_hget_def by (rule good_snd)
  with g a good_trans [OF g] show ?thesis
    by (simp add: db_redis_get_agent_status_def Let_def split_beta)
qed

lemma good_do: "redis_good c w (fst (redis_do E op c w)) (snd (redis_do E op c w))"
proof (cases op)
  case (Cache_agent_status e s n)
  then show ?thesis
    using good_trans [OF good_time good_snd(2)]
    by (simp add: db_redis_cache_agent_status_def)
next
  case (Get_dept_idle d)
  then show ?thesis
    using good_snd(1) by (simp add: db_redis_get_dept_idle_def redis_commands split_beta Let_def)
qed (auto simp: redis_commands good_get_agent_status)

lemma good_do_all: "redis_good c w (fst (redis_do_all E ops c w)) (snd (redis_do_all E ops c w))"
proof (induction ops arbitrary: c w)
  case (Cons op ops)
  show ?case using good_trans [OF good_do Cons.IH] by (simp add: split_beta)
qed simp

section \<open>The agent status cache as a map\<close>

text \<open>
  The fields of the hashes as the acknowledged commands of a trace set them: \<open>HMSET\<close> and
  \<open>HSET\<close> set fields, reading commands and \<open>PING\<close> change nothing, and after any other command
  on a key, or a write that was not acknowledged, its fields are not known.
\<close>

fun set_fields :: "bytes list \<Rightarrow> (bytes \<rightharpoonup> bytes) \<Rightarrow> (bytes \<rightharpoonup> bytes)" where
  "set_fields (f # v # fvs) m = set_fields fvs (m(f \<mapsto> v))"
| "set_fields fvs m = m"

definition hash_command :: "bytes list \<Rightarrow> bool \<Rightarrow> (bytes \<Rightarrow> bytes \<rightharpoonup> bytes) \<Rightarrow> (bytes \<Rightarrow> bytes \<rightharpoonup> bytes)" where
  "hash_command args acked M =
     (case args of
        cmd # key # rest \<Rightarrow>
          if cmd = ''HGET'' \<or> cmd = ''HGETALL'' \<or> cmd = ''GET'' \<or> cmd = ''EXISTS'' then M
          else if (cmd = ''HMSET'' \<or> cmd = ''HSET'') \<and> acked then M(key := set_fields rest (M key))
          else M(key := Map.empty)
      | _ \<Rightarrow> M)"

fun redis_hashes :: "world \<Rightarrow> bytes \<Rightarrow> bytes \<rightharpoonup> bytes" where
  "redis_hashes [] = (\<lambda>key. Map.empty)"
| "redis_hashes ((Redis_command p args, r) # w) = hash_command args (\<not> reply_failed r) (redis_hashes w)"
| "redis_hashes ((c, r) # w) = redis_hashes w"

text \<open>
  The documented behaviour of a server that is up and of which this program is the only
  writer: it answers \<open>PING\<close> and \<open>HMSET\<close>, and \<open>HGET\<close> gives back the field as it was set.
\<close>

definition redis_serves :: "env \<Rightarrow> int \<Rightarrow> bool" where
  "redis_serves E h \<longleftrightarrow>
     (\<forall>w. \<not> reply_failed (E w (Redis_command h [''PING'']))) \<and>
     (\<forall>w args. \<not> reply_failed (E w (Redis_command h (''HMSET'' # args)))) \<and>
     (\<forall>w key f v. redis_hashes w key f = Some v \<longrightarrow>
        reply (E w (Redis_command h [''HGET'', key, f])) = Some (REDIS_REPLY_STRING v))"

definition live :: "redis_context \<Rightarrow> bool" where
  "live c \<longleftrightarrow> r_connected c \<and> r_ctx c \<noteq> 0"

text \<open>What the commands leave of the hashes: only acknowledged writes matter.\<close>

lemma hashes_free [simp]: "redis_hashes (free_reply E r w) = redis_hashes w"
  by (simp add: free_reply_def)

lemma ensure_live:
  assumes "redis_serves E (r_ctx c)" and "live c"
  shows "\<exists>w'. db_redis_ensure_connected E c w = (0, c, w') \<and> redis_hashes w' = redis_hashes w"
  using assms
  by (auto simp: db_redis_ensure_connected_def db_redis_ping_def redisCommand_def live_def Let_def
      redis_serves_def hash_command_def split_beta)

lemma hget_live:
  assumes s: "redis_serves E (r_ctx c)" and l: "live c" and f: "redis_hashes w (cstr key) (cstr field) = Some v"
    and n: "0 < out_size"
  shows "\<exists>w'. db_redis_hget E key field out_size c w = ((0, Some (strncpy (nat (out_size - 1)) v)), c, w') \<and>
    redis_hashes w' = redis_hashes w"
proof -
  obtain w1 where e: "db_redis_ensure_connected E c w = (0, c, w1)" and h: "redis_hashes w1 = redis_hashes w"
    using ensure_live [OF s l] by blast
  have "reply (E w1 (Redis_command (r_ctx c) [''HGET'', cstr key, cstr field])) = Some (REDIS_REPLY_STRING v)"
    using s f h by (simp add: redis_serves_def)
  with e h n show ?thesis
    by (simp add: db_redis_hget_def on_reply_def redisCommand_def str_reply_def hash_command_def)
qed

lemma hmset_live:
  assumes s: "redis_serves E (r_ctx c)" and l: "live c" and ne: "fvs \<noteq> []"
  shows "\<exists>w'. db_redis_hmset E key fvs c w = (0, c, w') \<and>
    redis_hashes w' = (redis_hashes w)(cstr key :=
      set_fields (concat (map (\<lambda>(f, v). [cstr f, cstr v]) fvs)) (redis_hashes w (cstr key)))"
proof -
  let ?args = "cstr key # concat (map (\<lambda>(f, v). [cstr f, cstr v]) fvs)"
  obtain w1 where e: "db_redis_ensure_connected E c w = (0, c, w1)" and h: "redis_hashes w1 = redis_hashes w"
    using ensure_live [OF s l] by blast
  have r: "\<not> reply_failed (E w1 (Redis_command (r_ctx c) (''HMSET'' # ?args)))"
    using s by (simp add: redis_serves_def)
  then have "(case reply (E w1 (Redis_command (r_ctx c) (''HMSET'' # ?args))) of None \<Rightarrow> - 1
      | Some rep \<Rightarrow> done_reply rep) = (0 :: int)"
    by (auto simp: reply_failed_def done_reply_def split: option.splits redis_reply.splits)
  with e h r ne show ?thesis
    by (simp add: db_redis_hmset_def redisCommand_def hash_command_def)
qed

text \<open>Extensions that the key buffer carries whole have keys of their own.\<close>

definition plain :: "nat \<Rightarrow> bytes \<Rightarrow> bool" where
  "plain n s \<longleftrightarrow> length s \<le> n \<and> nul \<notin> set s"

lemma plain_cstr: "plain n s \<Longrightarrow> cstr s = s"
  by (simp add: plain_def cstr_id)

lemma key_whole: "plain 240 e \<Longrightarrow> redis_key REDIS_KEY_AGENT_STATUS e = ''agent:status:'' @ e"
  by (simp add: redis_key_def snprintf_def DB_MAX_REDIS_KEY_LEN_def REDIS_KEY_AGENT_STATUS_def plain_def cstr_id)

lemma cstr_key: "plain 240 e \<Longrightarrow> cstr (redis_key REDIS_KEY_AGENT_STATUS e) = ''agent:status:'' @ e"
  by (simp add: key_whole cstr_append plain_def cstr_id nul_def)

definition status_ok :: "bytes \<times> bytes \<times> int \<Rightarrow> bool" where
  "status_ok = (\<lambda>(exten, status, calls). plain 240 exten \<and> plain 31 status \<and> int_range calls)"

lemma calls_text: "int_range calls \<Longrightarrow> cstr (snprintf 16 (show_int calls)) = show_int calls"
  using length_show_int [of calls] by (simp add: snprintf_def cstr_id)

text \<open>The hashes hold a map of agent states.\<close>

definition holds :: "(bytes \<rightharpoonup> bytes \<times> int) \<Rightarrow> world \<Rightarrow> bool" where
  "holds A w \<longleftrightarrow> (\<forall>e s n. A e = Some (s, n) \<longrightarrow>
     plain 240 e \<and> plain 31 s \<and> int_range n \<and>
     redis_hashes w (''agent:status:'' @ e) ''status'' = Some s \<and>
     redis_hashes w (''agent:status:'' @ e) ''concurrent_calls'' = Some (show_int n))"

lemma cache_live:
  assumes s: "redis_serves E (r_ctx c)" and l: "live c" and ok: "status_ok (exten, status, calls)"
    and A: "holds A w"
  shows "\<exists>w'. db_redis_cache_agent_status E exten status calls c w = (0, c, w') \<and>
    holds (A(exten \<mapsto> (status, calls))) w'"
proof -
  have p: "plain 240 exten" "plain 31 status" "int_range calls" using ok by (simp_all add: status_ok_def)
  let ?w = "(Time, E w Time) # w"
  let ?fvs = "[(''extension'', exten), (''status'', status),
      (''concurrent_calls'', snprintf 16 (show_int calls)), (''updated_at'', snprintf 32 (show_int (rv (E w Time))))]"
  obtain w' where m: "db_redis_hmset E (redis_key REDIS_KEY_AGENT_STATUS exten) ?fvs c ?w = (0, c, w')"
    and h: "redis_hashes w' = (redis_hashes ?w)(''agent:status:'' @ exten :=
      set_fields (concat (map (\<lambda>(f, v). [cstr f, cstr v]) ?fvs)) (redis_hashes ?w (''agent:status:'' @ exten)))"
    using hmset_live [OF s l, of ?fvs "redis_key REDIS_KEY_AGENT_STATUS exten" ?w] cstr_key [OF p(1)] by auto
  have new: "redis_hashes w' (''agent:status:'' @ exten) ''status'' = Some status"
    "redis_hashes w' (''agent:status:'' @ exten) ''concurrent_calls'' = Some (show_int calls)"
    using p(2) calls_text [OF p(3)] unfolding h by (simp_all add: plain_cstr nul_def)
  have old: "redis_hashes w' k = redis_hashes w k" if "k \<noteq> ''agent:status:'' @ exten" for k
    using that unfolding h by simp
  have "holds (A(exten \<mapsto> (status, calls))) w'"
    using A new old p by (simp add: holds_def)
  with m show ?thesis by (simp add: db_redis_cache_agent_status_def)
qed

lemma get_live:
  assumes s: "redis_serves E (r_ctx c)" and l: "live c" and A: "holds A w" and e: "A exten = Some (status, calls)"
  shows "\<exists>w'. db_redis_get_agent_status E exten out_size c w =
    ((0, Some (strncpy (nat (out_size - 1)) status), Some calls), c, w') \<and> holds A w'"
proof -
  let ?key = "redis_key REDIS_KEY_AGENT_STATUS exten"
  have f: "plain 240 exten" "plain 31 status" "int_range calls"
    "redis_hashes w (''agent:status:'' @ exten) ''status'' = Some status"
    "redis_hashes w (''agent:status:'' @ exten) ''concurrent_calls'' = Some (show_int calls)"
    using A e by (auto simp: holds_def)
  have c1: "cstr ''status'' = ''status''" "cstr ''concurrent_calls'' = ''concurrent_calls''"
    by (simp_all add: nul_def)
  have v: "strncpy 31 status = status" using f(2) by (simp add: strncpy_def plain_cstr plain_def cstr_id)
  have n: "strncpy 15 (show_int calls) = show_int calls"
    using length_show_int [OF f(3)] by (simp add: strncpy_def cstr_id)
  obtain w1 where g1: "db_redis_hget E ?key ''status'' 32 c w = ((0, Some status), c, w1)"
    and h1: "redis_hashes w1 = redis_hashes w"
    using hget_live [OF s l, of w ?key "''status''" status 32] f c1 v cstr_key [OF f(1)] by auto
  obtain w2 where g2: "db_redis_hget E ?key ''concurrent_calls'' 16 c w1 = ((0, Some (show_int calls)), c, w2)"
    and h2: "redis_hashes w2 = redis_hashes w"
    using hget_live [OF s l, of w1 ?key "''concurrent_calls''" "show_int calls" 16] f c1 n h1 cstr_key [OF f(1)]
    by auto
  have "atoi (show_int calls) = calls"
    using scan_int_show_int [of calls "[]"] f(3) by (simp add: atoi_def cstr_id int_range_def)
  moreover have "holds A w2" using A h2 by (simp add: holds_def)
  ultimately show ?thesis
    using g1 g2 by (simp add: db_redis_get_agent_status_def)
qed

fun cache_all :: "env \<Rightarrow> (bytes \<times> bytes \<times> int) list \<Rightarrow> redis_context \<Rightarrow> world \<Rightarrow> redis_context \<times> world" where
  "cache_all E [] c w = (c, w)"
| "cache_all E ((e, s, n) # us) c w =
     (let (ret, c, w) = db_redis_cache_agent_status E e s n c w in cache_all E us c w)"

lemma cache_all_live:
  assumes s: "redis_serves E (r_ctx c)" and l: "live c"
  shows "\<forall>u\<in>set us. status_ok u \<Longrightarrow> holds A w \<Longrightarrow>
    \<exists>w'. cache_all E us c w = (c, w') \<and> holds (A ++ map_of (rev us)) w'"
proof (induction us arbitrary: A w)
  case (Cons u us)
  obtain e st n where u: "u = (e, st, n)" by (cases u)
  from cache_live [OF s l, of e st n A w] Cons.prems u obtain w1
    where c1: "db_redis_cache_agent_status E e st n c w = (0, c, w1)" and h: "holds (A(e \<mapsto> (st, n))) w1"
    by auto
  have "\<forall>u\<in>set us. status_ok u" using Cons.prems by simp
  from Cons.IH [OF this h] obtain w'
    where r: "cache_all E us c w1 = (c, w')" and h': "holds (A(e \<mapsto> (st, n)) ++ map_of (rev us)) w'" by blast
  have m: "A(e \<mapsto> (st, n)) ++ map_of (rev us) = A ++ map_of (rev (u # us))"
    by (simp add: u map_add_def fun_eq_iff split: option.splits)
  have "cache_all E (u # us) c w = (c, w')" using c1 r by (simp add: u)
  with h' show ?case unfolding m by blast
qed simp

section \<open>The JSON of a hash\<close>

text \<open>The text meant, without the closing brace.\<close>

fun pairs_text :: "bool \<Rightarrow> bytes list \<Rightarrow> bytes" where
  "pairs_text first (f # v # es) =
     (if first then [] else '','') @ quoted f @ '':'' @ quoted v @ pairs_text False es"
| "pairs_text first es = []"

lemma json_pairs_buf:
  "buf_holds n t b \<Longrightarrow> 0 < n \<Longrightarrow> (ob_overrun b \<longrightarrow> n < int (length t)) \<Longrightarrow>
   buf_holds n (t @ pairs_text first es) (json_pairs n first es b) \<and>
   (ob_overrun (json_pairs n first es b) \<longrightarrow> n < int (length (t @ pairs_text first es)))"
proof (induction n first es b arbitrary: t rule: json_pairs.induct)
  case (1 n first f v es b)
  let ?b1 = "if first then b else buf_append n b '',''" and ?t1 = "t @ (if first then [] else '','')"
  let ?s = "quoted f @ '':'' @ quoted v"
  have b1: "buf_holds n ?t1 ?b1" "ob_overrun ?b1 \<longrightarrow> n < int (length ?t1)"
    using buf_holds_append [OF "1.prems"(1,2), of "'',''"] "1.prems" by auto
  have b2: "buf_holds n (?t1 @ ?s) (buf_append n ?b1 ?s)"
    "ob_overrun (buf_append n ?b1 ?s) \<longrightarrow> n < int (length (?t1 @ ?s))"
    using buf_holds_append [OF b1(1) "1.prems"(2), of ?s] b1(2) by auto
  from "1.IH" [OF refl b2(1) "1.prems"(2) b2(2)] show ?case by (simp add: Let_def)
qed simp_all

lemma hgetall_buf:
  assumes "0 < n"
  shows "buf_holds n (CHR ''{'' # pairs_text True es @ ''}'') (hgetall_json n es) \<and>
    ob_overrun (hgetall_json n es) = (n < int (length (CHR ''{'' # pairs_text True es)))"
proof -
  have e: "buf_holds n [] empty_buf" by (simp add: buf_holds_def empty_buf_def)
  have b0: "buf_holds n ''{'' (buf_append n empty_buf ''{'')" "\<not> ob_overrun (buf_append n empty_buf ''{'')"
    using buf_holds_append [OF e assms, of "''{''"] assms by (simp_all add: empty_buf_def)
  let ?b = "json_pairs n True es (buf_append n empty_buf ''{'')"
  have b1: "buf_holds n (''{'' @ pairs_text True es) ?b"
    "ob_overrun ?b \<longrightarrow> n < int (length (''{'' @ pairs_text True es))"
    using json_pairs_buf [OF b0(1) assms, of True es] b0(2) by auto
  from buf_holds_append [OF b1(1) assms, of "''}''"] b1(2) show ?thesis
    by (auto simp: hgetall_json_def)
qed

section \<open>A concrete server\<close>

text \<open>A Redis server at rest: it accepts the connection, acknowledges every command and keeps
  the hash fields; the clock stands still.\<close>

definition redis_os :: env where
  "redis_os w c =
     (case c of
        Calloc n \<Rightarrow> null_ret\<lparr>rv := 1\<rparr>
      | Redis_connect \<Rightarrow> null_ret\<lparr>rv := 7\<rparr>
      | Redis_command p args \<Rightarrow>
          null_ret\<lparr>rv := 9, reply := Some
            (if 2 < length args \<and> hd args = ''HGET'' then
               (case redis_hashes w (args ! 1) (args ! 2) of
                  None \<Rightarrow> REDIS_REPLY_NIL | Some v \<Rightarrow> REDIS_REPLY_STRING v)
             else REDIS_REPLY_STATUS ''OK'')\<rparr>
      | _ \<Rightarrow> null_ret)"

lemma redis_os_serves: "redis_serves redis_os h"
  by (auto simp: redis_serves_def redis_os_def reply_failed_def)

definition sample_redis :: redis_config where
  "sample_redis = \<lparr>rc_host = ''localhost'', rc_port = 6379, rc_password = ''pw'', rc_db_index = 1,
     rc_pool_size = 10, rc_connect_timeout = 3\<rparr>"

section \<open>Properties\<close>

lemma create_context: "db_redis_create E config w = (Some c, w1) \<Longrightarrow>
   r_ctx c = 0 \<and> redis_ctxs w1 = redis_ctxs w \<and> live_replies w1 = live_replies w"
  by (auto simp: db_redis_create_def Let_def split: if_splits)

text \<open>C29: Over the life of a context, from creation over the first connection, whether it succeeds or
  not, and any sequence of operations of the interface to its destruction, every hiredis
  context and every reply that was allocated is freed.\<close>
theorem redis_leaks_nothing:
  assumes "db_redis_create E config w = (Some c, w1)" and "redis_ctxs w = {}" and "live_replies w = {}"
    and "db_redis_connect E c w1 = (ret, c2, w2)" and "redis_do_all E ops c2 w2 = (c3, w3)"
  shows "redis_ctxs (db_redis_destroy E c3 w3) = {} \<and> live_replies (db_redis_destroy E c3 w3) = {}"
proof -
  have "redis_ctxs w1 = {}" "live_replies w1 = {}" using create_context [OF assms(1)] assms(2,3) by simp_all
  from connect_clean [OF this, of E c] assms(4) have "redis_clean c2 w2" by simp
  with good_do_all [of c2 w2 E ops] assms(5) have "redis_clean c3 w3" by (simp add: redis_good_def)
  then show ?thesis
    by (auto simp: redis_clean_def db_redis_destroy_def db_redis_disconnect_def redisFree_def)
qed

lemma redis_leaks_nothing_witness:
  "\<exists>c w1 ret c2 w2 c3 w3. db_redis_create redis_os sample_redis [] = (Some c, w1) \<and>
     db_redis_connect redis_os c w1 = (ret, c2, w2) \<and>
     redis_do_all redis_os [Cache_agent_status ''2001'' ''idle'' 0, Hgetall ''k'' 100] c2 w2 = (c3, w3) \<and>
     redis_ctxs (db_redis_destroy redis_os c3 w3) = {}"
proof -
  obtain c w1 where c: "db_redis_create redis_os sample_redis [] = (Some c, w1)"
    by (simp add: db_redis_create_def redis_os_def null_ret_def)
  obtain ret c2 w2 where d: "db_redis_connect redis_os c w1 = (ret, c2, w2)"
    by (cases "db_redis_connect redis_os c w1") auto
  let ?ops = "[Cache_agent_status ''2001'' ''idle'' 0, Hgetall ''k'' 100]"
  obtain c3 w3 where o: "redis_do_all redis_os ?ops c2 w2 = (c3, w3)"
    by (cases "redis_do_all redis_os ?ops c2 w2") auto
  from redis_leaks_nothing [OF c _ _ d o] c d o show ?thesis by (auto simp del: redis_do_all.simps)
qed

text \<open>Reconnection is limited: whatever operations are run on a context, and however often the
  server fails, no more connections are attempted than whole seconds have passed between the
  last attempt before and the last attempt after them.\<close>
theorem reconnect_limited:
  "connects (snd (redis_do_all E ops c w)) - connects w \<le>
     r_last_attempt (fst (redis_do_all E ops c w)) - r_last_attempt c"
  using good_do_all [of c w E ops] by (simp add: redis_good_def)

text \<open>With a server that answers, the agent cache is a map: after any sequence of cached agent
  states, the state read for an extension is the last one cached for it (status cut to the
  caller's buffer), and the read leaves the connection as it was.\<close>
theorem agent_cache_refines_map:
  assumes "redis_serves E (r_ctx c)" and "r_connected c" and "r_ctx c \<noteq> 0"
    and "\<forall>u\<in>set us. status_ok u" and "map_of (rev us) exten = Some (status, calls)"
    and "cache_all E us c w = (c', w')"
  shows "\<exists>w''. db_redis_get_agent_status E exten out_size c' w' =
    ((0, Some (strncpy (nat (out_size - 1)) status), Some calls), c, w'')"
proof -
  have l: "live c" using assms(2,3) by (simp add: live_def)
  have "holds Map.empty w" by (simp add: holds_def)
  from cache_all_live [OF assms(1) l assms(4) this] assms(6)
  have c: "c' = c" and h: "holds (map_of (rev us)) w'" by auto
  from get_live [OF assms(1) l h assms(5), of out_size] c show ?thesis by blast
qed

lemma agent_cache_refines_map_witness:
  "\<exists>c' w' w''. cache_all redis_os [(''2001'', ''idle'', 0), (''2002'', ''idle'', 0), (''2001'', ''busy'', 1)]
      \<lparr>r_ctx = 7, r_config = sample_redis, r_connected = True, r_retry_count = 0, r_last_attempt = 0\<rparr> [] = (c', w') \<and>
    fst (db_redis_get_agent_status redis_os ''2001'' 32 c' w') = (0, Some ''busy'', Some 1)"
proof -
  let ?us = "[(''2001'', ''idle'', 0), (''2002'', ''idle'', 0), (''2001'', ''busy'', 1)]"
  let ?c = "\<lparr>r_ctx = 7, r_config = sample_redis, r_connected = True, r_retry_count = 0, r_last_attempt = 0\<rparr>"
  obtain c' w' where r: "cache_all redis_os ?us ?c [] = (c', w')"
    by (cases "cache_all redis_os ?us ?c []") auto
  have "\<forall>u\<in>set ?us. status_ok u" by (simp add: status_ok_def plain_def int_range_def nul_def)
  from agent_cache_refines_map [OF redis_os_serves _ _ this _ r, of "''2001''" "''busy''" 1 32] r
  show ?thesis by (auto simp: strncpy_def nul_def simp del: cache_all.simps)
qed

text \<open>C30: \<open>db_redis_hgetall\<close> writes the JSON object of the fields it received, cut to the
  buffer, and it stays within the buffer exactly when the object without its closing brace
  is not longer than the buffer; one field more and \<open>snprintf\<close> is given a negative space as
  a huge \<open>size_t\<close> and writes past the end.\<close>
theorem hgetall_overrun_exact:
  assumes "0 < n"
  shows "(ob_overrun (hgetall_json n es) \<longleftrightarrow> n < int (length (CHR ''{'' # pairs_text True es))) \<and>
    (\<not> ob_overrun (hgetall_json n es) \<longrightarrow>
       ob_text (hgetall_json n es) = take (nat (n - 1)) (CHR ''{'' # pairs_text True es @ ''}''))"
  using hgetall_buf [OF assms, of es] by (simp add: buf_holds_def)

lemma hgetall_overrun_exact_witness:
  "ob_overrun (hgetall_json 15 [''status'', ''idle'']) \<and>
   ob_text (hgetall_json 64 [''status'', ''idle'']) =
     CHR ''{'' # quoted ''status'' @ '':'' @ quoted ''idle'' @ ''}''"
  using hgetall_overrun_exact [of 15 "[''status'', ''idle'']"] hgetall_overrun_exact [of 64 "[''status'', ''idle'']"]
  by (simp add: quoted_def nul_def)

end
