(* ===== verification/Db_Sync.thy ===== *)
theory Db_Sync
  imports Db_Worker Db_Seed Db_Schema Redis_Facts
begin

text \<open>
  The synchronisation layer of \<open>src/db_sync.c\<close> and \<open>include/db_sync.h\<close>, which the call logic uses: it
  writes to the Redis cache at once, queues the write to MySQL for the worker, reads through the cache, warms
  the cache up and watches over both servers. The worker's queue carries the heap of its tasks
  with it. Strings the functions test for NULL are optional; a NULL context, which they reject
  first, is not represented.
\<close>

section \<open>The context\<close>

record db_sync_context =
  sc_pool :: "mysql_pool option"
  sc_redis :: "redis_context option"
  sc_queue :: "db_task_queue \<times> heap"
  sc_worker_running :: bool
  sc_db_enabled :: bool
  sc_cache_enabled :: bool
  sc_last_health_check :: int
  sc_interval :: int

text \<open>\<open>if (sync->cache_enabled && sync->redis)\<close>: an operation on the cache, \<open>dflt\<close> without it.\<close>

definition on_cache :: "(redis_context \<Rightarrow> world \<Rightarrow> 'a \<times> redis_context \<times> world) \<Rightarrow> 'a \<Rightarrow>
    db_sync_context \<Rightarrow> world \<Rightarrow> 'a \<times> db_sync_context \<times> world" where
  "on_cache f dflt s w =
     (if sc_cache_enabled s then
        (case sc_redis s of
           None \<Rightarrow> (dflt, s, w)
         | Some c \<Rightarrow> let (r, c, w) = f c w in (r, s\<lparr>sc_redis := Some c\<rparr>, w))
      else (dflt, s, w))"

text \<open>\<open>if (sync->db_enabled && sync->worker_running)\<close>: allocate a task, pack it and push it.\<close>

definition submit_task :: "env \<Rightarrow> db_task_type \<times> bytes \<Rightarrow> db_sync_context \<Rightarrow> world \<Rightarrow> db_sync_context \<times> world" where
  "submit_task E t s w =
     (if sc_db_enabled s \<and> sc_worker_running s then
        let (m, w) = ext E (Calloc 1) w
        in (if rv m = 0 then s else s\<lparr>sc_queue := enqueue (sc_queue s) (nat (rv m)) t\<rparr>, w)
      else (s, w))"

text \<open>A pool operation whose result is kept in the context.\<close>

definition keep_pool :: "db_sync_context \<Rightarrow> ('a \<times> mysql_pool \<times> world) option \<Rightarrow>
    ('a \<times> db_sync_context \<times> world) option" where
  "keep_pool s r = map_option (\<lambda>(x, p, w). (x, s\<lparr>sc_pool := Some p\<rparr>, w)) r"

section \<open>Writing\<close>

definition db_sync_agent_status_change ::
  "env \<Rightarrow> bytes option \<Rightarrow> bytes option \<Rightarrow> int \<Rightarrow> db_sync_context \<Rightarrow> world \<Rightarrow> int \<times> db_sync_context \<times> world" where
  "db_sync_agent_status_change E extension new_status concurrent_calls s w =
     (case (extension, new_status) of
        (Some e, Some st) \<Rightarrow>
          let (r, s, w) = on_cache (db_redis_cache_agent_status E e st concurrent_calls) 0 s w;
              (s, w) = submit_task E (pack_agent_status e st concurrent_calls) s w
          in (0, s, w)
      | _ \<Rightarrow> (- 1, s, w))"

definition db_sync_agent_online ::
  "env \<Rightarrow> bytes option \<Rightarrow> int \<Rightarrow> db_sync_context \<Rightarrow> world \<Rightarrow> int \<times> db_sync_context \<times> world" where
  "db_sync_agent_online E extension is_online s w =
     (case extension of
        None \<Rightarrow> (- 1, s, w)
      | Some e \<Rightarrow>
          let (r, s, w) = on_cache (db_redis_cache_agent_online E e is_online) 0 s w;
              (s, w) = submit_task E (pack_agent_online e is_online) s w
          in (0, s, w))"

text \<open>\<open>stamp\<close> is \<open>strftime\<close> of a time; the direction is not tested and must not be NULL.\<close>

definition db_sync_call_start ::
  "env \<Rightarrow> (int \<Rightarrow> bytes) \<Rightarrow> bytes option \<Rightarrow> bytes option \<Rightarrow> bytes option \<Rightarrow> bytes \<Rightarrow> bytes option \<Rightarrow>
   db_sync_context \<Rightarrow> world \<Rightarrow> int \<times> db_sync_context \<times> world" where
  "db_sync_call_start E stamp call_id caller callee direction department s w =
     (case (call_id, caller, callee) of
        (Some i, Some a, Some b) \<Rightarrow>
          let (t, w) = ext E Time w;
              start_time = stamp (rv t);
              key = redis_key REDIS_KEY_CALL_SESSION i;
              (r, s, w) = on_cache (\<lambda>c w. let (r, c, w) = db_redis_set E key ''ringing'' c w
                                          in db_redis_expire E key 7200 c w) 0 s w;
              (s, w) = submit_task E (pack_call_start i a b direction department (Some start_time)) s w
          in (0, s, w)
      | _ \<Rightarrow> (- 1, s, w))"

definition db_sync_call_end ::
  "env \<Rightarrow> bytes option \<Rightarrow> int \<Rightarrow> int \<Rightarrow> int \<Rightarrow> bytes option \<Rightarrow> db_sync_context \<Rightarrow> world \<Rightarrow>
   int \<times> db_sync_context \<times> world" where
  "db_sync_call_end E call_id duration_sec sip_status result_code result_desc s w =
     (case call_id of
        None \<Rightarrow> (- 1, s, w)
      | Some i \<Rightarrow>
          let (r, s, w) = on_cache (db_redis_del E (redis_key REDIS_KEY_CALL_SESSION i)) 0 s w;
              (s, w) = submit_task E (pack_call_end i duration_sec sip_status result_code result_desc) s w
          in (0, s, w))"

definition db_sync_dept_idle_update ::
  "env \<Rightarrow> bytes option \<Rightarrow> int \<Rightarrow> db_sync_context \<Rightarrow> world \<Rightarrow> int \<times> db_sync_context \<times> world" where
  "db_sync_dept_idle_update E dept_key idle_count s w =
     (case dept_key of
        None \<Rightarrow> (- 1, s, w)
      | Some d \<Rightarrow> let (r, s, w) = on_cache (db_redis_update_dept_idle E d idle_count) 0 s w in (0, s, w))"

section \<open>Reading through the cache\<close>

text \<open>
  The outputs are the status and the number of calls; the callers pass both pointers. \<open>fill\<close>
  is the copy into the caller's buffer, which is left alone when its size is not positive.
\<close>

definition fill :: "int \<Rightarrow> bytes \<Rightarrow> bytes option" where
  "fill out_size t = (if 0 < out_size then Some (strncpy (nat (out_size - 1)) t) else None)"

definition db_sync_agent_status_query ::
  "env \<Rightarrow> others \<Rightarrow> bytes option \<Rightarrow> int \<Rightarrow> db_sync_context \<Rightarrow> world \<Rightarrow>
   ((int \<times> bytes option \<times> int option) \<times> db_sync_context \<times> world) option" where
  "db_sync_agent_status_query E others extension out_size s w =
     (case extension of
        None \<Rightarrow> Some ((- 1, None, None), s, w)
      | Some e \<Rightarrow>
          (case on_cache (db_redis_get_agent_status E e out_size) (- 1, None, None) s w of
             ((ret, status, calls), s, w) \<Rightarrow>
               if ret = 0 then Some ((0, status, calls), s, w)
               else
                 case (if sc_db_enabled s then sc_pool s else None) of
                   Some p \<Rightarrow>
                     (case keep_pool s (db_mysql_query_agent_single E others e 32 p w) of
                        None \<Rightarrow> None
                      | Some ((ret, status, calls), s, w) \<Rightarrow>
                          let db_status = (case status of None \<Rightarrow> [] | Some t \<Rightarrow> t);
                              (r, s, w) = (if ret = 0
                                 then on_cache (db_redis_cache_agent_status E e db_status calls) 0 s w
                                 else (0, s, w))
                          in Some ((ret, fill out_size db_status, Some calls), s, w))
                 | None \<Rightarrow> Some ((1, fill out_size ''offline'', Some 0), s, w)))"

definition db_sync_dept_idle_query ::
  "env \<Rightarrow> others \<Rightarrow> bytes option \<Rightarrow> db_sync_context \<Rightarrow> world \<Rightarrow> (int \<times> db_sync_context \<times> world) option" where
  "db_sync_dept_idle_query E others dept_key s w =
     (case dept_key of
        None \<Rightarrow> Some (- 1, s, w)
      | Some d \<Rightarrow>
          (case on_cache (db_redis_get_dept_idle E d) (- 1) s w of
             (idle, s, w) \<Rightarrow>
               if 0 \<le> idle then Some (idle, s, w)
               else
                 case (if sc_db_enabled s then sc_pool s else None) of
                   Some p \<Rightarrow>
                     (case keep_pool s (db_mysql_find_idle_agents E others d 2048 100 p w) of
                        None \<Rightarrow> None
                      | Some ((n, json), s, w) \<Rightarrow>
                          let (r, s, w) = on_cache (db_redis_update_dept_idle E d n) 0 s w
                          in Some (n, s, w))
                 | None \<Rightarrow> Some (- 1, s, w)))"

section \<open>Warming the cache up\<close>

text \<open>The loops over the rows. The first column of both queries is a key and never NULL.\<close>

definition or_text :: "bytes \<Rightarrow> bytes option \<Rightarrow> bytes" where
  "or_text d t = (case t of None \<Rightarrow> d | Some s \<Rightarrow> cstr s)"

definition dept_json :: "bytes option list \<Rightarrow> bytes" where
  "dept_json row = snprintf 2048 (concat
     [CHR ''{'' # quoted ''dept_key'' @ '':'' @ quoted (opt_str (col row 0)),
      '','' @ quoted ''dept_name'' @ '':'' @ quoted (opt_str (col row 1)),
      '','' @ quoted ''short_number'' @ '':'' @ quoted (opt_str (col row 2)),
      '','' @ quoted ''range_start'' @ '':'' @ quoted (opt_str (col row 3)),
      '','' @ quoted ''range_end'' @ '':'' @ quoted (opt_str (col row 4)),
      '','' @ quoted ''external_access'' @ '':'' @ or_text ''0'' (col row 5),
      '','' @ quoted ''min_agents_per_shift'' @ '':'' @ or_text ''1'' (col row 6), ''}''])"

fun warm_depts :: "env \<Rightarrow> bytes option list list \<Rightarrow> redis_context \<Rightarrow> world \<Rightarrow> redis_context \<times> world" where
  "warm_depts E [] c w = (c, w)"
| "warm_depts E (row # rs) c w =
     (let (r, c, w) = db_redis_cache_dept_config E (opt_str (col row 0)) (dept_json row) c w
      in warm_depts E rs c w)"

definition num_col :: "bytes option list \<Rightarrow> nat \<Rightarrow> int" where
  "num_col row k = (case col row k of None \<Rightarrow> 0 | Some t \<Rightarrow> atoi t)"

fun warm_agents :: "env \<Rightarrow> bytes option list list \<Rightarrow> redis_context \<Rightarrow> world \<Rightarrow> redis_context \<times> world" where
  "warm_agents E [] c w = (c, w)"
| "warm_agents E (row # rs) c w =
     (let exten = opt_str (col row 0); status = or_text ''offline'' (col row 2);
          (r, c, w) = db_redis_cache_agent_status E exten status (num_col row 3) c w;
          (r, c, w) = db_redis_cache_agent_online E exten (num_col row 1) c w
      in warm_agents E rs c w)"

text \<open>Query, loop over the rows, free the result.\<close>

definition warm_up :: "env \<Rightarrow> others \<Rightarrow> bytes \<Rightarrow> (bytes option list list \<Rightarrow> redis_context \<Rightarrow> world \<Rightarrow> redis_context \<times> world) \<Rightarrow>
    db_sync_context \<Rightarrow> world \<Rightarrow> (int \<times> db_sync_context \<times> world) option" where
  "warm_up E others sql loop s w =
     (if \<not> sc_db_enabled s \<or> \<not> sc_cache_enabled s then Some (- 1, s, w)
      else case (sc_pool s, sc_redis s) of
        (Some p, Some c) \<Rightarrow>
          (case keep_pool s (db_mysql_query E others sql p w) of
             None \<Rightarrow> None
           | Some (None, s, w) \<Rightarrow> Some (- 1, s, w)
           | Some (Some res, s, w) \<Rightarrow>
               let (c, w) = loop (snd res) c w
               in Some (int (length (snd res)), s\<lparr>sc_redis := Some c\<rparr>, mysql_free_result E res w))
      | _ \<Rightarrow> Some (- 1, s, w))"

definition depts_sql :: bytes where
  "depts_sql = concat [''SELECT dept_key, dept_name, short_number, '',
     ''range_start, range_end, external_access, '', ''min_agents_per_shift FROM departments'']"

definition agents_sql :: bytes where
  "agents_sql = concat [''SELECT a.extension, a.is_online, a.status, '',
     ''a.concurrent_calls, d.dept_key FROM agents a '', ''JOIN departments d ON a.department_id = d.id'']"

definition db_sync_cache_warmup_depts ::
  "env \<Rightarrow> others \<Rightarrow> db_sync_context \<Rightarrow> world \<Rightarrow> (int \<times> db_sync_context \<times> world) option" where
  "db_sync_cache_warmup_depts E others = warm_up E others depts_sql (warm_depts E)"

definition db_sync_cache_warmup_agents ::
  "env \<Rightarrow> others \<Rightarrow> db_sync_context \<Rightarrow> world \<Rightarrow> (int \<times> db_sync_context \<times> world) option" where
  "db_sync_cache_warmup_agents E others = warm_up E others agents_sql (warm_agents E)"

definition db_sync_cache_warmup_all ::
  "env \<Rightarrow> others \<Rightarrow> db_sync_context \<Rightarrow> world \<Rightarrow> (int \<times> db_sync_context \<times> world) option" where
  "db_sync_cache_warmup_all E others s w =
     (if \<not> sc_db_enabled s \<or> \<not> sc_cache_enabled s then Some (- 1, s, w)
      else
        case db_sync_cache_warmup_depts E others s w of
          None \<Rightarrow> None
        | Some (depts, s, w) \<Rightarrow>
            (case db_sync_cache_warmup_agents E others s w of
               None \<Rightarrow> None
             | Some (agents, s, w) \<Rightarrow> Some (0, s, w)))"

section \<open>Health\<close>

definition sync_status :: "db_sync_context \<Rightarrow> int" where
  "sync_status s = (if sc_db_enabled s \<or> sc_cache_enabled s then 0 else - 1)"

definition mysql_health :: "db_sync_context \<Rightarrow> db_sync_context" where
  "mysql_health s =
     (case sc_pool s of
        None \<Rightarrow> s
      | Some p \<Rightarrow>
          if sc_db_enabled s then
            if db_mysql_pool_health p \<le> 0 then s\<lparr>sc_db_enabled := False\<rparr> else s
          else if 0 < db_mysql_pool_health p then s\<lparr>sc_db_enabled := True\<rparr> else s)"

text \<open>The check of Redis, with the first of the two warm-ups after a recovery.\<close>

definition redis_health :: "env \<Rightarrow> others \<Rightarrow> db_sync_context \<Rightarrow> world \<Rightarrow> (db_sync_context \<times> world) option" where
  "redis_health E others s w =
     (case sc_redis s of
        None \<Rightarrow> Some (s, w)
      | Some c \<Rightarrow>
          if sc_cache_enabled s then
            let (r, c, w) = db_redis_ping E c w; s = s\<lparr>sc_redis := Some c\<rparr>
            in Some (if r \<noteq> 0 then s\<lparr>sc_cache_enabled := False\<rparr> else s, w)
          else
            let (r, c, w) = db_redis_ensure_connected E c w; s = s\<lparr>sc_redis := Some c\<rparr> in
            if r = 0 then
              let s = s\<lparr>sc_cache_enabled := True\<rparr> in
              if sc_db_enabled s then map_option snd (db_sync_cache_warmup_all E others s w)
              else Some (s, w)
            else Some (s, w))"

definition db_sync_health_check ::
  "env \<Rightarrow> others \<Rightarrow> db_sync_context \<Rightarrow> world \<Rightarrow> (int \<times> db_sync_context \<times> world) option" where
  "db_sync_health_check E others s w =
     (let (t, w) = ext E Time w; now = rv t in
      if now - sc_last_health_check s < sc_interval s then Some (sync_status s, s, w)
      else
        let s = mysql_health (s\<lparr>sc_last_health_check := now\<rparr>);
            was_cache_enabled = sc_cache_enabled s
        in case redis_health E others s w of
             None \<Rightarrow> None
           | Some (s, w) \<Rightarrow>
               if \<not> was_cache_enabled \<and> sc_cache_enabled s \<and> sc_db_enabled s then
                 map_option (\<lambda>(r, s, w). (sync_status s, s, w)) (db_sync_cache_warmup_all E others s w)
               else Some (sync_status s, s, w))"

section \<open>Life cycle\<close>

definition db_sync_create ::
  "env \<Rightarrow> mysql_pool option \<Rightarrow> redis_context option \<Rightarrow> world \<Rightarrow> db_sync_context option \<times> world" where
  "db_sync_create E pool redis w =
     (let (m, w) = ext E (Calloc 1) w in
      if rv m = 0 then (None, w)
      else (Some \<lparr>sc_pool = pool, sc_redis = redis, sc_queue = (queue_init, Map.empty),
              sc_worker_running = False, sc_db_enabled = False, sc_cache_enabled = False,
              sc_last_health_check = 0, sc_interval = 15\<rparr>, w))"

text \<open>
  The first step of \<open>db_sync_init\<close>: the pool, the schema and the seed data. The schema is the
  content of its file (\<open>Some None\<close> when the path does not open, \<open>None\<close> without a path).
\<close>

definition init_mysql ::
  "env \<Rightarrow> others \<Rightarrow> bytes option option \<Rightarrow> db_sync_context \<Rightarrow> world \<Rightarrow> (db_sync_context \<times> world) option" where
  "init_mysql E others schema s w =
     (case sc_pool s of
        None \<Rightarrow> Some (s, w)
      | Some p \<Rightarrow>
          (case db_mysql_pool_connect_all E p w of
             (r, p, w) \<Rightarrow>
               if r = 0 then
                 let s = s\<lparr>sc_pool := Some p, sc_db_enabled := True\<rparr> in
                 case schema of
                   None \<Rightarrow> Some (s, w)
                 | Some file \<Rightarrow>
                     (case db_mysql_init_schema E others file p w of
                        None \<Rightarrow> None
                      | Some (stmts, p, w) \<Rightarrow>
                          if 0 \<le> stmts then
                            map_option snd (keep_pool s (db_sync_seed_demo_data E others p w))
                          else Some (s\<lparr>sc_pool := Some p\<rparr>, w))
               else Some (s\<lparr>sc_pool := Some p\<rparr>, w)))"

definition init_redis :: "env \<Rightarrow> db_sync_context \<Rightarrow> world \<Rightarrow> db_sync_context \<times> world" where
  "init_redis E s w =
     (case sc_redis s of
        None \<Rightarrow> (s, w)
      | Some c \<Rightarrow>
          let (r, c, w) = db_redis_connect E c w
          in (if r = 0 then s\<lparr>sc_redis := Some c, sc_cache_enabled := True\<rparr> else s\<lparr>sc_redis := Some c\<rparr>, w))"

text \<open>\<open>thread\<close> is the result of \<open>pthread_create\<close>.\<close>

definition db_sync_init ::
  "env \<Rightarrow> others \<Rightarrow> int \<Rightarrow> bytes option option \<Rightarrow> db_sync_context \<Rightarrow> world \<Rightarrow>
   (int \<times> db_sync_context \<times> world) option" where
  "db_sync_init E others thread schema s w =
     (case init_mysql E others schema s w of
        None \<Rightarrow> None
      | Some (s, w) \<Rightarrow>
          (case init_redis E s w of
             (s, w) \<Rightarrow>
               if thread \<noteq> 0 then Some (- 1, s\<lparr>sc_worker_running := False\<rparr>, w)
               else
                 let s = s\<lparr>sc_worker_running := True\<rparr> in
                 if sc_cache_enabled s \<and> sc_db_enabled s then
                   map_option (\<lambda>(r, s, w). (0, s, w)) (db_sync_cache_warmup_all E others s w)
                 else Some (0, s, w)))"

text \<open>Destroying: the worker is stopped, what is left of the queue is freed. The result is the heap.\<close>

definition db_sync_destroy ::
  "(db_action list \<Rightarrow> bytes) \<Rightarrow> nat option \<Rightarrow> db_sync_context \<Rightarrow> db_action list \<Rightarrow> (heap \<times> db_action list) option" where
  "db_sync_destroy now stop_task s acts =
     (case db_sync_stop_worker now (sc_db_enabled s) (sc_worker_running s) stop_task (sc_queue s) acts of
        None \<Rightarrow> None
      | Some (q, acts, running) \<Rightarrow> map_option (\<lambda>(q, h). (h, acts)) (queue_destroy (fst q) (snd q)))"

section \<open>What the worker executes\<close>

text \<open>
  The worker's calls into the pool. A string the worker read from an uninitialised buffer makes
  the statement, and so the result, undefined.
\<close>

fun do_action :: "env \<Rightarrow> others \<Rightarrow> db_action \<Rightarrow> mysql_pool \<Rightarrow> world \<Rightarrow> (int \<times> mysql_pool \<times> world) option" where
  "do_action E others (Update_agent_status (Some e) (Some st) n) p w =
     db_mysql_update_agent_status E others e st n p w"
| "do_action E others (Insert_call_record (Some i) (Some a) (Some b) (Some d) (Some dept) (Some t) code desc) p w =
     db_mysql_insert_call_record E others i a b d (Some dept) t code (Some desc) p w"
| "do_action E others (Update_call_end (Some i) e d st code (Some desc)) p w =
     db_mysql_update_call_end E others i e d st code (Some desc) p w"
| "do_action E others a p w = None"

fun do_actions :: "env \<Rightarrow> others \<Rightarrow> db_action list \<Rightarrow> mysql_pool \<Rightarrow> world \<Rightarrow> (mysql_pool \<times> world) option" where
  "do_actions E others [] p w = Some (p, w)"
| "do_actions E others (a # as) p w =
     (case do_action E others a p w of
        None \<Rightarrow> None
      | Some (r, p, w) \<Rightarrow> do_actions E others as p w)"

end
