(* ===== verification/Startup.thy ===== *)
theory Startup
  imports Db_Sync
begin

text \<open>
  The start-up and the shutdown of the database layer in \<open>src/main.c\<close>, with its built-in
  configuration. \<open>Program\<close> puts them around the modes of the program.
\<close>

section \<open>The database layer\<close>

definition main_mysql_config :: mysql_config where
  "main_mysql_config = \<lparr>mc_host = ''127.0.0.1'', mc_port = 3306, mc_user = ''sip_user'',
     mc_password = ''sip_password'', mc_database = ''call_center'', mc_pool_size = MYSQL_POOL_DEFAULT_SIZE,
     mc_connect_timeout = 5, mc_read_timeout = 10\<rparr>"

definition main_redis_config :: redis_config where
  "main_redis_config = \<lparr>rc_host = ''127.0.0.1'', rc_port = 6379, rc_password = [], rc_db_index = 0,
     rc_pool_size = 10, rc_connect_timeout = 3\<rparr>"

text \<open>
  The global pointers \<open>g_mysql_pool\<close>, \<open>g_redis\<close> and \<open>g_db_sync\<close>. The context holds the same pool and
  Redis context as the first two, so these are kept only while there is no context.
\<close>

datatype database =
    No_Context "mysql_pool option" "redis_context option"
  | Context db_sync_context

fun g_mysql_pool :: "database \<Rightarrow> mysql_pool option" where
  "g_mysql_pool (No_Context p r) = p"
| "g_mysql_pool (Context s) = sc_pool s"

fun g_redis :: "database \<Rightarrow> redis_context option" where
  "g_redis (No_Context p r) = r"
| "g_redis (Context s) = sc_redis s"

text \<open>\<open>thread\<close> is the result of \<open>pthread_create\<close>, \<open>file\<close> the schema file if it can be opened.\<close>

definition init_database ::
  "env \<Rightarrow> others \<Rightarrow> int \<Rightarrow> bytes option \<Rightarrow> world \<Rightarrow> (int \<times> database \<times> world) option" where
  "init_database E others thread file w =
     (let (p, w) = db_mysql_pool_create E main_mysql_config w;
          (r, w) = db_redis_create E main_redis_config w;
          (s, w) = db_sync_create E p r w in
      case s of
        None \<Rightarrow> Some (- 1, No_Context p r, w)
      | Some s \<Rightarrow>
          map_option (\<lambda>(ret, s, w). (0, Context s, w)) (db_sync_init E others thread (Some file) s w))"

text \<open>
  What the worker still had to do when it is stopped is executed on the pool before the Redis
  context and the pool are destroyed. The result is the heap of the tasks and the trace.
\<close>

definition stop_database ::
  "env \<Rightarrow> others \<Rightarrow> (db_action list \<Rightarrow> bytes) \<Rightarrow> nat option \<Rightarrow> database \<Rightarrow> world \<Rightarrow>
   (heap \<times> mysql_pool option \<times> world) option" where
  "stop_database E others now stop_task db w =
     (case db of
        No_Context p r \<Rightarrow> Some (Map.empty, p, w)
      | Context s \<Rightarrow>
          (case db_sync_destroy now stop_task s [] of
             None \<Rightarrow> None
           | Some (h, acts) \<Rightarrow>
               (case sc_pool s of
                  None \<Rightarrow> Some (h, None, w)
                | Some p \<Rightarrow> map_option (\<lambda>(p, w). (h, Some p, w)) (do_actions E others acts p w))))"

definition shutdown_database ::
  "env \<Rightarrow> others \<Rightarrow> (db_action list \<Rightarrow> bytes) \<Rightarrow> nat option \<Rightarrow> database \<Rightarrow> world \<Rightarrow> (heap \<times> world) option" where
  "shutdown_database E others now stop_task db w =
     (case stop_database E others now stop_task db w of
        None \<Rightarrow> None
      | Some (h, p, w) \<Rightarrow>
          let w = (case g_redis db of None \<Rightarrow> w | Some c \<Rightarrow> db_redis_destroy E c w);
              w = (case p of None \<Rightarrow> w | Some p \<Rightarrow> db_mysql_pool_destroy E p w)
          in Some (h, w))"

end
