(* ===== verification/Demo.thy ===== *)
theory Demo
  imports Lua_Utils
begin

text \<open>
  The demonstrations of \<open>src/main.c\<close>: series of calls of the Lua script whose results are
  printed. A printed line is the list of the values that fill it; captions and the fixed text
  of the lines are left out. The demonstrations read the results of \<open>lua_vm_call_function\<close> from the Lua stack
  themselves, without looking at its return value; reading or popping below the bottom of the stack is
  undefined: \<open>None\<close>.
\<close>

section \<open>Printed values\<close>

datatype printed = P_str "bytes option" | P_num int | P_bool bool

definition code_name :: "int \<Rightarrow> bytes" where
  "code_name code =
     (if code = 0 then ''SUCCESS''
      else if code = 1 then ''INVALID_DIGITS''
      else if code = 2 then ''DEPT_FULL''
      else if code = 3 then ''AGENT_OFFLINE''
      else if code = 4 then ''FALLBACK_AGENT''
      else if code = 5 then ''QUEUED''
      else if code = 6 then ''NIGHT_MODE''
      else if code = 7 then ''VOICEMAIL''
      else if code = 8 then ''TIMEOUT_RETRY''
      else if code = 9 then ''INVALID_KEY_RETRY''
      else if code = 99 then ''ERROR''
      else ''UNKNOWN'')"

definition route_line :: "route_response \<Rightarrow> printed list" where
  "route_line r = [P_str (Some (code_name (r_code r))), P_str (Some (target_extension r)),
     P_str (Some (description r))]"

definition status_line :: "route_response \<Rightarrow> printed list" where
  "status_line r = [P_str (Some (code_name (r_code r))), P_str (Some (description r))]"

section \<open>Series of routings\<close>

text \<open>Each row of strings is passed to the function \<open>fn\<close>, after the response was zeroed.\<close>

fun dispatch_rows :: "'g lua_interp \<Rightarrow> bytes \<Rightarrow> (route_response \<Rightarrow> printed list) \<Rightarrow> bytes list list \<Rightarrow>
    'g lua_vm \<Rightarrow> (printed list list \<times> 'g lua_vm) option" where
  "dispatch_rows I fn line [] vm = Some ([], vm)"
| "dispatch_rows I fn line (args # rows) vm =
     (case lua_vm_route_dispatch I vm (Some fn) zero_response (Some (replicate (length args) (CHR ''s'')))
             (map (\<lambda>s. VStr (Some s)) args) of
        None \<Rightarrow> None
      | Some (ret, r, vm) \<Rightarrow>
          map_option (\<lambda>(ls, vm). (line r # ls, vm)) (dispatch_rows I fn line rows vm))"

definition demo_ivr_and_fallback :: "'g lua_interp \<Rightarrow> 'g lua_vm \<Rightarrow> (printed list list \<times> 'g lua_vm) option" where
  "demo_ivr_and_fallback I = dispatch_rows I ''get_ivr_route'' route_line
     [[''4001234567'', ''1''], [''4001234567'', ''2''], [''4001234567'', ''3''], [''4001234567'', ''0''],
      [''4001234567'', []], [''4001234567'', []],
      [''4009999999'', ''5''], [''4009999999'', ''#''], [''4009999999'', ''*'']]"

definition demo_agent_status_and_overflow ::
  "'g lua_interp \<Rightarrow> 'g lua_vm \<Rightarrow> (printed list list \<times> 'g lua_vm) option" where
  "demo_agent_status_and_overflow I vm =
     (case dispatch_rows I ''check_agent_status'' status_line
             [[''sales''], [''service''], [''market''], [''support''], [''hr''], [''rnd'']] vm of
        None \<Rightarrow> None
      | Some (ls, vm) \<Rightarrow>
          map_option (\<lambda>(ms, vm). (ls @ ms, vm))
            (dispatch_rows I ''overflow_route'' route_line
               [[''sales'', ''4008888888''], [''market'', ''4007777777'']] vm))"

definition demo_internal_call :: "'g lua_interp \<Rightarrow> 'g lua_vm \<Rightarrow> (printed list list \<times> 'g lua_vm) option" where
  "demo_internal_call I = dispatch_rows I ''dept_internal_call_route'' route_line
     [[''2001'', ''2010''], [''1001'', ''1101''], [''2001'', ''3001''], [''1301'', ''1201''],
      [''9999'', ''2001''], [''1001'', ''9999''], [''1001'', ''abc'']]"

text \<open>The main entry point; the number of calls with result 0 is printed in the end.\<close>

fun route_rows :: "'g lua_interp \<Rightarrow> (bytes \<times> bytes) list \<Rightarrow> int \<Rightarrow> 'g lua_vm \<Rightarrow>
    (printed list list \<times> 'g lua_vm) option" where
  "route_rows I [] success vm = Some ([[P_num success, P_num 8]], vm)"
| "route_rows I ((caller, digits) # rows) success vm =
     (case lua_vm_call_route I vm (Some caller) (Some digits) zero_response of
        None \<Rightarrow> None
      | Some (ret, r, vm) \<Rightarrow>
          map_option (\<lambda>(ls, vm). (route_line r # ls, vm))
            (route_rows I rows (if ret = 0 then success + 1 else success) vm))"

definition demo_route_call :: "'g lua_interp \<Rightarrow> 'g lua_vm \<Rightarrow> (printed list list \<times> 'g lua_vm) option" where
  "demo_route_call I = route_rows I
     [(''4001234567'', ''1''), (''4001234567'', ''2''), (''4001234567'', ''0''), (''4001234567'', []),
      (''unknown'', ''9''), (''2001'', ''1001''), (''1001'', ''9002''), (''1001'', ''2501'')] 0"

section \<open>Results read from the stack\<close>

text \<open>\<open>lua_getfield\<close>, a conversion and \<open>lua_pop\<close>.\<close>

definition read_field :: "'g lua_interp \<Rightarrow> bytes \<Rightarrow> (lua_value \<Rightarrow> 'a) \<Rightarrow> 'g lua_state \<Rightarrow> 'a \<times> 'g lua_state" where
  "read_field I name conv L =
     (let L = lua_getfield I name L; x = conv (lua_top L) in (x, lua_pop 1 L))"

definition as_str :: "'g lua_interp \<Rightarrow> lua_value \<Rightarrow> printed" where
  "as_str I v = P_str (lua_tostring I v)"

definition as_num :: "'g lua_interp \<Rightarrow> lua_value \<Rightarrow> printed" where
  "as_num I v = P_num (to_int32 (lua_tointeger I v))"

fun read_fields :: "'g lua_interp \<Rightarrow> (bytes \<times> (lua_value \<Rightarrow> printed)) list \<Rightarrow> 'g lua_state \<Rightarrow> printed list \<times> 'g lua_state" where
  "read_fields I [] L = ([], L)"
| "read_fields I ((name, conv) # fs) L =
     (let (x, L) = read_field I name conv L; (xs, L) = read_fields I fs L in (x # xs, L))"

text \<open>Calling a function, reading what is on top of the stack with \<open>read\<close>, and popping it.\<close>

definition call_and_read :: "'g lua_interp \<Rightarrow> bytes \<Rightarrow> bytes option \<Rightarrow> va list \<Rightarrow>
    (lua_value \<Rightarrow> 'g lua_state \<Rightarrow> (printed list list \<times> 'g lua_state) option) \<Rightarrow>
    'g lua_vm \<Rightarrow> (printed list list \<times> 'g lua_vm) option" where
  "call_and_read I fn fmt args read vm =
     (case lua_vm_call_function I vm (Some fn) fmt args of
        None \<Rightarrow> None
      | Some (ret, vm) \<Rightarrow>
          (case vm_L vm of
             None \<Rightarrow> None
           | Some L \<Rightarrow>
               if stack L = [] then None
               else map_option (\<lambda>(ls, L). (ls, vm\<lparr>vm_L := Some (lua_pop 1 L)\<rparr>)) (read (lua_top L) L)))"

definition if_table :: "('g lua_state \<Rightarrow> printed list \<times> 'g lua_state) \<Rightarrow>
    lua_value \<Rightarrow> 'g lua_state \<Rightarrow> (printed list list \<times> 'g lua_state) option" where
  "if_table read v L =
     Some (if is_lua_table v then (let (l, L) = read L in ([l], L)) else ([], L))"

definition demo_work_time :: "'g lua_interp \<Rightarrow> 'g lua_vm \<Rightarrow> (printed list list \<times> 'g lua_vm) option" where
  "demo_work_time I = call_and_read I ''get_work_time_status'' None []
     (if_table (read_fields I [(''is_work_time'', \<lambda>v. P_bool (lua_toboolean v)), (''time_desc'', as_str I)]))"

definition demo_time_judge :: "'g lua_interp \<Rightarrow> 'g lua_vm \<Rightarrow> (printed list list \<times> 'g lua_vm) option" where
  "demo_time_judge I vm =
     (case dispatch_rows I ''time_judge_route'' status_line [[]] vm of
        None \<Rightarrow> None
      | Some (ls, vm) \<Rightarrow> map_option (\<lambda>(ms, vm). (ls @ ms, vm)) (demo_work_time I vm))"

text \<open>
  The loop over the entries of the menu. Reading a field of an entry that is neither a table nor a
  string raises a Lua error outside any protected call, which aborts the process.
\<close>

fun indexable :: "lua_value \<Rightarrow> bool" where
  "indexable (LTable t) = True"
| "indexable (LString s) = True"
| "indexable v = False"

fun menu_entries :: "'g lua_interp \<Rightarrow> int list \<Rightarrow> 'g lua_state \<Rightarrow> (printed list list \<times> 'g lua_state) option" where
  "menu_entries I [] L = Some ([], L)"
| "menu_entries I (i # is) L =
     (let e = li_rawgeti I (globals L) (lua_top L) i; L = lua_push e L in
      if \<not> indexable e then None
      else
        let (l, L) = read_fields I [(''key'', as_str I), (''name'', as_str I)] L
        in map_option (\<lambda>(ls, L). (l # ls, L)) (menu_entries I is (lua_pop 1 L)))"

definition demo_menu :: "'g lua_interp \<Rightarrow> 'g lua_vm \<Rightarrow> (printed list list \<times> 'g lua_vm) option" where
  "demo_menu I = call_and_read I ''get_ivr_menu'' None []
     (\<lambda>v L. if is_lua_table v then menu_entries I [1..to_int32 (li_rawlen I (globals L) v)] L else Some ([], L))"

fun demo_departments :: "'g lua_interp \<Rightarrow> bytes list \<Rightarrow> 'g lua_vm \<Rightarrow> (printed list list \<times> 'g lua_vm) option" where
  "demo_departments I [] vm = Some ([], vm)"
| "demo_departments I (d # ds) vm =
     (case call_and_read I ''get_department_info'' (Some ''s'') [VStr (Some d)]
             (if_table (read_fields I [(''name'', as_str I), (''size'', as_num I), (''idle_agents'', as_num I)])) vm of
        None \<Rightarrow> None
      | Some (ls, vm) \<Rightarrow> map_option (\<lambda>(ms, vm). (ls @ ms, vm)) (demo_departments I ds vm))"

definition demo_config :: "'g lua_interp \<Rightarrow> 'g lua_vm \<Rightarrow> (printed list list \<times> 'g lua_vm) option" where
  "demo_config I = call_and_read I ''get_route_config'' None []
     (if_table (read_fields I [(''ivr_timeout'', as_num I), (''max_invalid_keys'', as_num I),
        (''max_queue_size'', as_num I), (''queue_timeout'', as_num I), (''fallback_agent'', as_str I),
        (''night_duty_dept'', as_str I)]))"

definition demo_prompt :: "'g lua_interp \<Rightarrow> 'g lua_vm \<Rightarrow> (printed list list \<times> 'g lua_vm) option" where
  "demo_prompt I = call_and_read I ''get_ivr_prompt'' None [] (\<lambda>v L. Some ([[as_str I v]], L))"

text \<open>One demonstration after the other.\<close>

fun demo_seq :: "('g lua_vm \<Rightarrow> (printed list list \<times> 'g lua_vm) option) list \<Rightarrow> 'g lua_vm \<Rightarrow>
    (printed list list \<times> 'g lua_vm) option" where
  "demo_seq [] vm = Some ([], vm)"
| "demo_seq (d # ds) vm =
     (case d vm of
        None \<Rightarrow> None
      | Some (ls, vm) \<Rightarrow> map_option (\<lambda>(ms, vm). (ls @ ms, vm)) (demo_seq ds vm))"

definition demo_aux_functions :: "'g lua_interp \<Rightarrow> 'g lua_vm \<Rightarrow> (printed list list \<times> 'g lua_vm) option" where
  "demo_aux_functions I = demo_seq [demo_menu I, demo_departments I [''sales'', ''support'', ''hr'', ''rnd''],
     demo_config I, demo_prompt I]"

definition lua_demos :: "'g lua_interp \<Rightarrow> 'g lua_vm \<Rightarrow> (printed list list \<times> 'g lua_vm) option" where
  "lua_demos I = demo_seq [demo_ivr_and_fallback I, demo_agent_status_and_overflow I, demo_time_judge I,
     demo_internal_call I, demo_route_call I, demo_aux_functions I]"

section \<open>Facts\<close>

text \<open>A demonstration that returns and leaves the Lua stack as it was.\<close>

definition balanced :: "('g lua_vm \<Rightarrow> (printed list list \<times> 'g lua_vm) option) \<Rightarrow> bool" where
  "balanced d \<longleftrightarrow> (\<forall>vm L. vm_L vm = Some L \<longrightarrow>
     (\<exists>ls g. d vm = Some (ls, vm\<lparr>vm_L := Some (L\<lparr>globals := g\<rparr>)\<rparr>)))"

lemma balancedD: "balanced d \<Longrightarrow> vm_L vm = Some L \<Longrightarrow> \<exists>ls g. d vm = Some (ls, vm\<lparr>vm_L := Some (L\<lparr>globals := g\<rparr>)\<rparr>)"
  by (simp add: balanced_def)

lemma balanced_skip: "balanced (\<lambda>vm. Some (ls, vm))"
  unfolding balanced_def
proof (intro allI impI)
  fix vm :: "'a lua_vm" and L
  assume "vm_L vm = Some L"
  then have "vm\<lparr>vm_L := Some (L\<lparr>globals := globals L\<rparr>)\<rparr> = vm" by simp
  then show "\<exists>ls' g. Some (ls, vm) = Some (ls', vm\<lparr>vm_L := Some (L\<lparr>globals := g\<rparr>)\<rparr>)" by metis
qed

lemma balanced_then:
  assumes "balanced d" and "balanced e"
    and h: "\<And>vm. h vm = (case d vm of None \<Rightarrow> None
      | Some (ls, vm) \<Rightarrow> map_option (\<lambda>(ms, vm). (ls @ ms, vm)) (e vm))"
  shows "balanced h"
  unfolding balanced_def
proof (intro allI impI)
  fix vm :: "'a lua_vm" and L
  assume "vm_L vm = Some L"
  with balancedD [OF assms(1)] obtain ls g where d: "d vm = Some (ls, vm\<lparr>vm_L := Some (L\<lparr>globals := g\<rparr>)\<rparr>)" by blast
  with balancedD [OF assms(2), of "vm\<lparr>vm_L := Some (L\<lparr>globals := g\<rparr>)\<rparr>" "L\<lparr>globals := g\<rparr>"] obtain ms g'
    where "e (vm\<lparr>vm_L := Some (L\<lparr>globals := g\<rparr>)\<rparr>) = Some (ms, vm\<lparr>vm_L := Some (L\<lparr>globals := g'\<rparr>)\<rparr>)" by auto
  with d show "\<exists>ls g. h vm = Some (ls, vm\<lparr>vm_L := Some (L\<lparr>globals := g\<rparr>)\<rparr>)" by (auto simp: h)
qed

lemma balanced_seq: "list_all balanced ds \<Longrightarrow> balanced (demo_seq ds)"
proof (induction ds)
  case Nil
  then show ?case using balanced_skip [of "[]"] by (simp add: balanced_def)
next
  case (Cons d ds)
  then have "balanced d" "balanced (demo_seq ds)" by simp_all
  then show ?case by (rule balanced_then) simp
qed

lemma routed_globals: "\<exists>c r g. routed I vm L f args = (c, r, vm\<lparr>vm_L := Some (L\<lparr>globals := g\<rparr>)\<rparr>)"
  by (auto simp: routed_def split: prod.split sum.split)

lemma route_balanced:
  assumes "vm_L vm = Some L" and "x = Some (if b then routed I vm L f args else (n, r0, vm))"
  shows "\<exists>c r g. x = Some (c, r, vm\<lparr>vm_L := Some (L\<lparr>globals := g\<rparr>)\<rparr>)"
proof -
  have "vm\<lparr>vm_L := Some (L\<lparr>globals := globals L\<rparr>)\<rparr> = vm" using assms(1) by simp
  then have "\<exists>g. vm = vm\<lparr>vm_L := Some (L\<lparr>globals := g\<rparr>)\<rparr>" by metis
  with routed_globals [of I vm L f args] assms(2) show ?thesis by (cases b) simp_all
qed

lemma strings_match: "nul \<noteq> CHR ''s'' \<and> fmt_matches False (cstr (replicate (length args) (CHR ''s''))) (map (\<lambda>s. VStr (Some s)) args)"
proof -
  have "cstr (replicate n (CHR ''s'')) = replicate n (CHR ''s'')" for n by (rule cstr_id) (simp add: nul_def)
  moreover have "fmt_matches False (replicate (length args) (CHR ''s'')) (map (\<lambda>s. VStr (Some s)) args)"
    by (induction args) simp_all
  ultimately show ?thesis by (simp add: nul_def)
qed

lemma dispatch_balanced: "balanced (dispatch_rows I fn line rows)"
proof (induction rows)
  case Nil
  then show ?case using balanced_skip [of "[]"] by (simp add: balanced_def)
next
  case (Cons args rows)
  show ?case
    unfolding balanced_def
  proof (intro allI impI)
    fix vm :: "'a lua_vm" and L
    assume vm: "vm_L vm = Some L"
    note route_dispatch_result [OF vm strings_match [THEN conjunct2], where fn = fn and resp = zero_response and I = I]
    from route_balanced [OF vm this [of args]] obtain c r g where
      x: "lua_vm_route_dispatch I vm (Some fn) zero_response (Some (replicate (length args) (CHR ''s'')))
        (map (\<lambda>s. VStr (Some s)) args) = Some (c, r, vm\<lparr>vm_L := Some (L\<lparr>globals := g\<rparr>)\<rparr>)" by blast
    from balancedD [OF Cons, of "vm\<lparr>vm_L := Some (L\<lparr>globals := g\<rparr>)\<rparr>" "L\<lparr>globals := g\<rparr>"] x
    show "\<exists>ls g. dispatch_rows I fn line (args # rows) vm = Some (ls, vm\<lparr>vm_L := Some (L\<lparr>globals := g\<rparr>)\<rparr>)"
      by auto
  qed
qed

lemma route_rows_balanced: "balanced (route_rows I rows n)"
proof (induction rows arbitrary: n)
  case Nil
  then show ?case using balanced_skip [of "[[P_num n, P_num 8]]"] by (simp add: balanced_def)
next
  case (Cons row rows)
  obtain a b where row: "row = (a, b)" by (cases row)
  show ?case
    unfolding balanced_def
  proof (intro allI impI)
    fix vm :: "'a lua_vm" and L
    assume vm: "vm_L vm = Some L"
    from route_balanced [OF vm lua_call_route_some [OF vm, of I "Some a" b zero_response]] obtain c r g where
      x: "lua_vm_call_route I vm (Some a) (Some b) zero_response =
        Some (c, r, vm\<lparr>vm_L := Some (L\<lparr>globals := g\<rparr>)\<rparr>)" by blast
    from balancedD [OF Cons [of "if c = 0 then n + 1 else n"], of "vm\<lparr>vm_L := Some (L\<lparr>globals := g\<rparr>)\<rparr>"
        "L\<lparr>globals := g\<rparr>"] x
    show "\<exists>ls g. route_rows I (row # rows) n vm = Some (ls, vm\<lparr>vm_L := Some (L\<lparr>globals := g\<rparr>)\<rparr>)"
      by (auto simp: row)
  qed
qed

text \<open>The functions of the script that return a value whatever they are called with.\<close>

definition returns :: "'g lua_interp \<Rightarrow> bytes \<Rightarrow> bool" where
  "returns I fn \<longleftrightarrow> (\<forall>g args. is_lua_function (li_getglobal I g fn) \<and>
     (\<exists>v g'. li_call I g (li_getglobal I g fn) args = (Inr v, g')))"

lemma call_function_result:
  assumes "vm_L vm = Some L" and "case fmt of None \<Rightarrow> args = [] | Some f \<Rightarrow> fmt_matches True (cstr f) args"
  shows "lua_vm_call_function I vm (Some fn) fmt args = Some
    (if is_lua_function (li_getglobal I (globals L) fn)
     then (case li_call I (globals L) (li_getglobal I (globals L) fn) (map va_value args) of
             (Inl e, g) \<Rightarrow> (- 1, vm\<lparr>vm_L := Some (L\<lparr>globals := g\<rparr>)\<rparr>)
           | (Inr v, g) \<Rightarrow> (0, vm\<lparr>vm_L := Some (L\<lparr>globals := g, stack := v # stack L\<rparr>)\<rparr>))
     else (- 1, vm))"
proof -
  let ?f = "li_getglobal I (globals L) fn"
  let ?L = "L\<lparr>stack := rev (map va_value args) @ ?f # stack L\<rparr>"
  have vm: "vm\<lparr>vm_L := Some L\<rparr> = vm" using assms(1) by simp
  let ?M = "L\<lparr>stack := ?f # stack L\<rparr>"
  have push: "(case fmt of None \<Rightarrow> Some (0, ?M) | Some f \<Rightarrow> push_args True (cstr f) args 0 ?M) =
      Some (length args, ?L)"
  proof (cases fmt)
    case (Some f)
    with assms(2) push_args_matching [of True "cstr f" args 0 ?M] show ?thesis by simp
  qed (use assms(2) in simp)
  have "lua_pcall I (length (map va_value args)) 1 ?L =
    Some (case li_call I (globals ?L) ?f (map va_value args) of
     (Inl e, g) \<Rightarrow> (False, \<lparr>globals = g, stack = e # stack L\<rparr>)
   | (Inr v, g) \<Rightarrow> (True, \<lparr>globals = g, stack = v # stack L\<rparr>))"
    by (rule lua_pcall_args) simp
  moreover have "\<lparr>globals = g, stack = s\<rparr> = L\<lparr>globals := g, stack := s\<rparr>" for g s by (cases L) simp
  ultimately show ?thesis
    using assms(1) vm push
    by (auto simp: lua_vm_call_function_def Let_def lua_stack_defs
        split: prod.splits sum.splits)
qed

lemma call_balanced:
  assumes "returns I fn" and "case fmt of None \<Rightarrow> args = [] | Some f \<Rightarrow> fmt_matches True (cstr f) args"
    and "\<And>v L. stack L \<noteq> [] \<Longrightarrow> v = lua_top L \<Longrightarrow> \<exists>ls. read v L = Some (ls, L)"
  shows "balanced (call_and_read I fn fmt args read)"
  unfolding balanced_def
proof (intro allI impI)
  fix vm :: "'a lua_vm" and L
  assume vm: "vm_L vm = Some L"
  from assms(1) obtain v g where c: "is_lua_function (li_getglobal I (globals L) fn)"
    "li_call I (globals L) (li_getglobal I (globals L) fn) (map va_value args) = (Inr v, g)"
    unfolding returns_def by blast
  let ?L = "L\<lparr>globals := g, stack := v # stack L\<rparr>"
  from assms(3) [of ?L v] obtain ls where r: "read v ?L = Some (ls, ?L)" by auto
  show "\<exists>ls g. call_and_read I fn fmt args read vm = Some (ls, vm\<lparr>vm_L := Some (L\<lparr>globals := g\<rparr>)\<rparr>)"
    by (cases L) (use vm c r in \<open>auto simp: call_and_read_def call_function_result [OF vm assms(2)] lua_pop_def\<close>)
qed

lemma read_field_keeps [simp]: "snd (read_field I name conv L) = L"
  by (simp add: read_field_def lua_stack_defs)

lemma read_fields_keep [simp]: "snd (read_fields I fs L) = L"
proof (induction fs arbitrary: L)
  case (Cons f fs)
  then show ?case by (cases f) (simp add: split_beta)
qed simp

lemma if_table_keeps: "\<exists>ls. if_table (read_fields I fs) v L = Some (ls, L)"
  by (simp add: if_table_def split_beta)

lemma menu_keeps:
  assumes "\<And>g t i. indexable (li_rawgeti I g t i)"
  shows "\<exists>ls. menu_entries I is L = Some (ls, L)"
proof (induction "is" arbitrary: L)
  case (Cons i "is")
  let ?L = "lua_push (li_rawgeti I (globals L) (lua_top L) i) L"
  have "lua_pop 1 (snd (read_fields I fs ?L)) = L" for fs by (simp add: lua_stack_defs)
  with Cons.IH [of L] assms show ?case by (fastforce simp: Let_def split_beta)
qed simp

section \<open>Properties\<close>

text \<open>The functions whose results the demonstrations read from the stack themselves.\<close>

definition read_functions :: "bytes list" where
  "read_functions = [''get_work_time_status'', ''get_ivr_menu'', ''get_department_info'', ''get_route_config'',
     ''get_ivr_prompt'']"

lemma work_time_balanced: "returns I ''get_work_time_status'' \<Longrightarrow> balanced (demo_work_time I)"
  unfolding demo_work_time_def by (rule call_balanced) (simp_all add: if_table_keeps)

lemma time_judge_balanced: "returns I ''get_work_time_status'' \<Longrightarrow> balanced (demo_time_judge I)"
  by (erule balanced_then [OF dispatch_balanced work_time_balanced]) (rule demo_time_judge_def)

lemma overflow_balanced: "balanced (demo_agent_status_and_overflow I)"
  by (rule balanced_then [OF dispatch_balanced dispatch_balanced]) (rule demo_agent_status_and_overflow_def)

lemma menu_balanced:
  assumes "returns I ''get_ivr_menu''" and "\<And>g t i. indexable (li_rawgeti I g t i)"
  shows "balanced (demo_menu I)"
  unfolding demo_menu_def using menu_keeps [of I] assms by (intro call_balanced) simp_all

lemma departments_balanced: "returns I ''get_department_info'' \<Longrightarrow> balanced (demo_departments I ds)"
proof (induction ds)
  case Nil
  then show ?case using balanced_skip [of "[]"] by (simp add: balanced_def)
next
  case (Cons d ds)
  have "balanced (call_and_read I ''get_department_info'' (Some ''s'') [VStr (Some d)] (if_table (read_fields I fs)))" for fs
    by (rule call_balanced [OF Cons.prems]) (simp_all add: if_table_keeps nul_def)
  then show ?case
    by (rule balanced_then [OF _ Cons.IH [OF Cons.prems]]) (rule demo_departments.simps(2))
qed

lemma config_balanced: "returns I ''get_route_config'' \<Longrightarrow> balanced (demo_config I)"
  unfolding demo_config_def by (rule call_balanced) (simp_all add: if_table_keeps)

lemma prompt_balanced: "returns I ''get_ivr_prompt'' \<Longrightarrow> balanced (demo_prompt I)"
  unfolding demo_prompt_def by (rule call_balanced) simp_all

text \<open>With a script whose auxiliary functions return, and whose menu is a list of tables or strings,
  all demonstrations that call the script run to their end and leave the Lua stack as it was, whatever
  the routing functions do, failing included.\<close>
theorem demos_leave_stack:
  assumes "vm_L vm = Some L" and "list_all (returns I) read_functions"
    and "\<And>g t i. indexable (li_rawgeti I g t i)"
  shows "\<exists>ls g. lua_demos I vm = Some (ls, vm\<lparr>vm_L := Some (L\<lparr>globals := g\<rparr>)\<rparr>)"
proof -
  have r: "returns I ''get_work_time_status''" "returns I ''get_ivr_menu''" "returns I ''get_department_info''"
    "returns I ''get_route_config''" "returns I ''get_ivr_prompt''"
    using assms(2) by (simp_all add: read_functions_def)
  have "balanced (demo_aux_functions I)"
    unfolding demo_aux_functions_def using r assms(3)
    by (intro balanced_seq) (simp add: menu_balanced departments_balanced config_balanced prompt_balanced)
  then have "balanced (lua_demos I)"
    unfolding lua_demos_def using r(1)
    by (intro balanced_seq) (simp add: demo_ivr_and_fallback_def dispatch_balanced overflow_balanced time_judge_balanced
        demo_internal_call_def demo_route_call_def route_rows_balanced)
  from balancedD [OF this assms(1)] show ?thesis .
qed

definition complete_interp :: "nat lua_interp" where
  "complete_interp = sample_interp\<lparr>li_getglobal := \<lambda>g n. LFunction 0, li_rawlen := \<lambda>g t. 4,
     li_rawgeti := \<lambda>g t i. LTable 7\<rparr>"

lemma demos_leave_stack_witness:
  "\<exists>ls g. lua_demos complete_interp sample_vm =
    Some (ls, sample_vm\<lparr>vm_L := Some \<lparr>globals = g, stack = []\<rparr>\<rparr>)"
proof -
  have v: "vm_L sample_vm = Some \<lparr>globals = 0, stack = []\<rparr>" by simp
  have "returns complete_interp fn" for fn by (simp add: returns_def complete_interp_def)
  then have r: "list_all (returns complete_interp) read_functions" by (simp add: list_all_iff)
  have "indexable (li_rawgeti complete_interp g t i)" for g t i by (simp add: complete_interp_def)
  from demos_leave_stack [OF v r this] show ?thesis by simp
qed

text \<open>The demonstration of the time judgement reads and pops a result that is not there when
  \<open>get_work_time_status\<close> is missing or fails: on an otherwise empty Lua stack its behaviour is
  undefined in exactly these cases.\<close>
theorem work_time_underflow_exact:
  assumes "vm_L vm = Some L" and "stack L = []"
  shows "demo_work_time I vm = None \<longleftrightarrow>
    \<not> is_lua_function (li_getglobal I (globals L) ''get_work_time_status'') \<or>
    (\<exists>e g. li_call I (globals L) (li_getglobal I (globals L) ''get_work_time_status'') [] = (Inl e, g))"
  using assms(2)
  by (auto simp: demo_work_time_def call_and_read_def call_function_result [OF assms(1)] assms(1)
      if_table_def split: prod.split sum.split)

lemma work_time_underflow_exact_witness: "demo_work_time sample_interp sample_vm = None"
  using work_time_underflow_exact [of sample_vm "\<lparr>globals = 0, stack = []\<rparr>" sample_interp] by simp

end
