(* ===== verification/Call_Test.thy ===== *)
theory Call_Test
  imports Db_Sync Lua_Utils
begin

text \<open>
  The call test of \<open>src/call_test.c\<close>: fifty simulated calls, each recorded through the
  synchronisation layer and routed by the Lua script, and the statistics of the run. What is
  printed is a record of the numbers and texts that fill the lines; the fixed text around them is left
  out. \<open>strftime\<close> with the two formats the code uses is a parameter: \<open>compact\<close> for the call
  identifier, \<open>stamp\<close> for the start time. The strings of the table are the UTF-8 bytes of the
  source. The worker may take tasks while the test sleeps; by \<open>queue_exactly_once\<close> it then takes
  the tasks queued here in the same order, and here they stay queued until it is stopped.
\<close>

section \<open>Cases\<close>

record call_test_case =
  call_no :: int
  scenario :: bytes
  tc_caller :: bytes
  tc_digits :: "bytes option"
  expected :: bytes
  tc_direction :: bytes

definition result_label :: "int \<Rightarrow> bytes" where
  "result_label code = (
   if code = 0 then ([CHR 0xE2, CHR 0x9C, CHR 0x93] @ '' '' @ [CHR 0xE6, CHR 0x88, CHR 0x90,
      CHR 0xE5, CHR 0x8A, CHR 0x9F])
   else if code = 1 then ([CHR 0xE2, CHR 0x9C, CHR 0x97] @ '' '' @ [CHR 0xE6, CHR 0x97, CHR 0xA0,
      CHR 0xE6, CHR 0x95, CHR 0x88, CHR 0xE5, CHR 0x8F, CHR 0xB7, CHR 0xE7, CHR 0xA0, CHR 0x81])
   else if code = 2 then ([CHR 0xE2, CHR 0x9A, CHR 0xA0] @ '' '' @ [CHR 0xE5, CHR 0x85, CHR 0xA8,
      CHR 0xE5, CHR 0xBF, CHR 0x99])
   else if code = 3 then ([CHR 0xE2, CHR 0x9A, CHR 0xA0] @ '' '' @ [CHR 0xE7, CHR 0xA6, CHR 0xBB,
      CHR 0xE7, CHR 0xBA, CHR 0xBF])
   else if code = 4 then ([CHR 0xE2, CHR 0x86, CHR 0x92] @ '' '' @ [CHR 0xE5, CHR 0x85, CHR 0x9C,
      CHR 0xE5, CHR 0xBA, CHR 0x95, CHR 0xE8, CHR 0xBD, CHR 0xAC, CHR 0xE6, CHR 0x8E, CHR 0xA5])
   else if code = 5 then ([CHR 0xE2, CHR 0x8F, CHR 0xB3] @ '' '' @ [CHR 0xE6, CHR 0x8E, CHR 0x92,
      CHR 0xE9, CHR 0x98, CHR 0x9F, CHR 0xE4, CHR 0xB8, CHR 0xAD])
   else if code = 6 then ([CHR 0xF0, CHR 0x9F, CHR 0x8C, CHR 0x99] @ '' '' @ [CHR 0xE5, CHR 0xA4,
      CHR 0x9C, CHR 0xE9, CHR 0x97, CHR 0xB4, CHR 0xE6, CHR 0xA8, CHR 0xA1, CHR 0xE5, CHR 0xBC,
      CHR 0x8F])
   else if code = 7 then ([CHR 0xF0, CHR 0x9F, CHR 0x93, CHR 0x9D] @ '' '' @ [CHR 0xE7, CHR 0x95,
      CHR 0x99, CHR 0xE8, CHR 0xA8, CHR 0x80])
   else if code = 8 then ([CHR 0xE2, CHR 0x8F, CHR 0xB0] @ '' '' @ [CHR 0xE8, CHR 0xB6, CHR 0x85,
      CHR 0xE6, CHR 0x97, CHR 0xB6, CHR 0xE9, CHR 0x87, CHR 0x8D, CHR 0xE8, CHR 0xAF, CHR 0x95])
   else if code = 9 then ([CHR 0xF0, CHR 0x9F, CHR 0x94, CHR 0x81] @ '' '' @ [CHR 0xE6, CHR 0x97,
      CHR 0xA0, CHR 0xE6, CHR 0x95, CHR 0x88, CHR 0xE6, CHR 0x8C, CHR 0x89, CHR 0xE9, CHR 0x94,
      CHR 0xAE, CHR 0xE9, CHR 0x87, CHR 0x8D, CHR 0xE8, CHR 0xAF, CHR 0x95])
   else if code = 99 then ([CHR 0xF0, CHR 0x9F, CHR 0x92, CHR 0xA5] @ '' '' @ [CHR 0xE9, CHR 0x94,
      CHR 0x99, CHR 0xE8, CHR 0xAF, CHR 0xAF])
   else ([CHR 0xE2, CHR 0x9D, CHR 0x93] @ '' '' @ [CHR 0xE6, CHR 0x9C, CHR 0xAA, CHR 0xE7, CHR 0x9F,
       CHR 0xA5]))"

definition test_cases :: "call_test_case list" where
  "test_cases =
    [call_test_case.make 1 (''IVR'' @ [CHR 0xE6, CHR 0x8C, CHR 0x89, CHR 0xE9, CHR 0x94, CHR 0xAE]
       @ ''[1]'' @ [CHR 0xE2, CHR 0x86, CHR 0x92, CHR 0xE9, CHR 0x94, CHR 0x80, CHR 0xE5, CHR 0x94,
       CHR 0xAE, CHR 0xE9, CHR 0x83, CHR 0xA8]) ''4001234567'' (Some ''1'') ''SUCCESS'' ''inbound'',
     call_test_case.make 2 (''IVR'' @ [CHR 0xE6, CHR 0x8C, CHR 0x89, CHR 0xE9, CHR 0x94, CHR 0xAE] @
       ''[1]'' @ [CHR 0xE2, CHR 0x86, CHR 0x92, CHR 0xE9, CHR 0x94, CHR 0x80, CHR 0xE5, CHR 0x94,
       CHR 0xAE, CHR 0xE9, CHR 0x83, CHR 0xA8]) ''4002222222'' (Some ''1'') ''SUCCESS'' ''inbound'',
     call_test_case.make 3 (''IVR'' @ [CHR 0xE6, CHR 0x8C, CHR 0x89, CHR 0xE9, CHR 0x94, CHR 0xAE] @
       ''[1]'' @ [CHR 0xE2, CHR 0x86, CHR 0x92, CHR 0xE9, CHR 0x94, CHR 0x80, CHR 0xE5, CHR 0x94,
       CHR 0xAE, CHR 0xE9, CHR 0x83, CHR 0xA8]) ''4003333333'' (Some ''1'') ''SUCCESS'' ''inbound'',
     call_test_case.make 4 (''IVR'' @ [CHR 0xE6, CHR 0x8C, CHR 0x89, CHR 0xE9, CHR 0x94, CHR 0xAE] @
       ''[1]'' @ [CHR 0xE2, CHR 0x86, CHR 0x92, CHR 0xE9, CHR 0x94, CHR 0x80, CHR 0xE5, CHR 0x94,
       CHR 0xAE, CHR 0xE9, CHR 0x83, CHR 0xA8]) ''4004444444'' (Some ''1'') ''SUCCESS'' ''inbound'',
     call_test_case.make 5 (''IVR'' @ [CHR 0xE6, CHR 0x8C, CHR 0x89, CHR 0xE9, CHR 0x94, CHR 0xAE] @
       ''[1]'' @ [CHR 0xE2, CHR 0x86, CHR 0x92, CHR 0xE9, CHR 0x94, CHR 0x80, CHR 0xE5, CHR 0x94,
       CHR 0xAE, CHR 0xE9, CHR 0x83, CHR 0xA8]) ''4005555555'' (Some ''1'') ''SUCCESS'' ''inbound'',
     call_test_case.make 6 (''IVR'' @ [CHR 0xE6, CHR 0x8C, CHR 0x89, CHR 0xE9, CHR 0x94, CHR 0xAE] @
       ''[2]'' @ [CHR 0xE2, CHR 0x86, CHR 0x92, CHR 0xE5, CHR 0x94, CHR 0xAE, CHR 0xE5, CHR 0x90,
       CHR 0x8E, CHR 0xE9, CHR 0x83, CHR 0xA8]) ''4006666666'' (Some ''2'') ''SUCCESS'' ''inbound'',
     call_test_case.make 7 (''IVR'' @ [CHR 0xE6, CHR 0x8C, CHR 0x89, CHR 0xE9, CHR 0x94, CHR 0xAE] @
       ''[2]'' @ [CHR 0xE2, CHR 0x86, CHR 0x92, CHR 0xE5, CHR 0x94, CHR 0xAE, CHR 0xE5, CHR 0x90,
       CHR 0x8E, CHR 0xE9, CHR 0x83, CHR 0xA8]) ''4007777777'' (Some ''2'') ''SUCCESS'' ''inbound'',
     call_test_case.make 8 (''IVR'' @ [CHR 0xE6, CHR 0x8C, CHR 0x89, CHR 0xE9, CHR 0x94, CHR 0xAE] @
       ''[2]'' @ [CHR 0xE2, CHR 0x86, CHR 0x92, CHR 0xE5, CHR 0x94, CHR 0xAE, CHR 0xE5, CHR 0x90,
       CHR 0x8E, CHR 0xE9, CHR 0x83, CHR 0xA8]) ''4008888888'' (Some ''2'') ''SUCCESS'' ''inbound'',
     call_test_case.make 9 (''IVR'' @ [CHR 0xE6, CHR 0x8C, CHR 0x89, CHR 0xE9, CHR 0x94, CHR 0xAE] @
       ''[2]'' @ [CHR 0xE2, CHR 0x86, CHR 0x92, CHR 0xE5, CHR 0x94, CHR 0xAE, CHR 0xE5, CHR 0x90,
       CHR 0x8E, CHR 0xE9, CHR 0x83, CHR 0xA8]) ''4009999999'' (Some ''2'') ''SUCCESS'' ''inbound'',
     call_test_case.make 10 (''IVR'' @ [CHR 0xE6, CHR 0x8C, CHR 0x89, CHR 0xE9, CHR 0x94, CHR 0xAE]
       @ ''[2]'' @ [CHR 0xE2, CHR 0x86, CHR 0x92, CHR 0xE5, CHR 0x94, CHR 0xAE, CHR 0xE5, CHR 0x90,
       CHR 0x8E, CHR 0xE9, CHR 0x83, CHR 0xA8]) ''4000000001'' (Some ''2'') ''SUCCESS'' ''inbound'',
     call_test_case.make 11 (''IVR'' @ [CHR 0xE6, CHR 0x8C, CHR 0x89, CHR 0xE9, CHR 0x94, CHR 0xAE]
       @ ''[3]'' @ [CHR 0xE2, CHR 0x86, CHR 0x92, CHR 0xE5, CHR 0xB8, CHR 0x82, CHR 0xE5, CHR 0x9C,
       CHR 0xBA, CHR 0xE9, CHR 0x83, CHR 0xA8]) ''4001111112'' (Some ''3'') ''SUCCESS'' ''inbound'',
     call_test_case.make 12 (''IVR'' @ [CHR 0xE6, CHR 0x8C, CHR 0x89, CHR 0xE9, CHR 0x94, CHR 0xAE]
       @ ''[3]'' @ [CHR 0xE2, CHR 0x86, CHR 0x92, CHR 0xE5, CHR 0xB8, CHR 0x82, CHR 0xE5, CHR 0x9C,
       CHR 0xBA, CHR 0xE9, CHR 0x83, CHR 0xA8]) ''4001111113'' (Some ''3'') ''SUCCESS'' ''inbound'',
     call_test_case.make 13 (''IVR'' @ [CHR 0xE6, CHR 0x8C, CHR 0x89, CHR 0xE9, CHR 0x94, CHR 0xAE]
       @ ''[3]'' @ [CHR 0xE2, CHR 0x86, CHR 0x92, CHR 0xE5, CHR 0xB8, CHR 0x82, CHR 0xE5, CHR 0x9C,
       CHR 0xBA, CHR 0xE9, CHR 0x83, CHR 0xA8]) ''4001111114'' (Some ''3'') ''SUCCESS'' ''inbound'',
     call_test_case.make 14 (''IVR'' @ [CHR 0xE6, CHR 0x8C, CHR 0x89, CHR 0xE9, CHR 0x94, CHR 0xAE]
       @ ''[0]'' @ [CHR 0xE2, CHR 0x86, CHR 0x92, CHR 0xE4, CHR 0xBA, CHR 0xBA, CHR 0xE5, CHR 0xB7,
       CHR 0xA5, CHR 0xE5, CHR 0x8F, CHR 0xB0]) ''4001111115'' (Some ''0'') ''SUCCESS'' ''inbound'',
     call_test_case.make 15 (''IVR'' @ [CHR 0xE6, CHR 0x8C, CHR 0x89, CHR 0xE9, CHR 0x94, CHR 0xAE]
       @ ''[0]'' @ [CHR 0xE2, CHR 0x86, CHR 0x92, CHR 0xE4, CHR 0xBA, CHR 0xBA, CHR 0xE5, CHR 0xB7,
       CHR 0xA5, CHR 0xE5, CHR 0x8F, CHR 0xB0]) ''4001111116'' (Some ''0'') ''SUCCESS'' ''inbound'',
     call_test_case.make 16 (''IVR'' @ [CHR 0xE6, CHR 0x8C, CHR 0x89, CHR 0xE9, CHR 0x94, CHR 0xAE]
       @ ''[0]'' @ [CHR 0xE2, CHR 0x86, CHR 0x92, CHR 0xE4, CHR 0xBA, CHR 0xBA, CHR 0xE5, CHR 0xB7,
       CHR 0xA5, CHR 0xE5, CHR 0x8F, CHR 0xB0]) ''4001111117'' (Some ''0'') ''SUCCESS'' ''inbound'',
     call_test_case.make 17 [CHR 0xE5, CHR 0x86, CHR 0x85, CHR 0xE9, CHR 0x83, CHR 0xA8, CHR 0xE4,
       CHR 0xBA, CHR 0x92, CHR 0xE5, CHR 0x91, CHR 0xBC, CHR 0xE2, CHR 0x86, CHR 0x92, CHR 0xE5,
       CHR 0x90, CHR 0x8C, CHR 0xE9, CHR 0x83, CHR 0xA8, CHR 0xE9, CHR 0x97, CHR 0xA8, CHR 0xE9,
       CHR 0x94, CHR 0x80, CHR 0xE5, CHR 0x94, CHR 0xAE] ''2001'' (Some ''2010'') ''SUCCESS''
       ''internal'',
     call_test_case.make 18 [CHR 0xE5, CHR 0x86, CHR 0x85, CHR 0xE9, CHR 0x83, CHR 0xA8, CHR 0xE4,
       CHR 0xBA, CHR 0x92, CHR 0xE5, CHR 0x91, CHR 0xBC, CHR 0xE2, CHR 0x86, CHR 0x92, CHR 0xE5,
       CHR 0x90, CHR 0x8C, CHR 0xE9, CHR 0x83, CHR 0xA8, CHR 0xE9, CHR 0x97, CHR 0xA8, CHR 0xE5,
       CHR 0x94, CHR 0xAE, CHR 0xE5, CHR 0x90, CHR 0x8E] ''2501'' (Some ''2510'') ''SUCCESS''
       ''internal'',
     call_test_case.make 19 [CHR 0xE5, CHR 0x86, CHR 0x85, CHR 0xE9, CHR 0x83, CHR 0xA8, CHR 0xE4,
       CHR 0xBA, CHR 0x92, CHR 0xE5, CHR 0x91, CHR 0xBC, CHR 0xE2, CHR 0x86, CHR 0x92, CHR 0xE5,
       CHR 0x90, CHR 0x8C, CHR 0xE9, CHR 0x83, CHR 0xA8, CHR 0xE9, CHR 0x97, CHR 0xA8, CHR 0xE7,
       CHR 0xA0, CHR 0x94, CHR 0xE5, CHR 0x8F, CHR 0x91] ''3001'' (Some ''3010'') ''SUCCESS''
       ''internal'',
     call_test_case.make 20 [CHR 0xE5, CHR 0x86, CHR 0x85, CHR 0xE9, CHR 0x83, CHR 0xA8, CHR 0xE4,
       CHR 0xBA, CHR 0x92, CHR 0xE5, CHR 0x91, CHR 0xBC, CHR 0xE2, CHR 0x86, CHR 0x92, CHR 0xE5,
       CHR 0x90, CHR 0x8C, CHR 0xE9, CHR 0x83, CHR 0xA8, CHR 0xE9, CHR 0x97, CHR 0xA8, CHR 0xE4,
       CHR 0xBA, CHR 0xBA, CHR 0xE4, CHR 0xBA, CHR 0x8B] ''1001'' (Some ''1010'') ''SUCCESS''
       ''internal'',
     call_test_case.make 21 [CHR 0xE5, CHR 0x86, CHR 0x85, CHR 0xE9, CHR 0x83, CHR 0xA8, CHR 0xE4,
       CHR 0xBA, CHR 0x92, CHR 0xE5, CHR 0x91, CHR 0xBC, CHR 0xE2, CHR 0x86, CHR 0x92, CHR 0xE4,
       CHR 0xBA, CHR 0xBA, CHR 0xE4, CHR 0xBA, CHR 0x8B, CHR 0xE6, CHR 0x8B, CHR 0xA8, CHR 0xE8,
       CHR 0xB4, CHR 0xA2, CHR 0xE5, CHR 0x8A, CHR 0xA1] ''1001'' (Some ''1101'') ''SUCCESS''
       ''internal'',
     call_test_case.make 22 [CHR 0xE5, CHR 0x86, CHR 0x85, CHR 0xE9, CHR 0x83, CHR 0xA8, CHR 0xE4,
       CHR 0xBA, CHR 0x92, CHR 0xE5, CHR 0x91, CHR 0xBC, CHR 0xE2, CHR 0x86, CHR 0x92, CHR 0xE9,
       CHR 0x94, CHR 0x80, CHR 0xE5, CHR 0x94, CHR 0xAE, CHR 0xE6, CHR 0x8B, CHR 0xA8, CHR 0xE7,
       CHR 0xA0, CHR 0x94, CHR 0xE5, CHR 0x8F, CHR 0x91] ''2001'' (Some ''3001'') ''SUCCESS''
       ''internal'',
     call_test_case.make 23 [CHR 0xE5, CHR 0x86, CHR 0x85, CHR 0xE9, CHR 0x83, CHR 0xA8, CHR 0xE4,
       CHR 0xBA, CHR 0x92, CHR 0xE5, CHR 0x91, CHR 0xBC, CHR 0xE2, CHR 0x86, CHR 0x92, CHR 0xE7,
       CHR 0xAE, CHR 0xA1, CHR 0xE7, CHR 0x90, CHR 0x86, CHR 0xE6, CHR 0x8B, CHR 0xA8, CHR 0xE8,
       CHR 0xA1, CHR 0x8C, CHR 0xE6, CHR 0x94, CHR 0xBF] ''1301'' (Some ''1201'') ''SUCCESS''
       ''internal'',
     call_test_case.make 24 [CHR 0xE5, CHR 0x86, CHR 0x85, CHR 0xE9, CHR 0x83, CHR 0xA8, CHR 0xE4,
       CHR 0xBA, CHR 0x92, CHR 0xE5, CHR 0x91, CHR 0xBC, CHR 0xE2, CHR 0x86, CHR 0x92, CHR 0xE7,
       CHR 0xA0, CHR 0x94, CHR 0xE5, CHR 0x8F, CHR 0x91, CHR 0xE6, CHR 0x8B, CHR 0xA8, CHR 0xE5,
       CHR 0x94, CHR 0xAE, CHR 0xE5, CHR 0x90, CHR 0x8E] ''3001'' (Some ''2501'') ''SUCCESS''
       ''internal'',
     call_test_case.make 25 [CHR 0xE5, CHR 0xA4, CHR 0x9C, CHR 0xE9, CHR 0x97, CHR 0xB4, CHR 0xE6,
       CHR 0xA8, CHR 0xA1, CHR 0xE5, CHR 0xBC, CHR 0x8F, CHR 0xE2, CHR 0x86, CHR 0x92, CHR 0xE5,
       CHR 0x80, CHR 0xBC, CHR 0xE7, CHR 0x8F, CHR 0xAD, CHR 0xE5, CHR 0x9D, CHR 0x90, CHR 0xE5,
       CHR 0xB8, CHR 0xAD] ''4001000001'' (Some ''1'') ''NIGHT_MODE'' ''inbound'',
     call_test_case.make 26 [CHR 0xE5, CHR 0xA4, CHR 0x9C, CHR 0xE9, CHR 0x97, CHR 0xB4, CHR 0xE6,
       CHR 0xA8, CHR 0xA1, CHR 0xE5, CHR 0xBC, CHR 0x8F, CHR 0xE2, CHR 0x86, CHR 0x92, CHR 0xE5,
       CHR 0x80, CHR 0xBC, CHR 0xE7, CHR 0x8F, CHR 0xAD, CHR 0xE5, CHR 0x9D, CHR 0x90, CHR 0xE5,
       CHR 0xB8, CHR 0xAD] ''4001000002'' (Some ''2'') ''NIGHT_MODE'' ''inbound'',
     call_test_case.make 27 [CHR 0xE5, CHR 0xA4, CHR 0x9C, CHR 0xE9, CHR 0x97, CHR 0xB4, CHR 0xE6,
       CHR 0xA8, CHR 0xA1, CHR 0xE5, CHR 0xBC, CHR 0x8F, CHR 0xE2, CHR 0x86, CHR 0x92, CHR 0xE5,
       CHR 0x80, CHR 0xBC, CHR 0xE7, CHR 0x8F, CHR 0xAD, CHR 0xE5, CHR 0x9D, CHR 0x90, CHR 0xE5,
       CHR 0xB8, CHR 0xAD] ''4001000003'' (Some ''0'') ''NIGHT_MODE'' ''inbound'',
     call_test_case.make 28 [CHR 0xE5, CHR 0xA4, CHR 0x9C, CHR 0xE9, CHR 0x97, CHR 0xB4, CHR 0xE6,
       CHR 0xA8, CHR 0xA1, CHR 0xE5, CHR 0xBC, CHR 0x8F, CHR 0xE2, CHR 0x86, CHR 0x92, CHR 0xE5,
       CHR 0x80, CHR 0xBC, CHR 0xE7, CHR 0x8F, CHR 0xAD, CHR 0xE5, CHR 0x9D, CHR 0x90, CHR 0xE5,
       CHR 0xB8, CHR 0xAD] ''4001000004'' (Some ''3'') ''NIGHT_MODE'' ''inbound'',
     call_test_case.make 29 [CHR 0xE5, CHR 0xA4, CHR 0x9C, CHR 0xE9, CHR 0x97, CHR 0xB4, CHR 0xE6,
       CHR 0xA8, CHR 0xA1, CHR 0xE5, CHR 0xBC, CHR 0x8F, CHR 0xE2, CHR 0x86, CHR 0x92, CHR 0xE5,
       CHR 0x80, CHR 0xBC, CHR 0xE7, CHR 0x8F, CHR 0xAD, CHR 0xE5, CHR 0x9D, CHR 0x90, CHR 0xE5,
       CHR 0xB8, CHR 0xAD] ''4001000005'' (Some []) ''NIGHT_MODE'' ''inbound'',
     call_test_case.make 30 ([CHR 0xE8, CHR 0xB6, CHR 0x85, CHR 0xE6, CHR 0x97, CHR 0xB6] @ ''+'' @
       [CHR 0xE9, CHR 0x87, CHR 0x8D, CHR 0xE8, CHR 0xAF, CHR 0x95, CHR 0xE2, CHR 0x86, CHR 0x92,
       CHR 0xE8, CHR 0xBD, CHR 0xAC, CHR 0xE4, CHR 0xBA, CHR 0xBA, CHR 0xE5, CHR 0xB7, CHR 0xA5])
       ''4002000001'' (Some []) ''TIMEOUT_RETRY'' ''inbound'',
     call_test_case.make 31 ([CHR 0xE8, CHR 0xB6, CHR 0x85, CHR 0xE6, CHR 0x97, CHR 0xB6] @ ''+'' @
       [CHR 0xE9, CHR 0x87, CHR 0x8D, CHR 0xE8, CHR 0xAF, CHR 0x95, CHR 0xE2, CHR 0x86, CHR 0x92,
       CHR 0xE8, CHR 0xBD, CHR 0xAC, CHR 0xE4, CHR 0xBA, CHR 0xBA, CHR 0xE5, CHR 0xB7, CHR 0xA5])
       ''4002000002'' (Some []) ''TIMEOUT_RETRY'' ''inbound'',
     call_test_case.make 32 ([CHR 0xE8, CHR 0xB6, CHR 0x85, CHR 0xE6, CHR 0x97, CHR 0xB6] @ ''+'' @
       [CHR 0xE9, CHR 0x87, CHR 0x8D, CHR 0xE8, CHR 0xAF, CHR 0x95, CHR 0xE2, CHR 0x86, CHR 0x92,
       CHR 0xE8, CHR 0xBD, CHR 0xAC, CHR 0xE4, CHR 0xBA, CHR 0xBA, CHR 0xE5, CHR 0xB7, CHR 0xA5])
       ''4002000003'' (Some []) ''TIMEOUT_RETRY'' ''inbound'',
     call_test_case.make 33 [CHR 0xE6, CHR 0x97, CHR 0xA0, CHR 0xE6, CHR 0x95, CHR 0x88, CHR 0xE6,
       CHR 0x8C, CHR 0x89, CHR 0xE9, CHR 0x94, CHR 0xAE, CHR 0xE2, CHR 0x86, CHR 0x92, CHR 0xE9,
       CHR 0x87, CHR 0x8D, CHR 0xE6, CHR 0x96, CHR 0xB0, CHR 0xE5, CHR 0xBC, CHR 0x95, CHR 0xE5,
       CHR 0xAF, CHR 0xBC] ''4003000001'' (Some ''5'') ''INVALID_KEY_RETRY'' ''inbound'',
     call_test_case.make 34 [CHR 0xE6, CHR 0x97, CHR 0xA0, CHR 0xE6, CHR 0x95, CHR 0x88, CHR 0xE6,
       CHR 0x8C, CHR 0x89, CHR 0xE9, CHR 0x94, CHR 0xAE, CHR 0xE2, CHR 0x86, CHR 0x92, CHR 0xE9,
       CHR 0x87, CHR 0x8D, CHR 0xE6, CHR 0x96, CHR 0xB0, CHR 0xE5, CHR 0xBC, CHR 0x95, CHR 0xE5,
       CHR 0xAF, CHR 0xBC] ''4003000002'' (Some ''#'') ''INVALID_KEY_RETRY'' ''inbound'',
     call_test_case.make 35 [CHR 0xE6, CHR 0x97, CHR 0xA0, CHR 0xE6, CHR 0x95, CHR 0x88, CHR 0xE6,
       CHR 0x8C, CHR 0x89, CHR 0xE9, CHR 0x94, CHR 0xAE, CHR 0xE2, CHR 0x86, CHR 0x92, CHR 0xE9,
       CHR 0x87, CHR 0x8D, CHR 0xE6, CHR 0x96, CHR 0xB0, CHR 0xE5, CHR 0xBC, CHR 0x95, CHR 0xE5,
       CHR 0xAF, CHR 0xBC] ''4003000003'' (Some ''*'') ''INVALID_KEY_RETRY'' ''inbound'',
     call_test_case.make 36 [CHR 0xE6, CHR 0x97, CHR 0xA0, CHR 0xE6, CHR 0x95, CHR 0x88, CHR 0xE8,
       CHR 0xA2, CHR 0xAB, CHR 0xE5, CHR 0x8F, CHR 0xAB, CHR 0xE5, CHR 0x88, CHR 0x86, CHR 0xE6,
       CHR 0x9C, CHR 0xBA] ''1001'' (Some ''9999'') ''INVALID_DIGITS'' ''internal'',
     call_test_case.make 37 [CHR 0xE6, CHR 0x97, CHR 0xA0, CHR 0xE6, CHR 0x95, CHR 0x88, CHR 0xE4,
       CHR 0xB8, CHR 0xBB, CHR 0xE5, CHR 0x8F, CHR 0xAB, CHR 0xE5, CHR 0x88, CHR 0x86, CHR 0xE6,
       CHR 0x9C, CHR 0xBA] ''9999'' (Some ''2001'') ''INVALID_DIGITS'' ''internal'',
     call_test_case.make 38 [CHR 0xE8, CHR 0xA2, CHR 0xAB, CHR 0xE5, CHR 0x8F, CHR 0xAB, CHR 0xE6,
       CHR 0xA0, CHR 0xBC, CHR 0xE5, CHR 0xBC, CHR 0x8F, CHR 0xE9, CHR 0x94, CHR 0x99, CHR 0xE8,
       CHR 0xAF, CHR 0xAF] ''1001'' (Some ''abc'') ''INVALID_DIGITS'' ''internal'',
     call_test_case.make 39 [CHR 0xE6, CHR 0x9C, CHR 0xAA, CHR 0xE7, CHR 0x9F, CHR 0xA5, CHR 0xE4,
       CHR 0xB8, CHR 0xBB, CHR 0xE5, CHR 0x8F, CHR 0xAB, CHR 0xE5, CHR 0x8F, CHR 0xB7, CHR 0xE7,
       CHR 0xA0, CHR 0x81] ''unknown'' (Some ''9'') ''INVALID_DIGITS'' ''inbound'',
     call_test_case.make 40 [CHR 0xE5, CHR 0x85, CHR 0xA8, CHR 0xE5, CHR 0xBF, CHR 0x99, CHR 0xE6,
       CHR 0xBA, CHR 0xA2, CHR 0xE5, CHR 0x87, CHR 0xBA, CHR 0xE2, CHR 0x86, CHR 0x92, CHR 0xE9,
       CHR 0x94, CHR 0x80, CHR 0xE5, CHR 0x94, CHR 0xAE, CHR 0xE2, CHR 0x86, CHR 0x92, CHR 0xE4,
       CHR 0xBA, CHR 0xBA, CHR 0xE5, CHR 0xB7, CHR 0xA5] ''4008888888'' (Some ''1'')
       ''FALLBACK_AGENT'' ''inbound'',
     call_test_case.make 41 [CHR 0xE5, CHR 0x85, CHR 0xA8, CHR 0xE5, CHR 0xBF, CHR 0x99, CHR 0xE6,
       CHR 0xBA, CHR 0xA2, CHR 0xE5, CHR 0x87, CHR 0xBA, CHR 0xE2, CHR 0x86, CHR 0x92, CHR 0xE5,
       CHR 0x94, CHR 0xAE, CHR 0xE5, CHR 0x90, CHR 0x8E, CHR 0xE2, CHR 0x86, CHR 0x92, CHR 0xE4,
       CHR 0xBA, CHR 0xBA, CHR 0xE5, CHR 0xB7, CHR 0xA5] ''4008888889'' (Some ''2'')
       ''FALLBACK_AGENT'' ''inbound'',
     call_test_case.make 42 [CHR 0xE5, CHR 0x85, CHR 0xA8, CHR 0xE5, CHR 0xBF, CHR 0x99, CHR 0xE6,
       CHR 0xBA, CHR 0xA2, CHR 0xE5, CHR 0x87, CHR 0xBA, CHR 0xE2, CHR 0x86, CHR 0x92, CHR 0xE5,
       CHR 0xB8, CHR 0x82, CHR 0xE5, CHR 0x9C, CHR 0xBA, CHR 0xE2, CHR 0x86, CHR 0x92, CHR 0xE4,
       CHR 0xBA, CHR 0xBA, CHR 0xE5, CHR 0xB7, CHR 0xA5] ''4007777777'' (Some ''3'')
       ''FALLBACK_AGENT'' ''inbound'',
     call_test_case.make 43 [CHR 0xE6, CHR 0x8E, CHR 0x92, CHR 0xE9, CHR 0x98, CHR 0x9F, CHR 0xE2,
       CHR 0x86, CHR 0x92, CHR 0xE9, CHR 0x94, CHR 0x80, CHR 0xE5, CHR 0x94, CHR 0xAE, CHR 0xE9,
       CHR 0x83, CHR 0xA8, CHR 0xE9, CHR 0x98, CHR 0x9F, CHR 0xE5, CHR 0x88, CHR 0x97]
       ''4004000001'' (Some ''1'') ''QUEUED'' ''inbound'',
     call_test_case.make 44 [CHR 0xE6, CHR 0x8E, CHR 0x92, CHR 0xE9, CHR 0x98, CHR 0x9F, CHR 0xE2,
       CHR 0x86, CHR 0x92, CHR 0xE5, CHR 0x94, CHR 0xAE, CHR 0xE5, CHR 0x90, CHR 0x8E, CHR 0xE9,
       CHR 0x83, CHR 0xA8, CHR 0xE9, CHR 0x98, CHR 0x9F, CHR 0xE5, CHR 0x88, CHR 0x97]
       ''4004000002'' (Some ''2'') ''QUEUED'' ''inbound'',
     call_test_case.make 45 [CHR 0xE6, CHR 0x8E, CHR 0x92, CHR 0xE9, CHR 0x98, CHR 0x9F, CHR 0xE2,
       CHR 0x86, CHR 0x92, CHR 0xE4, CHR 0xBA, CHR 0xBA, CHR 0xE5, CHR 0xB7, CHR 0xA5, CHR 0xE5,
       CHR 0x8F, CHR 0xB0, CHR 0xE9, CHR 0x98, CHR 0x9F, CHR 0xE5, CHR 0x88, CHR 0x97]
       ''4004000003'' (Some ''0'') ''QUEUED'' ''inbound'',
     call_test_case.make 46 [CHR 0xE5, CHR 0x91, CHR 0xA8, CHR 0xE6, CHR 0x9C, CHR 0xAB, CHR 0xE5,
       CHR 0xA4, CHR 0x9C, CHR 0xE9, CHR 0x97, CHR 0xB4, CHR 0xE2, CHR 0x86, CHR 0x92, CHR 0xE8,
       CHR 0xBD, CHR 0xAC, CHR 0xE7, CHR 0x95, CHR 0x99, CHR 0xE8, CHR 0xA8, CHR 0x80]
       ''4005000001'' (Some ''1'') ''VOICEMAIL'' ''inbound'',
     call_test_case.make 47 [CHR 0xE5, CHR 0x91, CHR 0xA8, CHR 0xE6, CHR 0x9C, CHR 0xAB, CHR 0xE5,
       CHR 0xA4, CHR 0x9C, CHR 0xE9, CHR 0x97, CHR 0xB4, CHR 0xE2, CHR 0x86, CHR 0x92, CHR 0xE8,
       CHR 0xBD, CHR 0xAC, CHR 0xE7, CHR 0x95, CHR 0x99, CHR 0xE8, CHR 0xA8, CHR 0x80]
       ''4005000002'' (Some ''2'') ''VOICEMAIL'' ''inbound'',
     call_test_case.make 48 [CHR 0xE6, CHR 0x97, CHR 0xA0, CHR 0xE5, CHR 0x80, CHR 0xBC, CHR 0xE7,
       CHR 0x8F, CHR 0xAD, CHR 0xE2, CHR 0x86, CHR 0x92, CHR 0xE8, CHR 0xBD, CHR 0xAC, CHR 0xE7,
       CHR 0x95, CHR 0x99, CHR 0xE8, CHR 0xA8, CHR 0x80] ''4005000003'' (Some ''0'') ''VOICEMAIL''
       ''inbound'',
     call_test_case.make 49 [CHR 0xE5, CHR 0x86, CHR 0x85, CHR 0xE9, CHR 0x83, CHR 0xA8, CHR 0xE5,
       CHR 0x88, CHR 0x86, CHR 0xE6, CHR 0x9C, CHR 0xBA, CHR 0xE6, CHR 0x8B, CHR 0xA8, CHR 0xE4,
       CHR 0xBA, CHR 0xBA, CHR 0xE5, CHR 0xB7, CHR 0xA5, CHR 0xE5, CHR 0x8F, CHR 0xB0] ''2001''
       (Some ''9002'') ''SUCCESS'' ''internal'',
     call_test_case.make 50 [CHR 0xE5, CHR 0xA4, CHR 0x96, CHR 0xE7, CHR 0xBA, CHR 0xBF, CHR 0xE6,
       CHR 0x97, CHR 0xA0, CHR 0xE6, CHR 0x8C, CHR 0x89, CHR 0xE9, CHR 0x94, CHR 0xAE, CHR 0xE8,
       CHR 0x87, CHR 0xAA, CHR 0xE5, CHR 0x8A, CHR 0xA8, CHR 0xE5, CHR 0x85, CHR 0x9C, CHR 0xE5,
       CHR 0xBA, CHR 0x95] ''4009999998'' (Some []) ''NIGHT_MODE'' ''inbound'']"

section \<open>One call\<close>

text \<open>The line printed for a call.\<close>

record call_line =
  cl_no :: int
  cl_scenario :: bytes
  cl_label :: bytes
  cl_target :: bytes
  cl_duration :: int
  cl_ok :: bool

text \<open>\<open>%03d\<close> of a number that is not negative.\<close>

definition show_int3 :: "int \<Rightarrow> bytes" where
  "show_int3 i = (let s = show_int i in replicate (3 - length s) (CHR ''0'') @ s)"

definition test_call_id :: "bytes \<Rightarrow> int \<Rightarrow> bytes" where
  "test_call_id time_part no =
     snprintf 256 (''TEST-'' @ time_part @ ''-'' @ show_int3 no @ ''@call-center.local'')"

definition callee_display :: "bytes option \<Rightarrow> bytes" where
  "callee_display digits =
     snprintf 32 (case digits of
         None \<Rightarrow> ''(timeout)''
       | Some d \<Rightarrow> if cstr d \<noteq> [] then ''IVR:'' @ cstr d else ''(timeout)'')"

definition call_duration :: "int \<Rightarrow> int \<Rightarrow> int" where
  "call_duration call_start call_end =
     (let duration = to_int32 (call_end - call_start);
          duration = (if duration < 1 then 1 else duration)
      in if 5 < duration then 5 else duration)"

text \<open>An operation of the layer on the context, -1 without one.\<close>

definition on_sync :: "(db_sync_context \<Rightarrow> world \<Rightarrow> int \<times> db_sync_context \<times> world) \<Rightarrow>
    db_sync_context option \<Rightarrow> world \<Rightarrow> int \<times> db_sync_context option \<times> world" where
  "on_sync f sync w =
     (case sync of
        None \<Rightarrow> (- 1, None, w)
      | Some s \<Rightarrow> let (r, s, w) = f s w in (r, Some s, w))"

definition digits_or_empty :: "call_test_case \<Rightarrow> bytes" where
  "digits_or_empty tc = (case tc_digits tc of None \<Rightarrow> [] | Some d \<Rightarrow> d)"

text \<open>The comparison with \<open>expected\<close> is computed by the code and discarded.\<close>

definition run_single_call ::
  "'g lua_interp \<Rightarrow> env \<Rightarrow> (int \<Rightarrow> bytes) \<Rightarrow> (int \<Rightarrow> bytes) \<Rightarrow> call_test_case \<Rightarrow>
   'g lua_vm \<Rightarrow> db_sync_context option \<Rightarrow> world \<Rightarrow>
   ((int \<times> call_line) \<times> 'g lua_vm \<times> db_sync_context option \<times> world) option" where
  "run_single_call I E compact stamp tc vm sync w =
     (let (now, w) = ext E Time w;
          call_id = test_call_id (compact (rv now)) (call_no tc);
          (r, sync, w) = on_sync (db_sync_call_start E stamp (Some call_id) (Some (tc_caller tc))
            (Some (callee_display (tc_digits tc))) (tc_direction tc) (Some (scenario tc))) sync w;
          (call_start, w) = ext E Time w
      in case lua_vm_call_route I vm (Some (tc_caller tc)) (Some (digits_or_empty tc)) zero_response of
           None \<Rightarrow> None
         | Some (ret, r, vm) \<Rightarrow>
             let (call_end, w) = ext E Time w;
                 duration = call_duration (rv call_start) (rv call_end);
                 (x, sync, w) = on_sync (db_sync_call_end E (Some call_id) duration
                   (if r_code r = 0 then 200 else 486) (r_code r) (Some (description r))) sync w
             in Some ((ret, \<lparr>cl_no = call_no tc, cl_scenario = scenario tc,
                   cl_label = result_label (r_code r), cl_target = target_extension r,
                   cl_duration = duration, cl_ok = (ret = 0)\<rparr>), vm, sync, w))"

section \<open>The run\<close>

record call_stats =
  success_count :: int
  fail_count :: int
  night_count :: int
  voicemail_count :: int
  queue_count :: int
  invalid_count :: int

definition count_ret :: "int \<Rightarrow> call_stats \<Rightarrow> call_stats" where
  "count_ret ret st =
     (if ret = 0 then st\<lparr>success_count := success_count st + 1\<rparr>
      else st\<lparr>fail_count := fail_count st + 1\<rparr>)"

definition count_code :: "int \<Rightarrow> call_stats \<Rightarrow> call_stats" where
  "count_code code st =
     (if code = 6 then st\<lparr>night_count := night_count st + 1\<rparr>
      else if code = 7 then st\<lparr>voicemail_count := voicemail_count st + 1\<rparr>
      else if code = 5 then st\<lparr>queue_count := queue_count st + 1\<rparr>
      else if code = 1 then st\<lparr>invalid_count := invalid_count st + 1\<rparr>
      else st)"

text \<open>The loop: every call is routed a second time for the counters by result code.\<close>

fun run_calls ::
  "'g lua_interp \<Rightarrow> env \<Rightarrow> (int \<Rightarrow> bytes) \<Rightarrow> (int \<Rightarrow> bytes) \<Rightarrow> call_test_case list \<Rightarrow> call_stats \<Rightarrow>
   'g lua_vm \<Rightarrow> db_sync_context option \<Rightarrow> world \<Rightarrow>
   ((call_stats \<times> call_line list) \<times> 'g lua_vm \<times> db_sync_context option \<times> world) option" where
  "run_calls I E compact stamp [] st vm sync w = Some ((st, []), vm, sync, w)"
| "run_calls I E compact stamp (tc # tcs) st vm sync w =
     (case run_single_call I E compact stamp tc vm sync w of
        None \<Rightarrow> None
      | Some ((ret, line), vm, sync, w) \<Rightarrow>
          let st = count_ret ret st in
          case lua_vm_call_route I vm (Some (tc_caller tc)) (Some (digits_or_empty tc)) zero_response of
            None \<Rightarrow> None
          | Some (ret2, r, vm) \<Rightarrow>
              let st = count_code (r_code r) st; (x, w) = ext E (Usleep 50000) w in
              map_option (\<lambda>((st, lines), rest). ((st, line # lines), rest))
                (run_calls I E compact stamp tcs st vm sync w))"

definition lua_setglobal :: "'g lua_interp \<Rightarrow> bytes \<Rightarrow> 'g lua_state \<Rightarrow> 'g lua_state" where
  "lua_setglobal I n L = L\<lparr>globals := li_setglobal I (globals L) n (lua_top L), stack := tl (stack L)\<rparr>"

definition force_worktime :: "'g lua_interp \<Rightarrow> bool \<Rightarrow> 'g lua_vm \<Rightarrow> 'g lua_vm option" where
  "force_worktime I b vm =
     map_option (\<lambda>L. vm\<lparr>vm_L := Some (lua_setglobal I ''_TEST_FORCE_WORKTIME'' (lua_push (LBool b) L))\<rparr>) (vm_L vm)"

record call_report =
  cr_lines :: "call_line list"
  cr_stats :: call_stats
  cr_total_sec :: int
  cr_queue :: "int option"

text \<open>
  \<open>None\<close> is undefined behaviour: a Lua context without a state, or no context of the
  synchronisation layer, which the report looks into.
\<close>

definition call_test_run ::
  "'g lua_interp \<Rightarrow> env \<Rightarrow> (int \<Rightarrow> bytes) \<Rightarrow> (int \<Rightarrow> bytes) \<Rightarrow> 'g lua_vm \<Rightarrow> db_sync_context option \<Rightarrow>
   world \<Rightarrow> (int \<times> call_report \<times> 'g lua_vm \<times> db_sync_context option \<times> world) option" where
  "call_test_run I E compact stamp vm sync w =
     (case force_worktime I True vm of
        None \<Rightarrow> None
      | Some vm \<Rightarrow>
          let (total_start, w) = ext E Time w in
          case run_calls I E compact stamp test_cases \<lparr>success_count = 0, fail_count = 0, night_count = 0,
              voicemail_count = 0, queue_count = 0, invalid_count = 0\<rparr> vm sync w of
            None \<Rightarrow> None
          | Some ((st, lines), vm, sync, w) \<Rightarrow>
              let (total_end, w) = ext E Time w; (x, w) = ext E (Usleep 500000) w in
              case sync of
                None \<Rightarrow> None
              | Some s \<Rightarrow>
                  map_option (\<lambda>vm. (0, \<lparr>cr_lines = lines, cr_stats = st,
                      cr_total_sec = to_int32 (rv total_end - rv total_start),
                      cr_queue = (if sc_db_enabled s
                        then Some (db_sync_queue_size (Some (fst (sc_queue s)))) else None)\<rparr>,
                      vm, Some s, w)) (force_worktime I False vm))"

end
