(* ===== verification/Program.thy ===== *)
theory Program
  imports Server Startup Demo Call_Test
begin

text \<open>
  \<open>src/main.c\<close> as a whole: the options, the start of the Lua interpreter and of the database
  layer, one of the three modes (the server, the demonstrations, the call test), and the
  clean-up. The banner and the log are left out, except that \<open>LOG_FATAL\<close> ends the process.
\<close>

section \<open>The demonstration of the database\<close>

text \<open>What is printed: the two flags, the number of departments, \<open>PONG\<close>, the idle agents of a department.\<close>

definition demo_mysql_lines :: "env \<Rightarrow> others \<Rightarrow> db_sync_context \<Rightarrow> world \<Rightarrow>
    (printed list list \<times> db_sync_context \<times> world) option" where
  "demo_mysql_lines E others s w =
     (case (if sc_db_enabled s then sc_pool s else None) of
        None \<Rightarrow> Some ([], s, w)
      | Some p \<Rightarrow> map_option (\<lambda>(n, rest). (if 0 < n then [[P_num n]] else [], rest))
          (keep_pool s (db_mysql_load_departments E others p w)))"

definition demo_redis_lines :: "env \<Rightarrow> db_sync_context \<Rightarrow> world \<Rightarrow> printed list list \<times> db_sync_context \<times> world" where
  "demo_redis_lines E s w =
     (if sc_cache_enabled s \<and> sc_redis s \<noteq> None then
        let (r, s, w) = on_cache (db_redis_ping E) (- 1) s w;
            (idle, s, w) = on_cache (db_redis_get_dept_idle E ''sales'') (- 1) s w
        in ((if r = 0 then [[P_str (Some ''PONG'')]] else []) @ [[P_num (if 0 \<le> idle then idle else - 1)]], s, w)
      else ([], s, w))"

definition demo_db_status :: "env \<Rightarrow> others \<Rightarrow> database \<Rightarrow> world \<Rightarrow> (printed list list \<times> database \<times> world) option" where
  "demo_db_status E others db w =
     (case db of
        No_Context p r \<Rightarrow> Some ([], db, w)
      | Context s \<Rightarrow>
          let flags = [[P_bool (sc_db_enabled s)], [P_bool (sc_cache_enabled s)]] in
          (case demo_mysql_lines E others s w of
             None \<Rightarrow> None
           | Some (ls, s, w) \<Rightarrow>
               let (ms, s, w) = demo_redis_lines E s w in Some (flags @ ls @ ms, Context s, w)))"

definition run_demos :: "'g lua_interp \<Rightarrow> env \<Rightarrow> others \<Rightarrow> 'g lua_vm \<Rightarrow> database \<Rightarrow> world \<Rightarrow>
    (printed list list \<times> 'g lua_vm \<times> database \<times> world) option" where
  "run_demos I E others vm db w =
     (case lua_demos I vm of
        None \<Rightarrow> None
      | Some (ls, vm) \<Rightarrow>
          map_option (\<lambda>(ms, db, w). (ls @ ms, vm, db, w)) (demo_db_status E others db w))"

section \<open>The modes\<close>

definition LUA_SCRIPT_PATH :: bytes where "LUA_SCRIPT_PATH = ''lua/route.lua''"
definition EXIT_SUCCESS :: int where "EXIT_SUCCESS = 0"
definition EXIT_FAILURE :: int where "EXIT_FAILURE = 1"

text \<open>The loop over the arguments: \<open>demo_mode\<close> and \<open>call_test_mode\<close>.\<close>

fun parse_options :: "bytes list \<Rightarrow> bool \<times> bool \<Rightarrow> bool \<times> bool" where
  "parse_options [] m = m"
| "parse_options (a # as) (demo_mode, call_test_mode) =
     parse_options as
       (if cstr a = ''--demo'' then (True, call_test_mode)
        else if cstr a = ''--call-test'' then (demo_mode, True)
        else (demo_mode, call_test_mode))"

text \<open>
  \<open>while (keep_running) sleep(1)\<close>: a signal during any call so far has ended it. A loop that is never
  signalled does not return.
\<close>

definition signalled :: "world \<Rightarrow> bool" where
  "signalled w \<longleftrightarrow> list_ex (\<lambda>(c, r). sig r) w"

partial_function (option) wait_signal :: "env \<Rightarrow> world \<Rightarrow> world option" where
  "wait_signal E w =
     (if signalled w then Some w else wait_signal E (snd (ext E (Sleep 1) w)))"

text \<open>
  What the program meets: whether the log file opens, whether the Lua context can
  be allocated, the result of \<open>pthread_create\<close>, the schema file, the time stamps the worker
  reads, the cell of the shutdown task, and \<open>strftime\<close> for the two formats of a call.
\<close>

record surroundings =
  log_opens :: bool
  lua_memory :: "unit option"
  thread_result :: int
  schema_content :: "bytes option"
  stamps :: "db_action list \<Rightarrow> bytes"
  stop_cell :: "nat option"
  compact_time :: "int \<Rightarrow> bytes"
  start_stamp :: "int \<Rightarrow> bytes"

text \<open>A mode ends with the event loop if there is one; without a loop in server mode the process is over.\<close>

datatype 'g mode_end = Process_Exit | Mode_Done "'g server option" database

definition run_mode :: "'g lua_interp \<Rightarrow> env \<Rightarrow> others \<Rightarrow> surroundings \<Rightarrow> bool \<times> bool \<Rightarrow> 'g lua_vm \<Rightarrow>
    database \<Rightarrow> world \<Rightarrow> ('g mode_end \<times> world) option" where
  "run_mode I E others S = (\<lambda>(demo_mode, call_test_mode) vm db w.
     if call_test_mode then
       (case call_test_run I E (compact_time S) (start_stamp S) vm
               (case db of No_Context p r \<Rightarrow> None | Context s \<Rightarrow> Some s) w of
          None \<Rightarrow> None
        | Some (r, report, vm, sync, w) \<Rightarrow>
            map_option (\<lambda>w. (Mode_Done None (case sync of None \<Rightarrow> db | Some s \<Rightarrow> Context s), w)) (wait_signal E w))
     else if demo_mode then
       (case run_demos I E others vm db w of
          None \<Rightarrow> None
        | Some (ls, vm, db, w) \<Rightarrow> map_option (\<lambda>w. (Mode_Done None db, w)) (wait_signal E w))
     else
       (case start_server_mode I E vm w of
          None \<Rightarrow> None
        | Some (r, None, w) \<Rightarrow> Some (Process_Exit, w)
        | Some (r, Some el, w) \<Rightarrow> Some (Mode_Done (Some el) db, w)))"

section \<open>The program\<close>

text \<open>Creating the Lua interpreter and loading the script; every failure is fatal.\<close>

definition start_lua :: "'g lua_interp \<Rightarrow> surroundings \<Rightarrow> 'g lua_vm option option" where
  "start_lua I S =
     (case lua_vm_create (lua_memory S) of
        None \<Rightarrow> Some None
      | Some vm \<Rightarrow>
          (case lua_vm_init I (Some vm) of
             (r, None) \<Rightarrow> Some None
           | (r, Some vm) \<Rightarrow>
               if r \<noteq> 0 then Some None
               else map_option (\<lambda>(r, vm). if r \<noteq> 0 then None else Some vm)
                      (lua_vm_load_script I vm (Some LUA_SCRIPT_PATH))))"

text \<open>
  \<open>main\<close>: the exit code and the trace. Logging at the level FATAL ends the process at once,
  so after a failed start of the event loop neither the loop nor the database is cleaned up.
\<close>

definition program_main :: "'g lua_interp \<Rightarrow> env \<Rightarrow> others \<Rightarrow> surroundings \<Rightarrow> bytes list \<Rightarrow> world \<Rightarrow> (int \<times> world) option" where
  "program_main I E others S argv w =
     (if \<not> log_opens S then Some (EXIT_FAILURE, w)
      else case start_lua I S of
        None \<Rightarrow> None
      | Some None \<Rightarrow> Some (EXIT_FAILURE, w)
      | Some (Some vm) \<Rightarrow>
          (case init_database E others (thread_result S) (schema_content S) w of
             None \<Rightarrow> None
           | Some (r, db, w) \<Rightarrow>
               (case run_mode I E others S (parse_options (tl argv) (False, False)) vm db w of
                  None \<Rightarrow> None
                | Some (Process_Exit, w) \<Rightarrow> Some (EXIT_FAILURE, w)
                | Some (Mode_Done el db, w) \<Rightarrow>
                    let w = (case el of None \<Rightarrow> w | Some el \<Rightarrow> el_destroy E el w) in
                    map_option (\<lambda>(h, w). (EXIT_SUCCESS, w))
                      (shutdown_database E others (stamps S) (stop_cell S) db w))))"

end
