(* ===== verification/Sync_Facts.thy ===== *)
theory Sync_Facts
  imports Db_Sync
begin

text \<open>
  What the synchronisation layer guarantees: a status written is the status read, a miss is
  filled from MySQL once, every status change accepted reaches MySQL as its own statement in
  order when the worker is stopped, and what a recovered cache is filled with.
\<close>

section \<open>Statements sent\<close>

text \<open>The SQL texts sent to the server, oldest first.\<close>

fun sql_sent :: "world \<Rightarrow> bytes list" where
  "sql_sent [] = []"
| "sql_sent ((Mysql_real_query c q, r) # w) = sql_sent w @ [q]"
| "sql_sent ((c, r) # w) = sql_sent w"

text \<open>The operations of the Redis client leave the MySQL side and the descriptors of the server alone.\<close>

abbreviation os_view :: "world \<Rightarrow> fd set \<times> (fd \<Rightarrow> nat option option)" where
  "os_view w \<equiv> (open_fds w, watched w)"

definition same_sql :: "world \<Rightarrow> world \<Rightarrow> bool" where
  "same_sql w w' \<longleftrightarrow> open_conns w' = open_conns w \<and> sql_sent w' = sql_sent w \<and>
     os_view w' = os_view w"

lemma same_sql_refl [simp, intro]: "same_sql w w"
  by (simp add: same_sql_def)

lemma same_sql_trans: "same_sql w w' \<Longrightarrow> same_sql w' w'' \<Longrightarrow> same_sql w w''"
  by (simp add: same_sql_def)

lemma same_sql_inv: "same_sql w w' \<Longrightarrow> pool_inv p w \<Longrightarrow> pool_inv p w'"
  by (simp add: same_sql_def pool_inv_def slots_inv_def)

lemma sql_command: "same_sql w (free_reply E r (snd (redisCommand E args c w)))"
  by (simp add: same_sql_def free_reply_def redisCommand_def)

lemma sql_connect: "same_sql w (snd (snd (db_redis_connect E c w)))"
  by (auto simp: db_redis_connect_def Let_def redisFree_def redisCommand_def free_reply_def same_sql_def)

lemma sql_reconnect: "same_sql w (snd (snd (db_redis_reconnect E c w)))"
proof -
  let ?w = "(Time, E w Time) # w"
  define w1 where "w1 = (if r_ctx c \<noteq> 0 then redisFree E (r_ctx c) ?w else ?w)"
  have "same_sql w w1" by (simp add: w1_def redisFree_def same_sql_def)
  then have "same_sql w (snd (snd (db_redis_connect E c' w1)))" for c'
    using same_sql_trans sql_connect by blast
  then show ?thesis
    by (simp add: db_redis_reconnect_def Let_def split_beta same_sql_def flip: w1_def)
qed

lemma sql_ping: "same_sql w (snd (snd (db_redis_ping E c w)))"
  by (simp add: db_redis_ping_def Let_def split_beta redisCommand_def free_reply_def same_sql_def)

lemma sql_ensure: "same_sql w (snd (snd (db_redis_ensure_connected E c w)))"
proof -
  obtain r c1 w1 where p: "db_redis_ping E c w = (r, c1, w1)" by (cases "db_redis_ping E c w") auto
  with sql_ping [of w E c] have "same_sql w w1" by simp
  with p sql_reconnect [of w E c] same_sql_trans [OF _ sql_reconnect] show ?thesis
    by (simp add: db_redis_ensure_connected_def)
qed

lemma sql_on_reply: "same_sql w (snd (snd (on_reply E args d f c w)))"
proof -
  obtain ok c1 w1 where e: "db_redis_ensure_connected E c w = (ok, c1, w1)"
    by (cases "db_redis_ensure_connected E c w") auto
  with sql_ensure [of w E c] have "same_sql w w1" by simp
  with e same_sql_trans [OF _ sql_command] show ?thesis by (simp add: on_reply_def split_beta)
qed

lemma sql_hmset: "same_sql w (snd (snd (db_redis_hmset E key fvs c w)))"
proof -
  obtain ok c1 w1 where e: "db_redis_ensure_connected E c w = (ok, c1, w1)"
    by (cases "db_redis_ensure_connected E c w") auto
  with sql_ensure [of w E c] have "same_sql w w1" by simp
  with e same_sql_trans [OF _ sql_command] show ?thesis by (simp add: db_redis_hmset_def split_beta)
qed

lemma sql_cache_status: "same_sql w (snd (snd (db_redis_cache_agent_status E e st n c w)))"
  using sql_hmset [of "(Time, E w Time) # w" E] by (simp add: db_redis_cache_agent_status_def same_sql_def)

lemma sql_cache_online: "same_sql w (snd (snd (db_redis_cache_agent_online E e n c w)))"
  "same_sql w (snd (snd (db_redis_cache_dept_config E e j c w)))"
  by (simp_all add: db_redis_cache_agent_online_def db_redis_cache_dept_config_def db_redis_set_def sql_on_reply)

lemma sql_get_status: "same_sql w (snd (snd (db_redis_get_agent_status E e n c w)))"
proof -
  let ?key = "redis_key REDIS_KEY_AGENT_STATUS e"
  obtain r c1 w1 where a: "db_redis_hget E ?key ''status'' 32 c w = (r, c1, w1)"
    by (cases "db_redis_hget E ?key ''status'' 32 c w") auto
  have g: "same_sql w w1"
    using a sql_on_reply [of w E] unfolding db_redis_hget_def by (metis snd_conv)
  have "same_sql w1 (snd (snd (db_redis_hget E ?key ''concurrent_calls'' 16 c1 w1)))"
    unfolding db_redis_hget_def by (rule sql_on_reply)
  with g a same_sql_trans [OF g] show ?thesis
    by (simp add: db_redis_get_agent_status_def Let_def split_beta)
qed

lemma sql_warm_depts: "same_sql w (snd (warm_depts E rs c w))"
proof (induction rs arbitrary: c w)
  case (Cons row rs)
  show ?case using same_sql_trans [OF sql_cache_online(2) Cons.IH] by (simp add: split_beta)
qed simp

lemma sql_warm_agents: "same_sql w (snd (warm_agents E rs c w))"
proof (induction rs arbitrary: c w)
  case (Cons row rs)
  show ?case
    using same_sql_trans [OF sql_cache_status same_sql_trans [OF sql_cache_online(1) Cons.IH]]
    by (simp add: split_beta Let_def)
qed simp

section \<open>Statements on a free connection\<close>

definition has_free :: "mysql_pool \<Rightarrow> world \<Rightarrow> bool" where
  "has_free p w \<longleftrightarrow> pool_inv p w \<and> (\<exists>s\<in>set (p_slots p). free_slot s)"

lemma has_free_same: "same_sql w w' \<Longrightarrow> has_free p w \<Longrightarrow> has_free p w'"
  using same_sql_inv by (simp add: has_free_def)

lemma has_free_conns: "open_conns w' = open_conns w \<Longrightarrow> has_free p w \<Longrightarrow> has_free p w'"
  by (simp add: has_free_def pool_inv_def slots_inv_def)

lemma execute_free:
  assumes "has_free p w"
  shows "\<exists>r w'. db_mysql_execute E others sql p w = Some (r, p, w') \<and> sql_sent w' = sql_sent w @ [cstr sql] \<and>
    open_conns w' = open_conns w"
proof -
  have "pool_inv p w" "\<exists>s\<in>set (p_slots p). free_slot s" using assms by (simp_all add: has_free_def)
  from with_conn_free [OF this] obtain c where r: "\<And>dflt body. with_conn E others dflt body p w =
      Some (fst (body c w), p, snd (body c w :: int \<times> world))"
    by blast
  show ?thesis by (simp add: db_mysql_execute_def r run_statement_def Let_def)
qed

lemma query_free:
  assumes "has_free p w"
  shows "\<exists>c w'. db_mysql_query E others sql p w =
      Some (fst (run_query E (cstr sql) c w), p, w') \<and> sql_sent w' = sql_sent w @ [cstr sql] \<and>
    open_conns w' = open_conns w \<and> redis_hashes w' = redis_hashes w"
proof -
  have "pool_inv p w" "\<exists>s\<in>set (p_slots p). free_slot s" using assms by (simp_all add: has_free_def)
  from with_conn_free [OF this] obtain c where r: "\<And>dflt body. with_conn E others dflt body p w =
      Some (fst (body c w), p, snd (body c w :: mysql_res option \<times> world))"
    by blast
  show ?thesis
    by (rule exI [of _ c]) (simp add: db_mysql_query_def r run_query_def Let_def)
qed

section \<open>Status changes\<close>

text \<open>A series of changes: extension, new status, number of calls.\<close>

fun change_all :: "env \<Rightarrow> (bytes \<times> bytes \<times> int) list \<Rightarrow> db_sync_context \<Rightarrow> world \<Rightarrow> db_sync_context \<times> world" where
  "change_all E [] s w = (s, w)"
| "change_all E ((e, st, n) # cs) s w =
     (let (r, s, w) = db_sync_agent_status_change E (Some e) (Some st) n s w in change_all E cs s w)"

lemma on_cache_fields [simp]:
  "sc_queue (fst (snd (on_cache f d s w))) = sc_queue s"
  "sc_pool (fst (snd (on_cache f d s w))) = sc_pool s"
  "sc_db_enabled (fst (snd (on_cache f d s w))) = sc_db_enabled s"
  "sc_cache_enabled (fst (snd (on_cache f d s w))) = sc_cache_enabled s"
  "sc_worker_running (fst (snd (on_cache f d s w))) = sc_worker_running s"
  by (auto simp: on_cache_def split_beta split: option.split)

lemma submit_fields [simp]:
  "sc_redis (fst (submit_task E t s w)) = sc_redis s"
  "sc_pool (fst (submit_task E t s w)) = sc_pool s"
  "sc_db_enabled (fst (submit_task E t s w)) = sc_db_enabled s"
  "sc_cache_enabled (fst (submit_task E t s w)) = sc_cache_enabled s"
  "sc_worker_running (fst (submit_task E t s w)) = sc_worker_running s"
  by (auto simp: submit_task_def)

lemma submit_world: "same_sql w (snd (submit_task E t s w))" "redis_hashes (snd (submit_task E t s w)) = redis_hashes w"
  by (simp_all add: submit_task_def same_sql_def)

lemma sql_on_cache:
  assumes "\<And>c w. same_sql w (snd (snd (f c w)))"
  shows "same_sql w (snd (snd (on_cache f d s w)))"
  using assms by (auto simp: on_cache_def split_beta split: option.split)

abbreviation cache_status :: "env \<Rightarrow> bytes \<times> bytes \<times> int \<Rightarrow> db_sync_context \<Rightarrow> world \<Rightarrow> int \<times> db_sync_context \<times> world" where
  "cache_status E u \<equiv> case u of (e, st, n) \<Rightarrow> on_cache (db_redis_cache_agent_status E e st n) 0"

lemma sql_change:
  "same_sql w (snd (snd (db_sync_agent_status_change E (Some e) (Some st) n s w)))"
proof -
  have "same_sql w (snd (snd (cache_status E (e, st, n) s w)))"
    by (simp add: sql_on_cache sql_cache_status)
  with same_sql_trans [OF _ submit_world(1)] show ?thesis
    by (simp add: db_sync_agent_status_change_def split_beta Let_def)
qed

lemma sql_change_all: "same_sql w (snd (change_all E cs s w))"
proof (induction cs arbitrary: s w)
  case (Cons u cs)
  obtain e st n where "u = (e, st, n)" by (cases u)
  with same_sql_trans [OF sql_change Cons.IH] show ?case by (simp add: split_beta)
qed simp

subsection \<open>The cache\<close>

text \<open>A context whose cache is reached over the live connection \<open>c\<close>.\<close>

definition cached_by :: "redis_context \<Rightarrow> db_sync_context \<Rightarrow> bool" where
  "cached_by c s \<longleftrightarrow> sc_redis s = Some c \<and> sc_cache_enabled s \<and> live c"

lemma on_cache_by: "cached_by c s \<Longrightarrow> f c w = (r, c, w') \<Longrightarrow> on_cache f d s w = (r, s, w')"
  by (simp add: on_cache_def cached_by_def)

lemma change_live:
  assumes s: "redis_serves E (r_ctx c)" and l: "cached_by c s" and ok: "status_ok (e, st, n)" and A: "holds A w"
  shows "\<exists>s' w'. db_sync_agent_status_change E (Some e) (Some st) n s w = (0, s', w') \<and>
    cached_by c s' \<and> holds (A(e \<mapsto> (st, n))) w'"
proof -
  from cache_live [OF s _ ok A] l obtain w1
    where c: "db_redis_cache_agent_status E e st n c w = (0, c, w1)" and h: "holds (A(e \<mapsto> (st, n))) w1"
    by (auto simp: cached_by_def)
  note o = on_cache_by [where f = "db_redis_cache_agent_status E e st n", OF l c]
  obtain s' w' where t: "submit_task E (pack_agent_status e st n) s w1 = (s', w')"
    by (cases "submit_task E (pack_agent_status e st n) s w1")
  with submit_fields [of E "pack_agent_status e st n" s w1] submit_world(2) [of E "pack_agent_status e st n" s w1] h
  have "holds (A(e \<mapsto> (st, n))) w'" "sc_redis s' = sc_redis s" "sc_cache_enabled s' = sc_cache_enabled s"
    by (simp_all add: holds_def)
  with l t show ?thesis
    by (simp add: db_sync_agent_status_change_def o cached_by_def)
qed

lemma change_all_live:
  assumes s: "redis_serves E (r_ctx c)"
  shows "cached_by c s \<Longrightarrow> \<forall>u\<in>set cs. status_ok u \<Longrightarrow> holds A w \<Longrightarrow>
    \<exists>s' w'. change_all E cs s w = (s', w') \<and> cached_by c s' \<and> holds (A ++ map_of (rev cs)) w'"
proof (induction cs arbitrary: A s w)
  case (Cons u cs)
  obtain e st n where u: "u = (e, st, n)" by (cases u)
  from change_live [OF s Cons.prems(1), of e st n A w] Cons.prems u obtain s1 w1
    where c1: "db_sync_agent_status_change E (Some e) (Some st) n s w = (0, s1, w1)" "cached_by c s1"
      and h: "holds (A(e \<mapsto> (st, n))) w1"
    by auto
  have "\<forall>u\<in>set cs. status_ok u" using Cons.prems(2) by simp
  from Cons.IH [OF c1(2) this h] obtain s' w'
    where r: "change_all E cs s1 w1 = (s', w')" "cached_by c s'"
      and h': "holds (A(e \<mapsto> (st, n)) ++ map_of (rev cs)) w'" by blast
  have m: "A(e \<mapsto> (st, n)) ++ map_of (rev cs) = A ++ map_of (rev (u # cs))"
    by (simp add: u map_add_def fun_eq_iff split: option.splits)
  have "change_all E (u # cs) s w = (s', w')" using c1 r by (simp add: u)
  with h' r(2) show ?case unfolding m by blast
qed simp

lemma query_hit:
  assumes s: "redis_serves E (r_ctx c)" and l: "cached_by c s" and A: "holds A w" and e: "A e = Some (st, n)"
  shows "\<exists>w'. db_sync_agent_status_query E others (Some e) out_size s w =
    Some ((0, Some (strncpy (nat (out_size - 1)) st), Some n), s, w') \<and> holds A w' \<and> same_sql w w'"
proof -
  from get_live [OF s _ A e, of out_size] l obtain w'
    where g: "db_redis_get_agent_status E e out_size c w =
        ((0, Some (strncpy (nat (out_size - 1)) st), Some n), c, w')" and h: "holds A w'"
    by (auto simp: cached_by_def)
  have "same_sql w w'" using sql_get_status [of w E e out_size c] g by simp
  with h on_cache_by [where f = "db_redis_get_agent_status E e out_size", OF l g] show ?thesis
    by (simp add: db_sync_agent_status_query_def)
qed

subsection \<open>The queue\<close>

text \<open>Every allocation of a task succeeded, with a cell that is not in use.\<close>

fun allocs_ok :: "env \<Rightarrow> (bytes \<times> bytes \<times> int) list \<Rightarrow> db_sync_context \<Rightarrow> world \<Rightarrow> bool" where
  "allocs_ok E [] s w = True"
| "allocs_ok E ((e, st, n) # cs) s w =
     (let m = rv (E (snd (snd (cache_status E (e, st, n) s w))) (Calloc 1));
          (r, s', w') = db_sync_agent_status_change E (Some e) (Some st) n s w
      in m \<noteq> 0 \<and> fresh_cell (sc_queue s) (nat m) \<and> allocs_ok E cs s' w')"

abbreviation pack_status :: "bytes \<times> bytes \<times> int \<Rightarrow> db_task_type \<times> bytes" where
  "pack_status u \<equiv> case u of (e, st, n) \<Rightarrow> pack_agent_status e st n"

text \<open>The database and its worker are there.\<close>

definition persists :: "db_sync_context \<Rightarrow> bool" where
  "persists s \<longleftrightarrow> sc_db_enabled s \<and> sc_worker_running s"

lemma change_queue:
  assumes "persists s" and "rv (E (snd (snd (cache_status E (e, st, n) s w))) (Calloc 1)) = m" and "m \<noteq> 0"
    and "db_sync_agent_status_change E (Some e) (Some st) n s w = (r, s', w')"
  shows "sc_queue s' = enqueue (sc_queue s) (nat m) (pack_agent_status e st n) \<and> persists s'"
  using assms
  by (auto simp: db_sync_agent_status_change_def submit_task_def split_beta Let_def persists_def)

lemma change_all_queue:
  "persists s \<Longrightarrow> queue_ok (sc_queue s) \<Longrightarrow> allocs_ok E cs s w \<Longrightarrow> change_all E cs s w = (s', w') \<Longrightarrow>
   length (tasks (sc_queue s)) + length cs \<le> nat DB_QUEUE_MAX_SIZE \<Longrightarrow>
   persists s' \<and> queue_ok (sc_queue s') \<and> tasks (sc_queue s') = tasks (sc_queue s) @ map pack_status cs"
proof (induction cs arbitrary: s w)
  case (Cons u cs)
  obtain e st n where u: "u = (e, st, n)" by (cases u)
  obtain r s1 w1 where c: "db_sync_agent_status_change E (Some e) (Some st) n s w = (r, s1, w1)"
    by (cases "db_sync_agent_status_change E (Some e) (Some st) n s w") auto
  define m where "m = rv (E (snd (snd (cache_status E (e, st, n) s w))) (Calloc 1))"
  have m: "m \<noteq> 0" "fresh_cell (sc_queue s) (nat m)" "allocs_ok E cs s1 w1"
    using Cons.prems(3) u c by (auto simp: m_def Let_def)
  have q: "sc_queue s1 = enqueue (sc_queue s) (nat m) (pack_agent_status e st n)" "persists s1"
    using change_queue [OF Cons.prems(1) m_def [symmetric] m(1) c] by simp_all
  have t: "queue_ok (sc_queue s1)" "tasks (sc_queue s1) = tasks (sc_queue s) @ [pack_agent_status e st n]"
    using enqueue_rep [OF Cons.prems(2) m(2)] Cons.prems(5) unfolding q(1) by (simp_all add: bounded_put_def)
  have "change_all E cs s1 w1 = (s', w')" using Cons.prems(4) u c by simp
  from Cons.IH [OF q(2) t(1) m(3) this] t(2) Cons.prems(5) show ?case by (simp add: u)
qed simp

subsection \<open>The database\<close>

definition clean_status :: "bytes \<times> bytes \<times> int \<Rightarrow> bool" where
  "clean_status = (\<lambda>(e, st, n). field 31 e \<and> field 31 st \<and> int_range n)"

abbreviation status_action :: "bytes \<times> bytes \<times> int \<Rightarrow> db_action" where
  "status_action u \<equiv> case u of (e, st, n) \<Rightarrow> Update_agent_status (Some e) (Some st) n"

abbreviation status_sql :: "bytes \<times> bytes \<times> int \<Rightarrow> bytes" where
  "status_sql u \<equiv> case u of (e, st, n) \<Rightarrow> update_status_sql e st n"

lemma perform_statuses:
  "\<forall>u\<in>set cs. clean_status u \<Longrightarrow>
   foldl (perform_next now True) acts (map pack_status cs) = acts @ map status_action cs"
  by (induction cs arbitrary: acts) (auto simp: clean_status_def perform_next_def status_performed)

lemma cstr_sql_text: "nul \<notin> set (concat parts) \<Longrightarrow> cstr (sql_text parts) = sql_text parts"
  unfolding sql_text_def snprintf_def by (rule cstr_id) (metis in_set_takeD)

lemma cstr_status_sql: "cstr (update_status_sql e st n) = update_status_sql e st n"
  unfolding update_status_sql_def
  by (rule cstr_sql_text) (simp add: sql_quote_def nul_def [symmetric], simp add: nul_def)

lemma do_statuses:
  "has_free p w \<Longrightarrow> \<exists>w'. do_actions E others (map status_action cs) p w = Some (p, w') \<and>
     sql_sent w' = sql_sent w @ map status_sql cs"
proof (induction cs arbitrary: w)
  case (Cons u cs)
  obtain e st n where u: "u = (e, st, n)" by (cases u)
  obtain r w1 where x: "db_mysql_execute E others (update_status_sql e st n) p w = Some (r, p, w1)"
      "sql_sent w1 = sql_sent w @ [cstr (update_status_sql e st n)]" "open_conns w1 = open_conns w"
    using execute_free [OF Cons.prems] by metis
  from Cons.IH [OF has_free_conns [OF x(3) Cons.prems]] x cstr_status_sql [of e st n] show ?case
    by (auto simp: u db_mysql_update_agent_status_def)
qed simp

section \<open>Filling the cache\<close>

text \<open>The server answers a query with these rows.\<close>

definition answers :: "env \<Rightarrow> bytes \<Rightarrow> bytes option list list \<Rightarrow> bool" where
  "answers E sql rs \<longleftrightarrow>
     (\<forall>w c. rv (E w (Mysql_real_query c sql)) = 0) \<and>
     (\<forall>w c r. rv (E ((Mysql_real_query c sql, r) # w) (Mysql_store_result c)) \<noteq> 0 \<and>
        rows (E ((Mysql_real_query c sql, r) # w) (Mysql_store_result c)) = rs)"

lemma query_answered:
  assumes "has_free p w" and "answers E sql rs" and "cstr sql = sql"
  shows "\<exists>h w'. db_mysql_query E others sql p w = Some (Some (h, rs), p, w') \<and>
    sql_sent w' = sql_sent w @ [sql] \<and> open_conns w' = open_conns w \<and> redis_hashes w' = redis_hashes w"
proof -
  from query_free [OF assms(1), of E others sql] obtain c w' where
    q: "db_mysql_query E others sql p w = Some (fst (run_query E (cstr sql) c w), p, w')"
      "sql_sent w' = sql_sent w @ [cstr sql]" "open_conns w' = open_conns w" "redis_hashes w' = redis_hashes w"
    by blast
  have "\<exists>h. fst (run_query E sql c w) = Some (h, rs)"
    using assms(2) by (simp add: run_query_def answers_def Let_def)
  with q assms(3) show ?thesis by auto
qed

lemma cstr_agent_sql: "cstr (query_agent_sql e) = query_agent_sql e"
  unfolding query_agent_sql_def
  by (rule cstr_sql_text) (simp add: sql_quote_def nul_def [symmetric], simp add: nul_def)

lemma query_miss:
  assumes s: "redis_serves E (r_ctx c)" and l: "cached_by c s" and A: "holds A w1"
    and db: "sc_db_enabled s" "sc_pool s = Some p" "has_free p w"
    and miss: "db_redis_get_agent_status E e out_size c w = ((- 1, None, None), c, w1)"
    and row: "answers E (query_agent_sql e) [[Some st, Some t]]" and ok: "status_ok (e, st, atoi t)"
  shows "\<exists>w'. db_sync_agent_status_query E others (Some e) out_size s w =
      Some ((0, fill out_size st, Some (atoi t)), s, w') \<and>
    holds (A(e \<mapsto> (st, atoi t))) w' \<and> sql_sent w' = sql_sent w @ [query_agent_sql e]"
proof -
  have w1: "same_sql w w1" using sql_get_status [of w E e out_size c] miss by simp
  from query_answered [OF has_free_same [OF w1 db(3)] row cstr_agent_sql, of others] obtain h w2
    where q: "db_mysql_query E others (query_agent_sql e) p w1 = Some (Some (h, [[Some st, Some t]]), p, w2)"
      "sql_sent w2 = sql_sent w1 @ [query_agent_sql e]" "redis_hashes w2 = redis_hashes w1" by blast
  have st: "strncpy 31 st = st"
    using ok by (simp add: status_ok_def plain_def strncpy_def cstr_id)
  let ?w3 = "mysql_free_result E (h, [[Some st, Some t]]) w2"
  have single: "db_mysql_query_agent_single E others e 32 p w1 = Some ((0, Some st, atoi t), p, ?w3)"
    using q(1) st by (simp add: db_mysql_query_agent_single_def on_result_def Let_def col_def)
  have "holds A ?w3" using A q(3) by (simp add: holds_def mysql_free_result_def)
  from cache_live [OF s _ ok this] l obtain w4
    where c: "db_redis_cache_agent_status E e st (atoi t) c ?w3 = (0, c, w4)"
      and h: "holds (A(e \<mapsto> (st, atoi t))) w4" by (auto simp: cached_by_def)
  have "same_sql ?w3 w4" using sql_cache_status [of ?w3 E e st "atoi t" c] c by simp
  then have sent: "sql_sent w4 = sql_sent w @ [query_agent_sql e]"
    using q(2) w1 by (simp add: same_sql_def mysql_free_result_def)
  have same: "s\<lparr>sc_pool := Some p\<rparr> = s" using db(2) by simp
  have "db_sync_agent_status_query E others (Some e) out_size s w =
      Some ((0, fill out_size st, Some (atoi t)), s, w4)"
    using on_cache_by [where f = "db_redis_get_agent_status E e out_size", OF l miss]
      on_cache_by [where f = "db_redis_cache_agent_status E e st (atoi t)", OF l c] db(1,2) single
    by (simp add: db_sync_agent_status_query_def keep_pool_def same)
  with h sent show ?thesis by blast
qed

subsection \<open>The warm-up\<close>

text \<open>An agent's row as the warm-up reads it.\<close>

definition row_status :: "bytes option list \<Rightarrow> bytes \<times> bytes \<times> int" where
  "row_status row = (opt_str (col row 0), or_text ''offline'' (col row 2), num_col row 3)"

lemma online_key: "cstr (redis_key REDIS_KEY_AGENT_ONLINE e) \<noteq> ''agent:status:'' @ x"
proof -
  have n: "cstr (take 242 (cstr e)) = take 242 (cstr e)"
    by (rule cstr_id) (metis nul_cstr in_set_takeD)
  have "cstr (redis_key REDIS_KEY_AGENT_ONLINE e) = ''agent:online:'' @ take 242 (cstr e)"
    by (simp add: redis_key_def snprintf_def DB_MAX_REDIS_KEY_LEN_def REDIS_KEY_AGENT_ONLINE_def n nul_def)
  then show ?thesis by simp
qed

lemma online_live:
  assumes s: "redis_serves E (r_ctx c)" and l: "live c" and A: "holds A w"
  shows "\<exists>r w'. db_redis_cache_agent_online E e n c w = (r, c, w') \<and> holds A w'"
proof -
  obtain w1 where e: "db_redis_ensure_connected E c w = (0, c, w1)" and h: "redis_hashes w1 = redis_hashes w"
    using ensure_live [OF s l] by blast
  let ?key = "cstr (redis_key REDIS_KEY_AGENT_ONLINE e)"
  obtain r w' where r: "db_redis_cache_agent_online E e n c w = (r, c, w')"
    and k: "redis_hashes w' = (redis_hashes w)(?key := Map.empty)"
    using e h by (simp add: db_redis_cache_agent_online_def db_redis_set_def on_reply_def redisCommand_def hash_command_def)
  have "redis_hashes w' (''agent:status:'' @ x) = redis_hashes w (''agent:status:'' @ x)" for x
    unfolding k using online_key [of e x] by simp
  with A have "holds A w'" unfolding holds_def by presburger
  with r show ?thesis by blast
qed

lemma warm_agents_live:
  assumes s: "redis_serves E (r_ctx c)" and l: "live c"
  shows "\<forall>row\<in>set rs. status_ok (row_status row) \<Longrightarrow> holds A w \<Longrightarrow>
    \<exists>w'. warm_agents E rs c w = (c, w') \<and> holds (A ++ map_of (rev (map row_status rs))) w'"
proof (induction rs arbitrary: A w)
  case (Cons row rs)
  obtain e st n where u: "row_status row = (e, st, n)" by (cases "row_status row")
  from Cons.prems u have ok: "status_ok (e, st, n)" by simp
  from cache_live [OF s l ok Cons.prems(2)] obtain w1
    where c1: "db_redis_cache_agent_status E e st n c w = (0, c, w1)" and h1: "holds (A(e \<mapsto> (st, n))) w1" by blast
  from online_live [OF s l h1, of e "num_col row 1"] obtain r w2
    where c2: "db_redis_cache_agent_online E e (num_col row 1) c w1 = (r, c, w2)" and h2: "holds (A(e \<mapsto> (st, n))) w2"
    by blast
  have "\<forall>row\<in>set rs. status_ok (row_status row)" using Cons.prems by simp
  from Cons.IH [OF this h2] obtain w'
    where r: "warm_agents E rs c w2 = (c, w')"
      and h: "holds (A(e \<mapsto> (st, n)) ++ map_of (rev (map row_status rs))) w'" by blast
  have m: "A(e \<mapsto> (st, n)) ++ map_of (rev (map row_status rs)) = A ++ map_of (rev (map row_status (row # rs)))"
    by (simp add: u map_add_def fun_eq_iff split: option.splits)
  have "warm_agents E (row # rs) c w = (c, w')"
    using c1 c2 r u by (simp add: row_status_def Let_def)
  with h show ?case unfolding m by blast
qed simp

lemma plain_sql: "cstr depts_sql = depts_sql" "cstr agents_sql = agents_sql"
  by (simp_all add: depts_sql_def agents_sql_def nul_def)

text \<open>A warm-up sends its query, whatever comes back, and changes nothing but the Redis connection.\<close>

lemma warm_up_sql:
  assumes "sc_db_enabled s" and "sc_cache_enabled s" and "sc_pool s = Some p" and "sc_redis s = Some c"
    and f: "has_free p w" and sql: "cstr sql = sql" and loop: "\<And>rs c w. same_sql w (snd (loop rs c w))"
  shows "\<exists>r c' w'. warm_up E others sql loop s w = Some (r, s\<lparr>sc_redis := Some c'\<rparr>, w') \<and>
    sql_sent w' = sql_sent w @ [sql] \<and> has_free p w'"
proof -
  from query_free [OF f, of E others sql] sql obtain k w1 where
    q: "db_mysql_query E others sql p w = Some (fst (run_query E sql k w), p, w1)"
      "sql_sent w1 = sql_sent w @ [sql]" "open_conns w1 = open_conns w"
    by auto
  have same: "s\<lparr>sc_pool := Some p\<rparr> = s" "s\<lparr>sc_redis := Some c\<rparr> = s" using assms by simp_all
  have f1: "has_free p w1" by (rule has_free_conns [OF q(3) f])
  show ?thesis
  proof (cases "fst (run_query E sql k w)")
    case None
    with q(1) assms same have "warm_up E others sql loop s w = Some (- 1, s\<lparr>sc_redis := Some c\<rparr>, w1)"
      by (simp add: warm_up_def keep_pool_def)
    with q(2) f1 show ?thesis by blast
  next
    case (Some res)
    obtain c' w2 where lp: "loop (snd res) c w1 = (c', w2)" by (cases "loop (snd res) c w1")
    with loop [of w1 "snd res" c] have "same_sql w1 w2" by simp
    then have "same_sql w1 (mysql_free_result E res w2)" by (simp add: same_sql_def mysql_free_result_def)
    with q(2) has_free_same [OF this f1] have "sql_sent (mysql_free_result E res w2) = sql_sent w @ [sql]"
      "has_free p (mysql_free_result E res w2)" by (simp_all add: same_sql_def)
    moreover have "warm_up E others sql loop s w =
        Some (int (length (snd res)), s\<lparr>sc_redis := Some c'\<rparr>, mysql_free_result E res w2)"
      using q(1) Some assms same lp by (simp add: warm_up_def keep_pool_def)
    ultimately show ?thesis by blast
  qed
qed

lemma warmup_all_sql:
  assumes e: "sc_db_enabled s" "sc_cache_enabled s" "sc_pool s = Some p" "sc_redis s = Some c"
    and f: "has_free p w"
  shows "\<exists>c' w'. db_sync_cache_warmup_all E others s w = Some (0, s\<lparr>sc_redis := Some c'\<rparr>, w') \<and>
    sql_sent w' = sql_sent w @ [depts_sql, agents_sql] \<and> has_free p w'"
proof -
  from warm_up_sql [where E = E and others = others and loop = "warm_depts E", OF e f plain_sql(1) sql_warm_depts] obtain r1 c1 w1 where
    d: "db_sync_cache_warmup_depts E others s w = Some (r1, s\<lparr>sc_redis := Some c1\<rparr>, w1)"
      "sql_sent w1 = sql_sent w @ [depts_sql]" "has_free p w1"
    by (auto simp: db_sync_cache_warmup_depts_def)
  from warm_up_sql [where E = E and others = others and loop = "warm_agents E"
      and s = "s\<lparr>sc_redis := Some c1\<rparr>" and c = c1, OF _ _ _ _ d(3) plain_sql(2) sql_warm_agents] e
  obtain r2 c2 w2 where
    "db_sync_cache_warmup_agents E others (s\<lparr>sc_redis := Some c1\<rparr>) w1 = Some (r2, s\<lparr>sc_redis := Some c2\<rparr>, w2)"
      "sql_sent w2 = sql_sent w1 @ [agents_sql]" "has_free p w2"
    by (auto simp: db_sync_cache_warmup_agents_def)
  with d e show ?thesis by (simp add: db_sync_cache_warmup_all_def) blast
qed

lemma free_active: "has_free p w \<Longrightarrow> 0 < p_active p"
  by (auto simp: has_free_def pool_inv_def free_slot_def count_slots_def filter_empty_conv)

section \<open>A concrete pair of servers\<close>

text \<open>A MySQL server that answers every query with the given rows, the Redis server at rest
  of before, and an allocator that gives out new cells.\<close>

definition full_os :: "bytes option list list \<Rightarrow> env" where
  "full_os rs w c =
     (case c of
        Redis_connect \<Rightarrow> redis_os w c
      | Redis_command p args \<Rightarrow> redis_os w c
      | Mysql_store_result h \<Rightarrow> null_ret\<lparr>rv := 5, rows := rs\<rparr>
      | Calloc n \<Rightarrow> null_ret\<lparr>rv := next_conn w\<rparr>
      | _ \<Rightarrow> mysql_os True w c)"

lemma full_os_serves: "redis_serves (full_os rs) h"
  using redis_os_serves [of h] by (simp add: redis_serves_def full_os_def)

lemma full_os_answers: "answers (full_os rs) sql rs"
  by (simp add: answers_def full_os_def mysql_os_def null_ret_def)

definition sample_ctx :: redis_context where
  "sample_ctx = \<lparr>r_ctx = 7, r_config = sample_redis, r_connected = True, r_retry_count = 0, r_last_attempt = 0\<rparr>"

definition sample_sync :: "bool \<Rightarrow> db_sync_context" where
  "sample_sync cache = \<lparr>sc_pool = Some ready_pool, sc_redis = Some sample_ctx, sc_queue = (queue_init, Map.empty),
     sc_worker_running = True, sc_db_enabled = True, sc_cache_enabled = cache,
     sc_last_health_check = 0, sc_interval = 15\<rparr>"

definition pool_world :: world where
  "pool_world = [(Mysql_init, null_ret\<lparr>rv := 3\<rparr>), (Mysql_init, null_ret\<lparr>rv := 2\<rparr>)]"

lemma handles_list: "handles p = set (map s_conn (p_slots p)) - {0}"
  by (auto simp: handles_set)

lemma sample_free: "has_free ready_pool pool_world"
  by (auto simp: has_free_def pool_inv_def slots_inv_def ready_pool_def made_pool_def pool_world_def
      null_ret_def slot_ok_def distinct_conns_def conn_at_def handles_list count_slots_def free_slot_def
      MYSQL_POOL_MAX_SIZE_def DB_RECONNECT_MAX_SEC_def less_Suc_eq numeral_2_eq_2)

lemma sample_cached: "cached_by sample_ctx (sample_sync True)"
  by (simp add: cached_by_def sample_ctx_def sample_sync_def live_def)

lemma sample_sel: "sc_db_enabled (sample_sync b)" "sc_pool (sample_sync b) = Some ready_pool"
  by (simp_all add: sample_sync_def)

section \<open>Properties\<close>




lemma sample_miss:
  "\<exists>w1. db_redis_get_agent_status (full_os rs) ''2001'' 32 sample_ctx pool_world = ((- 1, None, None), sample_ctx, w1)"
proof -
  have k: "cstr ''status'' = ''status''" by (simp add: nul_def)
  show ?thesis
    unfolding db_redis_get_agent_status_def db_redis_hget_def on_reply_def db_redis_ensure_connected_def
      db_redis_ping_def k
    by (simp add: Let_def redisCommand_def full_os_def redis_os_def pool_world_def sample_ctx_def
        str_reply_def null_ret_def hash_command_def reply_failed_def free_reply_def nul_def)
qed


text \<open>C37: Every status change the layer accepts reaches MySQL: after a series of changes (fewer
  than 10000, with fields the format can carry, every task allocated), stopping the worker
  returns, and the worker's calls, with a connection to spare, have sent exactly one \<open>UPDATE\<close> per change, in the
  order of the changes, whatever Redis did meanwhile.\<close>
theorem status_reaches_mysql:
  assumes "persists s" and "queue_ok (sc_queue s)" and "tasks (sc_queue s) = []"
    and "\<forall>u\<in>set cs. clean_status u" and "length cs < nat DB_QUEUE_MAX_SIZE" and "allocs_ok E cs s w"
    and "change_all E cs s w = (s', w')" and "fresh_cell (sc_queue s') a" and "has_free p w'"
  shows "\<exists>q acts w''. db_sync_stop_worker now True True (Some a) (sc_queue s') [] = Some (q, acts, False) \<and>
    tasks q = [] \<and> do_actions E others acts p w' = Some (p, w'') \<and>
    sql_sent w'' = sql_sent w @ map status_sql cs"
proof -
  have q: "queue_ok (sc_queue s')" "tasks (sc_queue s') = map pack_status cs"
    using change_all_queue [OF assms(1,2,6,7)] assms(3,5) by simp_all
  from stop_result [OF q(1), of "Some a" now True "[]"] assms(5,8) perform_statuses [OF assms(4), of now "[]"]
  obtain q' where "db_sync_stop_worker now True True (Some a) (sc_queue s') [] =
      Some (q', map status_action cs, False)" "tasks q' = []"
    by (auto simp: q(2))
  moreover have "sql_sent w' = sql_sent w" using sql_change_all [of w E cs s] assms(7) by (simp add: same_sql_def)
  ultimately show ?thesis using do_statuses [OF assms(9), of E others cs] by metis
qed

lemma sample_changes:
  "\<exists>s' w'. allocs_ok (full_os []) [(''2001'', ''busy'', 1), (''2002'', ''idle'', 0)] (sample_sync False) pool_world \<and>
     change_all (full_os []) [(''2001'', ''busy'', 1), (''2002'', ''idle'', 0)] (sample_sync False) pool_world = (s', w') \<and>
     fresh_cell (sc_queue s') 9 \<and> has_free ready_pool w'"
proof -
  let ?cs = "[(''2001'', ''busy'', 1), (''2002'', ''idle'', 0)]"
  obtain s' w' where r: "change_all (full_os []) ?cs (sample_sync False) pool_world = (s', w')"
    by (cases "change_all (full_os []) ?cs (sample_sync False) pool_world")
  have "has_free ready_pool w'"
    using has_free_same [OF sql_change_all [of pool_world "full_os []" ?cs "sample_sync False"] sample_free] r by simp
  moreover have "allocs_ok (full_os []) ?cs (sample_sync False) pool_world"
    by (simp add: db_sync_agent_status_change_def submit_task_def on_cache_def sample_sync_def full_os_def
        null_ret_def pool_world_def queue_eval Let_def)
  moreover have "fresh_cell (sc_queue s') 9"
    using r by (auto simp: db_sync_agent_status_change_def submit_task_def on_cache_def sample_sync_def full_os_def
        null_ret_def pool_world_def queue_eval Let_def)
  ultimately show ?thesis using r by blast
qed

lemma status_reaches_mysql_witness:
  "\<exists>s' w' q acts w''. change_all (full_os []) [(''2001'', ''busy'', 1), (''2002'', ''idle'', 0)] (sample_sync False)
      pool_world = (s', w') \<and>
    db_sync_stop_worker (\<lambda>acts. []) True True (Some 9) (sc_queue s') [] = Some (q, acts, False) \<and>
    do_actions (full_os []) (\<lambda>w p. p) acts ready_pool w' = Some (ready_pool, w'') \<and>
    sql_sent w'' = [update_status_sql ''2001'' ''busy'' 1, update_status_sql ''2002'' ''idle'' 0]"
proof -
  let ?cs = "[(''2001'', ''busy'', 1), (''2002'', ''idle'', 0)] :: (bytes \<times> bytes \<times> int) list"
  obtain s' w' where a: "allocs_ok (full_os []) ?cs (sample_sync False) pool_world"
    and r: "change_all (full_os []) ?cs (sample_sync False) pool_world = (s', w')"
    and f: "fresh_cell (sc_queue s') 9" "has_free ready_pool w'" using sample_changes by blast
  have p: "persists (sample_sync False)" "queue_ok (sc_queue (sample_sync False))"
    "tasks (sc_queue (sample_sync False)) = []"
    by (simp_all add: persists_def sample_sync_def queue_ok_init)
  have c: "\<forall>u\<in>set ?cs. clean_status u"
    by (simp add: clean_status_def field_def int_range_def nul_def)
  have l: "length ?cs < nat DB_QUEUE_MAX_SIZE" by (simp add: DB_QUEUE_MAX_SIZE_def)
  have "sql_sent pool_world = []" by (simp add: pool_world_def)
  with status_reaches_mysql [OF p c l a r f, of "\<lambda>acts. []" "\<lambda>w p. p"] r show ?thesis by auto
qed



text \<open>When the health check finds Redis back after an outage, it warms the cache up twice: the
  two queries of the warm-up go to MySQL two times each, whatever they return; the layer is
  healthy and cached again.\<close>
theorem recovery_warms_twice:
  assumes "sc_redis s = Some c" and "\<not> sc_cache_enabled s" and "sc_db_enabled s" and "sc_pool s = Some p"
    and "has_free p w" and "sc_interval s \<le> rv (E w Time) - sc_last_health_check s"
    and "db_redis_ensure_connected E c ((Time, E w Time) # w) = (0, c', w1)"
  shows "\<exists>s' w'. db_sync_health_check E others s w = Some (0, s', w') \<and> sc_cache_enabled s' \<and>
    sc_last_health_check s' = rv (E w Time) \<and>
    sql_sent w' = sql_sent w @ [depts_sql, agents_sql, depts_sql, agents_sql]"
proof -
  let ?w = "(Time, E w Time) # w" and ?s = "s\<lparr>sc_last_health_check := rv (E w Time)\<rparr>"
  let ?s1 = "?s\<lparr>sc_redis := Some c', sc_cache_enabled := True\<rparr>"
  have w1: "same_sql w w1" using sql_ensure [of ?w E c] assms(7) by (simp add: same_sql_def)
  from warmup_all_sql [of ?s1 p c' w1 E others] has_free_same [OF w1 assms(5)] assms(3,4) obtain c2 w2
    where a: "db_sync_cache_warmup_all E others ?s1 w1 = Some (0, ?s1\<lparr>sc_redis := Some c2\<rparr>, w2)"
      "sql_sent w2 = sql_sent w1 @ [depts_sql, agents_sql]" "has_free p w2" by auto
  let ?s2 = "?s1\<lparr>sc_redis := Some c2\<rparr>"
  from warmup_all_sql [of ?s2 p c2 w2 E others] a(3) assms(3,4) obtain c3 w3
    where b: "db_sync_cache_warmup_all E others ?s2 w2 = Some (0, ?s2\<lparr>sc_redis := Some c3\<rparr>, w3)"
      "sql_sent w3 = sql_sent w2 @ [depts_sql, agents_sql]" by auto
  have m: "mysql_health ?s = ?s"
    using free_active [OF assms(5)] assms(3,4) by (simp add: mysql_health_def db_mysql_pool_health_def)
  have r: "redis_health E others ?s ?w = Some (?s2, w2)"
    using assms(1,2,3,7) a(1) by (simp add: redis_health_def Let_def)
  have "db_sync_health_check E others s w = Some (0, ?s2\<lparr>sc_redis := Some c3\<rparr>, w3)"
    using assms(2,3,6) m r b(1) by (simp add: db_sync_health_check_def Let_def sync_status_def)
  with a(2) b(2) w1 show ?thesis by (auto simp: same_sql_def)
qed

lemma recovery_warms_twice_witness:
  "\<exists>s' w'. db_sync_health_check (full_os []) (\<lambda>w p. p) (sample_sync False) pool_world = Some (0, s', w') \<and>
     sql_sent w' = [depts_sql, agents_sql, depts_sql, agents_sql]"
proof -
  have e: "\<exists>w1. db_redis_ensure_connected (full_os []) sample_ctx
      ((Time, full_os [] pool_world Time) # pool_world) = (0, sample_ctx, w1)"
    by (simp add: db_redis_ensure_connected_def db_redis_ping_def Let_def redisCommand_def full_os_def
        redis_os_def sample_ctx_def null_ret_def reply_failed_def free_reply_def)
  then obtain w1 where e: "db_redis_ensure_connected (full_os []) sample_ctx
      ((Time, full_os [] pool_world Time) # pool_world) = (0, sample_ctx, w1)" by blast
  have t: "rv (full_os [] pool_world Time) = 1000" by (simp add: full_os_def mysql_os_def null_ret_def)
  have "sql_sent pool_world = []" by (simp add: pool_world_def)
  with recovery_warms_twice [OF _ _ _ _ sample_free _ e, of "sample_sync False" "\<lambda>w p. p"] t show ?thesis
    by (auto simp: sample_sync_def)
qed

end
