(* ===== verification/Database_Life.thy ===== *)
theory Database_Life
  imports Startup Sync_Facts
begin

text \<open>
  The life of the database layer as a whole: whatever is done with it between its start and
  its shutdown, every MySQL handle, every Redis context and every reply is released.
\<close>

section \<open>The MySQL side leaves Redis alone\<close>

definition same_redis :: "world \<Rightarrow> world \<Rightarrow> bool" where
  "same_redis w w' \<longleftrightarrow> redis_ctxs w' = redis_ctxs w \<and> live_replies w' = live_replies w \<and>
     os_view w' = os_view w"

lemma same_redis_refl [simp]: "same_redis w w"
  by (simp add: same_redis_def)

lemma same_redis_trans: "same_redis w w' \<Longrightarrow> same_redis w' w'' \<Longrightarrow> same_redis w w''"
  by (simp add: same_redis_def)

lemma clean_same: "same_redis w w' \<Longrightarrow> redis_clean c w' = redis_clean c w"
  by (simp add: same_redis_def redis_clean_def)

lemma red_slot_connect: "same_redis w (snd (snd (slot_connect E i p w)))"
  by (simp add: slot_connect_def Let_def same_redis_def)

lemma red_connect_slots: "same_redis w (snd (snd (connect_slots E every is ok p w)))"
proof (induction "is" arbitrary: ok p w)
  case (Cons i js)
  have "same_redis w (snd (snd (connect_slots E every js n (fst (snd (slot_connect E i p w)))
      (snd (snd (slot_connect E i p w))))))" for n
    by (rule same_redis_trans [OF red_slot_connect Cons.IH])
  with Cons.IH show ?case by (cases every; simp add: split_beta)
qed simp

lemma red_try_reconnect: "same_redis w (snd (snd (pool_try_reconnect E p w)))"
proof -
  have "same_redis w (snd (snd (connect_slots E b js n q ((Time, E w Time) # w))))" for b js n q
    using same_redis_trans [OF _ red_connect_slots, of w "(Time, E w Time) # w"] by (simp add: same_redis_def)
  then show ?thesis by (simp add: pool_try_reconnect_def Let_def split_beta same_redis_def)
qed

lemma red_borrow_turn: "same_redis w (snd (snd (borrow_turn E p w)))"
  using red_try_reconnect [of w E p]
  by (simp add: borrow_turn_def Let_def split_beta same_redis_def split: option.split)

lemma red_borrow:
  assumes "db_mysql_pool_borrow E others p w = Some r"
  shows "same_redis w (snd (snd r))"
proof -
  let ?P = "\<lambda>E others p w r. same_redis w (snd (snd r))"
  show "?P E others p w r"
  proof (rule db_mysql_pool_borrow.raw_induct [where P = ?P, OF _ assms])
    fix borrow E others p w r
    assume IH: "\<And>E others p w r. borrow E others p w = Some r \<Longrightarrow> ?P E others p w r"
      and e: "(case borrow_turn E p w of (r, p, w) \<Rightarrow> (case r of Got c \<Rightarrow> Some (c, p, w)
          | Timed_out \<Rightarrow> Some (0, p, w) | Again \<Rightarrow> borrow E others (others w p) w)) = Some r"
    obtain res p1 w1 where t: "borrow_turn E p w = (res, p1, w1)" by (cases "borrow_turn E p w") auto
    then have r1: "same_redis w w1" using red_borrow_turn [of w E p] by simp
    show "?P E others p w r"
    proof (cases res)
      case Again
      with e t have "borrow E others (others w1 p1) w1 = Some r" by simp
      from same_redis_trans [OF r1 IH [OF this]] show ?thesis .
    qed (use e t r1 in auto)
  qed
qed

section \<open>Operations on the pool\<close>

text \<open>An operation keeps the pool's invariant and leaves Redis alone.\<close>

definition keeps_db :: "env \<Rightarrow> (mysql_pool \<Rightarrow> world \<Rightarrow> ('a \<times> mysql_pool \<times> world) option) \<Rightarrow> bool" where
  "keeps_db E f \<longleftrightarrow> (\<forall>p w r p' w'. pool_inv p w \<longrightarrow> f p w = Some (r, p', w') \<longrightarrow> pool_inv p' w' \<and> same_redis w w')"

lemma keeps_dbD: "keeps_db E f \<Longrightarrow> pool_inv p w \<Longrightarrow> f p w = Some (r, p', w') \<Longrightarrow> pool_inv p' w' \<and> same_redis w w'"
  unfolding keeps_db_def by blast

lemma pool_inv_conns: "open_conns w' = open_conns w \<Longrightarrow> pool_inv p w' = pool_inv p w"
  by (simp add: pool_inv_def slots_inv_def)

text \<open>The environment of the layer: new handles are fresh, other threads respect the pool.\<close>

definition pool_env :: "env \<Rightarrow> others \<Rightarrow> bool" where
  "pool_env E others \<longleftrightarrow> fresh_conns E \<and> polite others"

lemma keeps_with_conn:
  assumes e: "pool_env E others"
    and body: "\<And>c w. open_conns (snd (body c w)) = open_conns w" "\<And>c w. same_redis w (snd (body c w))"
  shows "keeps_db E (with_conn E others d body)"
  unfolding keeps_db_def
proof (intro allI impI)
  fix p w r p' w'
  assume i: "pool_inv p w" and r: "with_conn E others d body p w = Some (r, p', w')"
  then obtain c p1 w1 where b: "db_mysql_pool_borrow E others p w = Some (c, p1, w1)"
    by (auto simp: with_conn_def split: option.splits)
  have B: "pool_inv p1 w1" "c \<noteq> 0 \<longrightarrow> c \<in> busy p1" "same_redis w w1"
    using borrow_inv [OF b] red_borrow [OF b] e i by (auto simp: pool_env_def)
  show "pool_inv p' w' \<and> same_redis w w'"
  proof (cases "c = 0")
    case True
    with r b B show ?thesis by (simp add: with_conn_def)
  next
    case False
    with r b have "p' = db_mysql_pool_return c p1" "w' = snd (body c w1)"
      by (simp_all add: with_conn_def split_beta)
    moreover have "pool_inv p1 (snd (body c w1))" using B(1) pool_inv_conns [OF body(1)] by simp
    ultimately show ?thesis
      using return_inv [of p1 "snd (body c w1)" c] B(2,3) False same_redis_trans [OF _ body(2)] by simp
  qed
qed

lemma statement_world:
  "open_conns (snd (run_statement E sql c w)) = open_conns w" "same_redis w (snd (run_statement E sql c w))"
  "open_conns (snd (run_query E sql c w)) = open_conns w" "same_redis w (snd (run_query E sql c w))"
  by (simp_all add: run_statement_def run_query_def Let_def same_redis_def)

lemma keeps_execute: "pool_env E others \<Longrightarrow> keeps_db E (db_mysql_execute E others sql)"
  "pool_env E others \<Longrightarrow> keeps_db E (db_mysql_execute_long E others sql n)"
  by (simp_all add: db_mysql_execute_def db_mysql_execute_long_def keeps_with_conn statement_world)

lemma keeps_query: "pool_env E others \<Longrightarrow> keeps_db E (db_mysql_query E others sql)"
  by (simp add: db_mysql_query_def keeps_with_conn statement_world)

lemma keeps_on_result:
  assumes "pool_env E others"
  shows "keeps_db E (on_result E others sql d f)"
  unfolding keeps_db_def
proof (intro allI impI)
  fix p w r p' w'
  assume i: "pool_inv p w" and r: "on_result E others sql d f p w = Some (r, p', w')"
  then obtain res w1 where q: "db_mysql_query E others sql p w = Some (res, p', w1)"
    by (auto simp: on_result_def split: option.splits)
  have Q: "pool_inv p' w1" "same_redis w w1" using keeps_dbD [OF keeps_query [OF assms] i q] by blast+
  have "w' = w1 \<or> (\<exists>x. w' = mysql_free_result E x w1)"
    using r q by (auto simp: on_result_def split: option.splits)
  then show "pool_inv p' w' \<and> same_redis w w'"
    using Q by (auto simp: mysql_free_result_def pool_inv_def slots_inv_def same_redis_def)
qed

text \<open>Sequences: a step and what follows it.\<close>

lemma keeps_step:
  assumes "keeps_db E f" and "pool_inv p w" and "f p w = Some (r, p1, w1)"
    and "\<And>p w. pool_inv p w \<Longrightarrow> g p w = Some (r', p', w') \<Longrightarrow> pool_inv p' w' \<and> same_redis w w'"
    and "g p1 w1 = Some (r', p', w')"
  shows "pool_inv p' w' \<and> same_redis w w'"
  using keeps_dbD [OF assms(1-3)] assms(4) [OF _ assms(5)] same_redis_trans by blast

lemma action_execute:
  "do_action E others a p w = Some r \<Longrightarrow> \<exists>sql. db_mysql_execute E others sql p w = Some r"
  by (induction E others a p w rule: do_action.induct)
    (auto simp: db_mysql_update_agent_status_def db_mysql_insert_call_record_def db_mysql_update_call_end_def)

lemma keeps_action: "pool_env E others \<Longrightarrow> keeps_db E (do_action E others a)"
  unfolding keeps_db_def using action_execute keeps_dbD [OF keeps_execute(1)] by blast

lemma keeps_actions:
  "pool_env E others \<Longrightarrow> pool_inv p w \<Longrightarrow> do_actions E others acts p w = Some (p', w') \<Longrightarrow>
   pool_inv p' w' \<and> same_redis w w'"
proof (induction acts arbitrary: p w)
  case (Cons a acts)
  obtain r p1 w1 where a: "do_action E others a p w = Some (r, p1, w1)"
    using Cons.prems(3) by (auto split: option.splits)
  with Cons.prems(3) have "do_actions E others acts p1 w1 = Some (p', w')" by simp
  with Cons.IH [OF Cons.prems(1), of p1 w1] keeps_dbD [OF keeps_action [OF Cons.prems(1)] Cons.prems(2) a] same_redis_trans
  show ?case by blast
qed simp

section \<open>The schema and the seed data\<close>

lemma keeps_schema_loop:
  assumes "pool_env E others"
  shows "pool_inv p w \<Longrightarrow> schema_loop E others content stmt count p w = Some (r, p', w') \<Longrightarrow>
    pool_inv p' w' \<and> same_redis w w'"
  using assms
proof (induction E others content stmt count p w rule: schema_loop.induct)
  case (1 E others content stmt count p w)
  obtain line content' where f: "fgets DB_MAX_SQL_LEN content = (line, content')"
    by (cases "fgets DB_MAX_SQL_LEN content")
  obtain stmt' sql where l: "schema_line stmt line = (stmt', sql)" by (cases "schema_line stmt line")
  note r = "1.prems"(2) [unfolded schema_loop.simps [of E others content]]
  show ?case
  proof (cases "content = []")
    case True
    with r "1.prems"(1) show ?thesis by simp
  next
    case ne: False
    show ?thesis
    proof (cases sql)
      case None
      with r f l ne have "schema_loop E others content' stmt' count p w = Some (r, p', w')" by simp
      from "1.IH"(1) [OF ne f [symmetric] l [unfolded None, symmetric] refl "1.prems"(1) this "1.prems"(3)]
      show ?thesis .
    next
      case (Some q)
      with r f l ne obtain n p1 w1 where x: "db_mysql_execute E others q p w = Some (n, p1, w1)"
        and c: "schema_loop E others content' stmt' (if 0 \<le> n then count + 1 else count) p1 w1 = Some (r, p', w')"
        by (auto split: option.splits)
      have k: "pool_inv p1 w1" "same_redis w w1"
        using keeps_dbD [OF keeps_execute(1) "1.prems"(1) x] "1.prems"(3) by blast+
      from "1.IH"(2) [OF ne f [symmetric] l [unfolded Some, symmetric] refl x refl refl k(1) c "1.prems"(3)] k(2)
      show ?thesis using same_redis_trans by blast
    qed
  qed
qed

lemma keeps_schema: "pool_env E others \<Longrightarrow> keeps_db E (db_mysql_init_schema E others file)"
  using keeps_schema_loop by (auto simp: keeps_db_def db_mysql_init_schema_def split: option.splits)

lemma keeps_seed_batch:
  assumes "pool_env E others"
  shows "keeps_db E (seed_insert_batch E others tbl cols s e d idx)"
  unfolding keeps_db_def
proof (intro allI impI)
  fix p w r p' w'
  assume i: "pool_inv p w" and r: "seed_insert_batch E others tbl cols s e d idx p w = Some (r, p', w')"
  have "(p' = p \<and> w' = w) \<or> (\<exists>t n k. db_mysql_execute_long E others t n p w = Some (k, p', w'))"
    using r by (auto simp: seed_insert_batch_def Let_def split: option.splits if_splits prod.splits)
  with i keeps_dbD [OF keeps_execute(2) [OF assms] i] show "pool_inv p' w' \<and> same_redis w w'" by auto
qed

lemma keeps_agents_batch:
  assumes "pool_env E others"
  shows "keeps_db E (seed_insert_agents_batch E others s e d)"
  unfolding keeps_db_def
proof (intro allI impI)
  fix p w r p' w'
  assume i: "pool_inv p w" and r: "seed_insert_agents_batch E others s e d p w = Some (r, p', w')"
  have "(p' = p \<and> w' = w) \<or> (\<exists>t n k. db_mysql_execute_long E others t n p w = Some (k, p', w'))"
    using r by (auto simp: seed_insert_agents_batch_def Let_def split: option.splits if_splits prod.splits)
  with i keeps_dbD [OF keeps_execute(2) [OF assms] i] show "pool_inv p' w' \<and> same_redis w w'" by auto
qed

lemma keeps_seed_extensions:
  assumes "pool_env E others"
  shows "keeps_db E (seed_extensions E others d bs idx tot)"
  unfolding keeps_db_def
proof (intro allI impI)
  show "pool_inv p' w' \<and> same_redis w w'"
    if "pool_inv p w" "seed_extensions E others d bs idx tot p w = Some (r, p', w')" for p w r p' w'
    using that
  proof (induction bs arbitrary: idx tot p w)
    case (Cons b bs)
    obtain s e where b: "b = (s, e)" by (cases b)
    from Cons.prems(2) b obtain n idx1 p1 w1 where
      x: "seed_insert_batch E others ''extensions'' ''extension,employee_name,department_id'' s e d idx p w =
        Some ((n, idx1), p1, w1)"
      and c: "seed_extensions E others d bs idx1 (if 0 \<le> n then tot + n else tot) p1 w1 = Some (r, p', w')"
      by (auto split: option.splits)
    from keeps_dbD [OF keeps_seed_batch [OF assms] Cons.prems(1) x] Cons.IH [OF _ c] same_redis_trans
    show ?case by blast
  qed simp
qed

lemma keeps_seed_agents:
  assumes "pool_env E others"
  shows "pool_inv p w \<Longrightarrow> seed_agents E others d bs p w = Some (p', w') \<Longrightarrow> pool_inv p' w' \<and> same_redis w w'"
proof (induction bs arbitrary: p w)
  case (Cons b bs)
  obtain s e where b: "b = (s, e)" by (cases b)
  from Cons.prems(2) b obtain n p1 w1 where x: "seed_insert_agents_batch E others s e d p w = Some (n, p1, w1)"
    and c: "seed_agents E others d bs p1 w1 = Some (p', w')"
    by (auto split: option.splits)
  from keeps_dbD [OF keeps_agents_batch [OF assms] Cons.prems(1) x] Cons.IH [OF _ c] same_redis_trans
  show ?case by blast
qed simp

lemma keeps_seed_depts:
  assumes "pool_env E others"
  shows "pool_inv p w \<Longrightarrow> seed_depts E others ds idx tot p w = Some (r, p', w') \<Longrightarrow>
    pool_inv p' w' \<and> same_redis w w'"
proof (induction ds arbitrary: idx tot p w)
  case (Cons d ds)
  define bs where "bs = batches (atoi (ds_range_start d)) (atoi (ds_range_end d))"
  from Cons.prems(2) obtain idx1 tot1 p1 w1 p2 w2 where
    x: "seed_extensions E others (ds_dept_id d) bs idx tot p w = Some ((idx1, tot1), p1, w1)"
    and y: "(if ds_external_access d then seed_agents E others (ds_dept_id d) bs p1 w1 else Some (p1, w1)) = Some (p2, w2)"
    and c: "seed_depts E others ds idx1 tot1 p2 w2 = Some (r, p', w')"
    by (auto simp: Let_def simp flip: bs_def split: option.splits)
  have 1: "pool_inv p1 w1" "same_redis w w1"
    using keeps_dbD [OF keeps_seed_extensions [OF assms] Cons.prems(1) x] by blast+
  have 2: "pool_inv p2 w2" "same_redis w1 w2"
    using keeps_seed_agents [OF assms 1(1)] y 1(1) by (auto split: if_splits)
  from Cons.IH [OF 2(1) c] 1(2) 2(2) same_redis_trans show ?case by blast
qed simp

lemma keeps_seed:
  assumes "pool_env E others"
  shows "keeps_db E (db_sync_seed_demo_data E others)"
  unfolding keeps_db_def
proof (intro allI impI)
  fix p w r p' w'
  assume i: "pool_inv p w" and r: "db_sync_seed_demo_data E others p w = Some (r, p', w')"
  then obtain n p1 w1 where x: "db_mysql_load_all_agents_for_cache E others p w = Some (n, p1, w1)"
    by (auto simp: db_sync_seed_demo_data_def split: option.splits)
  have k: "pool_inv p1 w1" "same_redis w w1"
    using keeps_dbD [OF keeps_on_result [OF assms] i x [unfolded db_mysql_load_all_agents_for_cache_def]] by blast+
  have "(p' = p1 \<and> w' = w1) \<or> seed_depts E others dept_seeds 0 0 p1 w1 = Some (r, p', w')"
    using r x by (auto simp: db_sync_seed_demo_data_def split: if_splits)
  with k keeps_seed_depts [OF assms k(1)] same_redis_trans show "pool_inv p' w' \<and> same_redis w w'" by blast
qed

section \<open>The invariant of the layer\<close>

definition mysql_clean :: "mysql_pool option \<Rightarrow> world \<Rightarrow> bool" where
  "mysql_clean p w \<longleftrightarrow> (case p of None \<Rightarrow> open_conns w = {} | Some p \<Rightarrow> pool_inv p w)"

definition cache_clean :: "redis_context option \<Rightarrow> world \<Rightarrow> bool" where
  "cache_clean c w \<longleftrightarrow>
     (case c of None \<Rightarrow> redis_ctxs w = {} \<and> live_replies w = {} | Some c \<Rightarrow> redis_clean c w)"

definition sync_inv :: "fd set \<times> (fd \<Rightarrow> nat option option) \<Rightarrow> db_sync_context \<Rightarrow> world \<Rightarrow> bool" where
  "sync_inv F s w \<longleftrightarrow> mysql_clean (sc_pool s) w \<and> cache_clean (sc_redis s) w \<and> os_view w = F"

lemma mysql_clean_same: "same_sql w w' \<Longrightarrow> mysql_clean p w' = mysql_clean p w"
  using pool_inv_conns [of w' w] by (cases p) (simp_all add: mysql_clean_def same_sql_def)

lemma cache_clean_same: "same_redis w w' \<Longrightarrow> cache_clean c w' = cache_clean c w"
  using clean_same [of w w'] by (cases c) (simp_all add: cache_clean_def same_redis_def)

lemma same_fds: "same_sql w w' \<Longrightarrow> os_view w' = os_view w" "same_redis w w' \<Longrightarrow> os_view w' = os_view w"
  by (simp_all add: same_sql_def same_redis_def)

text \<open>An operation on Redis, and one on MySQL, keep it.\<close>

definition redis_op :: "(redis_context \<Rightarrow> world \<Rightarrow> 'a \<times> redis_context \<times> world) \<Rightarrow> bool" where
  "redis_op f \<longleftrightarrow> (\<forall>c w. redis_good c w (fst (snd (f c w))) (snd (snd (f c w))) \<and> same_sql w (snd (snd (f c w))))"

lemma redis_op_inv:
  assumes "redis_op f" and "sync_inv F s w" and "sc_redis s = Some c" and "f c w = (r, c', w')"
  shows "sync_inv F (s\<lparr>sc_redis := Some c'\<rparr>) w'"
proof -
  have "redis_good c w c' w' \<and> same_sql w w'" using assms(1,4) unfolding redis_op_def by (metis fst_conv snd_conv)
  then show ?thesis
    using assms(2,3) mysql_clean_same [of w w' "sc_pool s"] same_fds(1) [of w w']
    by (simp add: sync_inv_def cache_clean_def redis_good_def)
qed

lemma on_cache_inv:
  assumes "redis_op f" and "sync_inv F s w" and "on_cache f d s w = (r, s', w')"
  shows "sync_inv F s' w'"
proof (cases "sc_cache_enabled s \<and> sc_redis s \<noteq> None")
  case True
  then obtain c where c: "sc_redis s = Some c" by auto
  obtain r1 c1 w1 where f: "f c w = (r1, c1, w1)" by (cases "f c w") auto
  with redis_op_inv [OF assms(1,2) c f] True c assms(3) show ?thesis by (auto simp: on_cache_def)
next
  case False
  with assms show ?thesis by (auto simp: on_cache_def split: if_splits option.splits)
qed

lemma submit_inv: "sync_inv F s w \<Longrightarrow> submit_task E t s w = (s', w') \<Longrightarrow> sync_inv F s' w'"
  using mysql_clean_same [of w w' "sc_pool s"] cache_clean_same [of w w' "sc_redis s"]
  by (auto simp: submit_task_def sync_inv_def same_sql_def same_redis_def split: if_splits)

lemma keep_pool_inv:
  assumes "keeps_db E f" and "sync_inv F s w" and "sc_pool s = Some p" and "keep_pool s (f p w) = Some (r, s', w')"
  shows "sync_inv F s' w' \<and> sc_redis s' = sc_redis s \<and> sc_db_enabled s' = sc_db_enabled s \<and>
    sc_cache_enabled s' = sc_cache_enabled s \<and> sc_pool s' \<noteq> None"
proof -
  from assms(4) obtain p' where f: "f p w = Some (r, p', w')" and s': "s' = s\<lparr>sc_pool := Some p'\<rparr>"
    by (auto simp: keep_pool_def)
  have "pool_inv p w" using assms(2,3) by (simp add: sync_inv_def mysql_clean_def)
  from keeps_dbD [OF assms(1) this f] assms(2) s' same_fds(2) [of w w'] show ?thesis
    by (simp add: sync_inv_def mysql_clean_def cache_clean_same [of w w'])
qed

lemma inv_time [simp]: "sync_inv F s ((Time, r) # w) = sync_inv F s w"
  using mysql_clean_same [of w "(Time, r) # w" "sc_pool s"] cache_clean_same [of w "(Time, r) # w" "sc_redis s"]
  by (simp add: sync_inv_def same_sql_def same_redis_def)

lemma inv_fields [simp]:
  "sync_inv F (s\<lparr>sc_last_health_check := t\<rparr>) w = sync_inv F s w" "sync_inv F (s\<lparr>sc_db_enabled := b\<rparr>) w = sync_inv F s w"
  "sync_inv F (s\<lparr>sc_cache_enabled := b\<rparr>) w = sync_inv F s w" "sync_inv F (s\<lparr>sc_worker_running := b\<rparr>) w = sync_inv F s w"
  by (simp_all add: sync_inv_def)

section \<open>The operations of the layer\<close>

lemma redis_op_reply: "redis_op (on_reply E args d f)"
  by (auto simp: redis_op_def sql_on_reply good_snd)

lemma redis_ops:
  "redis_op (db_redis_set E k v)" "redis_op (db_redis_del E k)" "redis_op (db_redis_expire E k n)"
  "redis_op (db_redis_cache_agent_online E e n)" "redis_op (db_redis_update_dept_idle E e n)"
  "redis_op (db_redis_cache_dept_config E e j)"
  by (simp_all add: db_redis_set_def db_redis_del_def db_redis_expire_def db_redis_cache_agent_online_def
      db_redis_update_dept_idle_def db_redis_cache_dept_config_def redis_op_reply)

lemma redis_op_status: "redis_op (db_redis_cache_agent_status E e st n)"
  using good_do [of _ _ E "Cache_agent_status e st n"] sql_cache_status by (simp add: redis_op_def)

lemma redis_op_get_status: "redis_op (db_redis_get_agent_status E e n)"
  using good_get_agent_status sql_get_status by (simp add: redis_op_def)

lemma redis_op_get_idle: "redis_op (db_redis_get_dept_idle E d)"
  using redis_op_reply [of E "[''GET'', cstr (redis_key REDIS_KEY_DEPT_IDLE d)]" "(- 1, None)" "str_reply 16"]
  by (simp add: redis_op_def db_redis_get_dept_idle_def db_redis_get_def split_beta Let_def)

lemma redis_op_ping: "redis_op (db_redis_ping E)"
  using good_snd(3) sql_ping by (simp add: redis_op_def)

lemma redis_op_ensure: "redis_op (db_redis_ensure_connected E)"
proof -
  have "redis_good c w (fst (snd (db_redis_ensure_connected E c w))) (snd (snd (db_redis_ensure_connected E c w)))" for c w
    using good_ensure [of c w E] by (simp add: split_beta)
  then show ?thesis using sql_ensure by (simp add: redis_op_def)
qed

lemma redis_op_seq:
  assumes "redis_op f" and "redis_op g"
  shows "redis_op (\<lambda>c w. let (r, c, w) = f c w in g c w)"
proof -
  have "redis_good c w (fst (snd (g (fst (snd (f c w))) (snd (snd (f c w))))))
      (snd (snd (g (fst (snd (f c w))) (snd (snd (f c w)))))) \<and>
    same_sql w (snd (snd (g (fst (snd (f c w))) (snd (snd (f c w))))))" for c w
    using assms good_trans same_sql_trans unfolding redis_op_def by blast
  then show ?thesis by (simp add: redis_op_def split_beta)
qed

lemma warm_op:
  "redis_op (\<lambda>c w. ((), warm_depts E rs c w))" "redis_op (\<lambda>c w. ((), warm_agents E rs c w))"
proof -
  have "redis_good c w (fst (warm_depts E rs c w)) (snd (warm_depts E rs c w))" for c w
  proof (induction rs arbitrary: c w)
    case (Cons row rs)
    have "redis_good c w (fst (snd (db_redis_cache_dept_config E e j c w))) (snd (snd (db_redis_cache_dept_config E e j c w)))" for e j
      using redis_ops(6) by (simp add: redis_op_def)
    from good_trans [OF this Cons.IH] show ?case by (simp add: split_beta)
  qed simp
  then show "redis_op (\<lambda>c w. ((), warm_depts E rs c w))" by (simp add: redis_op_def sql_warm_depts)
  have "redis_good c w (fst (warm_agents E rs c w)) (snd (warm_agents E rs c w))" for c w
  proof (induction rs arbitrary: c w)
    case (Cons row rs)
    let ?f = "db_redis_cache_agent_status E (opt_str (col row 0)) (or_text ''offline'' (col row 2)) (num_col row 3)"
    let ?g = "db_redis_cache_agent_online E (opt_str (col row 0)) (num_col row 1)"
    have "redis_op (\<lambda>c w. let (r, c, w) = ?f c w in ?g c w)"
      by (rule redis_op_seq [OF redis_op_status redis_ops(4)])
    then have "redis_good c w (fst (snd (let (r, c, w) = ?f c w in ?g c w))) (snd (snd (let (r, c, w) = ?f c w in ?g c w)))"
      by (simp add: redis_op_def)
    from good_trans [OF this Cons.IH] show ?case by (simp add: split_beta Let_def)
  qed simp
  then show "redis_op (\<lambda>c w. ((), warm_agents E rs c w))" by (simp add: redis_op_def sql_warm_agents)
qed

lemma warm_up_inv:
  assumes e: "pool_env E others" and i: "sync_inv F s w"
    and op: "\<And>rs. redis_op (\<lambda>c w. ((), loop rs c w))" and r: "warm_up E others sql loop s w = Some (n, s', w')"
  shows "sync_inv F s' w'"
proof (cases "sc_db_enabled s \<and> sc_cache_enabled s \<and> sc_pool s \<noteq> None \<and> sc_redis s \<noteq> None")
  case True
  then obtain p c where p: "sc_pool s = Some p" and c: "sc_redis s = Some c" by auto
  from r True p c obtain res s1 w1 where q: "keep_pool s (db_mysql_query E others sql p w) = Some (res, s1, w1)"
    by (auto simp: warm_up_def split: option.splits)
  from keep_pool_inv [OF keeps_query [OF e] i p q] c have k: "sync_inv F s1 w1" "sc_redis s1 = Some c" by auto
  show ?thesis
  proof (cases res)
    case None
    with r True p c q k show ?thesis by (simp add: warm_up_def)
  next
    case (Some x)
    obtain c2 w2 where l: "loop (snd x) c w1 = (c2, w2)" by (cases "loop (snd x) c w1")
    from redis_op_inv [OF op k, of "snd x" "()" c2 w2] l have "sync_inv F (s1\<lparr>sc_redis := Some c2\<rparr>) w2" by simp
    then have "sync_inv F (s1\<lparr>sc_redis := Some c2\<rparr>) (mysql_free_result E x w2)"
      using mysql_clean_same [of w2 "mysql_free_result E x w2"] cache_clean_same [of w2 "mysql_free_result E x w2"]
      by (simp add: sync_inv_def same_sql_def same_redis_def mysql_free_result_def)
    moreover have "s' = s1\<lparr>sc_redis := Some c2\<rparr>" "w' = mysql_free_result E x w2"
      using r True p c q Some l by (simp_all add: warm_up_def)
    ultimately show ?thesis by simp
  qed
next
  case False
  with r i show ?thesis by (auto simp: warm_up_def split: option.splits)
qed

lemma warmup_all_inv:
  assumes e: "pool_env E others" and i: "sync_inv F s w" and r: "db_sync_cache_warmup_all E others s w = Some (n, s', w')"
  shows "sync_inv F s' w'"
proof (cases "sc_db_enabled s \<and> sc_cache_enabled s")
  case True
  with r obtain a s1 w1 b where d: "db_sync_cache_warmup_depts E others s w = Some (a, s1, w1)"
    and g: "db_sync_cache_warmup_agents E others s1 w1 = Some (b, s', w')"
    by (auto simp: db_sync_cache_warmup_all_def split: option.splits)
  from warm_up_inv [OF e i warm_op(1) d [unfolded db_sync_cache_warmup_depts_def]] have "sync_inv F s1 w1" .
  from warm_up_inv [OF e this warm_op(2) g [unfolded db_sync_cache_warmup_agents_def]] show ?thesis .
next
  case False
  with r i show ?thesis by (auto simp: db_sync_cache_warmup_all_def)
qed

lemma mysql_health_inv [simp]: "sync_inv F (mysql_health s) w = sync_inv F s w"
  by (simp add: mysql_health_def split: option.split)

lemma redis_health_inv:
  assumes e: "pool_env E others" and i: "sync_inv F s w" and r: "redis_health E others s w = Some (s', w')"
  shows "sync_inv F s' w'"
proof (cases "sc_redis s")
  case None
  with r i show ?thesis by (simp add: redis_health_def)
next
  case (Some c)
  show ?thesis
  proof (cases "sc_cache_enabled s")
    case True
    obtain n c1 w1 where p: "db_redis_ping E c w = (n, c1, w1)" by (cases "db_redis_ping E c w") auto
    from redis_op_inv [OF redis_op_ping i Some p] have "sync_inv F (s\<lparr>sc_redis := Some c1\<rparr>) w1" .
    with r Some True p show ?thesis by (auto simp: redis_health_def Let_def split: if_splits)
  next
    case False
    obtain n c1 w1 where p: "db_redis_ensure_connected E c w = (n, c1, w1)"
      by (cases "db_redis_ensure_connected E c w") auto
    define s1 where "s1 = s\<lparr>sc_redis := Some c1\<rparr>"
    from redis_op_inv [OF redis_op_ensure i Some p] have k: "sync_inv F s1 w1" by (simp add: s1_def)
    show ?thesis
    proof (cases "n = 0 \<and> sc_db_enabled s")
      case True
      with r Some False p obtain x where
        "db_sync_cache_warmup_all E others (s1\<lparr>sc_cache_enabled := True\<rparr>) w1 = Some (x, s', w')"
        by (auto simp: redis_health_def Let_def s1_def)
      from warmup_all_inv [OF e _ this] k show ?thesis by simp
    next
      case n: False
      then have "(s' = s1 \<or> s' = s1\<lparr>sc_cache_enabled := True\<rparr>) \<and> w' = w1"
        using r Some False p by (auto simp: redis_health_def Let_def s1_def split: if_splits)
      with k show ?thesis by auto
    qed
  qed
qed

lemma health_inv:
  assumes e: "pool_env E others" and i: "sync_inv F s w" and r: "db_sync_health_check E others s w = Some (n, s', w')"
  shows "sync_inv F s' w'"
proof -
  define w1 where "w1 = (Time, E w Time) # w"
  define s1 where "s1 = mysql_health (s\<lparr>sc_last_health_check := rv (E w Time)\<rparr>)"
  have i1: "sync_inv F s w1" "sync_inv F s1 w1" using i by (simp_all add: w1_def s1_def)
  note r = r [unfolded db_sync_health_check_def case_ext Let_def, folded w1_def, folded s1_def]
  show ?thesis
  proof (cases "rv (E w Time) - sc_last_health_check s < sc_interval s")
    case True
    with r i1 show ?thesis by simp
  next
    case False
    with r obtain s2 w2 where h: "redis_health E others s1 w1 = Some (s2, w2)" by (auto split: option.splits)
    note i2 = redis_health_inv [OF e i1(2) h]
    have "(s' = s2 \<and> w' = w2) \<or> (\<exists>x. db_sync_cache_warmup_all E others s2 w2 = Some (x, s', w'))"
      using r False h by (auto split: if_splits)
    with i2 warmup_all_inv [OF e i2] show ?thesis by blast
  qed
qed

lemma change_inv:
  assumes "sync_inv F s w" and "redis_op f" and "on_cache f d s w = (r, s1, w1)" and "submit_task E t s1 w1 = (s', w')"
  shows "sync_inv F s' w'"
  using submit_inv [OF on_cache_inv [OF assms(2,1,3)] assms(4)] .

lemma change_run_inv:
  assumes "submit_task E t (fst (snd (on_cache f d s w))) (snd (snd (on_cache f d s w))) = (s', w')"
    and "redis_op f" and "sync_inv F s w"
  shows "sync_inv F s' w'"
  using change_inv [OF assms(3,2) _ assms(1)] by (metis prod.collapse)

lemma status_query_inv:
  assumes e: "pool_env E others" and i: "sync_inv F s w"
    and r: "db_sync_agent_status_query E others exten n s w = Some (out, s', w')"
  shows "sync_inv F s' w'"
proof (cases exten)
  case None
  with r i show ?thesis by (simp add: db_sync_agent_status_query_def)
next
  case (Some x)
  obtain ret st calls s1 w1 where c: "on_cache (db_redis_get_agent_status E x n) (- 1, None, None) s w = ((ret, st, calls), s1, w1)"
    by (metis prod.exhaust)
  note i1 = on_cache_inv [OF redis_op_get_status i c]
  show ?thesis
  proof (cases "ret \<noteq> 0 \<and> sc_db_enabled s1 \<and> sc_pool s1 \<noteq> None")
    case True
    then obtain p where p: "sc_pool s1 = Some p" by auto
    from r Some c True p obtain ret2 st2 calls2 s2 w2 where
      q: "keep_pool s1 (db_mysql_query_agent_single E others x 32 p w1) = Some ((ret2, st2, calls2), s2, w2)"
      by (auto simp: db_sync_agent_status_query_def split: option.splits)
    have "keeps_db E (db_mysql_query_agent_single E others x 32)"
      by (simp add: db_mysql_query_agent_single_def Let_def keeps_on_result [OF e])
    from keep_pool_inv [OF this i1 p q] have i2: "sync_inv F s2 w2" by blast
    define db_status where "db_status = (case st2 of None \<Rightarrow> [] | Some t \<Rightarrow> t)"
    obtain k s3 w3 where b: "(if ret2 = 0 then on_cache (db_redis_cache_agent_status E x db_status calls2) 0 s2 w2
        else (0, s2, w2)) = (k, s3, w3)" by (metis prod.exhaust)
    have "sync_inv F s3 w3"
      using b i2 on_cache_inv [OF redis_op_status i2] by (auto split: if_splits)
    moreover have "s' = s3 \<and> w' = w3"
      using r Some c True p q b [unfolded db_status_def] by (simp add: db_sync_agent_status_query_def Let_def)
    ultimately show ?thesis by simp
  next
    case False
    with r Some c i1 show ?thesis
      by (auto simp: db_sync_agent_status_query_def split: if_splits option.splits)
  qed
qed

lemma idle_query_inv:
  assumes e: "pool_env E others" and i: "sync_inv F s w"
    and r: "db_sync_dept_idle_query E others dept s w = Some (out, s', w')"
  shows "sync_inv F s' w'"
proof (cases dept)
  case None
  with r i show ?thesis by (simp add: db_sync_dept_idle_query_def)
next
  case (Some d)
  obtain idle s1 w1 where c: "on_cache (db_redis_get_dept_idle E d) (- 1) s w = (idle, s1, w1)"
    by (metis prod.exhaust)
  note i1 = on_cache_inv [OF redis_op_get_idle i c]
  show ?thesis
  proof (cases "idle < 0 \<and> sc_db_enabled s1 \<and> sc_pool s1 \<noteq> None")
    case True
    then obtain p where p: "sc_pool s1 = Some p" by auto
    from r Some c True p obtain n json s2 w2 where
      q: "keep_pool s1 (db_mysql_find_idle_agents E others d 2048 100 p w1) = Some ((n, json), s2, w2)"
      by (auto simp: db_sync_dept_idle_query_def split: option.splits)
    have "keeps_db E (db_mysql_find_idle_agents E others d 2048 100)"
      by (simp add: db_mysql_find_idle_agents_def keeps_on_result [OF e])
    from keep_pool_inv [OF this i1 p q] have i2: "sync_inv F s2 w2" by blast
    obtain k s3 w3 where b: "on_cache (db_redis_update_dept_idle E d n) 0 s2 w2 = (k, s3, w3)"
      by (metis prod.exhaust)
    have "s' = s3 \<and> w' = w3"
      using r Some c True p q b by (simp add: db_sync_dept_idle_query_def)
    with on_cache_inv [OF redis_ops(5) i2 b] show ?thesis by simp
  next
    case False
    with r Some c i1 show ?thesis
      by (auto simp: db_sync_dept_idle_query_def split: if_splits option.splits)
  qed
qed

text \<open>Every operation of the interface, as one type of calls.\<close>

datatype sync_call =
    Status_change "bytes option" "bytes option" int
  | Online_change "bytes option" int
  | Call_start "bytes option" "bytes option" "bytes option" bytes "bytes option"
  | Call_end "bytes option" int int int "bytes option"
  | Idle_update "bytes option" int
  | Status_query "bytes option" int
  | Idle_query "bytes option"
  | Warm_up
  | Health_check

fun sync_do :: "env \<Rightarrow> others \<Rightarrow> (int \<Rightarrow> bytes) \<Rightarrow> sync_call \<Rightarrow> db_sync_context \<Rightarrow> world \<Rightarrow>
    (db_sync_context \<times> world) option" where
  "sync_do E others stamp (Status_change e st n) s w = Some (snd (db_sync_agent_status_change E e st n s w))"
| "sync_do E others stamp (Online_change e b) s w = Some (snd (db_sync_agent_online E e b s w))"
| "sync_do E others stamp (Call_start i a b d dept) s w = Some (snd (db_sync_call_start E stamp i a b d dept s w))"
| "sync_do E others stamp (Call_end i d st c desc) s w = Some (snd (db_sync_call_end E i d st c desc s w))"
| "sync_do E others stamp (Idle_update d n) s w = Some (snd (db_sync_dept_idle_update E d n s w))"
| "sync_do E others stamp (Status_query e n) s w = map_option snd (db_sync_agent_status_query E others e n s w)"
| "sync_do E others stamp (Idle_query d) s w = map_option snd (db_sync_dept_idle_query E others d s w)"
| "sync_do E others stamp Warm_up s w = map_option snd (db_sync_cache_warmup_all E others s w)"
| "sync_do E others stamp Health_check s w = map_option snd (db_sync_health_check E others s w)"

fun sync_do_all :: "env \<Rightarrow> others \<Rightarrow> (int \<Rightarrow> bytes) \<Rightarrow> sync_call list \<Rightarrow> db_sync_context \<Rightarrow> world \<Rightarrow>
    (db_sync_context \<times> world) option" where
  "sync_do_all E others stamp [] s w = Some (s, w)"
| "sync_do_all E others stamp (op # ops) s w =
     (case sync_do E others stamp op s w of
        None \<Rightarrow> None
      | Some (s, w) \<Rightarrow> sync_do_all E others stamp ops s w)"

lemma status_change_inv: "sync_inv F s w \<Longrightarrow> db_sync_agent_status_change E e st n s w = (r, s', w') \<Longrightarrow> sync_inv F s' w'"
  by (cases e; cases st)
    (auto simp: db_sync_agent_status_change_def split_beta Let_def intro: change_run_inv [OF _ redis_op_status])

lemma online_inv: "sync_inv F s w \<Longrightarrow> db_sync_agent_online E e n s w = (r, s', w') \<Longrightarrow> sync_inv F s' w'"
  by (cases e) (auto simp: db_sync_agent_online_def split_beta Let_def intro: change_run_inv [OF _ redis_ops(4)])

lemma call_start_inv:
  assumes i: "sync_inv F s w" and r: "db_sync_call_start E stamp i a b d dept s w = (r, s', w')"
  shows "sync_inv F s' w'"
proof (cases "i \<noteq> None \<and> a \<noteq> None \<and> b \<noteq> None")
  case True
  then obtain x y z where a: "i = Some x" "a = Some y" "b = Some z" by auto
  let ?key = "redis_key REDIS_KEY_CALL_SESSION x"
  define w1 where "w1 = (Time, E w Time) # w"
  define f where "f = (\<lambda>c w. let (r, c, w) = db_redis_set E ?key ''ringing'' c w in db_redis_expire E ?key 7200 c w)"
  have f: "redis_op f" unfolding f_def by (rule redis_op_seq [OF redis_ops(1,3)])
  obtain k s1 w2 where c: "on_cache f 0 s w1 = (k, s1, w2)" by (metis prod.exhaust)
  have "sync_inv F s w1" using i by (simp add: w1_def)
  from change_inv [OF this f c] r a c show ?thesis
    by (simp add: db_sync_call_start_def Let_def split_beta flip: w1_def f_def [unfolded Let_def split_beta])
      (metis prod.collapse)
next
  case False
  with r i show ?thesis by (auto simp: db_sync_call_start_def split: option.splits)
qed

lemma call_end_inv: "sync_inv F s w \<Longrightarrow> db_sync_call_end E i d st c desc s w = (r, s', w') \<Longrightarrow> sync_inv F s' w'"
  by (cases i) (auto simp: db_sync_call_end_def split_beta Let_def intro: change_run_inv [OF _ redis_ops(2)])

lemma idle_update_inv: "sync_inv F s w \<Longrightarrow> db_sync_dept_idle_update E d n s w = (r, s', w') \<Longrightarrow> sync_inv F s' w'"
  using on_cache_inv [OF redis_ops(5)]
  by (cases d) (auto simp: db_sync_dept_idle_update_def split: prod.splits)

lemma sync_do_inv:
  assumes "pool_env E others" and "sync_inv F s w" and "sync_do E others stamp op s w = Some (s', w')"
  shows "sync_inv F s' w'"
proof (cases op)
  case (Status_change e st n)
  then show ?thesis using assms status_change_inv [OF assms(2)] by (metis option.inject prod.collapse sync_do.simps(1))
next
  case (Online_change e n)
  then show ?thesis using assms online_inv [OF assms(2)] by (metis option.inject prod.collapse sync_do.simps(2))
next
  case (Call_start i a b d dept)
  then show ?thesis using assms call_start_inv [OF assms(2)] by (metis option.inject prod.collapse sync_do.simps(3))
next
  case (Call_end i d st c desc)
  then show ?thesis using assms call_end_inv [OF assms(2)] by (metis option.inject prod.collapse sync_do.simps(4))
next
  case (Idle_update d n)
  then show ?thesis using assms idle_update_inv [OF assms(2)] by (metis option.inject prod.collapse sync_do.simps(5))
next
  case (Status_query e n)
  then show ?thesis using assms status_query_inv [OF assms(1,2)] by auto
next
  case (Idle_query d)
  then show ?thesis using assms idle_query_inv [OF assms(1,2)] by auto
next
  case Warm_up
  then show ?thesis using assms warmup_all_inv [OF assms(1,2)] by auto
next
  case Health_check
  then show ?thesis using assms health_inv [OF assms(1,2)] by auto
qed

lemma sync_do_all_inv:
  "pool_env E others \<Longrightarrow> sync_inv F s w \<Longrightarrow> sync_do_all E others stamp ops s w = Some (s', w') \<Longrightarrow> sync_inv F s' w'"
proof (induction ops arbitrary: s w)
  case (Cons op ops)
  from Cons.prems(3) obtain s1 w1 where "sync_do E others stamp op s w = Some (s1, w1)"
    "sync_do_all E others stamp ops s1 w1 = Some (s', w')" by (auto split: option.splits)
  with Cons.IH [OF Cons.prems(1)] sync_do_inv [OF Cons.prems(1,2)] show ?case by blast
qed simp

section \<open>Start and end\<close>

lemma init_mysql_inv:
  assumes e: "pool_env E others" and i: "sync_inv F s w"
    and fresh: "\<forall>p. sc_pool s = Some p \<longrightarrow> (\<forall>x\<in>set (p_slots p). \<not> s_connected x)"
    and r: "init_mysql E others schema s w = Some (s', w')"
  shows "sync_inv F s' w' \<and> sc_redis s' = sc_redis s"
proof (cases "sc_pool s")
  case None
  with r i show ?thesis by (simp add: init_mysql_def)
next
  case (Some p)
  obtain n p1 w1 where c: "db_mysql_pool_connect_all E p w = (n, p1, w1)"
    by (cases "db_mysql_pool_connect_all E p w") auto
  have pi: "pool_inv p w" using i Some by (simp add: sync_inv_def mysql_clean_def)
  then have p1: "pool_inv p1 w1"
    using connect_all_inv [OF _ _ _ _ _ _ c] fresh Some e by (auto simp: pool_inv_def pool_env_def)
  have r1: "same_redis w w1"
    using red_connect_slots [of w E True "[0..<nat (p_size p)]" 0 p] c
    by (auto simp: db_mysql_pool_connect_all_def split_beta)
  define s1 where "s1 = s\<lparr>sc_pool := Some p1, sc_db_enabled := True\<rparr>"
  have i1: "sync_inv F s1 w1" "sync_inv F (s\<lparr>sc_pool := Some p1\<rparr>) w1"
    using i p1 cache_clean_same [OF r1] same_fds(2) [OF r1] by (simp_all add: s1_def sync_inv_def mysql_clean_def)
  show ?thesis
  proof (cases "n = 0 \<and> schema \<noteq> None")
    case True
    then obtain content where f: "schema = Some content" by auto
    from r Some c True f obtain k p2 w2 where x: "db_mysql_init_schema E others content p1 w1 = Some (k, p2, w2)"
      by (auto simp: init_mysql_def Let_def split: option.splits)
    from keeps_dbD [OF keeps_schema [OF e] p1 x] have p2: "pool_inv p2 w2" "same_redis w1 w2" by blast+
    have i2: "sync_inv F (s1\<lparr>sc_pool := Some p2\<rparr>) w2"
      using i1(1) p2 cache_clean_same [OF p2(2)] same_fds(2) [OF p2(2)] by (simp add: sync_inv_def mysql_clean_def s1_def)
    show ?thesis
    proof (cases "0 \<le> k")
      case True
      with r Some c f x \<open>n = 0 \<and> _\<close> obtain y where
        k: "keep_pool s1 (db_sync_seed_demo_data E others p2 w2) = Some (y, s', w')"
        by (auto simp: init_mysql_def Let_def s1_def)
      then have "keep_pool (s1\<lparr>sc_pool := Some p2\<rparr>) (db_sync_seed_demo_data E others p2 w2) = Some (y, s', w')"
        by (simp add: keep_pool_def)
      from keep_pool_inv [OF keeps_seed [OF e] i2 _ this] show ?thesis by (simp add: s1_def)
    next
      case False
      with r Some c f x \<open>n = 0 \<and> _\<close> have "s' = s1\<lparr>sc_pool := Some p2\<rparr>" "w' = w2"
        by (auto simp: init_mysql_def Let_def s1_def)
      with i2 show ?thesis by (simp add: s1_def)
    qed
  next
    case False
    with r Some c have "(s' = s1 \<or> s' = s\<lparr>sc_pool := Some p1\<rparr>) \<and> w' = w1"
      by (auto simp: init_mysql_def Let_def s1_def split: if_splits option.splits)
    with i1 show ?thesis by (auto simp: s1_def)
  qed
qed

lemma init_redis_inv:
  assumes i: "sync_inv F s w" and fresh: "\<forall>c. sc_redis s = Some c \<longrightarrow> r_ctx c = 0"
    and r: "init_redis E s w = (s', w')"
  shows "sync_inv F s' w'"
proof (cases "sc_redis s")
  case None
  with r i show ?thesis by (simp add: init_redis_def)
next
  case (Some c)
  obtain n c1 w1 where d: "db_redis_connect E c w = (n, c1, w1)" by (cases "db_redis_connect E c w") auto
  have "redis_ctxs w = {}" "live_replies w = {}"
    using i fresh Some by (simp_all add: sync_inv_def cache_clean_def redis_clean_def)
  from connect_clean [OF this, of E c] d have "redis_clean c1 w1" by simp
  moreover have "mysql_clean (sc_pool s) w1 \<and> os_view w1 = F"
    using i mysql_clean_same [OF sql_connect [of w E c]] same_fds(1) [OF sql_connect [of w E c]] d
    by (simp add: sync_inv_def)
  moreover have "w' = w1" "s' = s\<lparr>sc_redis := Some c1, sc_cache_enabled := True\<rparr> \<or> s' = s\<lparr>sc_redis := Some c1\<rparr>"
    using r Some d by (auto simp: init_redis_def split: if_splits)
  ultimately show ?thesis by (auto simp: sync_inv_def cache_clean_def)
qed

lemma init_inv:
  assumes e: "pool_env E others" and i: "sync_inv F s w"
    and p: "\<forall>p. sc_pool s = Some p \<longrightarrow> (\<forall>x\<in>set (p_slots p). \<not> s_connected x)"
    and c: "\<forall>c. sc_redis s = Some c \<longrightarrow> r_ctx c = 0"
    and r: "db_sync_init E others thread schema s w = Some (ret, s', w')"
  shows "sync_inv F s' w'"
proof -
  obtain s1 w1 where m: "init_mysql E others schema s w = Some (s1, w1)"
    using r by (auto simp: db_sync_init_def split: option.splits)
  have 1: "sync_inv F s1 w1" "sc_redis s1 = sc_redis s" using init_mysql_inv [OF e i p m] by blast+
  obtain s2 w2 where d: "init_redis E s1 w1 = (s2, w2)" by (cases "init_redis E s1 w1")
  have 2: "sync_inv F s2 w2" using init_redis_inv [OF 1(1) _ d] c 1(2) by simp
  have "(\<exists>b. s' = s2\<lparr>sc_worker_running := b\<rparr> \<and> w' = w2) \<or>
      (\<exists>x. db_sync_cache_warmup_all E others (s2\<lparr>sc_worker_running := True\<rparr>) w2 = Some (x, s', w'))"
    using r m d by (auto simp: db_sync_init_def Let_def split: if_splits)
  with 2 warmup_all_inv [OF e, of F "s2\<lparr>sc_worker_running := True\<rparr>" w2] show ?thesis by auto
qed

section \<open>The whole life\<close>

text \<open>The operations run on the context, if there is one.\<close>

fun use_database :: "env \<Rightarrow> others \<Rightarrow> (int \<Rightarrow> bytes) \<Rightarrow> sync_call list \<Rightarrow> database \<Rightarrow> world \<Rightarrow>
    (database \<times> world) option" where
  "use_database E others stamp ops (No_Context p r) w = Some (No_Context p r, w)"
| "use_database E others stamp ops (Context s) w =
     map_option (\<lambda>(s, w). (Context s, w)) (sync_do_all E others stamp ops s w)"

definition db_inv :: "fd set \<times> (fd \<Rightarrow> nat option option) \<Rightarrow> database \<Rightarrow> world \<Rightarrow> bool" where
  "db_inv F db w \<longleftrightarrow> mysql_clean (g_mysql_pool db) w \<and> cache_clean (g_redis db) w \<and> os_view w = F"

lemma db_inv_Context [simp]: "db_inv F (Context s) w = sync_inv F s w"
  by (simp add: db_inv_def sync_inv_def)

lemma create_pool_clean:
  assumes "db_mysql_pool_create E cfg w = (p, w')" and "open_conns w = {}"
  shows "mysql_clean p w' \<and> same_redis w w' \<and> (\<forall>q. p = Some q \<longrightarrow> (\<forall>x\<in>set (p_slots q). \<not> s_connected x))"
proof -
  have r: "same_redis w w'" "open_conns w' = open_conns w"
    using assms(1) by (auto simp: db_mysql_pool_create_def Let_def same_redis_def split: if_splits)
  have c: "count_slots s_connected (p_slots q) = 0" if "\<forall>x\<in>set (p_slots q). \<not> s_connected x" for q
    using that by (simp add: count_slots_def)
  have a: "p_active q = 0" if "p = Some q" for q
    using assms(1) that by (auto simp: db_mysql_pool_create_def Let_def split: if_splits)
  show ?thesis
  proof (cases p)
    case None
    with r assms(2) show ?thesis by (simp add: mysql_clean_def)
  next
    case (Some q)
    from create_pool [OF assms(1) [unfolded Some] assms(2)] a [OF Some] c [of q] r Some show ?thesis
      by (simp add: mysql_clean_def pool_inv_def DB_RECONNECT_MAX_SEC_def)
  qed
qed

lemma create_redis_clean:
  assumes "db_redis_create E cfg w = (c, w')" and "redis_ctxs w = {}" and "live_replies w = {}"
  shows "cache_clean c w' \<and> same_sql w w' \<and> (\<forall>x. c = Some x \<longrightarrow> r_ctx x = 0)"
  using assms by (auto simp: db_redis_create_def Let_def cache_clean_def redis_clean_def same_sql_def split: if_splits)

lemma init_database_inv:
  assumes r: "init_database E others thread content w = Some (ret, db, w')" and e: "pool_env E others"
    and clean: "open_conns w = {}" "redis_ctxs w = {}" "live_replies w = {}"
  shows "db_inv (os_view w) db w'"
proof -
  obtain p w1 where p: "db_mysql_pool_create E main_mysql_config w = (p, w1)"
    by (cases "db_mysql_pool_create E main_mysql_config w")
  obtain c w2 where c: "db_redis_create E main_redis_config w1 = (c, w2)"
    by (cases "db_redis_create E main_redis_config w1")
  obtain s w3 where s: "db_sync_create E p c w2 = (s, w3)" by (cases "db_sync_create E p c w2")
  note P = create_pool_clean [OF p clean(1)]
  have "redis_ctxs w1 = {}" "live_replies w1 = {}" using P clean by (simp_all add: same_redis_def)
  note C = create_redis_clean [OF c this]
  have same: "same_sql w2 w3" "same_redis w2 w3"
    using s by (auto simp: db_sync_create_def Let_def same_sql_def same_redis_def split: if_splits)
  have i: "mysql_clean p w3" "cache_clean c w3" "os_view w3 = os_view w"
    using P C mysql_clean_same [of w1 w2 p] mysql_clean_same [OF same(1)] cache_clean_same [OF same(2)]
      same_fds(2) [of w w1] same_fds(1) [of w1 w2] same_fds(1) [OF same(1)] by simp_all
  show ?thesis
  proof (cases s)
    case None
    with r p c s i show ?thesis by (auto simp: init_database_def db_inv_def)
  next
    case (Some s0)
    with s have f: "sc_pool s0 = p" "sc_redis s0 = c" by (auto simp: db_sync_create_def Let_def split: if_splits)
    from r p c s Some obtain n s1 where "db_sync_init E others thread (Some content) s0 w3 = Some (n, s1, w')"
      and db: "db = Context s1" by (auto simp: init_database_def)
    from init_inv [OF e _ _ _ this(1)] i f P C have "sync_inv (os_view w) s1 w'" by (simp add: sync_inv_def)
    with db show ?thesis by simp
  qed
qed

lemma use_inv:
  "pool_env E others \<Longrightarrow> db_inv F db w \<Longrightarrow> use_database E others stamp ops db w = Some (db', w') \<Longrightarrow> db_inv F db' w'"
  by (cases db) (auto dest: sync_do_all_inv)

lemma close_slots_redis [simp]: "same_redis w (close_slots E ss w)"
proof (induction ss arbitrary: w)
  case (Cons x ss)
  then show ?case using Cons.IH [of "(Mysql_close (s_conn x), E w (Mysql_close (s_conn x))) # w"]
    by (simp add: same_redis_def)
qed simp

lemma redis_destroy: "redis_clean c w \<Longrightarrow>
   redis_ctxs (db_redis_destroy E c w) = {} \<and> live_replies (db_redis_destroy E c w) = {} \<and>
   same_sql w (db_redis_destroy E c w)"
  by (auto simp: redis_clean_def db_redis_destroy_def db_redis_disconnect_def redisFree_def same_sql_def)

lemma stop_inv:
  assumes "pool_env E others" and i: "db_inv F db w" and r: "stop_database E others now stop db w = Some (h, p, w')"
  shows "mysql_clean p w' \<and> cache_clean (g_redis db) w' \<and> os_view w' = F"
proof (cases db)
  case (No_Context q c)
  with r i show ?thesis by (simp add: stop_database_def db_inv_def)
next
  case (Context s)
  with r obtain acts where "db_sync_destroy now stop s [] = Some (h, acts)"
    by (auto simp: stop_database_def split: option.splits)
  with r Context have "(sc_pool s = None \<and> p = None \<and> w' = w) \<or>
      (\<exists>q q'. sc_pool s = Some q \<and> do_actions E others acts q w = Some (q', w') \<and> p = Some q')"
    by (auto simp: stop_database_def split: option.splits)
  then show ?thesis
  proof (elim disjE exE conjE)
    assume "sc_pool s = None" "p = None" "w' = w"
    with i Context show ?thesis by (simp add: sync_inv_def)
  next
    fix q q'
    assume q: "sc_pool s = Some q" and a: "do_actions E others acts q w = Some (q', w')" and p: "p = Some q'"
    have "pool_inv q w" using i Context q by (simp add: sync_inv_def mysql_clean_def)
    from keeps_actions [OF assms(1) this a] i Context p show ?thesis
      using same_fds(2) [of w w'] by (auto simp: sync_inv_def mysql_clean_def cache_clean_same [of w w'])
  qed
qed

lemma shutdown_releases:
  assumes e: "pool_env E others" and i: "db_inv F db w"
    and r: "shutdown_database E others now stop db w = Some (h, w')"
  shows "open_conns w' = {} \<and> redis_ctxs w' = {} \<and> live_replies w' = {} \<and> os_view w' = F"
proof -
  obtain p w4 where s: "stop_database E others now stop db w = Some (h, p, w4)"
    using r by (auto simp: shutdown_database_def Let_def split: option.splits)
  note S = stop_inv [OF e i s]
  define w5 where "w5 = (case g_redis db of None \<Rightarrow> w4 | Some c \<Rightarrow> db_redis_destroy E c w4)"
  have w': "w' = (case p of None \<Rightarrow> w5 | Some p \<Rightarrow> db_mysql_pool_destroy E p w5)"
    using r s unfolding w5_def by (simp add: shutdown_database_def Let_def)
  have c: "redis_ctxs w5 = {} \<and> live_replies w5 = {} \<and> same_sql w4 w5"
    using S redis_destroy by (auto simp: w5_def cache_clean_def split: option.splits)
  have m: "mysql_clean p w5" "os_view w5 = F"
    using S c mysql_clean_same [of w4 w5 p] same_fds(1) [of w4 w5] by simp_all
  show ?thesis
  proof (cases p)
    case None
    with c m w' show ?thesis by (simp add: mysql_clean_def)
  next
    case (Some q)
    with m w' destroy_closes [of q w5 E] c close_slots_redis [of w5 E "p_slots q"] show ?thesis
      by (simp add: mysql_clean_def db_mysql_pool_destroy_def same_redis_def)
  qed
qed

section \<open>A concrete life\<close>

text \<open>A machine with the Redis server at rest, while MySQL refuses connections.\<close>

definition cache_os :: env where
  "cache_os w c =
     (case c of
        Redis_connect \<Rightarrow> redis_os w c
      | Redis_command p args \<Rightarrow> redis_os w c
      | _ \<Rightarrow> mysql_os False w c)"

lemma cache_os_fresh: "fresh_conns cache_os"
  using mysql_os_fresh [of False] by (simp add: fresh_conns_def cache_os_def)

lemma cache_os_refuses: "refuses cache_os"
  by (simp add: refuses_def cache_os_def mysql_os_def null_ret_def)

lemma refused_pool:
  assumes "refuses E" and "\<forall>s\<in>set (p_slots p). \<not> s_connected s" and "nat (p_size p) = length (p_slots p)"
    and "db_mysql_pool_connect_all E p w = (r, p', w')"
  shows "r = - 1"
proof -
  obtain ok p1 w1 where c: "connect_slots E True [0..<nat (p_size p)] 0 p w = (ok, p1, w1)"
    by (cases "connect_slots E True [0..<nat (p_size p)] 0 p w") auto
  from connect_slots_refused [OF assms(1,2) _ c] assms(3) have "ok = 0" by simp
  with c assms(4) show ?thesis by (simp add: db_mysql_pool_connect_all_def)
qed

text \<open>Without MySQL the layer starts, with the worker and whatever Redis gives.\<close>

lemma refused_init:
  assumes "refuses E" and "sc_pool s = Some p" and "\<forall>x\<in>set (p_slots p). \<not> s_connected x"
    and "nat (p_size p) = length (p_slots p)" and "\<not> sc_db_enabled s"
  shows "\<exists>s' w'. db_sync_init E others 0 schema s w = Some (0, s', w') \<and> \<not> sc_db_enabled s' \<and>
    sc_worker_running s' \<and> sc_queue s' = sc_queue s"
proof -
  obtain r p1 w1 where c: "db_mysql_pool_connect_all E p w = (r, p1, w1)"
    by (cases "db_mysql_pool_connect_all E p w") auto
  moreover from this have "r = - 1" using refused_pool [OF assms(1,3,4)] by blast
  ultimately have m: "init_mysql E others schema s w = Some (s\<lparr>sc_pool := Some p1\<rparr>, w1)"
    using assms(2) by (simp add: init_mysql_def)
  obtain s2 w2 where d: "init_redis E (s\<lparr>sc_pool := Some p1\<rparr>) w1 = (s2, w2)"
    by (cases "init_redis E (s\<lparr>sc_pool := Some p1\<rparr>) w1")
  then have "\<not> sc_db_enabled s2" "sc_queue s2 = sc_queue s"
    using assms(5) by (auto simp: init_redis_def split_beta split: option.splits if_splits)
  with m d show ?thesis by (simp add: db_sync_init_def Let_def)
qed

lemma refused_start:
  assumes "refuses E" and one: "\<And>w n. rv (E w (Calloc n)) = 1"
  shows "\<exists>s w1. init_database E others 0 file w = Some (0, Context s, w1) \<and> \<not> sc_db_enabled s \<and>
    sc_worker_running s \<and> sc_queue s = (queue_init, Map.empty)"
proof -
  let ?n = "MYSQL_POOL_DEFAULT_SIZE"
  define p where "p = \<lparr>p_slots = replicate (nat ?n) zero_slot, p_size = ?n, p_config = main_mysql_config,
      p_reconnecting = False, p_last_attempt = 0, p_backoff = DB_RECONNECT_BASE_SEC, p_active = 0\<rparr>"
  have "\<exists>w1. db_mysql_pool_create E main_mysql_config w = (Some p, w1)"
    by (simp add: db_mysql_pool_create_def one p_def main_mysql_config_def MYSQL_POOL_DEFAULT_SIZE_def MYSQL_POOL_MAX_SIZE_def)
  then obtain w1 where p: "db_mysql_pool_create E main_mysql_config w = (Some p, w1)" by blast
  obtain c w2 where c: "db_redis_create E main_redis_config w1 = (c, w2)"
    by (cases "db_redis_create E main_redis_config w1")
  obtain s w3 where s: "db_sync_create E (Some p) c w2 = (Some s, w3)" "sc_pool s = Some p"
      "\<not> sc_db_enabled s" "sc_queue s = (queue_init, Map.empty)"
    by (simp add: db_sync_create_def one)
  have "\<forall>x\<in>set (p_slots p). \<not> s_connected x" "nat (p_size p) = length (p_slots p)"
    by (simp_all add: p_def zero_slot_def)
  from refused_init [OF assms(1) s(2) this s(3)] obtain s4 w4
    where "db_sync_init E others 0 (Some file) s w3 = Some (0, s4, w4)" "\<not> sc_db_enabled s4"
      "sc_worker_running s4" "sc_queue s4 = (queue_init, Map.empty)"
    using s(4) by metis
  with p c s(1) show ?thesis by (auto simp: init_database_def)
qed

text \<open>A worker with an empty queue stops, whatever the clock and the environment do.\<close>

lemma idle_shutdown:
  assumes "\<not> sc_db_enabled s" and "sc_worker_running s" and "sc_queue s = (queue_init, Map.empty)"
  shows "\<exists>h w'. shutdown_database E others (\<lambda>acts. []) None (Context s) w = Some (h, w')"
proof -
  from stop_result [of "sc_queue s" None "\<lambda>acts. []" False "[]"] assms(3) queue_ok_init obtain q
    where "db_sync_stop_worker (\<lambda>acts. []) False True None (sc_queue s) [] = Some (q, [], False)" "queue_ok q"
    by auto
  with assms(1,2) destroy_ok [of "fst q" "snd q"] have "\<exists>h. db_sync_destroy (\<lambda>acts. []) None s [] = Some (h, [])"
    by (auto simp: db_sync_destroy_def)
  then show ?thesis by (auto simp: shutdown_database_def stop_database_def Let_def split: option.split)
qed

lemma sample_life:
  "\<exists>ret db w1 db2 w2 h w3. init_database cache_os (\<lambda>w p. p) 0 None [] = Some (ret, db, w1) \<and>
     use_database cache_os (\<lambda>w p. p) (\<lambda>t. []) [Status_change (Some ''2001'') (Some ''busy'') 1] db w1 = Some (db2, w2) \<and>
     shutdown_database cache_os (\<lambda>w p. p) (\<lambda>acts. []) None db2 w2 = Some (h, w3)"
proof -
  have one: "rv (cache_os w (Calloc n)) = 1" for w n by (simp add: cache_os_def null_ret_def)
  obtain s4 w4 where i: "init_database cache_os (\<lambda>w p. p) 0 None [] = Some (0, Context s4, w4)"
      "\<not> sc_db_enabled s4" "sc_worker_running s4" "sc_queue s4 = (queue_init, Map.empty)"
    using refused_start [OF cache_os_refuses one] by blast
  obtain r s5 w5 where d: "db_sync_agent_status_change cache_os (Some ''2001'') (Some ''busy'') 1 s4 w4 = (r, s5, w5)"
    by (metis prod.exhaust)
  have "s5 = fst (snd (on_cache (db_redis_cache_agent_status cache_os ''2001'' ''busy'' 1) 0 s4 w4))"
    using d i(2) by (simp add: db_sync_agent_status_change_def submit_task_def split_beta)
  then have "\<not> sc_db_enabled s5" "sc_worker_running s5" "sc_queue s5 = (queue_init, Map.empty)"
    using i(2-4) by simp_all
  from idle_shutdown [OF this] i(1) d show ?thesis by auto
qed

section \<open>Properties\<close>

text \<open>C24: Over the life of the database layer nothing leaks: after its start, whatever of it failed, any
  sequence of operations with the answers of the servers as they may be, and the shutdown, in which the worker executes
  what is left in its queue, every MySQL handle is closed and every Redis context and
  reply is freed.\<close>
theorem database_life_releases:
  assumes "init_database E others thread content w = Some (ret, db, w1)"
    and "use_database E others stamp ops db w1 = Some (db2, w2)"
    and "shutdown_database E others now stop db2 w2 = Some (h, w3)"
    and "open_conns w = {}" and "redis_ctxs w = {}" and "live_replies w = {}"
    and "fresh_conns E" and "polite others"
  shows "open_conns w3 = {} \<and> redis_ctxs w3 = {} \<and> live_replies w3 = {}"
proof -
  have e: "pool_env E others" using assms(7,8) by (simp add: pool_env_def)
  have "db_inv (os_view w) db2 w2"
    by (rule use_inv [OF e init_database_inv [OF assms(1) e assms(4-6)] assms(2)])
  from shutdown_releases [OF e this assms(3)] show ?thesis by simp
qed

lemma database_life_releases_witness:
  "\<exists>ret db w1 db2 w2 h w3. init_database cache_os (\<lambda>w p. p) 0 None [] = Some (ret, db, w1) \<and>
     use_database cache_os (\<lambda>w p. p) (\<lambda>t. []) [Status_change (Some ''2001'') (Some ''busy'') 1] db w1 = Some (db2, w2) \<and>
     shutdown_database cache_os (\<lambda>w p. p) (\<lambda>acts. []) None db2 w2 = Some (h, w3) \<and>
     open_conns w3 = {} \<and> redis_ctxs w3 = {} \<and> live_replies w3 = {}"
proof -
  obtain ret db w1 db2 w2 h w3 where
    i: "init_database cache_os (\<lambda>w p. p) 0 None [] = Some (ret, db, w1)"
    and u: "use_database cache_os (\<lambda>w p. p) (\<lambda>t. []) [Status_change (Some ''2001'') (Some ''busy'') 1] db w1 = Some (db2, w2)"
    and d: "shutdown_database cache_os (\<lambda>w p. p) (\<lambda>acts. []) None db2 w2 = Some (h, w3)"
    using sample_life by blast
  have "polite (\<lambda>w p. p)" by (simp add: polite_def)
  from database_life_releases [OF i u d _ _ _ cache_os_fresh this] i u d show ?thesis by fastforce
qed

end
