(* ===== verification/Event_Loop_App.thy ===== *)
theory Event_Loop_App
  imports Event_Loop_Run
begin

text \<open>
  What the event loop leaves to the application: it never touches the application's data, it
  sends no datagram to an address, receives with no buffer but its own, and calls no
  database. So a property of the application's data and of the calls that only the application makes holds
  after any run of the loop if the handlers keep it. The locale \<open>app_handlers\<close> states that contract of the
  handlers.
\<close>

section \<open>The calls of the application\<close>

text \<open>The calls that the loop makes by itself, and all others.\<close>

fun own_call :: "extcall \<Rightarrow> bool" where
  "own_call (Calloc n) = True"
| "own_call Time = True"
| "own_call Epoll_create1 = True"
| "own_call (Epoll_ctl op ep f ev p) = True"
| "own_call (Epoll_wait f n t) = True"
| "own_call (Close f) = True"
| "own_call (Socket t) = True"
| "own_call (Setsockopt_reuseaddr f) = True"
| "own_call (Fcntl_getfl f) = True"
| "own_call (Fcntl_setfl f x) = True"
| "own_call (Bind f p) = True"
| "own_call (Accept f) = True"
| "own_call (Getsockopt_error f) = True"
| "own_call (Sendto f b d) = (d = None)"
| "own_call (Send f b) = True"
| "own_call (Recvfrom f n) = (n = EL_RECV_BUF_SIZE)"
| "own_call (Read f n) = True"
| "own_call c = False"

definition app_trace :: "world \<Rightarrow> world" where
  "app_trace w = filter (\<lambda>x. \<not> own_call (fst x)) w"

lemma app_trace_simps [simp]:
  "app_trace [] = []"
  "app_trace ((c, r) # w) = (if own_call c then app_trace w else (c, r) # app_trace w)"
  by (simp_all add: app_trace_def)

text \<open>A step of the loop itself.\<close>

definition own_step :: "'v event_loop \<Rightarrow> world \<Rightarrow> 'v event_loop \<times> world \<Rightarrow> bool" where
  "own_step el w r \<longleftrightarrow> user_data (fst r) = user_data el \<and> app_trace (snd r) = app_trace w"

lemma own_step_pair [simp]:
  "own_step el w (el', w') \<longleftrightarrow> user_data el' = user_data el \<and> app_trace w' = app_trace w"
  by (simp add: own_step_def)

lemma own_step_trans: "own_step el w (el1, w1) \<Longrightarrow> own_step el1 w1 r \<Longrightarrow> own_step el w r"
  by (simp add: own_step_def)

lemma user_data_upd_slot [simp]: "user_data (upd_slot i g el) = user_data el"
  by (simp add: upd_slot_def)

lemma app_trace_wrappers [simp]:
  "app_trace (snd (es_create E n w)) = app_trace w"
  "app_trace (snd (es_add_fd E ep f ev p w)) = app_trace w"
  "app_trace (snd (es_mod_fd E ep f ev p w)) = app_trace w"
  "app_trace (snd (es_del_fd E ep f w)) = app_trace w"
  "app_trace (snd (es_close E f w)) = app_trace w"
  "app_trace (snd (es_set_nonblocking E f w)) = app_trace w"
  "app_trace (snd (es_set_reuseaddr E f w)) = app_trace w"
  "app_trace (es_close_socket E f w) = app_trace w"
  "app_trace (snd (snd (es_send_all E f b off len u None w))) = app_trace w"
  by (simp_all add: es_wrapper_defs es_send_all_def Let_def)

lemma app_trace_udp_server: "app_trace (snd (snd (es_create_udp_server E port nb ok w))) = app_trace w"
  by (simp add: es_create_udp_server_def es_wrapper_defs Let_def)

section \<open>The loop's own functions\<close>

lemma own_remove: "own_step el w (el_remove_connection E el i w)"
  by (simp add: el_remove_connection_def Let_def own_step_def)

lemma own_add: "own_step el w (snd (el_add_connection E el f t ev a p w))"
  by (auto simp: el_add_connection_def alloc_connection_def own_step_def Let_def split_beta split: option.splits)

lemma own_touch: "own_step el w (el_touch_connection E el i w)"
  by (simp add: el_touch_connection_def)

lemma own_close: "own_step el w (call_on_close E el i w)"
  using own_remove
  by (auto simp: call_on_close_def default_on_close_def split: option.split on_close_fn.split)

lemma own_error: "own_step el w (call_on_error E el i w)"
proof -
  obtain el1 w1 where c: "call_on_close E (upd_slot i (\<lambda>c. c\<lparr>c_state := CONN_STATE_ERROR\<rparr>) el) i w = (el1, w1)"
    by fastforce
  from own_close [of "upd_slot i (\<lambda>c. c\<lparr>c_state := CONN_STATE_ERROR\<rparr>) el" w E i] c
  have "own_step el w (el1, w1)" by simp
  then have "own_step el w (el_remove_connection E el1 i w1)" using own_remove by (rule own_step_trans)
  with c show ?thesis
    by (simp add: call_on_error_def default_on_error_def Let_def split: option.split on_error_fn.split)
qed

lemma own_accept: "own_step el w (call_on_accept E el f a w)"
  using own_add [of el w E f CONN_TYPE_TCP_CLIENT DEFAULT_TCP_EVENTS "Some (es_addr_to_str (Some a) 64)" "sin_port a"]
  by (auto simp: call_on_accept_def default_on_accept_def split: option.splits on_accept_fn.splits prod.splits)

lemma own_write: "own_step el w (call_on_write E el i w)"
proof -
  have "own_step el w (default_on_write E el i w)"
  proof -
    have e: "own_step el w (call_on_error E (upd_slot i g el) i w')" if "app_trace w' = app_trace w" for g w'
      using own_error [of "upd_slot i g el" w' E i] that by (simp add: own_step_def)
    show ?thesis by (simp add: default_on_write_def Let_def split_beta e)
  qed
  then show ?thesis by (simp add: call_on_write_def split: option.split on_write_fn.split)
qed

lemma own_udp_drain:
  assumes "udp_drain E f w = Some w'"
  shows "app_trace w' = app_trace w"
  by (rule udp_drain.raw_induct [where P = "\<lambda>E f w w'. app_trace w' = app_trace w", OF _ assms])
     (fastforce simp: Let_def split: if_splits)

lemma own_tcp_drain:
  assumes "tcp_drain E f w = Some r"
  shows "app_trace (snd r) = app_trace w"
  by (rule tcp_drain.raw_induct [where P = "\<lambda>E f w r. app_trace (snd r) = app_trace w", OF _ assms])
     (fastforce simp: Let_def split: if_splits)

lemma own_default_read:
  assumes "el_default_on_read E el i w = Some r"
  shows "own_step el w r"
proof (cases "is_udp_type (c_type (slot el i))")
  case True
  with assms show ?thesis by (auto simp: el_default_on_read_def own_udp_drain)
next
  case False
  with assms obtain e w1 where d: "tcp_drain E (c_fd (slot el i)) w = Some (e, w1)"
    by (auto simp: el_default_on_read_def split: option.splits)
  then have "own_step el w (el, w1)" using own_tcp_drain [OF d] by simp
  then have "own_step el w (call_on_close E el i w1)" "own_step el w (call_on_error E el i w1)"
    by (blast intro: own_step_trans own_close own_error)+
  with False assms d \<open>own_step el w (el, w1)\<close> show ?thesis
    by (auto simp: el_default_on_read_def split: read_end.splits)
qed

lemma own_handle_accept:
  assumes "handle_accept E el l w = Some r"
  shows "own_step el w r"
proof (rule handle_accept.raw_induct [where P = "\<lambda>E el l w r. own_step el w r", OF _ assms], goal_cases)
  case (1 acc E el l w r)
  let ?r = "E w (Accept (c_fd (slot el l)))"
  let ?w = "(Accept (c_fd (slot el l)), ?r) # w"
  let ?n = "es_set_nonblocking E (rv ?r) ?w"
  obtain el1 w1 where a: "call_on_accept E el (rv ?r) (peer ?r) (snd ?n) = (el1, w1)" by fastforce
  from own_accept [of el "snd ?n" E "rv ?r" "peer ?r"] a
  have "user_data el1 = user_data el" "app_trace w1 = app_trace w" by simp_all
  with 1(2) a show ?case
    by (auto simp: Let_def own_step_def split: if_splits dest!: 1(1))
qed

lemma own_cleanup_slots: "own_step el w (cleanup_slots E now is el w)"
proof (induction "is" arbitrary: el w)
  case (Cons i "is")
  obtain el1 w1 where c: "call_on_close E el i w = (el1, w1)" by fastforce
  obtain el2 w2 where r: "el_remove_connection E el1 i w1 = (el2, w2)" by fastforce
  have "own_step el w (el2, w2)"
    using own_close [of el w E i] own_remove [of el1 w1 E i] c r by (auto intro: own_step_trans)
  then have "own_step el w (cleanup_slots E now is el2 w2)" using Cons.IH by (rule own_step_trans)
  with Cons.IH c r show ?case by (simp add: Let_def)
qed simp

lemma own_cleanup: "own_step el w (cleanup_idle_connections E el w)"
  using own_cleanup_slots [of el "(Time, E w Time) # w"]
  by (simp add: cleanup_idle_connections_def own_step_def)

section \<open>The contract of the application\<close>

locale app_handlers =
  fixes rd :: "'v reader" and idl :: "'v idler" and E :: env and P :: "'v option \<Rightarrow> world \<Rightarrow> bool"
  assumes rd_ok: "P (user_data el) (app_trace w) \<Longrightarrow> rd E el i w = Some (el', w') \<Longrightarrow>
      P (user_data el') (app_trace w')"
    and idl_ok: "P (user_data el) (app_trace w) \<Longrightarrow> idl E el w = (el', w') \<Longrightarrow>
      P (user_data el') (app_trace w')"
begin

definition ok :: "'v event_loop \<times> world \<Rightarrow> bool" where
  "ok s \<longleftrightarrow> P (user_data (fst s)) (app_trace (snd s))"

lemma ok_own: "own_step el w r \<Longrightarrow> ok (el, w) \<Longrightarrow> ok r"
  by (simp add: own_step_def ok_def)

lemma on_read_ok: "ok (el, w) \<Longrightarrow> call_on_read rd E el i w = Some r \<Longrightarrow> ok r"
  by (cases r)
    (auto simp: call_on_read_def ok_def split: option.splits on_read_fn.splits
      dest: rd_ok own_default_read)

lemma client_event_ok:
  assumes "ok (el, w)" and run: "handle_client_event rd E el i ev w = Some r"
  shows "ok r"
proof (cases "c_state (slot el i) = CONN_STATE_ACTIVE")
  case False
  with assms show ?thesis by (simp add: handle_client_event_def)
next
  case True
  obtain el1 w1 where t: "el_touch_connection E el i w = (el1, w1)" by fastforce
  have s1: "ok (el1, w1)" using ok_own [OF own_touch assms(1)] t by metis
  obtain el2 w2 where o: "call_on_write E el1 i w1 = (el2, w2)" by fastforce
  have s2: "ok (el2, w2)" using ok_own [OF own_write s1] o by metis
  have e: "ok (call_on_error E el1 i w')" if "app_trace w' = app_trace w1" for w'
    using own_error [of el1 w' E i] that s1 by (simp add: own_step_def ok_def)
  show ?thesis
    using run True t o e on_read_ok [OF s1] on_read_ok [OF s2] s1 s2 ok_own [OF own_close s1]
    by (auto simp: handle_client_event_def Let_def split: if_splits)
qed

lemma dispatch_event_ok:
  assumes "ok (el, w)" and "dispatch_event rd E el ev w = Some r"
  shows "ok r"
  using assms client_event_ok [OF assms(1)] ok_own [OF own_handle_accept assms(1)]
  by (auto simp: dispatch_event_def split: option.splits if_splits)

lemma dispatch_events_ok: "ok (el, w) \<Longrightarrow> dispatch_events rd E el es w = Some r \<Longrightarrow> ok r"
proof (induction es arbitrary: el w)
  case (Cons ev es)
  from Cons.prems(2) obtain el1 w1 where
    "dispatch_event rd E el ev w = Some (el1, w1)" "dispatch_events rd E el1 es w1 = Some r"
    by (auto split: option.splits)
  with Cons show ?case using dispatch_event_ok by blast
qed simp

lemma idle_check_ok:
  assumes "ok (el, w)"
  shows "ok (idle_check idl E el w)"
proof -
  let ?w = "(Time, E w Time) # w"
  obtain el1 w1 where c: "cleanup_idle_connections E el ?w = (el1, w1)" by fastforce
  from own_cleanup [of el ?w E] c have "own_step el ?w (el1, w1)" by simp
  then have s: "P (user_data el1) (app_trace w1)" using assms by (simp add: ok_def)
  obtain el2 w2 where i: "idl E (el1\<lparr>last_idle_check := rv (E w Time)\<rparr>) w1 = (el2, w2)" by fastforce
  have "P (user_data el2) (app_trace w2)" by (rule idl_ok [OF _ i]) (simp add: s)
  with assms s c i show ?thesis
    by (simp add: idle_check_def Let_def ok_def split: option.split on_idle_fn.split)
qed

lemma turn_ok:
  assumes "ok (el, w)" and run: "el_turn rd idl E el w = Some (go, el', w')"
  shows "ok (el', w')"
proof -
  let ?c = "Epoll_wait (epfd el) (epoll_max_events (config el)) (epoll_timeout_ms (config el))"
  let ?r = "E w ?c"
  let ?el = "if sig ?r then el_stop el else el"
  have s: "ok (?el, (?c, ?r) # w)" using assms(1) by (simp add: ok_def el_stop_def)
  show ?thesis
  proof (cases "rv ?r < 0")
    case True
    with run have "el' = ?el \<and> w' = (?c, ?r) # w"
      unfolding el_turn_def Let_def case_ext by (simp split: if_splits)
    with s show ?thesis by simp
  next
    case False
    with run obtain el1 w1 where
      d: "dispatch_events rd E ?el (take (nat (rv ?r)) (evs ?r)) ((?c, ?r) # w) = Some (el1, w1)"
      and i: "idle_check idl E el1 w1 = (el', w')"
      by (auto simp: el_turn_def Let_def split: option.splits prod.splits)
    have "ok (el1, w1)" using s d by (rule dispatch_events_ok)
    from idle_check_ok [OF this] i show ?thesis by simp
  qed
qed

lemma loop_ok:
  assumes run: "el_loop rd idl E el w = Some r" and start: "ok (el, w)"
  shows "ok r"
proof -
  have "rd' = rd \<longrightarrow> idl' = idl \<longrightarrow> E' = E \<longrightarrow> ok (el, w) \<longrightarrow> ok r"
    if run: "el_loop rd' idl' E' el w = Some r" for rd' idl' E'
  proof (rule el_loop.raw_induct [where P = "\<lambda>rd' idl' E' el w r. rd' = rd \<longrightarrow> idl' = idl \<longrightarrow>
      E' = E \<longrightarrow> ok (el, w) \<longrightarrow> ok r", OF _ run], intro impI)
    fix loop :: "'v reader \<Rightarrow> 'v idler \<Rightarrow> env \<Rightarrow> 'v event_loop \<Rightarrow> world \<Rightarrow> ('v event_loop \<times> world) option"
    fix rd' idl' E' and el :: "'v event_loop" and w :: world and r
    assume IH: "\<And>rd' idl' E' el w r. loop rd' idl' E' el w = Some r \<Longrightarrow> rd' = rd \<longrightarrow> idl' = idl \<longrightarrow>
        E' = E \<longrightarrow> ok (el, w) \<longrightarrow> ok r"
      and eq: "rd' = rd" "idl' = idl" "E' = E" and s: "ok (el, w)"
      and body: "(if \<not> running el then Some (el, w)
         else case el_turn rd' idl' E' el w of None \<Rightarrow> None
              | Some (go, el, w) \<Rightarrow> if go then loop rd' idl' E' el w else Some (el, w)) = Some r"
    show "ok r"
    proof (cases "running el")
      case False
      with body s show ?thesis by auto
    next
      case True
      with body [unfolded eq] obtain go el1 w1 where t: "el_turn rd idl E el w = Some (go, el1, w1)"
        and rest: "(if go then loop rd idl E el1 w1 else Some (el1, w1)) = Some r"
        by (auto split: option.splits)
      have "ok (el1, w1)" using s t by (rule turn_ok)
      with rest IH [of rd idl E el1 w1 r] show ?thesis by (auto split: if_splits)
    qed
  qed
  with assms show ?thesis by blast
qed

lemma run_ok:
  assumes "el_run rd idl E el w = Some (ret, el', w')" and "P (user_data el) (app_trace w)"
  shows "P (user_data el') (app_trace w')"
proof -
  let ?c = "Calloc (epoll_max_events (config el))"
  show ?thesis
  proof (cases "rv (E w ?c) = 0")
    case True
    with assms show ?thesis by (auto simp: el_run_def)
  next
    case False
    with assms(1) have "el_loop rd idl E (el\<lparr>running := True\<rparr>) ((?c, E w ?c) # w) = Some (el', w')"
      by (simp add: el_run_def)
    from loop_ok [OF this] assms(2) show ?thesis by (simp add: ok_def)
  qed
qed

end

section \<open>Creation and destruction\<close>

lemma create_app_trace:
  fixes el :: "'v event_loop option"
  assumes "el_create E cfg w = (el, w')"
  shows "app_trace w' = app_trace w"
proof -
  have sip: "app_trace (snd (el_create_sip E (el :: 'v event_loop) w)) = app_trace w" for el w
    using app_trace_udp_server [of E "sip_port (config el)" True True w]
      own_add [of el "snd (snd (es_create_udp_server E (sip_port (config el)) True True w))" E _
        CONN_TYPE_UDP_SIP DEFAULT_UDP_EVENTS None 0]
    by (auto simp: el_create_sip_def own_step_def split: prod.splits option.splits)
       (metis own_step_def snd_conv)+
  have "app_trace (snd (el_create E cfg w :: 'v event_loop option \<times> world)) = app_trace w"
    using sip by (simp add: el_create_def Let_def split_beta split: option.split)
  with assms show ?thesis by simp
qed

lemma destroy_slots_own: "own_step el w (destroy_slots E is el w)"
proof (induction "is" arbitrary: el w)
  case (Cons i "is")
  obtain el1 w1 where c: "call_on_close E el i w = (el1, w1)" by fastforce
  have "own_step el w (el1, w1)" using own_close [of el w E i] c by simp
  with Cons.IH c show ?case by (auto simp: Let_def own_step_def)
qed simp

lemma destroy_app_trace: "app_trace (el_destroy E el w) = app_trace w"
  using destroy_slots_own [of el w E "[0..<nat (conn_capacity el)]"]
  by (simp add: el_destroy_def split_beta own_step_def)

end
