(* ===== verification/Program_Facts.thy ===== *)
theory Program_Facts
  imports Program Database_Life Event_Loop_App
begin

text \<open>
  The program as a whole releases what it acquired, in every mode: the descriptors of the
  server, the handles of MySQL, the contexts and the replies of Redis. The invariants of the server
  and of the database layer are proved in their theories; here is what each leaves alone of the
  other's resources.
\<close>

section \<open>What the server leaves alone\<close>

definition db_obs :: "world \<Rightarrow> int set \<times> int set \<times> int set" where
  "db_obs w = (open_conns w, redis_ctxs w, live_replies w)"

lemma obs_calls [simp]:
  "db_obs ((Sendto f b d, r) # w) = db_obs w" "db_obs ((Send f b, r) # w) = db_obs w"
  "db_obs ((Recvfrom f n, r) # w) = db_obs w" "db_obs ((Sleep n, r) # w) = db_obs w" "db_obs ((Usleep n, r) # w) = db_obs w"
  by (simp_all add: db_obs_def)

lemma obs_send_all [simp]: "db_obs (snd (snd (es_send_all E f b off len u d w))) = db_obs w"
  by (simp add: es_send_all_def Let_def)

text \<open>The event loop calls no database: only the calls of the application count.\<close>

lemma obs_app_trace [simp]: "db_obs (app_trace w) = db_obs w"
proof (induction w)
  case (Cons x w)
  obtain c r where "x = (c, r)" by fastforce
  with Cons show ?case by (cases c) (simp_all add: db_obs_def)
qed simp

lemma obs_same: "app_trace w' = app_trace w \<Longrightarrow> db_obs w' = db_obs w"
  by (metis obs_app_trace)

lemma obs_default_read: "el_default_on_read E el i w = Some r \<Longrightarrow> db_obs (snd r) = db_obs w"
  using own_default_read [of E el i w r] by (intro obs_same) (simp add: own_step_def)

section \<open>Responses and the loop\<close>

lemma obs_send_response [simp]: "db_obs (sip_send_response E el i q c p w) = db_obs w"
  by (simp add: sip_send_response_def split: option.split)

lemma obs_dispatch: "sip_dispatch I E el i msg w = Some r \<Longrightarrow> db_obs (snd r) = db_obs w"
  by (auto simp: sip_dispatch_def sip_handle_invite_def sip_handle_bye_def sip_handle_cancel_def sip_handle_options_def
      sip_handle_refer_def Let_def split_beta split: if_splits sip_method.splits option.splits)

lemma obs_datagram: "sip_handle_datagram I E el i b n a w = Some r \<Longrightarrow> db_obs (snd r) = db_obs w"
  using obs_dispatch by (fastforce simp: sip_handle_datagram_def Let_def split_beta split: if_splits)

lemma obs_datagramD: "sip_handle_datagram I E el i b n a w = Some (el', w') \<Longrightarrow> db_obs w' = db_obs w"
  by (drule obs_datagram) simp

lemma obs_sip_receive: "sip_receive I E el i w = Some r \<Longrightarrow> db_obs (snd r) = db_obs w"
proof (rule sip_receive.raw_induct [where P = "\<lambda>I E el i w r. db_obs (snd r) = db_obs w"])
  fix rec :: "'a lua_interp \<Rightarrow> env \<Rightarrow> 'a server \<Rightarrow> nat \<Rightarrow> world \<Rightarrow> ('a server \<times> world) option"
  fix I :: "'a lua_interp" and E :: env and el :: "'a server" and i :: nat and w :: world and r
  assume IH: "\<And>I E el i w r. rec I E el i w = Some r \<Longrightarrow> db_obs (snd r) = db_obs w"
  let ?c = "Recvfrom (c_fd (slot el i)) (int SIP_MAX_RAW_LEN - 1)"
  show "(let c = ?c; r = E w c; w = (c, r) # w
      in if rv r < 0 then
           (if would_block (err r) then Some (el, w)
            else if err r = EINTR then rec I E el i w
            else Some (el, w))
         else if rv r = 0 then rec I E el i w
         else (case sip_handle_datagram I E el i (take (nat (rv r)) (dat r)) (rv r) (peer r) w of
                 None \<Rightarrow> None
               | Some (el, w) \<Rightarrow> rec I E el i w)) = Some r \<Longrightarrow> db_obs (snd r) = db_obs w"
    by (auto simp: Let_def dest!: IH obs_datagramD split: if_splits option.splits)
qed

lemma obs_sip_read: "sip_handler_on_read I E el i w = Some r \<Longrightarrow> db_obs (snd r) = db_obs w"
  by (auto simp: sip_handler_on_read_def dest: obs_sip_receive obs_default_read split: if_splits)

interpretation db_untouched: app_handlers "sip_handler_on_read I" "\<lambda>E el w. (el, w)" E "\<lambda>u t. db_obs t = x" for I E x
  by unfold_locales (auto dest: obs_sip_read)

lemma obs_server:
  assumes "start_server_mode I E vm w = Some (r, el, w')"
  shows "db_obs w' = db_obs w"
proof -
  obtain el0 w1 where c: "el_create E (Some server_mode_config) w = (el0 :: 'a server option, w1)" by fastforce
  have w1: "db_obs w1 = db_obs w" using create_app_trace [OF c] by (rule obs_same)
  show ?thesis
  proof (cases el0)
    case None
    with assms c w1 show ?thesis by (auto simp: start_server_mode_def)
  next
    case (Some e)
    let ?e = "el_set_callbacks (e\<lparr>user_data := Some vm\<rparr>) (Some sip_cb)"
    from assms c Some obtain e2 where run: "el_run (sip_handler_on_read I) (\<lambda>E el w. (el, w)) E ?e w1 = Some (r, e2, w')"
      by (auto simp: start_server_mode_def Let_def)
    from db_untouched.run_ok [OF run, of "db_obs w"] w1 show ?thesis by simp
  qed
qed

lemma obs_destroy: "db_obs (el_destroy E el w) = db_obs w"
  by (rule obs_same) (rule destroy_app_trace)

section \<open>The database layer in each mode\<close>

lemma db_obs_same: "db_obs w' = db_obs w \<Longrightarrow> mysql_clean p w' = mysql_clean p w \<and> cache_clean c w' = cache_clean c w"
  using pool_inv_conns [of w' w]
  by (simp add: db_obs_def mysql_clean_def cache_clean_def redis_clean_def split: option.split)

lemma db_inv_move: "db_inv F db w \<Longrightarrow> db_obs w' = db_obs w \<Longrightarrow> db_inv (os_view w') db w'"
  using db_obs_same [of w' w "g_mysql_pool db" "g_redis db"] by (simp add: db_inv_def)

lemma db_inv_pause:
  "db_inv F db ((Usleep n, r) # w) = db_inv F db w" "db_inv F db ((Sleep n, r) # w) = db_inv F db w"
  using db_obs_same [of "(Usleep n, r) # w" w] db_obs_same [of "(Sleep n, r) # w" w]
  by (simp_all add: db_inv_def)

lemma sync_inv_pause [simp]: "sync_inv F s ((Usleep n, r) # w) = sync_inv F s w"
  using db_inv_pause(1) [of F "Context s"] by simp

lemma wait_signal_inv:
  assumes "db_inv F db w" and "wait_signal E w = Some w'"
  shows "db_inv F db w'"
proof -
  have "db_inv F db w \<longrightarrow> db_inv F db w'"
  proof (rule wait_signal.raw_induct [where P = "\<lambda>E w w'. db_inv F db w \<longrightarrow> db_inv F db w'", OF _ assms(2)])
    fix ws :: "env \<Rightarrow> world \<Rightarrow> world option" and E w w'
    assume IH: "\<And>E w w'. ws E w = Some w' \<Longrightarrow> db_inv F db w \<longrightarrow> db_inv F db w'"
      and r: "(if signalled w then Some w else ws E (snd (ext E (Sleep 1) w))) = Some w'"
    show "db_inv F db w \<longrightarrow> db_inv F db w'"
      using r IH [of E "(Sleep 1, E w (Sleep 1)) # w"] db_inv_pause(2) by (simp split: if_splits)
  qed
  with assms(1) show ?thesis by blast
qed

text \<open>The call test.\<close>

definition keeps_sync :: "(db_sync_context \<Rightarrow> world \<Rightarrow> 'a \<times> db_sync_context \<times> world) \<Rightarrow> bool" where
  "keeps_sync f \<longleftrightarrow> (\<forall>F s w r s' w'. sync_inv F s w \<longrightarrow> f s w = (r, s', w') \<longrightarrow> sync_inv F s' w')"

lemma keeps_calls:
  "keeps_sync (db_sync_call_start E stamp i a b d dept)" "keeps_sync (db_sync_call_end E i n st c desc)"
  unfolding keeps_sync_def by (intro allI impI; erule (1) call_start_inv call_end_inv)+

lemma on_sync_inv:
  assumes "keeps_sync f" and "sync_inv F s w"
  shows "\<exists>r s' w'. on_sync f (Some s) w = (r, Some s', w') \<and> sync_inv F s' w'"
proof -
  obtain r s' w' where "f s w = (r, s', w')" by (metis prod.exhaust)
  moreover from this have "sync_inv F s' w'" using assms unfolding keeps_sync_def by blast
  ultimately show ?thesis by (simp add: on_sync_def)
qed

lemma single_call_inv:
  assumes r: "run_single_call I E compact stamp tc vm (Some s) w = Some (x, vm', sync', w')" and i: "sync_inv F s w"
  shows "\<exists>s'. sync' = Some s' \<and> sync_inv F s' w'"
proof -
  let ?w1 = "(Time, E w Time) # w"
  define call_id where "call_id = test_call_id (compact (rv (E w Time))) (call_no tc)"
  have "sync_inv F s ?w1" using i by simp
  from on_sync_inv [OF keeps_calls(1) this] obtain a s1 w2 where
    c: "on_sync (db_sync_call_start E stamp (Some call_id) (Some (tc_caller tc)) (Some (callee_display (tc_digits tc)))
      (tc_direction tc) (Some (scenario tc))) (Some s) ?w1 = (a, Some s1, w2)" and i1: "sync_inv F s1 w2" by blast
  let ?w3 = "(Time, E w2 Time) # w2"
  let ?w4 = "(Time, E ?w3 Time) # ?w3"
  note r = r [unfolded run_single_call_def case_ext Let_def, folded call_id_def, unfolded c, simplified]
  obtain ret resp vm1 where route:
    "lua_vm_call_route I vm (Some (tc_caller tc)) (Some (digits_or_empty tc)) zero_response = Some (ret, resp, vm1)"
    using r by (auto split: option.splits)
  have "sync_inv F s1 ?w4" using i1 by simp
  from on_sync_inv [OF keeps_calls(2) this] obtain b s2 w5 where
    e: "on_sync (db_sync_call_end E (Some call_id) (call_duration (rv (E w2 Time)) (rv (E ?w3 Time)))
      (if r_code resp = 0 then 200 else 486) (r_code resp) (Some (description resp))) (Some s1) ?w4 = (b, Some s2, w5)"
    and i2: "sync_inv F s2 w5" by blast
  from r route e have "sync' = Some s2 \<and> w' = w5" by simp
  with i2 show ?thesis by simp
qed

lemma run_calls_inv:
  "run_calls I E compact stamp tcs st vm (Some s) w = Some (x, vm', sync', w') \<Longrightarrow> sync_inv F s w \<Longrightarrow>
   \<exists>s'. sync' = Some s' \<and> sync_inv F s' w'"
proof (induction tcs arbitrary: st vm s w x)
  case (Cons tc tcs)
  from Cons.prems(1) obtain ret line vm1 sync1 w1 where
    one: "run_single_call I E compact stamp tc vm (Some s) w = Some ((ret, line), vm1, sync1, w1)"
    by (auto split: option.splits)
  from single_call_inv [OF one Cons.prems(2)] obtain s1 where s1: "sync1 = Some s1" "sync_inv F s1 w1" by blast
  from Cons.prems(1) one s1(1) obtain ret2 r vm2 where
    two: "lua_vm_call_route I vm1 (Some (tc_caller tc)) (Some (digits_or_empty tc)) zero_response = Some (ret2, r, vm2)"
    by (auto simp: Let_def split: option.splits)
  let ?w2 = "(Usleep 50000, E w1 (Usleep 50000)) # w1"
  from Cons.prems(1) one two s1(1) obtain st' y where
    "run_calls I E compact stamp tcs st' vm2 (Some s1) ?w2 = Some (y, vm', sync', w')"
    by (auto simp: Let_def)
  from Cons.IH [OF this] s1(2) show ?case by simp
qed auto

lemma run_calls_no_context: "run_calls I E compact stamp tcs st vm None w = Some (x, vm', sync', w') \<Longrightarrow> sync' = None"
proof (induction tcs arbitrary: st vm w x)
  case (Cons tc tcs)
  then show ?case
    by (auto simp: Let_def run_single_call_def on_sync_def split_beta split: option.splits)
qed simp

text \<open>
  Without a context of the synchronisation layer the operations do nothing, but the report looks
  into it: the call test never returns.
\<close>

lemma call_test_needs_context: "call_test_run I E compact stamp vm None w = None"
  by (auto simp: call_test_run_def Let_def simp del: run_calls.simps split: option.split dest: run_calls_no_context)

lemma call_test_inv:
  assumes r: "call_test_run I E compact stamp vm sync w = Some (x, report, vm', sync', w')"
    and i: "\<And>s. sync = Some s \<Longrightarrow> sync_inv F s w"
  shows "\<exists>s s'. sync = Some s \<and> sync' = Some s' \<and> sync_inv F s' w'"
proof -
  obtain vm1 where f: "force_worktime I True vm = Some vm1"
    using r by (auto simp: call_test_run_def split: option.splits)
  let ?w1 = "(Time, E w Time) # w"
  obtain st lines vm2 sync2 w2 where
    c: "run_calls I E compact stamp test_cases \<lparr>success_count = 0, fail_count = 0, night_count = 0,
      voicemail_count = 0, queue_count = 0, invalid_count = 0\<rparr> vm1 sync ?w1 = Some ((st, lines), vm2, sync2, w2)"
    using r f by (auto simp: call_test_run_def simp del: run_calls.simps split: option.splits)
  from r f c have 2: "sync2 = sync' \<and> sync' \<noteq> None \<and>
      w' = (Usleep 500000, E ((Time, E w2 Time) # w2) (Usleep 500000)) # (Time, E w2 Time) # w2"
    by (auto simp: call_test_run_def Let_def simp del: run_calls.simps split: option.splits)
  show ?thesis
  proof (cases sync)
    case None
    with run_calls_no_context [OF c [unfolded None]] 2 show ?thesis by simp
  next
    case (Some s)
    with i have "sync_inv F s ?w1" by simp
    from run_calls_inv [OF c [unfolded Some] this] 2 Some show ?thesis by auto
  qed
qed

text \<open>The demonstrations.\<close>

lemma redis_lines_inv:
  assumes i: "sync_inv F s w" and r: "demo_redis_lines E s w = (ls, s', w')"
  shows "sync_inv F s' w'"
proof (cases "sc_cache_enabled s \<and> sc_redis s \<noteq> None")
  case True
  obtain a s1 w1 where p: "on_cache (db_redis_ping E) (- 1) s w = (a, s1, w1)" by (metis prod.exhaust)
  obtain b s2 w2 where g: "on_cache (db_redis_get_dept_idle E ''sales'') (- 1) s1 w1 = (b, s2, w2)" by (metis prod.exhaust)
  from True r p g have "s' = s2 \<and> w' = w2" by (auto simp: demo_redis_lines_def Let_def)
  with on_cache_inv [OF redis_op_get_idle on_cache_inv [OF redis_op_ping i p] g] show ?thesis by simp
qed (use i r in \<open>auto simp: demo_redis_lines_def\<close>)

lemma mysql_lines_inv:
  assumes e: "pool_env E others" and i: "sync_inv F s w" and r: "demo_mysql_lines E others s w = Some (ls, s', w')"
  shows "sync_inv F s' w'"
proof (cases "if sc_db_enabled s then sc_pool s else None")
  case None
  with r i show ?thesis by (simp add: demo_mysql_lines_def)
next
  case (Some p)
  then have p: "sc_pool s = Some p" by (simp split: if_splits)
  from r Some obtain n where k: "keep_pool s (db_mysql_load_departments E others p w) = Some (n, s', w')"
    by (auto simp: demo_mysql_lines_def)
  have "keeps_db E (db_mysql_load_departments E others)"
    by (simp add: db_mysql_load_departments_def keeps_on_result [OF e])
  from keep_pool_inv [OF this i p k] show ?thesis by blast
qed

lemma demos_inv:
  assumes e: "pool_env E others" and i: "db_inv F db w" and r: "run_demos I E others vm db w = Some (ls, vm', db', w')"
  shows "db_inv F db' w'"
proof -
  from r obtain ms where d: "demo_db_status E others db w = Some (ms, db', w')"
    by (auto simp: run_demos_def split: option.splits)
  show ?thesis
  proof (cases db)
    case (No_Context p c)
    with d i show ?thesis by (simp add: demo_db_status_def)
  next
    case (Context s)
    with d obtain a s1 w1 b s2 where m: "demo_mysql_lines E others s w = Some (a, s1, w1)"
      and c: "demo_redis_lines E s1 w1 = (b, s2, w')" and db: "db' = Context s2"
      by (auto simp: demo_db_status_def Let_def split: option.splits prod.splits)
    have "sync_inv F s w" using i Context by simp
    from redis_lines_inv [OF mysql_lines_inv [OF e this m] c] db show ?thesis by simp
  qed
qed

section \<open>A mode between start and clean-up\<close>

text \<open>The trace at the end of a mode, after the loop, if there is one, is destroyed.\<close>

definition after_loop :: "env \<Rightarrow> 'g server option \<Rightarrow> world \<Rightarrow> world" where
  "after_loop E el w = (case el of None \<Rightarrow> w | Some el \<Rightarrow> el_destroy E el w)"

lemma mode_inv:
  assumes r: "run_mode I E others S m vm db w = Some (Mode_Done el db', w')"
    and e: "pool_env E others" "fresh_fds E" "polls_watched E"
    and i: "db_inv F db w" and none: "watched w = Map.empty"
  shows "db_inv (os_view (after_loop E el w')) db' (after_loop E el w') \<and> open_fds (after_loop E el w') = open_fds w"
proof -
  obtain demo_mode call_test_mode where m: "m = (demo_mode, call_test_mode)" by (cases m)
  have F: "F = os_view w" using i by (simp add: db_inv_def)
  have quiet: ?thesis if "db_inv F db' w'" "el = None"
    using that F by (auto simp: after_loop_def db_inv_def)
  consider "call_test_mode" | "\<not> call_test_mode" "demo_mode" | "\<not> call_test_mode" "\<not> demo_mode" by blast
  then show ?thesis
  proof cases
    case 1
    with r m obtain x report vm' sync' w1 where
      c: "call_test_run I E (compact_time S) (start_stamp S) vm
        (case db of No_Context p r \<Rightarrow> None | Context s \<Rightarrow> Some s) w = Some (x, report, vm', sync', w1)"
      and s: "wait_signal E w1 = Some w'" and el: "el = None"
      and db: "db' = (case sync' of None \<Rightarrow> db | Some s \<Rightarrow> Context s)"
      by (auto simp: run_mode_def split: option.splits)
    have "\<And>s. (case db of No_Context p r \<Rightarrow> None | Context s \<Rightarrow> Some s) = Some s \<Longrightarrow> sync_inv F s w"
      using i by (auto split: database.splits)
    from call_test_inv [OF c this] db have "db_inv F db' w1" by auto
    from wait_signal_inv [OF this s] el quiet show ?thesis by blast
  next
    case 2
    with r m obtain ls vm' w1 where d: "run_demos I E others vm db w = Some (ls, vm', db', w1)"
      and s: "wait_signal E w1 = Some w'" and el: "el = None"
      by (auto simp: run_mode_def split: option.splits)
    from wait_signal_inv [OF demos_inv [OF e(1) i d] s] el quiet show ?thesis by blast
  next
    case 3
    with r m obtain n l where s: "start_server_mode I E vm w = Some (n, Some l, w')" and el: "el = Some l" "db' = db"
      by (auto simp: run_mode_def split: option.splits)
    then have "run_server I E vm w = Some (n, after_loop E el w')"
      by (simp add: run_server_def after_loop_def)
    from run_server_fds [OF this e(2,3) none] have "open_fds (after_loop E el w') = open_fds w" .
    moreover have "db_obs (after_loop E el w') = db_obs w"
      using obs_server [OF s] by (simp add: el after_loop_def obs_destroy)
    ultimately show ?thesis using db_inv_move [OF i] el by blast
  qed
qed

section \<open>Properties\<close>


definition quiet_place :: surroundings where
  "quiet_place = \<lparr>log_opens = True, lua_memory = Some (), thread_result = 0, schema_content = None,
     stamps = (\<lambda>acts. []), stop_cell = None, compact_time = (\<lambda>t. []), start_stamp = (\<lambda>t. [])\<rparr>"

definition loading_interp :: "nat lua_interp" where
  "loading_interp = sample_interp\<lparr>li_loadfile := \<lambda>g p. Inr (LFunction 0)\<rparr>"

lemma quiet_start: "start_lua loading_interp quiet_place = Some (Some sample_vm)"
  by (simp add: start_lua_def quiet_place_def lua_vm_create_def lua_vm_init_def lua_vm_load_script_def
      sample_vm_def loading_interp_def sample_interp_def lua_loadfile_def lua_pcall_def LUA_SCRIPT_PATH_def
      lua_push_def strncpy_def MAX_LUA_SCRIPT_LEN_def nul_def)


end
