(* ===== verification/Call_Facts.thy ===== *)
theory Call_Facts
  imports Call_Test Sync_Facts
begin

text \<open>
  What the call test guarantees, across the Lua wrapper, the synchronisation layer, the task
  format and the worker: every call is recorded by an insertion and an update, and what the
  statistics count.
\<close>

section \<open>Allocation of tasks\<close>

fun allocated :: "world \<Rightarrow> int set" where
  "allocated [] = {}"
| "allocated ((Calloc n, r) # w) = insert (rv r) (allocated w)"
| "allocated ((c, r) # w) = allocated w"

text \<open>
  An allocator that does not run out of memory. During the test nothing is freed, so that the
  pointers it gives out are new.
\<close>

definition fresh_allocs :: "env \<Rightarrow> bool" where
  "fresh_allocs E \<longleftrightarrow> (\<forall>w. 0 < rv (E w (Calloc 1)) \<and> rv (E w (Calloc 1)) \<notin> allocated w)"

definition cells_allocated :: "db_sync_context \<Rightarrow> world \<Rightarrow> bool" where
  "cells_allocated s w \<longleftrightarrow> (\<forall>a\<in>dom (snd (sc_queue s)). int a \<in> allocated w)"

lemma alloc_command [simp]: "allocated (free_reply E r (snd (redisCommand E args c w))) = allocated w"
  by (simp add: free_reply_def redisCommand_def)

lemma alloc_connect: "allocated (snd (snd (db_redis_connect E c w))) = allocated w"
  by (auto simp: db_redis_connect_def Let_def redisFree_def redisCommand_def free_reply_def)

lemma alloc_reconnect: "allocated (snd (snd (db_redis_reconnect E c w))) = allocated w"
  using alloc_connect by (auto simp: db_redis_reconnect_def Let_def split_beta redisFree_def)

lemma alloc_ping: "allocated (snd (snd (db_redis_ping E c w))) = allocated w"
  by (simp add: db_redis_ping_def Let_def split_beta redisCommand_def free_reply_def)

lemma alloc_ensure: "allocated (snd (snd (db_redis_ensure_connected E c w))) = allocated w"
  using alloc_ping [of E c w] alloc_reconnect by (auto simp: db_redis_ensure_connected_def split: prod.splits)

lemma alloc_on_reply: "allocated (snd (snd (on_reply E args d f c w))) = allocated w"
  using alloc_ensure [of E c w] by (simp add: on_reply_def split_beta)

section \<open>What the layer queues\<close>

definition recording :: "db_sync_context \<Rightarrow> world \<Rightarrow> bool" where
  "recording s w \<longleftrightarrow> persists s \<and> queue_ok (sc_queue s) \<and> cells_allocated s w"

abbreviation queued :: "db_sync_context \<Rightarrow> (db_task_type \<times> bytes) list" where
  "queued s \<equiv> tasks (sc_queue s)"

lemma recording_same: "recording s w \<Longrightarrow> allocated w' = allocated w \<Longrightarrow> recording s w'"
  by (simp add: recording_def cells_allocated_def)

lemma recording_on_cache:
  assumes "recording s w" and "\<And>c w. allocated (snd (snd (f c w))) = allocated w"
    and "on_cache f dflt s w = (r, s', w')"
  shows "recording s' w' \<and> sc_queue s' = sc_queue s"
proof (cases "sc_cache_enabled s \<and> sc_redis s \<noteq> None")
  case True
  then obtain c where c: "sc_cache_enabled s" "sc_redis s = Some c" by auto
  obtain r1 c1 w1 where f: "f c w = (r1, c1, w1)" by (cases "f c w") auto
  with assms(2) [of c w] have "allocated w1 = allocated w" by simp
  with c f assms(1,3) show ?thesis
    by (auto simp: on_cache_def recording_def cells_allocated_def persists_def)
next
  case False
  with assms(1,3) show ?thesis by (auto simp: on_cache_def split: if_splits option.splits)
qed

lemma recording_submit:
  assumes "fresh_allocs E" and "recording s w" and "length (queued s) < nat DB_QUEUE_MAX_SIZE"
    and "submit_task E t s w = (s', w')"
  shows "recording s' w' \<and> queued s' = queued s @ [t]"
proof -
  define m where "m = rv (E w (Calloc 1))"
  have m: "0 < m" "m \<notin> allocated w" using assms(1) by (simp_all add: fresh_allocs_def m_def)
  have s: "persists s" "queue_ok (sc_queue s)" "cells_allocated s w" using assms(2) by (simp_all add: recording_def)
  have "fresh_cell (sc_queue s) (nat m)"
    using s(3) m by (force simp: fresh_cell_def cells_allocated_def)
  note q = enqueue_rep [OF s(2) this, of t]
  have r: "s' = s\<lparr>sc_queue := enqueue (sc_queue s) (nat m) t\<rparr>" "w' = (Calloc 1, E w (Calloc 1)) # w"
    using assms(4) s(1) m(1) by (auto simp: submit_task_def persists_def m_def split: if_splits)
  have "int a \<in> allocated w'" if "a \<in> dom (snd (sc_queue s'))" for a
  proof (cases "a = nat m")
    case True
    with m(1) show ?thesis by (simp add: r m_def)
  next
    case False
    with that q have "a \<in> dom (snd (sc_queue s))" unfolding r(1) by auto
    with s(3) show ?thesis by (simp add: cells_allocated_def r(2))
  qed
  then have "cells_allocated s' w'" by (simp add: cells_allocated_def)
  with q s(1) assms(3) show ?thesis
    by (simp add: recording_def persists_def r bounded_put_def)
qed

lemma recording_time [simp]: "recording s ((Time, r) # w) = recording s w"
  by (simp add: recording_def cells_allocated_def)

lemma call_start_queued:
  assumes "fresh_allocs E" and "recording s w" and "length (queued s) < nat DB_QUEUE_MAX_SIZE"
    and "db_sync_call_start E stamp (Some i) (Some a) (Some b) d dept s w = (r, s', w')"
  shows "recording s' w' \<and>
    queued s' = queued s @ [pack_call_start i a b d dept (Some (stamp (rv (E w Time))))]"
proof -
  let ?key = "redis_key REDIS_KEY_CALL_SESSION i" and ?w = "(Time, E w Time) # w"
  let ?f = "\<lambda>c w. let (r, c, w) = db_redis_set E ?key ''ringing'' c w in db_redis_expire E ?key 7200 c w"
  obtain r1 s1 w1 where c: "on_cache ?f 0 s ?w = (r1, s1, w1)" by (cases "on_cache ?f 0 s ?w") auto
  have "allocated (snd (snd (?f c w))) = allocated w" for c w
    by (simp add: db_redis_set_def db_redis_expire_def split_beta alloc_on_reply)
  from recording_on_cache [OF _ this c] assms(2) have s1: "recording s1 w1" "sc_queue s1 = sc_queue s" by simp_all
  have "submit_task E (pack_call_start i a b d dept (Some (stamp (rv (E w Time))))) s1 w1 = (s', w')"
    using assms(4) c by (simp add: db_sync_call_start_def Let_def split: prod.splits)
  from recording_submit [OF assms(1) s1(1) _ this] s1(2) assms(3) show ?thesis by simp
qed

lemma call_end_queued:
  assumes "fresh_allocs E" and "recording s w" and "length (queued s) < nat DB_QUEUE_MAX_SIZE"
    and "db_sync_call_end E (Some i) dur st code desc s w = (r, s', w')"
  shows "recording s' w' \<and> queued s' = queued s @ [pack_call_end i dur st code desc]"
proof -
  let ?f = "db_redis_del E (redis_key REDIS_KEY_CALL_SESSION i)"
  obtain r1 s1 w1 where c: "on_cache ?f 0 s w = (r1, s1, w1)" by (cases "on_cache ?f 0 s w") auto
  have "allocated (snd (snd (?f c w))) = allocated w" for c w by (simp add: db_redis_del_def alloc_on_reply)
  from recording_on_cache [OF assms(2) this c] have s1: "recording s1 w1" "sc_queue s1 = sc_queue s" by simp_all
  have "submit_task E (pack_call_end i dur st code desc) s1 w1 = (s', w')"
    using assms(4) c by (simp add: db_sync_call_end_def split: prod.splits)
  from recording_submit [OF assms(1) s1(1) _ this] s1(2) assms(3) show ?thesis by simp
qed

section \<open>Routing\<close>

text \<open>What \<open>route_call\<close> makes of a case: the returned code, the response and the new globals.\<close>

definition case_route :: "'g lua_interp \<Rightarrow> call_test_case \<Rightarrow> 'g \<Rightarrow> int \<times> route_response \<times> 'g" where
  "case_route I tc g =
     (let f = li_getglobal I g ''route_call'';
          failed = zero_response\<lparr>r_code := ROUTE_RESULT_ERROR\<rparr> in
      if is_lua_function f then
        (case li_call I g f [LString (cstr (tc_caller tc)), LString (cstr (digits_or_empty tc))] of
           (Inr t, g) \<Rightarrow> if is_lua_table t then (r_code (response_of I g t), response_of I g t, g)
                          else (- 1, failed, g)
         | (Inl e, g) \<Rightarrow> (- 1, failed, g))
      else (- 1, zero_response, g))"

lemma call_case_route:
  assumes "vm_L vm = Some L" and "case_route I tc (globals L) = (c, r, g)"
  shows "lua_vm_call_route I vm (Some (tc_caller tc)) (Some (digits_or_empty tc)) zero_response =
    Some (c, r, vm\<lparr>vm_L := Some (L\<lparr>globals := g\<rparr>)\<rparr>)"
proof -
  have "vm\<lparr>vm_L := Some L\<rparr> = vm" "L\<lparr>globals := globals L\<rparr> = L" using assms(1) by simp_all
  with assms show ?thesis
    by (auto simp: lua_call_route_some [OF assms(1)] case_route_def routed_def Let_def
        split: prod.splits sum.splits if_splits)
qed

definition clean_response :: "route_response \<Rightarrow> bool" where
  "clean_response r \<longleftrightarrow> length (description r) \<le> 127 \<and> nul \<notin> set (description r) \<and> int_range (r_code r)"

lemma int_range_to_int32 [simp]: "int_range (to_int32 i)"
  using to_int32_bounds [of i] by (simp add: int_range_def)

lemma int_range_small [simp]: "int_range (- 1)" "int_range 0" "int_range 99"
  by (simp_all add: int_range_def)

lemma case_route_clean: "case_route I tc g = (c, r, g') \<Longrightarrow> clean_response r"
  using length_strncpy [of 127]
  by (auto simp: case_route_def clean_response_def response_of_def field_string_def zero_response_def Let_def
      MAX_ROUTE_DESC_LEN_def ROUTE_RESULT_ERROR_def
      split: prod.splits sum.splits if_splits option.splits)

section \<open>The run\<close>

text \<open>When a call was made and how long it took; what it queues, given its response.\<close>

record call_outcome =
  co_time :: int
  co_start :: int
  co_duration :: int

definition outcome_id :: "(int \<Rightarrow> bytes) \<Rightarrow> call_test_case \<Rightarrow> call_outcome \<Rightarrow> bytes" where
  "outcome_id compact tc out = test_call_id (compact (co_time out)) (call_no tc)"

definition sip_status_of :: "route_response \<Rightarrow> int" where
  "sip_status_of r = (if r_code r = 0 then 200 else 486)"

definition call_tasks :: "(int \<Rightarrow> bytes) \<Rightarrow> (int \<Rightarrow> bytes) \<Rightarrow> call_test_case \<times> route_response \<times> call_outcome \<Rightarrow>
    (db_task_type \<times> bytes) list" where
  "call_tasks compact stamp = (\<lambda>(tc, r, out).
     [pack_call_start (outcome_id compact tc out) (tc_caller tc) (callee_display (tc_digits tc))
        (tc_direction tc) (Some (scenario tc)) (Some (stamp (co_start out))),
      pack_call_end (outcome_id compact tc out) (co_duration out) (sip_status_of r) (r_code r)
        (Some (description r))])"

definition short_call :: "call_outcome \<Rightarrow> bool" where
  "short_call out \<longleftrightarrow> 1 \<le> co_duration out \<and> co_duration out \<le> 5"

lemma call_duration_range: "1 \<le> call_duration a b \<and> call_duration a b \<le> 5"
  by (simp add: call_duration_def Let_def)

lemma single_call:
  assumes "vm_L vm = Some L" and "case_route I tc (globals L) = (c, r, g)"
  shows "\<exists>line out s' w'. run_single_call I E compact stamp tc vm (Some s) w =
      Some ((c, line), vm\<lparr>vm_L := Some (L\<lparr>globals := g\<rparr>)\<rparr>, Some s', w') \<and> short_call out \<and>
    (fresh_allocs E \<and> recording s w \<and> length (queued s) + 2 \<le> nat DB_QUEUE_MAX_SIZE \<longrightarrow>
      recording s' w' \<and> queued s' = queued s @ call_tasks compact stamp (tc, r, out))"
proof -
  let ?w = "(Time, E w Time) # w"
  define i where "i = test_call_id (compact (rv (E w Time))) (call_no tc)"
  obtain r1 s1 w1 where st: "db_sync_call_start E stamp (Some i) (Some (tc_caller tc))
      (Some (callee_display (tc_digits tc))) (tc_direction tc) (Some (scenario tc)) s ?w = (r1, s1, w1)"
    by (cases "db_sync_call_start E stamp (Some i) (Some (tc_caller tc))
      (Some (callee_display (tc_digits tc))) (tc_direction tc) (Some (scenario tc)) s ?w") auto
  define w2 where "w2 = (Time, E w1 Time) # w1"
  define w3 where "w3 = (Time, E w2 Time) # w2"
  define d where "d = call_duration (rv (E w1 Time)) (rv (E w2 Time))"
  obtain r2 s2 w4 where en: "db_sync_call_end E (Some i) d (if r_code r = 0 then 200 else 486) (r_code r)
      (Some (description r)) s1 w3 = (r2, s2, w4)"
    by (cases "db_sync_call_end E (Some i) d (if r_code r = 0 then 200 else 486) (r_code r)
      (Some (description r)) s1 w3") auto
  let ?out = "\<lparr>co_time = rv (E w Time), co_start = rv (E ?w Time), co_duration = d\<rparr>"
  have run: "run_single_call I E compact stamp tc vm (Some s) w =
      Some ((c, \<lparr>cl_no = call_no tc, cl_scenario = scenario tc, cl_label = result_label (r_code r),
        cl_target = target_extension r, cl_duration = d, cl_ok = (c = 0)\<rparr>),
        vm\<lparr>vm_L := Some (L\<lparr>globals := g\<rparr>)\<rparr>, Some s2, w4)"
    using st en by (simp add: run_single_call_def on_sync_def call_case_route [OF assms] Let_def
        flip: i_def w2_def w3_def d_def)
  have "recording s2 w4 \<and> queued s2 = queued s @ call_tasks compact stamp (tc, r, ?out)"
    if f: "fresh_allocs E" and rec: "recording s w" and room: "length (queued s) + 2 \<le> nat DB_QUEUE_MAX_SIZE"
  proof -
    have s1: "recording s1 w1" "queued s1 = queued s @ [pack_call_start i (tc_caller tc)
        (callee_display (tc_digits tc)) (tc_direction tc) (Some (scenario tc)) (Some (stamp (rv (E ?w Time))))]"
      using call_start_queued [OF f _ _ st] rec room by simp_all
    have "recording s1 w3" using s1(1) by (simp add: w3_def w2_def)
    from call_end_queued [OF f this _ en] s1 room show ?thesis
      by (simp add: call_tasks_def outcome_id_def i_def sip_status_of_def)
  qed
  moreover have "short_call ?out" using call_duration_range by (simp add: short_call_def d_def)
  ultimately show ?thesis using run by blast
qed

text \<open>
  The responses of a series of cases, each routed twice: the code returned and the response
  of the first routing, the response of the second, and the globals in the end.
\<close>

fun call_routes :: "'g lua_interp \<Rightarrow> call_test_case list \<Rightarrow> 'g \<Rightarrow>
    (int \<times> route_response \<times> route_response) list \<times> 'g" where
  "call_routes I [] g = ([], g)"
| "call_routes I (tc # tcs) g =
     (let (c, r, g) = case_route I tc g; (c2, r2, g) = case_route I tc g;
          (rs, g) = call_routes I tcs g
      in ((c, r, r2) # rs, g))"

fun count_all :: "(int \<times> route_response \<times> route_response) list \<Rightarrow> call_stats \<Rightarrow> call_stats" where
  "count_all [] st = st"
| "count_all ((c, r, r2) # rs) st = count_all rs (count_code (r_code r2) (count_ret c st))"

abbreviation recorded :: "(int \<times> route_response \<times> route_response) list \<Rightarrow> route_response list" where
  "recorded rs \<equiv> map (\<lambda>(c, r, r2). r) rs"

lemma run_calls_result:
  assumes "vm_L vm = Some L" and "call_routes I tcs (globals L) = (rs, g)"
  shows "\<exists>lines outs s' w'. run_calls I E compact stamp tcs st vm (Some s) w =
      Some ((count_all rs st, lines), vm\<lparr>vm_L := Some (L\<lparr>globals := g\<rparr>)\<rparr>, Some s', w') \<and>
    length outs = length tcs \<and> list_all short_call outs \<and>
    (fresh_allocs E \<and> recording s w \<and> length (queued s) + 2 * length tcs \<le> nat DB_QUEUE_MAX_SIZE \<longrightarrow>
      recording s' w' \<and>
      queued s' = queued s @ concat (map (call_tasks compact stamp) (zip tcs (zip (recorded rs) outs))))"
  using assms
proof (induction tcs arbitrary: vm L rs st s w)
  case Nil
  then have "vm\<lparr>vm_L := Some (L\<lparr>globals := g\<rparr>)\<rparr> = vm" by simp
  with Nil show ?case by simp
next
  case (Cons tc tcs)
  obtain c r g1 where a: "case_route I tc (globals L) = (c, r, g1)" by (cases "case_route I tc (globals L)") auto
  obtain c2 r2 g2 where b: "case_route I tc g1 = (c2, r2, g2)" by (cases "case_route I tc g1") auto
  obtain rs' where cr: "call_routes I tcs g2 = (rs', g)" and rs: "rs = (c, r, r2) # rs'"
    using Cons.prems(2) a b by (auto simp: Let_def split: prod.splits)
  from single_call [OF Cons.prems(1) a, of E compact stamp s w] obtain line out s1 w1
    where x: "run_single_call I E compact stamp tc vm (Some s) w =
        Some ((c, line), vm\<lparr>vm_L := Some (L\<lparr>globals := g1\<rparr>)\<rparr>, Some s1, w1)" "short_call out"
      and q1: "fresh_allocs E \<and> recording s w \<and> length (queued s) + 2 \<le> nat DB_QUEUE_MAX_SIZE \<longrightarrow>
        recording s1 w1 \<and> queued s1 = queued s @ call_tasks compact stamp (tc, r, out)" by blast
  let ?vm1 = "vm\<lparr>vm_L := Some (L\<lparr>globals := g1\<rparr>)\<rparr>" and ?vm2 = "vm\<lparr>vm_L := Some (L\<lparr>globals := g2\<rparr>)\<rparr>"
  let ?w2 = "(Usleep 50000, E w1 (Usleep 50000)) # w1"
  have y: "lua_vm_call_route I ?vm1 (Some (tc_caller tc)) (Some (digits_or_empty tc)) zero_response =
      Some (c2, r2, ?vm2)"
    using call_case_route [of ?vm1 "L\<lparr>globals := g1\<rparr>" I tc c2 r2 g2] b by simp
  from Cons.IH [of ?vm2 "L\<lparr>globals := g2\<rparr>" rs' "count_code (r_code r2) (count_ret c st)" s1 ?w2] cr
  obtain lines outs s' w'
    where z: "run_calls I E compact stamp tcs (count_code (r_code r2) (count_ret c st)) ?vm2 (Some s1) ?w2 =
        Some ((count_all rs' (count_code (r_code r2) (count_ret c st)), lines),
          vm\<lparr>vm_L := Some (L\<lparr>globals := g\<rparr>)\<rparr>, Some s', w')"
      "length outs = length tcs" "list_all short_call outs"
      and q2: "fresh_allocs E \<and> recording s1 ?w2 \<and> length (queued s1) + 2 * length tcs \<le> nat DB_QUEUE_MAX_SIZE \<longrightarrow>
        recording s' w' \<and>
        queued s' = queued s1 @ concat (map (call_tasks compact stamp) (zip tcs (zip (recorded rs') outs)))"
    by auto
  have q: "fresh_allocs E \<and> recording s w \<and> length (queued s) + 2 * length (tc # tcs) \<le> nat DB_QUEUE_MAX_SIZE \<longrightarrow>
      recording s' w' \<and> queued s' = queued s @
        concat (map (call_tasks compact stamp) (zip (tc # tcs) (zip (recorded rs) (out # outs))))"
    using q1 q2 by (auto simp: rs recording_same call_tasks_def)
  have "run_calls I E compact stamp (tc # tcs) st vm (Some s) w =
      Some ((count_all rs st, line # lines), vm\<lparr>vm_L := Some (L\<lparr>globals := g\<rparr>)\<rparr>, Some s', w')"
    using x(1) y z(1) by (simp add: Let_def rs)
  with x(2) z(2,3) q show ?case by (intro exI [of _ "line # lines"] exI [of _ "out # outs"] exI conjI) auto
qed

section \<open>What the worker makes of it\<close>

definition clean_case :: "call_test_case \<Rightarrow> bool" where
  "clean_case tc \<longleftrightarrow> field 31 (tc_caller tc) \<and> field 31 (callee_display (tc_digits tc)) \<and>
     field 31 (tc_direction tc) \<and> field 63 (scenario tc) \<and> int_range (call_no tc)"

lemma test_cases_clean: "list_all clean_case test_cases"
  by (simp add: test_cases_def clean_case_def call_test_case.defs field_def callee_display_def snprintf_def
      nul_def int_range_def)

lemma length_test_cases [simp]: "length test_cases = 50"
  by (simp add: test_cases_def)

text \<open>What \<open>strftime\<close> prints for the formats of the code.\<close>

definition clean_time :: "bytes \<Rightarrow> bool" where
  "clean_time t \<longleftrightarrow> t \<noteq> [] \<and> length t \<le> 31 \<and> bar \<notin> set t \<and> nul \<notin> set t \<and> lf \<notin> set t"

lemma show_int3_field: "int_range i \<Longrightarrow> length (show_int3 i) \<le> 11 \<and> bar \<notin> set (show_int3 i) \<and> nul \<notin> set (show_int3 i)"
  using length_show_int [of i] show_int_chars [of bar i] nul_show_int [of i]
  by (auto simp: show_int3_def Let_def isdigit_def nul_def)

lemma call_id_field: "clean_time t \<Longrightarrow> int_range n \<Longrightarrow> field 255 (test_call_id t n)"
  using show_int3_field [of n]
  by (auto simp: clean_time_def field_def test_call_id_def snprintf_def nul_def dest!: in_set_takeD)

lemma time_field: "clean_time t \<Longrightarrow> last_field 31 t"
  by (simp add: clean_time_def last_field_def)

text \<open>The two calls into the database for a call: its insertion and the update at its end.\<close>

definition call_actions :: "(int \<Rightarrow> bytes) \<Rightarrow> (int \<Rightarrow> bytes) \<Rightarrow>
    (call_test_case \<times> route_response \<times> call_outcome) \<times> bytes \<Rightarrow> db_action list" where
  "call_actions compact stamp = (\<lambda>((tc, r, out), end_time).
     [Insert_call_record (Some (outcome_id compact tc out)) (Some (tc_caller tc))
        (Some (callee_display (tc_digits tc))) (Some (tc_direction tc)) (Some (scenario tc))
        (Some (stamp (co_start out))) 0 [],
      Update_call_end (Some (outcome_id compact tc out)) end_time (co_duration out) (sip_status_of r)
        (r_code r) (opt_field (first_line (description r)))])"

definition clean_times :: "(int \<Rightarrow> bytes) \<Rightarrow> (int \<Rightarrow> bytes) \<Rightarrow> bool" where
  "clean_times compact stamp \<longleftrightarrow> (\<forall>t. clean_time (compact t) \<and> clean_time (stamp t))"

lemma call_performed:
  assumes "clean_times compact stamp" and "clean_case tc" and "clean_response r" and "short_call out"
  shows "\<exists>e. foldl (perform_next now True) acts (call_tasks compact stamp (tc, r, out)) =
    acts @ call_actions compact stamp ((tc, r, out), e)"
proof -
  have t: "clean_time (compact (co_time out))" "clean_time (stamp (co_start out))"
    using assms(1) by (simp_all add: clean_times_def)
  have i: "field 255 (outcome_id compact tc out)"
    using call_id_field [OF t(1)] assms(2) by (simp add: outcome_id_def clean_case_def)
  have ne: "scenario tc \<noteq> []" "stamp (co_start out) \<noteq> []"
    using assms(2) t(2) by (simp_all add: clean_case_def field_def clean_time_def)
  have st: "perform_task n (pack_call_start (outcome_id compact tc out) (tc_caller tc)
      (callee_display (tc_digits tc)) (tc_direction tc) (Some (scenario tc)) (Some (stamp (co_start out)))) =
    [Insert_call_record (Some (outcome_id compact tc out)) (Some (tc_caller tc))
        (Some (callee_display (tc_digits tc))) (Some (tc_direction tc)) (Some (scenario tc))
        (Some (stamp (co_start out))) 0 []]" for n
    using call_start_performed [OF i, of "tc_caller tc" "callee_display (tc_digits tc)" "tc_direction tc"
        "scenario tc" "stamp (co_start out)" n] assms(2) time_field [OF t(2)] ne
    by (simp add: clean_case_def opt_field_def)
  have "int_range (co_duration out)" "int_range (sip_status_of r)" "int_range (r_code r)"
    using assms(3,4) by (auto simp: short_call_def clean_response_def sip_status_of_def int_range_def)
  from call_end_scanned [OF i this] assms(3) st show ?thesis
    by (auto simp: call_tasks_def call_actions_def perform_next_def clean_response_def)
qed

lemma calls_performed:
  assumes "clean_times compact stamp"
    and "list_all (\<lambda>(tc, r, out). clean_case tc \<and> clean_response r \<and> short_call out) xs"
  shows "\<exists>ends. length ends = length xs \<and>
    foldl (perform_next now True) acts (concat (map (call_tasks compact stamp) xs)) =
      acts @ concat (map (call_actions compact stamp) (zip xs ends))"
  using assms(2)
proof (induction xs arbitrary: acts)
  case (Cons x xs)
  obtain tc r out where x: "x = (tc, r, out)" by (cases x)
  with Cons.prems call_performed [OF assms(1), of tc r out now acts] obtain e where
    e: "foldl (perform_next now True) acts (call_tasks compact stamp x) =
      acts @ call_actions compact stamp (x, e)" by auto
  from Cons.IH [of "acts @ call_actions compact stamp (x, e)"] Cons.prems obtain ends
    where "length ends = length xs" "foldl (perform_next now True) (acts @ call_actions compact stamp (x, e))
        (concat (map (call_tasks compact stamp) xs)) =
      (acts @ call_actions compact stamp (x, e)) @ concat (map (call_actions compact stamp) (zip xs ends))" by auto
  with e show ?case by (intro exI [of _ "e # ends"]) simp
qed simp

lemma routes_clean: "call_routes I tcs g = (rs, g') \<Longrightarrow> length rs = length tcs \<and> list_all clean_response (recorded rs)"
  by (induction tcs arbitrary: g rs) (auto simp: Let_def dest: case_route_clean split: prod.splits)

section \<open>Properties\<close>

abbreviation forced :: "'g lua_interp \<Rightarrow> 'g \<Rightarrow> bool \<Rightarrow> 'g" where
  "forced I g b \<equiv> li_setglobal I g ''_TEST_FORCE_WORKTIME'' (LBool b)"

definition zero_stats :: call_stats where
  "zero_stats = \<lparr>success_count = 0, fail_count = 0, night_count = 0, voicemail_count = 0, queue_count = 0,
     invalid_count = 0\<rparr>"

lemma call_test_result:
  assumes "vm_L vm = Some L" and "call_routes I test_cases (forced I (globals L) True) = (rs, g)"
  shows "\<exists>report outs s' w'. call_test_run I E compact stamp vm (Some s) w =
      Some (0, report, vm\<lparr>vm_L := Some (L\<lparr>globals := forced I g False\<rparr>)\<rparr>, Some s', w') \<and>
    cr_stats report = count_all rs zero_stats \<and>
    cr_queue report = (if sc_db_enabled s' then Some (q_count (fst (sc_queue s'))) else None) \<and>
    length outs = 50 \<and> list_all short_call outs \<and>
    (fresh_allocs E \<and> recording s w \<and> length (queued s) + 100 \<le> nat DB_QUEUE_MAX_SIZE \<longrightarrow>
      recording s' w' \<and>
      queued s' = queued s @ concat (map (call_tasks compact stamp) (zip test_cases (zip (recorded rs) outs))))"
proof -
  let ?vm = "vm\<lparr>vm_L := Some (L\<lparr>globals := forced I (globals L) True\<rparr>)\<rparr>"
  have f: "force_worktime I True vm = Some ?vm"
    using assms(1) by (simp add: force_worktime_def lua_setglobal_def lua_push_def)
  let ?w = "(Time, E w Time) # w"
  from run_calls_result [of ?vm "L\<lparr>globals := forced I (globals L) True\<rparr>" I test_cases rs g E compact stamp
      zero_stats s ?w] assms(2)
  obtain lines outs s' w' where r: "run_calls I E compact stamp test_cases zero_stats ?vm (Some s) ?w =
      Some ((count_all rs zero_stats, lines), vm\<lparr>vm_L := Some (L\<lparr>globals := g\<rparr>)\<rparr>, Some s', w')"
    "length outs = 50" "list_all short_call outs"
    and q: "fresh_allocs E \<and> recording s w \<and> length (queued s) + 100 \<le> nat DB_QUEUE_MAX_SIZE \<longrightarrow>
      recording s' w' \<and>
      queued s' = queued s @ concat (map (call_tasks compact stamp) (zip test_cases (zip (recorded rs) outs)))"
    by auto
  let ?w1 = "(Time, E w' Time) # w'"
  let ?w2 = "(Usleep 500000, E ?w1 (Usleep 500000)) # ?w1"
  have "\<exists>report. call_test_run I E compact stamp vm (Some s) w =
      Some (0, report, vm\<lparr>vm_L := Some (L\<lparr>globals := forced I g False\<rparr>)\<rparr>, Some s', ?w2) \<and>
      cr_stats report = count_all rs zero_stats \<and>
      cr_queue report = (if sc_db_enabled s' then Some (q_count (fst (sc_queue s'))) else None)"
    by (simp add: call_test_run_def f r(1) [unfolded zero_stats_def] zero_stats_def Let_def
        force_worktime_def [of I False] lua_setglobal_def lua_push_def db_sync_queue_size_def)
  moreover have "recording s' w' \<Longrightarrow> recording s' ?w2" by (rule recording_same) simp_all
  ultimately show ?thesis using q r(2,3) by meson
qed

text \<open>C39: The call test records every one of its fifty calls: it returns with a hundred tasks queued,
  and stopping the worker afterwards performs, in the order of the calls, for each an insertion with the
  caller, what was dialled, the direction, the scenario and the start time, and an update under the same
  identifier with a duration between 1 and 5 seconds and the result of the first routing: the
  status 200 exactly for the code 0, the code, and the first line of the description.\<close>
theorem call_test_recorded:
  assumes "vm_L vm = Some L" and "call_routes I test_cases (forced I (globals L) True) = (rs, g)"
    and "fresh_allocs E" and "recording s w" and "queued s = []" and "clean_times compact stamp"
  shows "\<exists>report vm' s' w' outs. call_test_run I E compact stamp vm (Some s) w =
      Some (0, report, vm', Some s', w') \<and> length outs = 50 \<and> list_all short_call outs \<and>
    length (queued s') = 100 \<and>
    (\<forall>now a. fresh_cell (sc_queue s') a \<longrightarrow> (\<exists>q ends. length ends = 50 \<and> tasks q = [] \<and>
      db_sync_stop_worker now True True (Some a) (sc_queue s') [] = Some (q,
        concat (map (call_actions compact stamp) (zip (zip test_cases (zip (recorded rs) outs)) ends)), False)))"
proof -
  let ?xs = "\<lambda>outs. zip test_cases (zip (recorded rs) outs)"
  have max: "nat DB_QUEUE_MAX_SIZE = 10000" by (simp add: DB_QUEUE_MAX_SIZE_def)
  from call_test_result [OF assms(1,2), of E compact stamp s w] assms(3-5) max obtain report outs s' w'
    where r: "call_test_run I E compact stamp vm (Some s) w =
        Some (0, report, vm\<lparr>vm_L := Some (L\<lparr>globals := forced I g False\<rparr>)\<rparr>, Some s', w')"
      "length outs = 50" "list_all short_call outs"
      and q: "recording s' w'" "queued s' = concat (map (call_tasks compact stamp) (?xs outs))" by auto
  have len: "length rs = 50" and cl: "list_all clean_response (recorded rs)"
    using routes_clean [OF assms(2)] by simp_all
  have n: "length (queued s') = 100"
    using r(2) len by (simp add: q(2) length_concat call_tasks_def o_def split_def sum_list_triv)
  have "list_all (\<lambda>(tc, r, out). clean_case tc \<and> clean_response r \<and> short_call out) (?xs outs)"
    using test_cases_clean cl r(3) by (auto simp: list_all_iff elim!: in_set_zipE)
  note perf = calls_performed [OF assms(6) this]
  have "\<exists>q ends. length ends = 50 \<and> tasks q = [] \<and>
      db_sync_stop_worker now True True (Some a) (sc_queue s') [] = Some (q,
        concat (map (call_actions compact stamp) (zip (?xs outs) ends)), False)"
    if "fresh_cell (sc_queue s') a" for now a
    using stop_result [of "sc_queue s'" "Some a" now True "[]"] that q n perf [of now "[]"] len r(2) max
    by (auto simp: recording_def)
  with r n show ?thesis by blast
qed

text \<open>A machine at rest, a layer without cache whose database and worker are up, and two clocks.\<close>

definition test_os :: env where
  "test_os w c = null_ret\<lparr>rv := (case c of Calloc n \<Rightarrow> next_fd w | Time \<Rightarrow> 1000 | _ \<Rightarrow> 0)\<rparr>"

lemma allocated_below: "x \<in> allocated w \<Longrightarrow> x < next_fd w"
  by (induction w rule: allocated.induct) auto

lemma test_os_fresh: "fresh_allocs test_os"
  using next_fd_pos by (auto simp: fresh_allocs_def test_os_def dest: allocated_below)
    (metis less_le_trans zero_less_numeral)

definition test_sync :: db_sync_context where
  "test_sync = \<lparr>sc_pool = None, sc_redis = None, sc_queue = (queue_init, Map.empty),
     sc_worker_running = True, sc_db_enabled = True, sc_cache_enabled = False,
     sc_last_health_check = 0, sc_interval = 15\<rparr>"

lemma test_sync_recording: "recording test_sync []" "queued test_sync = []"
  by (simp_all add: recording_def test_sync_def persists_def queue_ok_init cells_allocated_def tasks_def)

abbreviation test_compact :: "int \<Rightarrow> bytes" where
  "test_compact t \<equiv> ''20240101120000''"

abbreviation test_stamp :: "int \<Rightarrow> bytes" where
  "test_stamp t \<equiv> ''2024-01-01 12:00:00''"

lemma test_times: "clean_times test_compact test_stamp"
  by (simp add: clean_times_def clean_time_def nul_def lf_def)

lemma call_test_recorded_witness:
  "\<exists>report vm' s' w'. call_test_run sample_interp test_os test_compact test_stamp sample_vm (Some test_sync) [] =
      Some (0, report, vm', Some s', w') \<and> length (queued s') = 100"
proof -
  obtain rs g where r: "call_routes sample_interp test_cases (forced sample_interp 0 True) = (rs, g)"
    by (cases "call_routes sample_interp test_cases (forced sample_interp 0 True)")
  then have r: "call_routes sample_interp test_cases
      (forced sample_interp (globals \<lparr>globals = 0, stack = []\<rparr>) True) = (rs, g)" by simp
  have v: "vm_L sample_vm = Some \<lparr>globals = 0, stack = []\<rparr>" by simp
  show ?thesis
    using call_test_recorded [OF v r test_os_fresh test_sync_recording test_times] by meson
qed

text \<open>The statistics of the call test do not describe the calls it recorded: every call is routed
  twice, and while success and failure are counted by the first routing, which is the recorded one,
  the night, voicemail, queue and invalid counters count the second.\<close>
theorem call_test_counts_second:
  assumes "vm_L vm = Some L" and "call_routes I test_cases (forced I (globals L) True) = (rs, g)"
  shows "\<exists>report s' w'. call_test_run I E compact stamp vm (Some s) w =
      Some (0, report, vm\<lparr>vm_L := Some (L\<lparr>globals := forced I g False\<rparr>)\<rparr>, Some s', w') \<and>
    success_count (cr_stats report) = int (length (filter (\<lambda>(c, r, r2). c = 0) rs)) \<and>
    success_count (cr_stats report) + fail_count (cr_stats report) = 50 \<and>
    night_count (cr_stats report) = int (length (filter (\<lambda>(c, r, r2). r_code r2 = 6) rs)) \<and>
    voicemail_count (cr_stats report) = int (length (filter (\<lambda>(c, r, r2). r_code r2 = 7) rs)) \<and>
    queue_count (cr_stats report) = int (length (filter (\<lambda>(c, r, r2). r_code r2 = 5) rs)) \<and>
    invalid_count (cr_stats report) = int (length (filter (\<lambda>(c, r, r2). r_code r2 = 1) rs))"
proof -
  have c: "success_count (count_all rs st) = success_count st + int (length (filter (\<lambda>(c, r, r2). c = 0) rs)) \<and>
    success_count (count_all rs st) + fail_count (count_all rs st) =
      success_count st + fail_count st + int (length rs) \<and>
    night_count (count_all rs st) = night_count st + int (length (filter (\<lambda>(c, r, r2). r_code r2 = 6) rs)) \<and>
    voicemail_count (count_all rs st) = voicemail_count st + int (length (filter (\<lambda>(c, r, r2). r_code r2 = 7) rs)) \<and>
    queue_count (count_all rs st) = queue_count st + int (length (filter (\<lambda>(c, r, r2). r_code r2 = 5) rs)) \<and>
    invalid_count (count_all rs st) = invalid_count st + int (length (filter (\<lambda>(c, r, r2). r_code r2 = 1) rs))"
    for rs st
    by (induction rs st rule: count_all.induct) (auto simp: count_ret_def count_code_def)
  have "length rs = 50" using routes_clean [OF assms(2)] by simp
  with call_test_result [OF assms, of E compact stamp s w] c [of rs zero_stats] show ?thesis
    by (fastforce simp: zero_stats_def)
qed

text \<open>An interpreter whose routing alternates between success and the night mode.\<close>

definition toggling_interp :: "nat lua_interp" where
  "toggling_interp = sample_interp\<lparr>li_call := \<lambda>g f as. (Inr (LTable (g mod 2)), g + 1),
     li_getfield := \<lambda>g t n. if n = ''code'' then (if t = LTable 0 then LInteger 0 else LInteger 6) else LNil\<rparr>"

definition coded :: "int \<Rightarrow> route_response" where
  "coded n = zero_response\<lparr>r_code := n\<rparr>"

lemma toggling_route:
  "case_route toggling_interp tc g = (if even g then (0, coded 0, g + 1) else (6, coded 6, g + 1))"
  by (cases "g mod 2")
    (simp_all add: case_route_def toggling_interp_def response_of_def field_string_def coded_def zero_response_def
      even_iff_mod_2_eq_zero Let_def)

lemma toggling_routes:
  "even g \<Longrightarrow> call_routes toggling_interp tcs g = (replicate (length tcs) (0, coded 0, coded 6), g + 2 * length tcs)"
  by (induction tcs arbitrary: g) (simp_all add: toggling_route)

lemma call_test_counts_second_witness:
  "\<exists>report s' w'. call_test_run toggling_interp test_os test_compact test_stamp sample_vm (Some test_sync) [] =
      Some (0, report, sample_vm\<lparr>vm_L := Some \<lparr>globals = 100, stack = []\<rparr>\<rparr>, Some s', w') \<and>
    success_count (cr_stats report) = 50 \<and> night_count (cr_stats report) = 50"
proof -
  have f: "forced toggling_interp g b = g" for g b by (simp add: toggling_interp_def sample_interp_def)
  have r: "call_routes toggling_interp test_cases
      (forced toggling_interp (globals \<lparr>globals = 0, stack = []\<rparr>) True) =
      (replicate 50 (0, coded 0, coded 6), 100)"
    by (simp add: f toggling_routes)
  have v: "vm_L sample_vm = Some \<lparr>globals = 0, stack = []\<rparr>" by simp
  have "r_code (coded 6) = 6" by (simp add: coded_def)
  with call_test_counts_second [OF v r, of test_os test_compact test_stamp test_sync "[]"] show ?thesis
    by (fastforce simp: f)
qed

text \<open>When the script has no function \<open>route_call\<close>, a call is recorded as answered all the same: the
  worker writes the status 200 and the result code 0 of a success, and a description taken from an
  uninitialised buffer, although the routing returned -1.\<close>
theorem unrouted_recorded_as_answered:
  assumes "vm_L vm = Some L" and "\<not> is_lua_function (li_getglobal I (globals L) ''route_call'')"
    and "fresh_allocs E" and "recording s w" and "queued s = []" and "clean_times compact stamp" and "clean_case tc"
  shows "\<exists>line s' w' i t d. run_single_call I E compact stamp tc vm (Some s) w =
      Some ((- 1, line), vm, Some s', w') \<and>
    (\<forall>now a. fresh_cell (sc_queue s') a \<longrightarrow> (\<exists>q e. db_sync_stop_worker now True True (Some a) (sc_queue s') [] =
      Some (q, [Insert_call_record (Some i) (Some (tc_caller tc)) (Some (callee_display (tc_digits tc)))
          (Some (tc_direction tc)) (Some (scenario tc)) (Some t) 0 [],
        Update_call_end (Some i) e d 200 0 None], False)))"
proof -
  have vm: "vm\<lparr>vm_L := Some (L\<lparr>globals := globals L\<rparr>)\<rparr> = vm" using assms(1) by simp
  have cr: "case_route I tc (globals L) = (- 1, zero_response, globals L)"
    using assms(2) by (simp add: case_route_def)
  have max: "nat DB_QUEUE_MAX_SIZE = 10000" by (simp add: DB_QUEUE_MAX_SIZE_def)
  from single_call [OF assms(1) cr, of E compact stamp s w] assms(3-5) max vm obtain line out s' w'
    where r: "run_single_call I E compact stamp tc vm (Some s) w = Some ((- 1, line), vm, Some s', w')"
      "short_call out" and q: "recording s' w'" "queued s' = call_tasks compact stamp (tc, zero_response, out)"
    by auto
  have "clean_response zero_response" by (simp add: clean_response_def zero_response_def)
  note perf = call_performed [OF assms(6,7) this r(2)]
  have n: "length (queued s') = 2" by (simp add: q(2) call_tasks_def)
  have acts: "call_actions compact stamp ((tc, zero_response, out), e) =
      [Insert_call_record (Some (outcome_id compact tc out)) (Some (tc_caller tc))
        (Some (callee_display (tc_digits tc))) (Some (tc_direction tc)) (Some (scenario tc))
        (Some (stamp (co_start out))) 0 [],
       Update_call_end (Some (outcome_id compact tc out)) e (co_duration out) 200 0 None]" for e
    by (simp add: call_actions_def sip_status_of_def zero_response_def first_line_def opt_field_def)
  have "\<exists>q e. db_sync_stop_worker now True True (Some a) (sc_queue s') [] =
      Some (q, call_actions compact stamp ((tc, zero_response, out), e), False)"
    if "fresh_cell (sc_queue s') a" for now a
    using stop_result [of "sc_queue s'" "Some a" now True "[]"] that perf [of now "[]"] q max n
    by (auto simp: recording_def)
  with r(1) show ?thesis unfolding acts by blast
qed

definition silent_interp :: "nat lua_interp" where
  "silent_interp = sample_interp\<lparr>li_getglobal := \<lambda>g n. LNil\<rparr>"

lemma unrouted_recorded_as_answered_witness:
  "\<exists>line s' w' i t d. run_single_call silent_interp test_os test_compact test_stamp (hd test_cases) sample_vm
      (Some test_sync) [] = Some ((- 1, line), sample_vm, Some s', w') \<and>
    (\<forall>now a. fresh_cell (sc_queue s') a \<longrightarrow> (\<exists>q e. db_sync_stop_worker now True True (Some a) (sc_queue s') [] =
      Some (q, [Insert_call_record (Some i) (Some ''4001234567'') (Some ''IVR:1'')
          (Some ''inbound'') (Some (scenario (hd test_cases))) (Some t) 0 [],
        Update_call_end (Some i) e d 200 0 None], False)))"
proof -
  have v: "vm_L sample_vm = Some \<lparr>globals = 0, stack = []\<rparr>" by simp
  have n: "\<not> is_lua_function (li_getglobal silent_interp (globals \<lparr>globals = 0, stack = []\<rparr>) ''route_call'')"
    by (simp add: silent_interp_def)
  have c: "clean_case (hd test_cases)" using test_cases_clean by (simp add: test_cases_def)
  have t: "tc_caller (hd test_cases) = ''4001234567''" "callee_display (tc_digits (hd test_cases)) = ''IVR:1''"
    "tc_direction (hd test_cases) = ''inbound''"
    by (simp_all add: test_cases_def call_test_case.defs callee_display_def snprintf_def nul_def)
  show ?thesis
    using unrouted_recorded_as_answered [OF v n test_os_fresh test_sync_recording test_times c] unfolding t .
qed

end
