(* ===== verification/Logger.thy ===== *)
theory Logger
  imports World C_String
begin

text \<open>
  The logger of \<open>src/logger.c\<close> and \<open>include/logger.h\<close>: a level, a file, and a line on the terminal
  and in the file for every message that passes the level; a message of the level FATAL ends the
  process. The static variables are the record \<open>logger\<close>. The file is flushed after every
  \<open>fprintf\<close>, so the trace of the calls is what it holds. The other components are modelled
  without their messages; what ends the process is accounted for in the theories of the callers.
\<close>

section \<open>Levels\<close>

datatype log_level =
  LOG_LEVEL_DEBUG | LOG_LEVEL_INFO | LOG_LEVEL_WARN | LOG_LEVEL_ERROR | LOG_LEVEL_FATAL

fun level_num :: "log_level \<Rightarrow> nat" where
  "level_num LOG_LEVEL_DEBUG = 0"
| "level_num LOG_LEVEL_INFO = 1"
| "level_num LOG_LEVEL_WARN = 2"
| "level_num LOG_LEVEL_ERROR = 3"
| "level_num LOG_LEVEL_FATAL = 4"

text \<open>The levels are ordered as their numbers are.\<close>

instantiation log_level :: linorder
begin

definition less_eq_log_level :: "log_level \<Rightarrow> log_level \<Rightarrow> bool" where
  "a \<le> b \<longleftrightarrow> level_num a \<le> level_num b"

definition less_log_level :: "log_level \<Rightarrow> log_level \<Rightarrow> bool" where
  "a < b \<longleftrightarrow> level_num a < level_num b"

instance
proof
  fix a b :: log_level
  assume "a \<le> b" "b \<le> a"
  then show "a = b" by (cases a; cases b) (simp_all add: less_eq_log_level_def)
qed (auto simp: less_eq_log_level_def less_log_level_def)

end

lemma level_le_fatal [simp]: "l \<le> LOG_LEVEL_FATAL"
  by (cases l) (simp_all add: less_eq_log_level_def)

fun level_name :: "log_level \<Rightarrow> bytes" where
  "level_name LOG_LEVEL_DEBUG = ''DEBUG''"
| "level_name LOG_LEVEL_INFO = ''INFO''"
| "level_name LOG_LEVEL_WARN = ''WARN''"
| "level_name LOG_LEVEL_ERROR = ''ERROR''"
| "level_name LOG_LEVEL_FATAL = ''FATAL''"

fun level_color :: "log_level \<Rightarrow> bytes" where
  "level_color LOG_LEVEL_DEBUG = CHR 0x1B # ''[36m''"
| "level_color LOG_LEVEL_INFO = CHR 0x1B # ''[32m''"
| "level_color LOG_LEVEL_WARN = CHR 0x1B # ''[33m''"
| "level_color LOG_LEVEL_ERROR = CHR 0x1B # ''[31m''"
| "level_color LOG_LEVEL_FATAL = CHR 0x1B # ''[35m''"

section \<open>Opening and closing\<close>

text \<open>\<open>lg_file\<close> is the pointer to the open file, 0 for NULL.\<close>

record logger =
  lg_file :: int
  lg_level :: log_level
  lg_dir :: bytes
  lg_name :: bytes

definition logger_start :: logger where
  "logger_start = \<lparr>lg_file = 0, lg_level = LOG_LEVEL_INFO, lg_dir = ''./log'', lg_name = ''sip_server.log''\<rparr>"

definition ensure_log_dir :: "env \<Rightarrow> logger \<Rightarrow> world \<Rightarrow> world" where
  "ensure_log_dir E lg w =
     (let (st, w) = ext E (Stat (lg_dir lg)) w
      in if rv st = - 1 then snd (ext E (Mkdir (lg_dir lg)) w) else w)"

definition fprintf_file :: "env \<Rightarrow> logger \<Rightarrow> bytes \<Rightarrow> world \<Rightarrow> world" where
  "fprintf_file E lg s w = snd (ext E (Fprintf (Some (lg_file lg)) s) w)"

definition fprintf_stderr :: "env \<Rightarrow> bytes \<Rightarrow> world \<Rightarrow> world" where
  "fprintf_stderr E s w = snd (ext E (Fprintf None s) w)"

definition logger_init ::
  "env \<Rightarrow> bytes option \<Rightarrow> bytes option \<Rightarrow> log_level \<Rightarrow> logger \<Rightarrow> world \<Rightarrow> int \<times> logger \<times> world" where
  "logger_init E log_dir filename min_level lg w =
     (let lg = (case log_dir of None \<Rightarrow> lg | Some d \<Rightarrow> lg\<lparr>lg_dir := strncpy 255 d\<rparr>);
          lg = (case filename of None \<Rightarrow> lg | Some f \<Rightarrow> lg\<lparr>lg_name := strncpy 127 f\<rparr>);
          lg = lg\<lparr>lg_level := min_level\<rparr>;
          w = ensure_log_dir E lg w;
          full_path = snprintf 512 (lg_dir lg @ ''/'' @ lg_name lg);
          (f, w) = ext E (Fopen full_path) w;
          lg = lg\<lparr>lg_file := rv f\<rparr>
      in if rv f = 0 then
           (- 1, lg, fprintf_stderr E (''[FATAL] Failed to open log file: '' @ full_path @ [lf]) w)
         else (0, lg, fprintf_file E lg (''========== Logger Initialized =========='' @ [lf]) w))"

definition logger_set_level :: "log_level \<Rightarrow> logger \<Rightarrow> logger" where
  "logger_set_level level lg = lg\<lparr>lg_level := level\<rparr>"

definition logger_close :: "env \<Rightarrow> logger \<Rightarrow> world \<Rightarrow> logger \<times> world" where
  "logger_close E lg w =
     (if lg_file lg \<noteq> 0 then
        let w = fprintf_file E lg (''========== Logger Closed =========='' @ [lf]) w
        in (lg\<lparr>lg_file := 0\<rparr>, snd (ext E (Fclose (lg_file lg)) w))
      else (lg, w))"

section \<open>Writing\<close>

definition MAX_LOG_MSG_LEN :: nat where "MAX_LOG_MSG_LEN = 1024"

definition strrchr :: "bytes \<Rightarrow> char \<Rightarrow> nat option" where
  "strrchr s c = map_option (\<lambda>i. length (cstr s) - 1 - i) (memchr c (rev (cstr s)))"

definition base_name :: "bytes \<Rightarrow> bytes" where
  "base_name path =
     (case strrchr path (CHR ''/'') of
        Some i \<Rightarrow> drop (i + 1) path
      | None \<Rightarrow> (case strrchr path (CHR 0x5C) of Some i \<Rightarrow> drop (i + 1) path | None \<Rightarrow> path))"

text \<open>
  A call of the logger: the level, the place in the source, and the text that the format makes
  of its arguments. \<open>log_text\<close> is the part of a line that terminal and file have in common.
\<close>

record log_call =
  lc_level :: log_level
  lc_file :: bytes
  lc_line :: int
  lc_func :: bytes
  lc_msg :: bytes

definition log_text :: "bytes \<Rightarrow> log_call \<Rightarrow> bytes" where
  "log_text time_buf m = '' ['' @ time_buf @ ''] '' @ base_name (lc_file m) @ '':'' @ show_int (lc_line m) @
     '' ['' @ lc_func m @ ''] '' @ snprintf MAX_LOG_MSG_LEN (lc_msg m) @ [lf]"

definition log_line :: "bytes \<Rightarrow> log_call \<Rightarrow> bytes" where
  "log_line time_buf m = ''['' @ level_name (lc_level m) @ '']'' @ log_text time_buf m"

definition exit_line :: bytes where
  "exit_line = ''[FATAL] Program will exit.'' @ [lf]"

text \<open>\<open>stamp\<close> is \<open>strftime\<close> of a time. The result tells with which code the process exits, if it does.\<close>

definition logger_write ::
  "env \<Rightarrow> (int \<Rightarrow> bytes) \<Rightarrow> log_call \<Rightarrow> logger \<Rightarrow> world \<Rightarrow> int option \<times> logger \<times> world" where
  "logger_write E stamp m lg w =
     (if lc_level m < lg_level lg then (None, lg, w)
      else
        let (now, w) = ext E Time w;
            time_buf = stamp (rv now);
            w = fprintf_stderr E (level_color (lc_level m) @ ''['' @ level_name (lc_level m) @ '']'' @
                  CHR 0x1B # ''[0m'' @ log_text time_buf m) w;
            w = (if lg_file lg \<noteq> 0 then fprintf_file E lg (log_line time_buf m) w else w)
        in if lc_level m = LOG_LEVEL_FATAL then
             let w = fprintf_stderr E exit_line w;
                 w = (if lg_file lg \<noteq> 0 then fprintf_file E lg exit_line w else w);
                 (lg, w) = logger_close E lg w
             in (Some 1, lg, w)
           else (None, lg, w))"

text \<open>A run of the program as the logger sees it: opening, messages, and closing unless one was fatal.\<close>

fun log_all :: "env \<Rightarrow> (int \<Rightarrow> bytes) \<Rightarrow> log_call list \<Rightarrow> logger \<Rightarrow> world \<Rightarrow> int option \<times> logger \<times> world" where
  "log_all E stamp [] lg w = (None, lg, w)"
| "log_all E stamp (m # ms) lg w =
     (case logger_write E stamp m lg w of
        (Some code, lg, w) \<Rightarrow> (Some code, lg, w)
      | (None, lg, w) \<Rightarrow> log_all E stamp ms lg w)"

definition log_session :: "env \<Rightarrow> (int \<Rightarrow> bytes) \<Rightarrow> log_call list \<Rightarrow> logger \<Rightarrow> world \<Rightarrow> int option \<times> logger \<times> world" where
  "log_session E stamp ms lg w =
     (case log_all E stamp ms lg w of
        (Some code, lg, w) \<Rightarrow> (Some code, lg, w)
      | (None, lg, w) \<Rightarrow> (case logger_close E lg w of (lg, w) \<Rightarrow> (None, lg, w)))"

section \<open>Facts\<close>

text \<open>What was written to a file, oldest first, and whether it was closed.\<close>

fun written :: "int \<Rightarrow> world \<Rightarrow> bytes" where
  "written h [] = []"
| "written h ((Fprintf f s, r) # w) = written h w @ (if f = Some h then s else [])"
| "written h ((c, r) # w) = written h w"

fun closings :: "int \<Rightarrow> world \<Rightarrow> nat" where
  "closings h [] = 0"
| "closings h ((Fclose f, r) # w) = closings h w + (if f = h then 1 else 0)"
| "closings h ((c, r) # w) = closings h w"

definition fatal :: "log_call \<Rightarrow> bool" where
  "fatal m \<longleftrightarrow> lc_level m = LOG_LEVEL_FATAL"

text \<open>The messages up to and with the first fatal one, without those below the level.\<close>

fun until_fatal :: "log_call list \<Rightarrow> log_call list" where
  "until_fatal [] = []"
| "until_fatal (m # ms) = (if fatal m then [m] else m # until_fatal ms)"

definition shown :: "log_level \<Rightarrow> log_call list \<Rightarrow> log_call list" where
  "shown l ms = filter (\<lambda>m. l \<le> lc_level m) (until_fatal ms)"

definition close_line :: bytes where
  "close_line = ''========== Logger Closed =========='' @ [lf]"

lemmas log_defs = fprintf_file_def fprintf_stderr_def logger_close_def Let_def

lemma write_below [simp]: "lc_level m < lg_level lg \<Longrightarrow> logger_write E stamp m lg w = (None, lg, w)"
  by (simp add: logger_write_def)

lemma write_shown:
  assumes "lg_level lg \<le> lc_level m" and "lg_file lg = h" and "h \<noteq> 0" and "\<not> fatal m"
  shows "\<exists>w'. logger_write E stamp m lg w = (None, lg, w') \<and>
    written h w' = written h w @ log_line (stamp (rv (E w Time))) m \<and> closings h w' = closings h w"
  using assms by (simp add: logger_write_def log_defs fatal_def not_less)

lemma write_fatal:
  assumes "fatal m" and "lg_file lg = h" and "h \<noteq> 0"
  shows "\<exists>w'. logger_write E stamp m lg w = (Some 1, lg\<lparr>lg_file := 0\<rparr>, w') \<and>
    written h w' = written h w @ log_line (stamp (rv (E w Time))) m @ exit_line @ close_line \<and>
    closings h w' = closings h w + 1"
  using assms by (simp add: logger_write_def log_defs fatal_def not_less close_line_def)

definition any_fatal :: "log_call list \<Rightarrow> bool" where
  "any_fatal ms = list_ex fatal ms"

lemma log_all_result:
  assumes "lg_file lg = h" and "h \<noteq> 0"
  shows "\<exists>times w'. length times = length (shown (lg_level lg) ms) \<and>
    log_all E stamp ms lg w =
      (if any_fatal ms then (Some 1, lg\<lparr>lg_file := 0\<rparr>, w') else (None, lg, w')) \<and>
    written h w' = written h w @ concat (map2 (\<lambda>t. log_line (stamp t)) times (shown (lg_level lg) ms)) @
      (if any_fatal ms then exit_line @ close_line else []) \<and>
    closings h w' = closings h w + (if any_fatal ms then 1 else 0)"
proof (induction ms arbitrary: w)
  case Nil
  then show ?case by (simp add: shown_def any_fatal_def)
next
  case (Cons m ms)
  show ?case
  proof (cases "fatal m")
    case True
    from write_fatal [OF True assms, of E stamp w] obtain w' where x: "logger_write E stamp m lg w =
        (Some 1, lg\<lparr>lg_file := 0\<rparr>, w')"
      "written h w' = written h w @ log_line (stamp (rv (E w Time))) m @ exit_line @ close_line"
      "closings h w' = closings h w + 1" by blast
    from True have "shown (lg_level lg) (m # ms) = [m]" by (simp add: shown_def fatal_def)
    with x True show ?thesis
      by (intro exI [of _ "[rv (E w Time)]"] exI [of _ w']) (simp add: any_fatal_def)
  next
    case nf: False
    show ?thesis
    proof (cases "lg_level lg \<le> lc_level m")
      case True
      from write_shown [OF True assms nf, of E stamp w] obtain w1 where x: "logger_write E stamp m lg w = (None, lg, w1)"
        "written h w1 = written h w @ log_line (stamp (rv (E w Time))) m" "closings h w1 = closings h w" by blast
      from Cons.IH [of w1] obtain times w' where y: "length times = length (shown (lg_level lg) ms)"
        "log_all E stamp ms lg w1 = (if any_fatal ms then (Some 1, lg\<lparr>lg_file := 0\<rparr>, w') else (None, lg, w'))"
        "written h w' = written h w1 @ concat (map2 (\<lambda>t. log_line (stamp t)) times (shown (lg_level lg) ms)) @
          (if any_fatal ms then exit_line @ close_line else [])"
        "closings h w' = closings h w1 + (if any_fatal ms then 1 else 0)" by blast
      from nf True have "shown (lg_level lg) (m # ms) = m # shown (lg_level lg) ms" by (simp add: shown_def)
      with x y nf show ?thesis
        by (intro exI [of _ "rv (E w Time) # times"] exI [of _ w']) (simp add: any_fatal_def)
    next
      case False
      with nf have "shown (lg_level lg) (m # ms) = shown (lg_level lg) ms" by (simp add: shown_def)
      with Cons.IH [of w] False nf show ?thesis by (simp add: any_fatal_def not_le)
    qed
  qed
qed

lemma base_name_slash: "CHR ''/'' \<notin> set b \<Longrightarrow> nul \<notin> set (p @ b) \<Longrightarrow> base_name (p @ CHR ''/'' # b) = b"
proof -
  assume b: "CHR ''/'' \<notin> set b" "nul \<notin> set (p @ b)"
  then have c: "cstr (p @ CHR ''/'' # b) = p @ CHR ''/'' # b" by (intro cstr_id) (simp add: nul_def)
  have "first_index ((=) (CHR ''/'')) (xs @ CHR ''/'' # ys) = Some (length xs)" if "CHR ''/'' \<notin> set xs" for xs ys
    using that by (induction xs) auto
  from this [of "rev b" "rev p"] b(1) show ?thesis by (simp add: base_name_def strrchr_def c)
qed

section \<open>Properties\<close>

definition init_line :: bytes where
  "init_line = ''========== Logger Initialized =========='' @ [lf]"

text \<open>C40: What a run leaves in the log file: after a successful opening the file holds what it held, the
  opening mark, then exactly the messages of the chosen level or above in order, up to and with the first fatal
  one, each as one formatted entry with its time, and the closing mark, which is written in every case; the process
  exits with code 1 exactly if a message was fatal, and the file is closed once.\<close>
theorem log_session_file:
  assumes "logger_init E dir name lvl lg0 w0 = (0, lg, w1)" and "log_session E stamp ms lg w1 = (code, lg', w)"
  shows "code = (if any_fatal ms then Some 1 else None) \<and> lg_file lg' = 0 \<and>
    closings (lg_file lg) w = closings (lg_file lg) w0 + 1 \<and>
    (\<exists>times. length times = length (shown lvl ms) \<and>
      written (lg_file lg) w = written (lg_file lg) w0 @ init_line @
        concat (map2 (\<lambda>t. log_line (stamp t)) times (shown lvl ms)) @
        (if any_fatal ms then exit_line else []) @ close_line)"
proof -
  have h: "lg_file lg \<noteq> 0" "lg_level lg = lvl"
    "written (lg_file lg) w1 = written (lg_file lg) w0 @ init_line"
    "closings (lg_file lg) w1 = closings (lg_file lg) w0"
    using assms(1) by (auto simp: logger_init_def ensure_log_dir_def log_defs init_line_def split: if_splits option.splits)
  from log_all_result [OF refl h(1), of ms E stamp w1] obtain times w2 where
    a: "length times = length (shown lvl ms)"
      "log_all E stamp ms lg w1 = (if any_fatal ms then (Some 1, lg\<lparr>lg_file := 0\<rparr>, w2) else (None, lg, w2))"
      "written (lg_file lg) w2 = written (lg_file lg) w1 @
        concat (map2 (\<lambda>t. log_line (stamp t)) times (shown lvl ms)) @
        (if any_fatal ms then exit_line @ close_line else [])"
      "closings (lg_file lg) w2 = closings (lg_file lg) w1 + (if any_fatal ms then 1 else 0)"
    by (auto simp: h(2))
  show ?thesis
  proof (cases "any_fatal ms")
    case True
    with assms(2) a h show ?thesis by (auto simp: log_session_def)
  next
    case False
    with assms(2) a h show ?thesis
      by (auto simp: log_session_def log_defs close_line_def intro!: exI [of _ times])
  qed
qed

text \<open>A file that opens; a message below the level, a warning, a fatal one, and one that is never written.\<close>

definition file_os :: env where
  "file_os w c = null_ret\<lparr>rv := (case c of Fopen p \<Rightarrow> 7 | Time \<Rightarrow> 0 | _ \<Rightarrow> 0)\<rparr>"

definition sample_call_of :: "log_level \<Rightarrow> bytes \<Rightarrow> log_call" where
  "sample_call_of l m = \<lparr>lc_level = l, lc_file = ''src/main.c'', lc_line = 12, lc_func = ''main'', lc_msg = m\<rparr>"

lemma log_session_file_witness:
  "\<exists>lg w1 lg' w. logger_init file_os (Some ''./log'') (Some ''sip_server.log'') LOG_LEVEL_INFO logger_start [] = (0, lg, w1) \<and>
    log_session file_os (\<lambda>t. ''now'') [sample_call_of LOG_LEVEL_DEBUG ''a'', sample_call_of LOG_LEVEL_WARN ''b'',
      sample_call_of LOG_LEVEL_FATAL ''c'', sample_call_of LOG_LEVEL_ERROR ''d''] lg w1 = (Some 1, lg', w) \<and>
    written 7 w = init_line @ ''[WARN] [now] main.c:12 [main] b'' @ [lf] @ ''[FATAL] [now] main.c:12 [main] c'' @ [lf] @
      exit_line @ close_line \<and> closings 7 w = 1"
proof -
  let ?ms = "[sample_call_of LOG_LEVEL_DEBUG ''a'', sample_call_of LOG_LEVEL_WARN ''b'',
      sample_call_of LOG_LEVEL_FATAL ''c'', sample_call_of LOG_LEVEL_ERROR ''d'']"
  obtain r lg w1 where i: "logger_init file_os (Some ''./log'') (Some ''sip_server.log'') LOG_LEVEL_INFO logger_start [] =
      (r, lg, w1)" by (cases "logger_init file_os (Some ''./log'') (Some ''sip_server.log'') LOG_LEVEL_INFO logger_start []") auto
  then have r: "r = 0" "lg_file lg = 7"
    by (auto simp: logger_init_def file_os_def Let_def ensure_log_dir_def null_ret_def)
  obtain code lg' w where s: "log_session file_os (\<lambda>t. ''now'') ?ms lg w1 = (code, lg', w)"
    by (cases "log_session file_os (\<lambda>t. ''now'') ?ms lg w1") auto
  have sh: "shown LOG_LEVEL_INFO ?ms = [sample_call_of LOG_LEVEL_WARN ''b'', sample_call_of LOG_LEVEL_FATAL ''c'']"
    by (simp add: shown_def fatal_def sample_call_of_def less_eq_log_level_def)
  have af: "any_fatal ?ms" by (simp add: any_fatal_def fatal_def sample_call_of_def)
  have bn: "base_name ''src/main.c'' = ''main.c''" by code_simp
  have li: "show_int 12 = ''12''" by code_simp
  have "log_line ''now'' (sample_call_of l m) = ''['' @ level_name l @ ''] [now] main.c:12 [main] '' @ take 1023 m @ [lf]" for l m
    by (simp add: log_line_def log_text_def sample_call_of_def bn li snprintf_def MAX_LOG_MSG_LEN_def)
  with log_session_file [OF i [unfolded r(1)] s] r(2) sh af i s r(1) show ?thesis
    by (auto simp: length_Suc_conv)
qed

end
