(* ===== verification/Route_Text.thy ===== *)
theory Route_Text
  imports C_String
begin

text \<open>
  The texts of \<open>lua/route.lua\<close>: the names of the departments and the descriptions of the results,
  as the UTF-8 bytes of the script. Each description is a function of the values the script puts
  into it.
\<close>

section \<open>Departments\<close>

text \<open>\<open>%02d\<close> of a number that is not negative.\<close>

definition show_int2 :: "int \<Rightarrow> bytes" where
  "show_int2 i = (let s = show_int i in replicate (2 - length s) (CHR ''0'') @ s)"

record dept =
  d_short :: bytes
  d_range_start :: int
  d_range_end :: int
  d_name :: bytes
  d_external :: bool
  d_ivr_key :: "bytes option"

text \<open>The table \<open>DEPARTMENTS\<close> in the order of the source; nothing changes it.\<close>

definition DEPARTMENTS :: "(bytes \<times> dept) list" where
  "DEPARTMENTS =
    [(''hr'', \<lparr>d_short = ''1000'', d_range_start = 1001, d_range_end = 1050,
       d_name = [CHR 0xE4, CHR 0xBA, CHR 0xBA, CHR 0xE4, CHR 0xBA, CHR 0x8B, CHR 0xE9, CHR 0x83,
                CHR 0xA8],
       d_external = False, d_ivr_key = None\<rparr>),
     (''finance'', \<lparr>d_short = ''1100'', d_range_start = 1101, d_range_end = 1150,
       d_name = [CHR 0xE8, CHR 0xB4, CHR 0xA2, CHR 0xE5, CHR 0x8A, CHR 0xA1, CHR 0xE9, CHR 0x83,
                CHR 0xA8],
       d_external = False, d_ivr_key = None\<rparr>),
     (''admin'', \<lparr>d_short = ''1200'', d_range_start = 1201, d_range_end = 1250,
       d_name = [CHR 0xE8, CHR 0xA1, CHR 0x8C, CHR 0xE6, CHR 0x94, CHR 0xBF, CHR 0xE9, CHR 0x83,
                CHR 0xA8],
       d_external = False, d_ivr_key = None\<rparr>),
     (''management'', \<lparr>d_short = ''1300'', d_range_start = 1301, d_range_end = 1330,
       d_name = [CHR 0xE7, CHR 0xAE, CHR 0xA1, CHR 0xE7, CHR 0x90, CHR 0x86, CHR 0xE5, CHR 0xB1,
                CHR 0x82],
       d_external = False, d_ivr_key = None\<rparr>),
     (''sales'', \<lparr>d_short = ''2000'', d_range_start = 2001, d_range_end = 2400,
       d_name = [CHR 0xE9, CHR 0x94, CHR 0x80, CHR 0xE5, CHR 0x94, CHR 0xAE, CHR 0xE9, CHR 0x83,
                CHR 0xA8],
       d_external = True, d_ivr_key = Some ''1''\<rparr>),
     (''service'', \<lparr>d_short = ''2500'', d_range_start = 2501, d_range_end = 2800,
       d_name = [CHR 0xE5, CHR 0x94, CHR 0xAE, CHR 0xE5, CHR 0x90, CHR 0x8E, CHR 0xE6, CHR 0x9C,
                CHR 0x8D, CHR 0xE5, CHR 0x8A, CHR 0xA1, CHR 0xE9, CHR 0x83, CHR 0xA8],
       d_external = True, d_ivr_key = Some ''2''\<rparr>),
     (''market'', \<lparr>d_short = ''2900'', d_range_start = 2901, d_range_end = 2980,
       d_name = [CHR 0xE5, CHR 0xB8, CHR 0x82, CHR 0xE5, CHR 0x9C, CHR 0xBA, CHR 0xE9, CHR 0x83,
                CHR 0xA8],
       d_external = True, d_ivr_key = Some ''3''\<rparr>),
     (''rnd'', \<lparr>d_short = ''3000'', d_range_start = 3001, d_range_end = 3200,
       d_name = [CHR 0xE7, CHR 0xA0, CHR 0x94, CHR 0xE5, CHR 0x8F, CHR 0x91, CHR 0xE9, CHR 0x83,
                CHR 0xA8],
       d_external = False, d_ivr_key = None\<rparr>),
     (''support'', \<lparr>d_short = ''9000'', d_range_start = 9001, d_range_end = 9050,
       d_name = [CHR 0xE4, CHR 0xBA, CHR 0xBA, CHR 0xE5, CHR 0xB7, CHR 0xA5, CHR 0xE6, CHR 0x9C,
                CHR 0x8D, CHR 0xE5, CHR 0x8A, CHR 0xA1, CHR 0xE5, CHR 0x8F, CHR 0xB0],
       d_external = True, d_ivr_key = Some ''0''\<rparr>)]"

abbreviation dept_of :: "bytes \<Rightarrow> dept option" where
  "dept_of \<equiv> map_of DEPARTMENTS"

text \<open>The name the script gives the service desk where it does not take it from the table.\<close>

definition service_desk :: bytes where
  "service_desk =
     [CHR 0xE4, CHR 0xBA, CHR 0xBA, CHR 0xE5, CHR 0xB7, CHR 0xA5, CHR 0xE6, CHR 0x9C, CHR 0x8D,
     CHR 0xE5, CHR 0x8A, CHR 0xA1, CHR 0xE5, CHR 0x8F, CHR 0xB0]"

section \<open>Descriptions\<close>

text \<open>The department of this key is not open to outside calls.\<close>

definition desc_not_external :: "bytes \<Rightarrow> bytes" where
  "desc_not_external key =
     ''IVR'' @ [CHR 0xE6, CHR 0x8C, CHR 0x89, CHR 0xE9, CHR 0x94, CHR 0xAE] @ ''['' @ key @ ''] '' @
     [CHR 0xE9, CHR 0x83, CHR 0xA8, CHR 0xE9, CHR 0x97, CHR 0xA8, CHR 0xE4, CHR 0xB8, CHR 0x8D,
     CHR 0xE5, CHR 0x8F, CHR 0xAF, CHR 0xE5, CHR 0xAF, CHR 0xB9, CHR 0xE5, CHR 0xA4, CHR 0x96,
     CHR 0xE8, CHR 0xAE, CHR 0xBF, CHR 0xE9, CHR 0x97, CHR 0xAE, CHR 0xEF, CHR 0xBC, CHR 0x8C,
     CHR 0xE8, CHR 0xBD, CHR 0xAC, CHR 0xE6, CHR 0x8E, CHR 0xA5, CHR 0xE4, CHR 0xBA, CHR 0xBA,
     CHR 0xE5, CHR 0xB7, CHR 0xA5, CHR 0xE5, CHR 0x8F, CHR 0xB0]"

text \<open>No idle agent of the department is online.\<close>

definition desc_nobody_online :: "bytes \<Rightarrow> bytes" where
  "desc_nobody_online name =
     name @ [CHR 0xE6, CHR 0x97, CHR 0xA0, CHR 0xE7, CHR 0xA9, CHR 0xBA, CHR 0xE9, CHR 0x97,
     CHR 0xB2, CHR 0xE5, CHR 0x9D, CHR 0x90, CHR 0xE5, CHR 0xB8, CHR 0xAD, CHR 0xE5, CHR 0x9C,
     CHR 0xA8, CHR 0xE7, CHR 0xBA, CHR 0xBF, CHR 0xEF, CHR 0xBC, CHR 0x8C, CHR 0xE8, CHR 0xBD,
     CHR 0xAC, CHR 0xE6, CHR 0x8E, CHR 0xA5, CHR 0xE4, CHR 0xBA, CHR 0xBA, CHR 0xE5, CHR 0xB7,
     CHR 0xA5, CHR 0xE5, CHR 0x8F, CHR 0xB0]"

text \<open>Key leads to an agent of the department.\<close>

definition desc_ivr_routed :: "bytes \<Rightarrow> bytes \<Rightarrow> bytes \<Rightarrow> bytes" where
  "desc_ivr_routed key name ext =
     ''IVR'' @ [CHR 0xE6, CHR 0x8C, CHR 0x89, CHR 0xE9, CHR 0x94, CHR 0xAE] @ ''['' @ key @ ''] '' @
     [CHR 0xE2, CHR 0x86, CHR 0x92] @ '' '' @ [CHR 0xE8, CHR 0xBD, CHR 0xAC, CHR 0xE6, CHR 0x8E,
     CHR 0xA5] @ name @ [CHR 0xE5, CHR 0x9D, CHR 0x90, CHR 0xE5, CHR 0xB8, CHR 0xAD] @ ''('' @ ext @
     '')''"

text \<open>There is no such department.\<close>

definition desc_no_department :: "bytes \<Rightarrow> bytes" where
  "desc_no_department i =
     [CHR 0xE9, CHR 0x83, CHR 0xA8, CHR 0xE9, CHR 0x97, CHR 0xA8] @ ''['' @ i @ '']'' @ [CHR 0xE4,
     CHR 0xB8, CHR 0x8D, CHR 0xE5, CHR 0xAD, CHR 0x98, CHR 0xE5, CHR 0x9C, CHR 0xA8]"

text \<open>All agents are offline.\<close>

definition desc_all_offline :: "bytes \<Rightarrow> int \<Rightarrow> bytes" where
  "desc_all_offline name n_all =
     name @ '' '' @ [CHR 0xE5, CHR 0x85, CHR 0xA8, CHR 0xE9, CHR 0x83, CHR 0xA8, CHR 0xE7, CHR 0xA6,
     CHR 0xBB, CHR 0xE7, CHR 0xBA, CHR 0xBF] @ '' ('' @ [CHR 0xE6, CHR 0x80, CHR 0xBB] @ show_int
     n_all @ ''/'' @ [CHR 0xE5, CHR 0x9C, CHR 0xA8, CHR 0xE7, CHR 0xBA, CHR 0xBF] @ ''0/'' @
     [CHR 0xE7, CHR 0xA9, CHR 0xBA, CHR 0xE9, CHR 0x97, CHR 0xB2] @ ''0)''"

text \<open>All agents are busy.\<close>

definition desc_all_busy :: "bytes \<Rightarrow> int \<Rightarrow> int \<Rightarrow> int \<Rightarrow> int \<Rightarrow> bytes" where
  "desc_all_busy name n_all n_online n_talking n_busy =
     name @ '' '' @ [CHR 0xE5, CHR 0x9D, CHR 0x90, CHR 0xE5, CHR 0xB8, CHR 0xAD, CHR 0xE5, CHR 0x85,
     CHR 0xA8, CHR 0xE5, CHR 0xBF, CHR 0x99] @ '' ('' @ [CHR 0xE6, CHR 0x80, CHR 0xBB] @ show_int
     n_all @ ''/'' @ [CHR 0xE5, CHR 0x9C, CHR 0xA8, CHR 0xE7, CHR 0xBA, CHR 0xBF] @ show_int
     n_online @ ''/'' @ [CHR 0xE9, CHR 0x80, CHR 0x9A, CHR 0xE8, CHR 0xAF, CHR 0x9D] @ show_int
     n_talking @ ''/'' @ [CHR 0xE5, CHR 0xBF, CHR 0x99, CHR 0xE7, CHR 0xA2, CHR 0x8C] @ show_int
     n_busy @ '')''"

text \<open>There are idle agents.\<close>

definition desc_idle_agents :: "bytes \<Rightarrow> int \<Rightarrow> int \<Rightarrow> int \<Rightarrow> int \<Rightarrow> bytes" where
  "desc_idle_agents name n_all n_online n_idle n_talking =
     name @ '' '' @ [CHR 0xE6, CHR 0x9C, CHR 0x89, CHR 0xE7, CHR 0xA9, CHR 0xBA, CHR 0xE9, CHR 0x97,
     CHR 0xB2, CHR 0xE5, CHR 0x9D, CHR 0x90, CHR 0xE5, CHR 0xB8, CHR 0xAD] @ '' ('' @ [CHR 0xE6,
     CHR 0x80, CHR 0xBB] @ show_int n_all @ ''/'' @ [CHR 0xE5, CHR 0x9C, CHR 0xA8, CHR 0xE7,
     CHR 0xBA, CHR 0xBF] @ show_int n_online @ ''/'' @ [CHR 0xE7, CHR 0xA9, CHR 0xBA, CHR 0xE9,
     CHR 0x97, CHR 0xB2] @ show_int n_idle @ ''/'' @ [CHR 0xE9, CHR 0x80, CHR 0x9A, CHR 0xE8,
     CHR 0xAF, CHR 0x9D] @ show_int n_talking @ '')''"

text \<open>Log: the department overflows.\<close>

definition desc_overflow_log :: "bytes \<Rightarrow> bytes" where
  "desc_overflow_log name =
     [CHR 0xE9, CHR 0x83, CHR 0xA8, CHR 0xE9, CHR 0x97, CHR 0xA8] @ ''['' @ name @ '']'' @
     [CHR 0xE5, CHR 0x85, CHR 0xA8, CHR 0xE5, CHR 0xBF, CHR 0x99, CHR 0xE6, CHR 0xBA, CHR 0xA2,
     CHR 0xE5, CHR 0x87, CHR 0xBA]"

text \<open>Overflow to the service desk.\<close>

definition desc_to_support :: "bytes \<Rightarrow> bytes" where
  "desc_to_support name =
     name @ [CHR 0xE5, CHR 0x9D, CHR 0x90, CHR 0xE5, CHR 0xB8, CHR 0xAD, CHR 0xE5, CHR 0x85,
     CHR 0xA8, CHR 0xE5, CHR 0xBF, CHR 0x99, CHR 0xEF, CHR 0xBC, CHR 0x8C, CHR 0xE6, CHR 0xBA,
     CHR 0xA2, CHR 0xE5, CHR 0x87, CHR 0xBA, CHR 0xE8, CHR 0xBD, CHR 0xAC, CHR 0xE5, CHR 0x85,
     CHR 0xA5, CHR 0xE4, CHR 0xBA, CHR 0xBA, CHR 0xE5, CHR 0xB7, CHR 0xA5, CHR 0xE6, CHR 0x9C,
     CHR 0x8D, CHR 0xE5, CHR 0x8A, CHR 0xA1, CHR 0xE5, CHR 0x8F, CHR 0xB0, CHR 0xE5, CHR 0x9D,
     CHR 0x90, CHR 0xE5, CHR 0xB8, CHR 0xAD]"

text \<open>Overflow to another department.\<close>

definition desc_to_other :: "bytes \<Rightarrow> bytes \<Rightarrow> bytes" where
  "desc_to_other name other =
     name @ [CHR 0xE5, CHR 0x9D, CHR 0x90, CHR 0xE5, CHR 0xB8, CHR 0xAD, CHR 0xE5, CHR 0x85,
     CHR 0xA8, CHR 0xE5, CHR 0xBF, CHR 0x99, CHR 0xEF, CHR 0xBC, CHR 0x8C, CHR 0xE4, CHR 0xBC,
     CHR 0x98, CHR 0xE5, CHR 0x85, CHR 0x88, CHR 0xE6, CHR 0xBA, CHR 0xA2, CHR 0xE5, CHR 0x87,
     CHR 0xBA, CHR 0xE8, CHR 0x87, CHR 0xB3] @ other"

text \<open>The caller waits at a position.\<close>

definition desc_queued :: "int \<Rightarrow> int \<Rightarrow> bytes" where
  "desc_queued pos limit =
     [CHR 0xE6, CHR 0x89, CHR 0x80, CHR 0xE6, CHR 0x9C, CHR 0x89, CHR 0xE9, CHR 0x83, CHR 0xA8,
     CHR 0xE9, CHR 0x97, CHR 0xA8, CHR 0xE5, CHR 0x85, CHR 0xA8, CHR 0xE5, CHR 0xBF, CHR 0x99,
     CHR 0xEF, CHR 0xBC, CHR 0x8C, CHR 0xE5, CHR 0xB7, CHR 0xB2, CHR 0xE8, CHR 0xBF, CHR 0x9B,
     CHR 0xE5, CHR 0x85, CHR 0xA5, CHR 0xE6, CHR 0x8E, CHR 0x92, CHR 0xE9, CHR 0x98, CHR 0x9F,
     CHR 0xE9, CHR 0x98, CHR 0x9F, CHR 0xE5, CHR 0x88, CHR 0x97] @ '' ('' @ [CHR 0xE4, CHR 0xBD,
     CHR 0x8D, CHR 0xE7, CHR 0xBD, CHR 0xAE] @ '':'' @ show_int pos @ ''/'' @ show_int limit @ '')''
     @ [CHR 0xEF, CHR 0xBC, CHR 0x8C, CHR 0xE9, CHR 0xA2, CHR 0x84, CHR 0xE8, CHR 0xAE, CHR 0xA1,
     CHR 0xE7, CHR 0xAD, CHR 0x89, CHR 0xE5, CHR 0xBE, CHR 0x85] @ show_int (pos * 30) @ [CHR 0xE7,
     CHR 0xA7, CHR 0x92]"

text \<open>The queue is full, leave a message.\<close>

definition desc_queue_full :: bytes where
  "desc_queue_full =
     [CHR 0xE5, CHR 0xBD, CHR 0x93, CHR 0xE5, CHR 0x89, CHR 0x8D, CHR 0xE6, CHR 0x8E, CHR 0x92,
     CHR 0xE9, CHR 0x98, CHR 0x9F, CHR 0xE4, CHR 0xBA, CHR 0xBA, CHR 0xE6, CHR 0x95, CHR 0xB0,
     CHR 0xE5, CHR 0xB7, CHR 0xB2, CHR 0xE6, CHR 0xBB, CHR 0xA1, CHR 0xEF, CHR 0xBC, CHR 0x8C,
     CHR 0xE8, CHR 0xAF, CHR 0xB7, CHR 0xE7, CHR 0xA8, CHR 0x8D, CHR 0xE5, CHR 0x90, CHR 0x8E,
     CHR 0xE5, CHR 0x86, CHR 0x8D, CHR 0xE6, CHR 0x8B, CHR 0xA8, CHR 0xE6, CHR 0x88, CHR 0x96,
     CHR 0xE7, CHR 0x95, CHR 0x99, CHR 0xE8, CHR 0xA8, CHR 0x80, CHR 0xEF, CHR 0xBC, CHR 0x8C,
     CHR 0xE6, CHR 0x88, CHR 0x91, CHR 0xE4, CHR 0xBB, CHR 0xAC, CHR 0xE5, CHR 0xB0, CHR 0x86,
     CHR 0xE5, CHR 0xB0, CHR 0xBD, CHR 0xE5, CHR 0xBF, CHR 0xAB, CHR 0xE5, CHR 0x9B, CHR 0x9E,
     CHR 0xE7, CHR 0x94, CHR 0xB5]"

text \<open>Log: the queue is full.\<close>

definition desc_queue_full_log :: bytes where
  "desc_queue_full_log =
     [CHR 0xE6, CHR 0x8E, CHR 0x92, CHR 0xE9, CHR 0x98, CHR 0x9F, CHR 0xE5, CHR 0xB7, CHR 0xB2,
     CHR 0xE6, CHR 0xBB, CHR 0xA1]"

text \<open>Working hours, the usual routing.\<close>

definition desc_work_time :: bytes where
  "desc_work_time =
     [CHR 0xE5, CHR 0xB7, CHR 0xA5, CHR 0xE4, CHR 0xBD, CHR 0x9C, CHR 0xE6, CHR 0x97, CHR 0xA5,
     CHR 0xE6, CHR 0x97, CHR 0xB6, CHR 0xE6, CHR 0xAE, CHR 0xB5, CHR 0xEF, CHR 0xBC, CHR 0x8C,
     CHR 0xE4, CHR 0xBD, CHR 0xBF, CHR 0xE7, CHR 0x94, CHR 0xA8, CHR 0xE6, CHR 0xA0, CHR 0x87,
     CHR 0xE5, CHR 0x87, CHR 0x86, CHR 0xE8, CHR 0xB7, CHR 0xAF, CHR 0xE7, CHR 0x94, CHR 0xB1,
     CHR 0xE7, CHR 0xAD, CHR 0x96, CHR 0xE7, CHR 0x95, CHR 0xA5]"

text \<open>Night mode, to the agent on duty.\<close>

definition desc_duty_agent :: "bytes \<Rightarrow> bytes \<Rightarrow> bytes" where
  "desc_duty_agent t ext =
     t @ '' '' @ [CHR 0xE5, CHR 0xA4, CHR 0x9C, CHR 0xE9, CHR 0x97, CHR 0xB4, CHR 0xE6, CHR 0xA8,
     CHR 0xA1, CHR 0xE5, CHR 0xBC, CHR 0x8F, CHR 0xEF, CHR 0xBC, CHR 0x8C, CHR 0xE8, CHR 0xBD,
     CHR 0xAC, CHR 0xE6, CHR 0x8E, CHR 0xA5, CHR 0xE5, CHR 0x80, CHR 0xBC, CHR 0xE7, CHR 0x8F,
     CHR 0xAD, CHR 0xE4, CHR 0xBA, CHR 0xBA, CHR 0xE5, CHR 0xB7, CHR 0xA5, CHR 0xE5, CHR 0x9D,
     CHR 0x90, CHR 0xE5, CHR 0xB8, CHR 0xAD] @ ''('' @ ext @ '')''"

text \<open>Night mode, the agents on duty are busy.\<close>

definition desc_duty_busy :: "bytes \<Rightarrow> bytes" where
  "desc_duty_busy t =
     t @ '' '' @ [CHR 0xE5, CHR 0xA4, CHR 0x9C, CHR 0xE9, CHR 0x97, CHR 0xB4, CHR 0xE6, CHR 0xA8,
     CHR 0xA1, CHR 0xE5, CHR 0xBC, CHR 0x8F, CHR 0xEF, CHR 0xBC, CHR 0x8C, CHR 0xE5, CHR 0x80,
     CHR 0xBC, CHR 0xE7, CHR 0x8F, CHR 0xAD, CHR 0xE5, CHR 0x9D, CHR 0x90, CHR 0xE5, CHR 0xB8,
     CHR 0xAD, CHR 0xE5, CHR 0x85, CHR 0xA8, CHR 0xE5, CHR 0xBF, CHR 0x99, CHR 0xEF, CHR 0xBC,
     CHR 0x8C, CHR 0xE8, CHR 0xAF, CHR 0xB7, CHR 0xE7, CHR 0xA8, CHR 0x8D, CHR 0xE5, CHR 0x80,
     CHR 0x99]"

text \<open>Log: no agent on duty.\<close>

definition desc_no_duty_log :: bytes where
  "desc_no_duty_log =
     [CHR 0xE5, CHR 0xA4, CHR 0x9C, CHR 0xE9, CHR 0x97, CHR 0xB4, CHR 0xE6, CHR 0x97, CHR 0xA0,
     CHR 0xE5, CHR 0x80, CHR 0xBC, CHR 0xE7, CHR 0x8F, CHR 0xAD, CHR 0xE5, CHR 0x9D, CHR 0x90,
     CHR 0xE5, CHR 0xB8, CHR 0xAD]"

text \<open>No agent on duty, leave a message.\<close>

definition desc_no_duty :: "bytes \<Rightarrow> bytes" where
  "desc_no_duty t =
     t @ '' '' @ [CHR 0xE5, CHR 0xBD, CHR 0x93, CHR 0xE5, CHR 0x89, CHR 0x8D, CHR 0xE4, CHR 0xB8,
     CHR 0xBA, CHR 0xE9, CHR 0x9D, CHR 0x9E, CHR 0xE5, CHR 0xB7, CHR 0xA5, CHR 0xE4, CHR 0xBD,
     CHR 0x9C, CHR 0xE6, CHR 0x97, CHR 0xB6, CHR 0xE6, CHR 0xAE, CHR 0xB5, CHR 0xEF, CHR 0xBC,
     CHR 0x8C, CHR 0xE6, CHR 0x9A, CHR 0x82, CHR 0xE6, CHR 0x97, CHR 0xA0, CHR 0xE5, CHR 0x80,
     CHR 0xBC, CHR 0xE7, CHR 0x8F, CHR 0xAD, CHR 0xE5, CHR 0x9D, CHR 0x90, CHR 0xE5, CHR 0xB8,
     CHR 0xAD, CHR 0xEF, CHR 0xBC, CHR 0x8C, CHR 0xE8, CHR 0xAF, CHR 0xB7, CHR 0xE7, CHR 0x95,
     CHR 0x99, CHR 0xE8, CHR 0xA8, CHR 0x80, CHR 0xEF, CHR 0xBC, CHR 0x8C, CHR 0xE5, CHR 0xB7,
     CHR 0xA5, CHR 0xE4, CHR 0xBD, CHR 0x9C, CHR 0xE6, CHR 0x97, CHR 0xB6, CHR 0xE9, CHR 0x97,
     CHR 0xB4, CHR 0xE5, CHR 0xB0, CHR 0x86, CHR 0xE5, CHR 0xB0, CHR 0xBD, CHR 0xE5, CHR 0xBF,
     CHR 0xAB, CHR 0xE5, CHR 0x9B, CHR 0x9E, CHR 0xE5, CHR 0xA4, CHR 0x8D]"

text \<open>Too many invalid keys, to an agent.\<close>

definition desc_invalid_limit :: "int \<Rightarrow> bytes \<Rightarrow> bytes" where
  "desc_invalid_limit n key =
     [CHR 0xE8, CHR 0xBF, CHR 0x9E, CHR 0xE7, CHR 0xBB, CHR 0xAD] @ show_int n @ [CHR 0xE6,
     CHR 0xAC, CHR 0xA1, CHR 0xE6, CHR 0x97, CHR 0xA0, CHR 0xE6, CHR 0x95, CHR 0x88, CHR 0xE6,
     CHR 0x8C, CHR 0x89, CHR 0xE9, CHR 0x94, CHR 0xAE] @ ''('' @ [CHR 0xE6, CHR 0x9C, CHR 0x80,
     CHR 0xE5, CHR 0x90, CHR 0x8E] @ '':['' @ key @ ''])'' @ [CHR 0xEF, CHR 0xBC, CHR 0x8C,
     CHR 0xE8, CHR 0x87, CHR 0xAA, CHR 0xE5, CHR 0x8A, CHR 0xA8, CHR 0xE8, CHR 0xBD, CHR 0xAC,
     CHR 0xE6, CHR 0x8E, CHR 0xA5, CHR 0xE4, CHR 0xBA, CHR 0xBA, CHR 0xE5, CHR 0xB7, CHR 0xA5,
     CHR 0xE5, CHR 0x9D, CHR 0x90, CHR 0xE5, CHR 0xB8, CHR 0xAD]"

text \<open>Invalid key, choose again.\<close>

definition desc_invalid_retry :: "bytes \<Rightarrow> int \<Rightarrow> int \<Rightarrow> bytes" where
  "desc_invalid_retry key n limit =
     [CHR 0xE6, CHR 0x8C, CHR 0x89, CHR 0xE9, CHR 0x94, CHR 0xAE] @ ''['' @ key @ '']'' @ [CHR 0xE6,
     CHR 0x97, CHR 0xA0, CHR 0xE6, CHR 0x95, CHR 0x88] @ ''('' @ [CHR 0xE7, CHR 0xAC, CHR 0xAC] @
     show_int n @ ''/'' @ show_int limit @ [CHR 0xE6, CHR 0xAC, CHR 0xA1] @ '')'' @ [CHR 0xEF,
     CHR 0xBC, CHR 0x8C, CHR 0xE8, CHR 0xAF, CHR 0xB7, CHR 0xE9, CHR 0x87, CHR 0x8D, CHR 0xE6,
     CHR 0x96, CHR 0xB0, CHR 0xE9, CHR 0x80, CHR 0x89, CHR 0xE6, CHR 0x8B, CHR 0xA9, CHR 0xEF,
     CHR 0xBC, CHR 0x9A] @ ''1-'' @ [CHR 0xE9, CHR 0x94, CHR 0x80, CHR 0xE5, CHR 0x94, CHR 0xAE,
     CHR 0xE5, CHR 0x92, CHR 0xA8, CHR 0xE8, CHR 0xAF, CHR 0xA2] @ '' 2-'' @ [CHR 0xE5, CHR 0x94,
     CHR 0xAE, CHR 0xE5, CHR 0x90, CHR 0x8E, CHR 0xE6, CHR 0x9C, CHR 0x8D, CHR 0xE5, CHR 0x8A,
     CHR 0xA1] @ '' 3-'' @ [CHR 0xE5, CHR 0xB8, CHR 0x82, CHR 0xE5, CHR 0x9C, CHR 0xBA, CHR 0xE5,
     CHR 0x90, CHR 0x88, CHR 0xE4, CHR 0xBD, CHR 0x9C] @ '' 0-'' @ [CHR 0xE4, CHR 0xBA, CHR 0xBA,
     CHR 0xE5, CHR 0xB7, CHR 0xA5, CHR 0xE5, CHR 0xAE, CHR 0xA2, CHR 0xE6, CHR 0x9C, CHR 0x8D]"

text \<open>Timeout again, to an agent.\<close>

definition desc_timeout_limit :: "int \<Rightarrow> bytes" where
  "desc_timeout_limit n =
     [CHR 0xE8, CHR 0xBF, CHR 0x9E, CHR 0xE7, CHR 0xBB, CHR 0xAD] @ show_int n @ [CHR 0xE6,
     CHR 0xAC, CHR 0xA1, CHR 0xE8, CHR 0xB6, CHR 0x85, CHR 0xE6, CHR 0x97, CHR 0xB6, CHR 0xE6,
     CHR 0x97, CHR 0xA0, CHR 0xE6, CHR 0x93, CHR 0x8D, CHR 0xE4, CHR 0xBD, CHR 0x9C, CHR 0xEF,
     CHR 0xBC, CHR 0x8C, CHR 0xE8, CHR 0x87, CHR 0xAA, CHR 0xE5, CHR 0x8A, CHR 0xA8, CHR 0xE8,
     CHR 0xBD, CHR 0xAC, CHR 0xE5, CHR 0x85, CHR 0xA5, CHR 0xE4, CHR 0xBA, CHR 0xBA, CHR 0xE5,
     CHR 0xB7, CHR 0xA5, CHR 0xE5, CHR 0x9D, CHR 0x90, CHR 0xE5, CHR 0xB8, CHR 0xAD]"

text \<open>Timeout, choose again.\<close>

definition desc_timeout_retry :: "int \<Rightarrow> int \<Rightarrow> bytes" where
  "desc_timeout_retry n secs =
     [CHR 0xE8, CHR 0xB6, CHR 0x85, CHR 0xE6, CHR 0x97, CHR 0xB6, CHR 0xE6, CHR 0x9C, CHR 0xAA,
     CHR 0xE6, CHR 0x93, CHR 0x8D, CHR 0xE4, CHR 0xBD, CHR 0x9C] @ ''('' @ [CHR 0xE7, CHR 0xAC,
     CHR 0xAC] @ show_int n @ [CHR 0xE6, CHR 0xAC, CHR 0xA1] @ '')'' @ [CHR 0xEF, CHR 0xBC,
     CHR 0x8C] @ show_int secs @ [CHR 0xE7, CHR 0xA7, CHR 0x92, CHR 0xE5, CHR 0x90, CHR 0x8E,
     CHR 0xE9, CHR 0x87, CHR 0x8D, CHR 0xE8, CHR 0xAF, CHR 0x95, CHR 0xE5, CHR 0xBC, CHR 0x95,
     CHR 0xE5, CHR 0xAF, CHR 0xBC] @ ''...'' @ [CHR 0xE8, CHR 0xAF, CHR 0xB7, CHR 0xE6, CHR 0x8C,
     CHR 0x89, CHR 0xE9, CHR 0x94, CHR 0xAE, CHR 0xE9, CHR 0x80, CHR 0x89, CHR 0xE6, CHR 0x8B,
     CHR 0xA9, CHR 0xEF, CHR 0xBC, CHR 0x9A] @ ''1-'' @ [CHR 0xE9, CHR 0x94, CHR 0x80, CHR 0xE5,
     CHR 0x94, CHR 0xAE, CHR 0xE5, CHR 0x92, CHR 0xA8, CHR 0xE8, CHR 0xAF, CHR 0xA2] @ '' 2-'' @
     [CHR 0xE5, CHR 0x94, CHR 0xAE, CHR 0xE5, CHR 0x90, CHR 0x8E, CHR 0xE6, CHR 0x9C, CHR 0x8D,
     CHR 0xE5, CHR 0x8A, CHR 0xA1] @ '' 3-'' @ [CHR 0xE5, CHR 0xB8, CHR 0x82, CHR 0xE5, CHR 0x9C,
     CHR 0xBA, CHR 0xE5, CHR 0x90, CHR 0x88, CHR 0xE4, CHR 0xBD, CHR 0x9C] @ '' 0-'' @ [CHR 0xE4,
     CHR 0xBA, CHR 0xBA, CHR 0xE5, CHR 0xB7, CHR 0xA5, CHR 0xE5, CHR 0xAE, CHR 0xA2, CHR 0xE6,
     CHR 0x9C, CHR 0x8D]"

text \<open>The calling extension is not one of the company.\<close>

definition desc_bad_caller :: "bytes \<Rightarrow> bytes" where
  "desc_bad_caller caller =
     [CHR 0xE4, CHR 0xB8, CHR 0xBB, CHR 0xE5, CHR 0x8F, CHR 0xAB, CHR 0xE5, CHR 0x88, CHR 0x86,
     CHR 0xE6, CHR 0x9C, CHR 0xBA] @ ''['' @ caller @ '']'' @ [CHR 0xE6, CHR 0x97, CHR 0xA0,
     CHR 0xE6, CHR 0x95, CHR 0x88, CHR 0xEF, CHR 0xBC, CHR 0x8C, CHR 0xE4, CHR 0xB8, CHR 0x8D,
     CHR 0xE5, CHR 0x9C, CHR 0xA8, CHR 0xE4, CHR 0xBC, CHR 0x81, CHR 0xE4, CHR 0xB8, CHR 0x9A,
     CHR 0xE5, CHR 0x8F, CHR 0xB7, CHR 0xE6, CHR 0xAE, CHR 0xB5, CHR 0xE5, CHR 0x86, CHR 0x85]"

text \<open>The called number has the wrong form.\<close>

definition desc_bad_number :: "bytes \<Rightarrow> bytes" where
  "desc_bad_number callee =
     [CHR 0xE8, CHR 0xA2, CHR 0xAB, CHR 0xE5, CHR 0x8F, CHR 0xAB, CHR 0xE5, CHR 0x8F, CHR 0xB7,
     CHR 0xE7, CHR 0xA0, CHR 0x81] @ ''['' @ callee @ '']'' @ [CHR 0xE6, CHR 0xA0, CHR 0xBC,
     CHR 0xE5, CHR 0xBC, CHR 0x8F, CHR 0xE6, CHR 0x97, CHR 0xA0, CHR 0xE6, CHR 0x95, CHR 0x88]"

text \<open>The called extension is not one of the company.\<close>

definition desc_bad_callee :: "bytes \<Rightarrow> bytes" where
  "desc_bad_callee callee =
     [CHR 0xE8, CHR 0xA2, CHR 0xAB, CHR 0xE5, CHR 0x8F, CHR 0xAB, CHR 0xE5, CHR 0x88, CHR 0x86,
     CHR 0xE6, CHR 0x9C, CHR 0xBA] @ ''['' @ callee @ '']'' @ [CHR 0xE4, CHR 0xB8, CHR 0x8D,
     CHR 0xE5, CHR 0x9C, CHR 0xA8, CHR 0xE4, CHR 0xBC, CHR 0x81, CHR 0xE4, CHR 0xB8, CHR 0x9A,
     CHR 0xE5, CHR 0x8F, CHR 0xB7, CHR 0xE6, CHR 0xAE, CHR 0xB5, CHR 0xE5, CHR 0x86, CHR 0x85,
     CHR 0xEF, CHR 0xBC, CHR 0x8C, CHR 0xE8, CHR 0xBD, CHR 0xAC, CHR 0xE6, CHR 0x8E, CHR 0xA5,
     CHR 0xE4, CHR 0xBA, CHR 0xBA, CHR 0xE5, CHR 0xB7, CHR 0xA5, CHR 0xE5, CHR 0x8F, CHR 0xB0]"

text \<open>The called extension is offline.\<close>

definition desc_callee_offline :: "bytes \<Rightarrow> bytes" where
  "desc_callee_offline callee =
     [CHR 0xE8, CHR 0xA2, CHR 0xAB, CHR 0xE5, CHR 0x8F, CHR 0xAB, CHR 0xE5, CHR 0x88, CHR 0x86,
     CHR 0xE6, CHR 0x9C, CHR 0xBA] @ ''['' @ callee @ '']'' @ [CHR 0xE5, CHR 0xBD, CHR 0x93,
     CHR 0xE5, CHR 0x89, CHR 0x8D, CHR 0xE7, CHR 0xA6, CHR 0xBB, CHR 0xE7, CHR 0xBA, CHR 0xBF,
     CHR 0xEF, CHR 0xBC, CHR 0x8C, CHR 0xE8, CHR 0xAF, CHR 0xB7, CHR 0xE7, CHR 0xA8, CHR 0x8D,
     CHR 0xE5, CHR 0x90, CHR 0x8E, CHR 0xE5, CHR 0x86, CHR 0x8D, CHR 0xE6, CHR 0x8B, CHR 0xA8]"

text \<open>The called extension is talking.\<close>

definition desc_callee_talking :: "bytes \<Rightarrow> bytes" where
  "desc_callee_talking callee =
     [CHR 0xE8, CHR 0xA2, CHR 0xAB, CHR 0xE5, CHR 0x8F, CHR 0xAB, CHR 0xE5, CHR 0x88, CHR 0x86,
     CHR 0xE6, CHR 0x9C, CHR 0xBA] @ ''['' @ callee @ '']'' @ [CHR 0xE6, CHR 0xAD, CHR 0xA3,
     CHR 0xE5, CHR 0x9C, CHR 0xA8, CHR 0xE9, CHR 0x80, CHR 0x9A, CHR 0xE8, CHR 0xAF, CHR 0x9D,
     CHR 0xE4, CHR 0xB8, CHR 0xAD, CHR 0xEF, CHR 0xBC, CHR 0x8C, CHR 0xE8, CHR 0xAF, CHR 0xB7,
     CHR 0xE7, CHR 0xA8, CHR 0x8D, CHR 0xE5, CHR 0x90, CHR 0x8E, CHR 0xE5, CHR 0x86, CHR 0x8D,
     CHR 0xE6, CHR 0x8B, CHR 0xA8, CHR 0xE6, CHR 0x88, CHR 0x96, CHR 0xE7, CHR 0x95, CHR 0x99,
     CHR 0xE8, CHR 0xA8, CHR 0x80]"

text \<open>Internal call.\<close>

definition desc_internal :: "bytes \<Rightarrow> bytes \<Rightarrow> bytes \<Rightarrow> bytes \<Rightarrow> bytes" where
  "desc_internal from_name caller to_name callee =
     [CHR 0xE5, CHR 0x86, CHR 0x85, CHR 0xE9, CHR 0x83, CHR 0xA8, CHR 0xE4, CHR 0xBA, CHR 0x92,
     CHR 0xE6, CHR 0x8B, CHR 0xA8] @ '': '' @ from_name @ ''('' @ caller @ '') '' @ [CHR 0xE2,
     CHR 0x86, CHR 0x92] @ '' '' @ to_name @ ''('' @ callee @ '')''"

text \<open>No service outside working hours.\<close>

definition desc_closed :: "bytes \<Rightarrow> bytes \<Rightarrow> bytes" where
  "desc_closed t d =
     t @ '' '' @ [CHR 0xE9, CHR 0x9D, CHR 0x9E, CHR 0xE5, CHR 0xB7, CHR 0xA5, CHR 0xE4, CHR 0xBD,
     CHR 0x9C, CHR 0xE6, CHR 0x97, CHR 0xB6, CHR 0xE6, CHR 0xAE, CHR 0xB5, CHR 0xE6, CHR 0x9A,
     CHR 0x82, CHR 0xE6, CHR 0x97, CHR 0xA0, CHR 0xE4, CHR 0xBA, CHR 0xBA, CHR 0xE5, CHR 0xB7,
     CHR 0xA5, CHR 0xE6, CHR 0x9C, CHR 0x8D, CHR 0xE5, CHR 0x8A, CHR 0xA1, CHR 0xEF, CHR 0xBC,
     CHR 0x8C] @ d"

text \<open>Log: the configuration was updated.\<close>

definition desc_config_updated :: bytes where
  "desc_config_updated =
     [CHR 0xE8, CHR 0xBF, CHR 0x90, CHR 0xE8, CHR 0xA1, CHR 0x8C, CHR 0xE6, CHR 0x97, CHR 0xB6,
     CHR 0xE9, CHR 0x85, CHR 0x8D, CHR 0xE7, CHR 0xBD, CHR 0xAE, CHR 0xE5, CHR 0xB7, CHR 0xB2,
     CHR 0xE6, CHR 0x9B, CHR 0xB4, CHR 0xE6, CHR 0x96, CHR 0xB0]"

text \<open>Working hours.\<close>

definition text_working :: "int \<Rightarrow> int \<Rightarrow> bytes" where
  "text_working hour minute =
     [CHR 0xE5, CHR 0xB7, CHR 0xA5, CHR 0xE4, CHR 0xBD, CHR 0x9C, CHR 0xE6, CHR 0x97, CHR 0xA5] @
     '' '' @ show_int2 hour @ '':'' @ show_int2 minute @ '' ('' @ [CHR 0xE5, CHR 0xB7, CHR 0xA5,
     CHR 0xE4, CHR 0xBD, CHR 0x9C, CHR 0xE6, CHR 0x97, CHR 0xB6, CHR 0xE6, CHR 0xAE, CHR 0xB5] @
     '')''"

text \<open>Night or rest.\<close>

definition text_closed :: "int \<Rightarrow> int \<Rightarrow> bytes" where
  "text_closed hour minute =
     [CHR 0xE9, CHR 0x9D, CHR 0x9E, CHR 0xE5, CHR 0xB7, CHR 0xA5, CHR 0xE4, CHR 0xBD, CHR 0x9C,
     CHR 0xE6, CHR 0x97, CHR 0xA5] @ '' '' @ show_int2 hour @ '':'' @ show_int2 minute @ '' ('' @
     [CHR 0xE5, CHR 0xA4, CHR 0x9C, CHR 0xE9, CHR 0x97, CHR 0xB4] @ ''/'' @ [CHR 0xE4, CHR 0xBC,
     CHR 0x91, CHR 0xE6, CHR 0x81, CHR 0xAF, CHR 0xE6, CHR 0x97, CHR 0xB6, CHR 0xE6, CHR 0xAE,
     CHR 0xB5] @ '')''"

text \<open>The greeting.\<close>

definition ivr_prompt :: bytes where
  "ivr_prompt =
     [CHR 0xE6, CHR 0xAC, CHR 0xA2, CHR 0xE8, CHR 0xBF, CHR 0x8E, CHR 0xE8, CHR 0x87, CHR 0xB4,
     CHR 0xE7, CHR 0x94, CHR 0xB5] @ ''XX'' @ [CHR 0xE4, CHR 0xBC, CHR 0x81, CHR 0xE4, CHR 0xB8,
     CHR 0x9A, CHR 0xE6, CHR 0x9C, CHR 0x8D, CHR 0xE5, CHR 0x8A, CHR 0xA1, CHR 0xE7, CHR 0x83,
     CHR 0xAD, CHR 0xE7, CHR 0xBA, CHR 0xBF, CHR 0xEF, CHR 0xBC, CHR 0x8C, CHR 0xE6, CHR 0x8C,
     CHR 0x89, CHR 0xE9, CHR 0x94, CHR 0xAE, CHR 0xE9, CHR 0x80, CHR 0x89, CHR 0xE6, CHR 0x8B,
     CHR 0xA9, CHR 0xE5, CHR 0xAF, CHR 0xB9, CHR 0xE5, CHR 0xBA, CHR 0x94, CHR 0xE6, CHR 0x9C,
     CHR 0x8D, CHR 0xE5, CHR 0x8A, CHR 0xA1, CHR 0xEF, CHR 0xBC, CHR 0x9A] @ ''1-'' @ [CHR 0xE9,
     CHR 0x94, CHR 0x80, CHR 0xE5, CHR 0x94, CHR 0xAE, CHR 0xE5, CHR 0x92, CHR 0xA8, CHR 0xE8,
     CHR 0xAF, CHR 0xA2, CHR 0xEF, CHR 0xBC, CHR 0x8C] @ ''2-'' @ [CHR 0xE5, CHR 0x94, CHR 0xAE,
     CHR 0xE5, CHR 0x90, CHR 0x8E, CHR 0xE6, CHR 0x9C, CHR 0x8D, CHR 0xE5, CHR 0x8A, CHR 0xA1,
     CHR 0xEF, CHR 0xBC, CHR 0x8C] @ ''3-'' @ [CHR 0xE5, CHR 0xB8, CHR 0x82, CHR 0xE5, CHR 0x9C,
     CHR 0xBA, CHR 0xE5, CHR 0x90, CHR 0x88, CHR 0xE4, CHR 0xBD, CHR 0x9C, CHR 0xEF, CHR 0xBC,
     CHR 0x8C] @ ''0-'' @ [CHR 0xE4, CHR 0xBA, CHR 0xBA, CHR 0xE5, CHR 0xB7, CHR 0xA5, CHR 0xE5,
     CHR 0xAE, CHR 0xA2, CHR 0xE6, CHR 0x9C, CHR 0x8D, CHR 0xEF, CHR 0xBC, CHR 0x8C, CHR 0xE5,
     CHR 0x85, CHR 0xB6, CHR 0xE4, CHR 0xBB, CHR 0x96, CHR 0xE6, CHR 0x8C, CHR 0x89, CHR 0xE9,
     CHR 0x94, CHR 0xAE, CHR 0xE8, CHR 0xBF, CHR 0x94, CHR 0xE5, CHR 0x9B, CHR 0x9E, CHR 0xE9,
     CHR 0xA6, CHR 0x96, CHR 0xE9, CHR 0xA1, CHR 0xB5, CHR 0xEF, CHR 0xBC, CHR 0x8C, CHR 0xE5,
     CHR 0x85, CHR 0xA8, CHR 0xE5, CHR 0xA4, CHR 0xA9, CHR 0xE5, CHR 0x80, CHR 0x99, CHR 0xE4,
     CHR 0xBA, CHR 0xBA, CHR 0xE5, CHR 0xB7, CHR 0xA5, CHR 0xE6, CHR 0x9C, CHR 0x8D, CHR 0xE5,
     CHR 0x8A, CHR 0xA1, CHR 0xE4, CHR 0xB8, CHR 0xBA, CHR 0xE6, CHR 0x82, CHR 0xA8, CHR 0xE4,
     CHR 0xBF, CHR 0x9D, CHR 0xE9, CHR 0xA9, CHR 0xBE, CHR 0xE6, CHR 0x8A, CHR 0xA4, CHR 0xE8,
     CHR 0x88, CHR 0xAA, CHR 0xE3, CHR 0x80, CHR 0x82]"

end
