(* ===== verification/Db_Schema_File.thy ===== *)
theory Db_Schema_File
  imports Db_Schema Db_Seed Route_Text
begin

text \<open>
  The file \<open>sql/schema.sql\<close> as \<open>db_mysql_init_schema\<close> reads it, byte for byte: what is executed, and
  that the other parts of the program agree with it. The statements \<open>src/db_mysql.c\<close> builds fit the
  tables created here, and the departments inserted here are those of the routing script and of
  the seed data.
\<close>

section \<open>The statements\<close>

text \<open>The lines of each statement, without their line ends, which are CR LF throughout.\<close>

definition create_database :: "bytes list" where
  "create_database =
    [''CREATE DATABASE IF NOT EXISTS call_center'',
     ''    DEFAULT CHARACTER SET utf8mb4'',
     ''    DEFAULT COLLATE utf8mb4_unicode_ci;'']"

definition use_database :: "bytes list" where
  "use_database =
    [''USE call_center;'']"

definition create_departments :: "bytes list" where
  "create_departments =
    [''CREATE TABLE IF NOT EXISTS departments ('',
     ''    id              INT AUTO_INCREMENT PRIMARY KEY,'',
     ''    dept_key        VARCHAR(32)  NOT NULL UNIQUE COMMENT '' @ [CHR 0x27, CHR 0xE9, CHR 0x83, CHR 0xA8,
       CHR 0xE9, CHR 0x97, CHR 0xA8, CHR 0xE6, CHR 0xA0, CHR 0x87, CHR 0xE8, CHR 0xAF, CHR 0x86, CHR 0xE9,
       CHR 0x94, CHR 0xAE] @ '' ('' @ [CHR 0xE5, CHR 0xA6, CHR 0x82] @ '' sales, hr)'' @ [CHR 0x27] @ '','',
     ''    dept_name       VARCHAR(64)  NOT NULL COMMENT '' @ [CHR 0x27, CHR 0xE9, CHR 0x83, CHR 0xA8, CHR 0xE9,
       CHR 0x97, CHR 0xA8, CHR 0xE4, CHR 0xB8, CHR 0xAD, CHR 0xE6, CHR 0x96, CHR 0x87, CHR 0xE5, CHR 0x90,
       CHR 0x8D, CHR 0xE7, CHR 0xA7, CHR 0xB0, CHR 0x27] @ '','',
     ''    short_number    VARCHAR(8)   NOT NULL COMMENT '' @ [CHR 0x27, CHR 0xE9, CHR 0x83, CHR 0xA8, CHR 0xE9,
       CHR 0x97, CHR 0xA8, CHR 0xE6, CHR 0x80, CHR 0xBB, CHR 0xE6, CHR 0x9C, CHR 0xBA, CHR 0xE7, CHR 0x9F,
       CHR 0xAD, CHR 0xE5, CHR 0x8F, CHR 0xB7] @ '' ('' @ [CHR 0xE5, CHR 0xA6, CHR 0x82] @ '' 1000)'' @
       [CHR 0x27] @ '','',
     ''    range_start     VARCHAR(16)  NOT NULL COMMENT '' @ [CHR 0x27, CHR 0xE5, CHR 0x88, CHR 0x86, CHR 0xE6,
       CHR 0x9C, CHR 0xBA, CHR 0xE5, CHR 0x8F, CHR 0xB7, CHR 0xE6, CHR 0xAE, CHR 0xB5, CHR 0xE8, CHR 0xB5,
       CHR 0xB7, CHR 0xE5, CHR 0xA7, CHR 0x8B, CHR 0x27] @ '','',
     ''    range_end       VARCHAR(16)  NOT NULL COMMENT '' @ [CHR 0x27, CHR 0xE5, CHR 0x88, CHR 0x86, CHR 0xE6,
       CHR 0x9C, CHR 0xBA, CHR 0xE5, CHR 0x8F, CHR 0xB7, CHR 0xE6, CHR 0xAE, CHR 0xB5, CHR 0xE7, CHR 0xBB,
       CHR 0x93, CHR 0xE6, CHR 0x9D, CHR 0x9F, CHR 0x27] @ '','',
     ''    external_access TINYINT(1)   DEFAULT 0 COMMENT '' @ [CHR 0x27, CHR 0xE6, CHR 0x98, CHR 0xAF,
       CHR 0xE5, CHR 0x90, CHR 0xA6, CHR 0xE5, CHR 0x85, CHR 0x81, CHR 0xE8, CHR 0xAE, CHR 0xB8, CHR 0xE5,
       CHR 0xA4, CHR 0x96, CHR 0xE7, CHR 0xBA, CHR 0xBF, CHR 0xE5, CHR 0x91, CHR 0xBC, CHR 0xE5, CHR 0x85,
       CHR 0xA5, CHR 0x27] @ '','',
     ''    min_agents_per_shift INT     DEFAULT 1 COMMENT '' @ [CHR 0x27, CHR 0xE6, CHR 0xAF, CHR 0x8F,
       CHR 0xE7, CHR 0x8F, CHR 0xAD, CHR 0xE6, CHR 0x9C, CHR 0x80, CHR 0xE4, CHR 0xBD, CHR 0x8E, CHR 0xE5,
       CHR 0x9D, CHR 0x90, CHR 0xE5, CHR 0xB8, CHR 0xAD, CHR 0xE6, CHR 0x95, CHR 0xB0, CHR 0x27] @ '','',
     ''    created_at      TIMESTAMP    DEFAULT CURRENT_TIMESTAMP,'',
     ''    updated_at      TIMESTAMP    DEFAULT CURRENT_TIMESTAMP ON UPDATE CURRENT_TIMESTAMP,'',
     ''    INDEX idx_dept_key (dept_key)'',
     '') ENGINE=InnoDB COMMENT='' @ [CHR 0x27, CHR 0xE9, CHR 0x83, CHR 0xA8, CHR 0xE9, CHR 0x97, CHR 0xA8,
       CHR 0xE9, CHR 0x85, CHR 0x8D, CHR 0xE7, CHR 0xBD, CHR 0xAE, CHR 0xE8, CHR 0xA1, CHR 0xA8, CHR 0x27] @
       '';'']"

definition create_extensions :: "bytes list" where
  "create_extensions =
    [''CREATE TABLE IF NOT EXISTS extensions ('',
     ''    id              INT AUTO_INCREMENT PRIMARY KEY,'',
     ''    extension       VARCHAR(16)  NOT NULL UNIQUE COMMENT '' @ [CHR 0x27, CHR 0xE5, CHR 0x88, CHR 0x86,
       CHR 0xE6, CHR 0x9C, CHR 0xBA, CHR 0xE5, CHR 0x8F, CHR 0xB7] @ '' ('' @ [CHR 0xE5, CHR 0xA6, CHR 0x82] @
       '' 1001)'' @ [CHR 0x27] @ '','',
     ''    employee_name   VARCHAR(64)  NOT NULL COMMENT '' @ [CHR 0x27, CHR 0xE5, CHR 0x91, CHR 0x98, CHR 0xE5,
       CHR 0xB7, CHR 0xA5, CHR 0xE5, CHR 0xA7, CHR 0x93, CHR 0xE5, CHR 0x90, CHR 0x8D, CHR 0x27] @ '','',
     ''    department_id   INT          NOT NULL COMMENT '' @ [CHR 0x27, CHR 0xE6, CHR 0x89, CHR 0x80, CHR 0xE5,
       CHR 0xB1, CHR 0x9E, CHR 0xE9, CHR 0x83, CHR 0xA8, CHR 0xE9, CHR 0x97, CHR 0xA8] @ ''ID'' @ [CHR 0x27] @
       '','',
     ''    is_active       TINYINT(1)   DEFAULT 1 COMMENT '' @ [CHR 0x27, CHR 0xE5, CHR 0x88, CHR 0x86,
       CHR 0xE6, CHR 0x9C, CHR 0xBA, CHR 0xE6, CHR 0x98, CHR 0xAF, CHR 0xE5, CHR 0x90, CHR 0xA6, CHR 0xE5,
       CHR 0x90, CHR 0xAF, CHR 0xE7, CHR 0x94, CHR 0xA8, CHR 0x27] @ '','',
     ''    created_at      TIMESTAMP    DEFAULT CURRENT_TIMESTAMP,'',
     ''    updated_at      TIMESTAMP    DEFAULT CURRENT_TIMESTAMP ON UPDATE CURRENT_TIMESTAMP,'',
     ''    INDEX idx_department (department_id),'',
     ''    INDEX idx_extension (extension),'',
     ''    FOREIGN KEY (department_id) REFERENCES departments(id) ON DELETE CASCADE'',
     '') ENGINE=InnoDB COMMENT='' @ [CHR 0x27, CHR 0xE5, CHR 0x91, CHR 0x98, CHR 0xE5, CHR 0xB7, CHR 0xA5,
       CHR 0xE5, CHR 0x88, CHR 0x86, CHR 0xE6, CHR 0x9C, CHR 0xBA, CHR 0xE4, CHR 0xBF, CHR 0xA1, CHR 0xE6,
       CHR 0x81, CHR 0xAF, CHR 0xE8, CHR 0xA1, CHR 0xA8, CHR 0x27] @ '';'']"

definition create_agents :: "bytes list" where
  "create_agents =
    [''CREATE TABLE IF NOT EXISTS agents ('',
     ''    id              INT AUTO_INCREMENT PRIMARY KEY,'',
     ''    extension       VARCHAR(16)  NOT NULL UNIQUE COMMENT '' @ [CHR 0x27, CHR 0xE5, CHR 0x9D, CHR 0x90,
       CHR 0xE5, CHR 0xB8, CHR 0xAD, CHR 0xE5, CHR 0x88, CHR 0x86, CHR 0xE6, CHR 0x9C, CHR 0xBA, CHR 0xE5,
       CHR 0x8F, CHR 0xB7, CHR 0x27] @ '','',
     ''    department_id   INT          NOT NULL COMMENT '' @ [CHR 0x27, CHR 0xE6, CHR 0x89, CHR 0x80, CHR 0xE5,
       CHR 0xB1, CHR 0x9E, CHR 0xE9, CHR 0x83, CHR 0xA8, CHR 0xE9, CHR 0x97, CHR 0xA8] @ ''ID'' @ [CHR 0x27] @
       '','',
     ''    is_online       TINYINT(1)   DEFAULT 0 COMMENT '' @ [CHR 0x27, CHR 0xE5, CHR 0x9C, CHR 0xA8,
       CHR 0xE7, CHR 0xBA, CHR 0xBF, CHR 0xE7, CHR 0x8A, CHR 0xB6, CHR 0xE6, CHR 0x80, CHR 0x81] @ '' (1='' @
       [CHR 0xE5, CHR 0x9C, CHR 0xA8, CHR 0xE7, CHR 0xBA, CHR 0xBF] @ '' 0='' @ [CHR 0xE7, CHR 0xA6, CHR 0xBB,
       CHR 0xE7, CHR 0xBA, CHR 0xBF] @ '')'' @ [CHR 0x27] @ '','',
     ''    status          ENUM('' @ [CHR 0x27] @ ''idle'' @ [CHR 0x27] @ '','' @ [CHR 0x27] @ ''busy'' @
       [CHR 0x27] @ '','' @ [CHR 0x27] @ ''ringing'' @ [CHR 0x27] @ '','' @ [CHR 0x27] @ ''hold'' @ [CHR 0x27] @
       '','' @ [CHR 0x27] @ ''offline'' @ [CHR 0x27] @ '')'',
     ''                                  DEFAULT '' @ [CHR 0x27] @ ''offline'' @ [CHR 0x27] @ '' COMMENT '' @
       [CHR 0x27, CHR 0xE5, CHR 0xBD, CHR 0x93, CHR 0xE5, CHR 0x89, CHR 0x8D, CHR 0xE5, CHR 0xB7, CHR 0xA5,
       CHR 0xE4, CHR 0xBD, CHR 0x9C, CHR 0xE7, CHR 0x8A, CHR 0xB6, CHR 0xE6, CHR 0x80, CHR 0x81, CHR 0x27] @
       '','',
     ''    concurrent_calls INT         DEFAULT 0 COMMENT '' @ [CHR 0x27, CHR 0xE5, CHR 0xBD, CHR 0x93,
       CHR 0xE5, CHR 0x89, CHR 0x8D, CHR 0xE5, CHR 0xB9, CHR 0xB6, CHR 0xE5, CHR 0x8F, CHR 0x91, CHR 0xE9,
       CHR 0x80, CHR 0x9A, CHR 0xE8, CHR 0xAF, CHR 0x9D, CHR 0xE6, CHR 0x95, CHR 0xB0, CHR 0x27] @ '','',
     ''    last_active     TIMESTAMP    NULL COMMENT '' @ [CHR 0x27, CHR 0xE6, CHR 0x9C, CHR 0x80, CHR 0xE5,
       CHR 0x90, CHR 0x8E, CHR 0xE6, CHR 0xB4, CHR 0xBB, CHR 0xE8, CHR 0xB7, CHR 0x83, CHR 0xE6, CHR 0x97,
       CHR 0xB6, CHR 0xE9, CHR 0x97, CHR 0xB4, CHR 0x27] @ '','',
     ''    shift           VARCHAR(8)   DEFAULT NULL COMMENT '' @ [CHR 0x27, CHR 0xE5, CHR 0x80, CHR 0xBC,
       CHR 0xE7, CHR 0x8F, CHR 0xAD, CHR 0xE7, CHR 0x8F, CHR 0xAD, CHR 0xE6, CHR 0xAC, CHR 0xA1] @ '' (A/B/C)''
       @ [CHR 0x27] @ '','',
     ''    created_at      TIMESTAMP    DEFAULT CURRENT_TIMESTAMP,'',
     ''    updated_at      TIMESTAMP    DEFAULT CURRENT_TIMESTAMP ON UPDATE CURRENT_TIMESTAMP,'',
     ''    INDEX idx_department (department_id),'',
     ''    INDEX idx_status (status),'',
     ''    INDEX idx_extension (extension),'',
     ''    FOREIGN KEY (department_id) REFERENCES departments(id) ON DELETE CASCADE'',
     '') ENGINE=InnoDB COMMENT='' @ [CHR 0x27, CHR 0xE5, CHR 0x9D, CHR 0x90, CHR 0xE5, CHR 0xB8, CHR 0xAD,
       CHR 0xE4, CHR 0xBF, CHR 0xA1, CHR 0xE6, CHR 0x81, CHR 0xAF, CHR 0xE8, CHR 0xA1, CHR 0xA8, CHR 0x27] @
       '';'']"

definition create_call_records :: "bytes list" where
  "create_call_records =
    [''CREATE TABLE IF NOT EXISTS call_records ('',
     ''    id              BIGINT AUTO_INCREMENT PRIMARY KEY,'',
     ''    call_id         VARCHAR(256) NOT NULL COMMENT '' @ [CHR 0x27] @ ''SIP Call-ID'' @ [CHR 0x27] @ '','',
     ''    caller_number   VARCHAR(16)  NOT NULL COMMENT '' @ [CHR 0x27, CHR 0xE4, CHR 0xB8, CHR 0xBB, CHR 0xE5,
       CHR 0x8F, CHR 0xAB, CHR 0xE5, CHR 0x8F, CHR 0xB7, CHR 0xE7, CHR 0xA0, CHR 0x81, CHR 0x27] @ '','',
     ''    callee_number   VARCHAR(16)  NOT NULL COMMENT '' @ [CHR 0x27, CHR 0xE8, CHR 0xA2, CHR 0xAB, CHR 0xE5,
       CHR 0x8F, CHR 0xAB, CHR 0xE5, CHR 0x8F, CHR 0xB7, CHR 0xE7, CHR 0xA0, CHR 0x81, CHR 0x27] @ '','',
     ''    direction       ENUM('' @ [CHR 0x27] @ ''inbound'' @ [CHR 0x27] @ '','' @ [CHR 0x27] @ ''outbound'' @
       [CHR 0x27] @ '','' @ [CHR 0x27] @ ''internal'' @ [CHR 0x27] @ '')'',
     ''                                  NOT NULL COMMENT '' @ [CHR 0x27, CHR 0xE9, CHR 0x80, CHR 0x9A,
       CHR 0xE8, CHR 0xAF, CHR 0x9D, CHR 0xE6, CHR 0x96, CHR 0xB9, CHR 0xE5, CHR 0x90, CHR 0x91, CHR 0x27] @
       '','',
     ''    department      VARCHAR(64)  DEFAULT NULL COMMENT '' @ [CHR 0x27, CHR 0xE5, CHR 0xBD, CHR 0x92,
       CHR 0xE5, CHR 0xB1, CHR 0x9E, CHR 0xE9, CHR 0x83, CHR 0xA8, CHR 0xE9, CHR 0x97, CHR 0xA8, CHR 0x27] @
       '','',
     ''    start_time      DATETIME     NOT NULL COMMENT '' @ [CHR 0x27, CHR 0xE9, CHR 0x80, CHR 0x9A, CHR 0xE8,
       CHR 0xAF, CHR 0x9D, CHR 0xE5, CHR 0x8F, CHR 0x91, CHR 0xE8, CHR 0xB5, CHR 0xB7, CHR 0xE6, CHR 0x97,
       CHR 0xB6, CHR 0xE9, CHR 0x97, CHR 0xB4, CHR 0x27] @ '','',
     ''    answer_time     DATETIME     DEFAULT NULL COMMENT '' @ [CHR 0x27, CHR 0xE6, CHR 0x8E, CHR 0xA5,
       CHR 0xE5, CHR 0x90, CHR 0xAC, CHR 0xE6, CHR 0x97, CHR 0xB6, CHR 0xE9, CHR 0x97, CHR 0xB4, CHR 0x27] @
       '','',
     ''    end_time        DATETIME     DEFAULT NULL COMMENT '' @ [CHR 0x27, CHR 0xE6, CHR 0x8C, CHR 0x82,
       CHR 0xE6, CHR 0x96, CHR 0xAD, CHR 0xE6, CHR 0x97, CHR 0xB6, CHR 0xE9, CHR 0x97, CHR 0xB4, CHR 0x27] @
       '','',
     ''    duration        INT          DEFAULT 0 COMMENT '' @ [CHR 0x27, CHR 0xE9, CHR 0x80, CHR 0x9A,
       CHR 0xE8, CHR 0xAF, CHR 0x9D, CHR 0xE6, CHR 0x97, CHR 0xB6, CHR 0xE9, CHR 0x95, CHR 0xBF] @ ''('' @
       [CHR 0xE7, CHR 0xA7, CHR 0x92] @ '')'' @ [CHR 0x27] @ '','',
     ''    result_code     INT          DEFAULT 0 COMMENT '' @ [CHR 0x27, CHR 0xE8, CHR 0xB7, CHR 0xAF,
       CHR 0xE7, CHR 0x94, CHR 0xB1, CHR 0xE7, CHR 0xBB, CHR 0x93, CHR 0xE6, CHR 0x9E, CHR 0x9C, CHR 0xE7,
       CHR 0xA0, CHR 0x81, CHR 0x27] @ '','',
     ''    result_desc     VARCHAR(128) DEFAULT NULL COMMENT '' @ [CHR 0x27, CHR 0xE7, CHR 0xBB, CHR 0x93,
       CHR 0xE6, CHR 0x9E, CHR 0x9C, CHR 0xE6, CHR 0x8F, CHR 0x8F, CHR 0xE8, CHR 0xBF, CHR 0xB0, CHR 0x27] @
       '','',
     ''    sip_status      INT          DEFAULT 0 COMMENT '' @ [CHR 0x27] @ ''SIP'' @ [CHR 0xE6, CHR 0x9C,
       CHR 0x80, CHR 0xE7, CHR 0xBB, CHR 0x88, CHR 0xE7, CHR 0x8A, CHR 0xB6, CHR 0xE6, CHR 0x80, CHR 0x81,
       CHR 0xE7, CHR 0xA0, CHR 0x81, CHR 0x27] @ '','',
     ''    created_at      TIMESTAMP    DEFAULT CURRENT_TIMESTAMP,'',
     ''    INDEX idx_call_id (call_id),'',
     ''    INDEX idx_caller (caller_number),'',
     ''    INDEX idx_callee (callee_number),'',
     ''    INDEX idx_start_time (start_time),'',
     ''    INDEX idx_department (department),'',
     ''    INDEX idx_direction (direction)'',
     '') ENGINE=InnoDB COMMENT='' @ [CHR 0x27, CHR 0xE9, CHR 0x80, CHR 0x9A, CHR 0xE8, CHR 0xAF, CHR 0x9D,
       CHR 0xE8, CHR 0xAE, CHR 0xB0, CHR 0xE5, CHR 0xBD, CHR 0x95, CHR 0xE8, CHR 0xA1, CHR 0xA8, CHR 0x27] @
       '';'']"

definition create_call_logs :: "bytes list" where
  "create_call_logs =
    [''CREATE TABLE IF NOT EXISTS call_logs ('',
     ''    id              BIGINT AUTO_INCREMENT PRIMARY KEY,'',
     ''    call_id         VARCHAR(256) DEFAULT NULL COMMENT '' @ [CHR 0x27, CHR 0xE5, CHR 0x85, CHR 0xB3,
       CHR 0xE8, CHR 0x81, CHR 0x94] @ ''Call-ID'' @ [CHR 0x27] @ '','',
     ''    log_level       ENUM('' @ [CHR 0x27] @ ''DEBUG'' @ [CHR 0x27] @ '','' @ [CHR 0x27] @ ''INFO'' @
       [CHR 0x27] @ '','' @ [CHR 0x27] @ ''WARN'' @ [CHR 0x27] @ '','' @ [CHR 0x27] @ ''ERROR'' @ [CHR 0x27] @
       '')'',
     ''                                  DEFAULT '' @ [CHR 0x27] @ ''INFO'' @ [CHR 0x27] @ '' COMMENT '' @
       [CHR 0x27, CHR 0xE6, CHR 0x97, CHR 0xA5, CHR 0xE5, CHR 0xBF, CHR 0x97, CHR 0xE7, CHR 0xBA, CHR 0xA7,
       CHR 0xE5, CHR 0x88, CHR 0xAB, CHR 0x27] @ '','',
     ''    event_type      VARCHAR(64)  NOT NULL COMMENT '' @ [CHR 0x27, CHR 0xE4, CHR 0xBA, CHR 0x8B, CHR 0xE4,
       CHR 0xBB, CHR 0xB6, CHR 0xE7, CHR 0xB1, CHR 0xBB, CHR 0xE5, CHR 0x9E, CHR 0x8B] @ '' ('' @ [CHR 0xE5,
       CHR 0xA6, CHR 0x82] @ '' ROUTE_START/ROUTE_END)'' @ [CHR 0x27] @ '','',
     ''    message         TEXT         DEFAULT NULL COMMENT '' @ [CHR 0x27, CHR 0xE6, CHR 0x97, CHR 0xA5,
       CHR 0xE5, CHR 0xBF, CHR 0x97, CHR 0xE5, CHR 0x86, CHR 0x85, CHR 0xE5, CHR 0xAE, CHR 0xB9, CHR 0x27] @
       '','',
     ''    caller_number   VARCHAR(16)  DEFAULT NULL COMMENT '' @ [CHR 0x27, CHR 0xE4, CHR 0xB8, CHR 0xBB,
       CHR 0xE5, CHR 0x8F, CHR 0xAB, CHR 0xE5, CHR 0x8F, CHR 0xB7, CHR 0xE7, CHR 0xA0, CHR 0x81, CHR 0x27] @
       '','',
     ''    callee_number   VARCHAR(16)  DEFAULT NULL COMMENT '' @ [CHR 0x27, CHR 0xE8, CHR 0xA2, CHR 0xAB,
       CHR 0xE5, CHR 0x8F, CHR 0xAB, CHR 0xE5, CHR 0x8F, CHR 0xB7, CHR 0xE7, CHR 0xA0, CHR 0x81, CHR 0x27] @
       '','',
     ''    department      VARCHAR(64)  DEFAULT NULL COMMENT '' @ [CHR 0x27, CHR 0xE5, CHR 0xBD, CHR 0x92,
       CHR 0xE5, CHR 0xB1, CHR 0x9E, CHR 0xE9, CHR 0x83, CHR 0xA8, CHR 0xE9, CHR 0x97, CHR 0xA8, CHR 0x27] @
       '','',
     ''    created_at      TIMESTAMP    DEFAULT CURRENT_TIMESTAMP,'',
     ''    INDEX idx_call_id (call_id),'',
     ''    INDEX idx_created (created_at),'',
     ''    INDEX idx_event_type (event_type)'',
     '') ENGINE=InnoDB COMMENT='' @ [CHR 0x27, CHR 0xE5, CHR 0x91, CHR 0xBC, CHR 0xE5, CHR 0x8F, CHR 0xAB,
       CHR 0xE6, CHR 0x97, CHR 0xA5, CHR 0xE5, CHR 0xBF, CHR 0x97, CHR 0xE8, CHR 0xA1, CHR 0xA8, CHR 0x27] @
       '';'']"

definition create_voicemails :: "bytes list" where
  "create_voicemails =
    [''CREATE TABLE IF NOT EXISTS voicemails ('',
     ''    id              BIGINT AUTO_INCREMENT PRIMARY KEY,'',
     ''    caller_number   VARCHAR(16)  NOT NULL COMMENT '' @ [CHR 0x27, CHR 0xE4, CHR 0xB8, CHR 0xBB, CHR 0xE5,
       CHR 0x8F, CHR 0xAB, CHR 0xE5, CHR 0x8F, CHR 0xB7, CHR 0xE7, CHR 0xA0, CHR 0x81, CHR 0x27] @ '','',
     ''    department      VARCHAR(64)  DEFAULT NULL COMMENT '' @ [CHR 0x27, CHR 0xE7, CHR 0x9B, CHR 0xAE,
       CHR 0xE6, CHR 0xA0, CHR 0x87, CHR 0xE9, CHR 0x83, CHR 0xA8, CHR 0xE9, CHR 0x97, CHR 0xA8, CHR 0x27] @
       '','',
     ''    message_text    TEXT         DEFAULT NULL COMMENT '' @ [CHR 0x27, CHR 0xE7, CHR 0x95, CHR 0x99,
       CHR 0xE8, CHR 0xA8, CHR 0x80, CHR 0xE6, CHR 0x96, CHR 0x87, CHR 0xE6, CHR 0x9C, CHR 0xAC] @ ''('' @
       [CHR 0xE8, CHR 0xAF, CHR 0xAD, CHR 0xE9, CHR 0x9F, CHR 0xB3, CHR 0xE8, CHR 0xBD, CHR 0xAC, CHR 0xE5,
       CHR 0x86, CHR 0x99] @ '')'' @ [CHR 0x27] @ '','',
     ''    file_path       VARCHAR(512) DEFAULT NULL COMMENT '' @ [CHR 0x27, CHR 0xE8, CHR 0xAF, CHR 0xAD,
       CHR 0xE9, CHR 0x9F, CHR 0xB3, CHR 0xE6, CHR 0x96, CHR 0x87, CHR 0xE4, CHR 0xBB, CHR 0xB6, CHR 0xE8,
       CHR 0xB7, CHR 0xAF, CHR 0xE5, CHR 0xBE, CHR 0x84, CHR 0x27] @ '','',
     ''    duration        INT          DEFAULT 0 COMMENT '' @ [CHR 0x27, CHR 0xE8, CHR 0xAF, CHR 0xAD,
       CHR 0xE9, CHR 0x9F, CHR 0xB3, CHR 0xE6, CHR 0x97, CHR 0xB6, CHR 0xE9, CHR 0x95, CHR 0xBF] @ ''('' @
       [CHR 0xE7, CHR 0xA7, CHR 0x92] @ '')'' @ [CHR 0x27] @ '','',
     ''    is_read         TINYINT(1)   DEFAULT 0 COMMENT '' @ [CHR 0x27, CHR 0xE6, CHR 0x98, CHR 0xAF,
       CHR 0xE5, CHR 0x90, CHR 0xA6, CHR 0xE5, CHR 0xB7, CHR 0xB2, CHR 0xE8, CHR 0xAF, CHR 0xBB, CHR 0x27] @
       '','',
     ''    created_at      TIMESTAMP    DEFAULT CURRENT_TIMESTAMP,'',
     ''    INDEX idx_caller (caller_number),'',
     ''    INDEX idx_created (created_at),'',
     ''    INDEX idx_is_read (is_read)'',
     '') ENGINE=InnoDB COMMENT='' @ [CHR 0x27, CHR 0xE7, CHR 0x94, CHR 0xA8, CHR 0xE6, CHR 0x88, CHR 0xB7,
       CHR 0xE7, CHR 0x95, CHR 0x99, CHR 0xE8, CHR 0xA8, CHR 0x80, CHR 0xE8, CHR 0xA1, CHR 0xA8, CHR 0x27] @
       '';'']"

definition insert_departments :: "bytes list" where
  "insert_departments =
    [''INSERT INTO departments (dept_key, dept_name, short_number, range_start, range_end, external_access) VALUES'',
     ''    ('' @ [CHR 0x27] @ ''hr'' @ [CHR 0x27] @ '',         '' @ [CHR 0x27, CHR 0xE4, CHR 0xBA, CHR 0xBA,
       CHR 0xE4, CHR 0xBA, CHR 0x8B, CHR 0xE9, CHR 0x83, CHR 0xA8, CHR 0x27] @ '',     '' @ [CHR 0x27] @
       ''1000'' @ [CHR 0x27] @ '', '' @ [CHR 0x27] @ ''1001'' @ [CHR 0x27] @ '', '' @ [CHR 0x27] @ ''1050'' @
       [CHR 0x27] @ '', 0),'',
     ''    ('' @ [CHR 0x27] @ ''finance'' @ [CHR 0x27] @ '',    '' @ [CHR 0x27, CHR 0xE8, CHR 0xB4, CHR 0xA2,
       CHR 0xE5, CHR 0x8A, CHR 0xA1, CHR 0xE9, CHR 0x83, CHR 0xA8, CHR 0x27] @ '',     '' @ [CHR 0x27] @
       ''1100'' @ [CHR 0x27] @ '', '' @ [CHR 0x27] @ ''1101'' @ [CHR 0x27] @ '', '' @ [CHR 0x27] @ ''1150'' @
       [CHR 0x27] @ '', 0),'',
     ''    ('' @ [CHR 0x27] @ ''admin'' @ [CHR 0x27] @ '',      '' @ [CHR 0x27, CHR 0xE8, CHR 0xA1, CHR 0x8C,
       CHR 0xE6, CHR 0x94, CHR 0xBF, CHR 0xE9, CHR 0x83, CHR 0xA8, CHR 0x27] @ '',     '' @ [CHR 0x27] @
       ''1200'' @ [CHR 0x27] @ '', '' @ [CHR 0x27] @ ''1201'' @ [CHR 0x27] @ '', '' @ [CHR 0x27] @ ''1250'' @
       [CHR 0x27] @ '', 0),'',
     ''    ('' @ [CHR 0x27] @ ''management'' @ [CHR 0x27] @ '', '' @ [CHR 0x27, CHR 0xE7, CHR 0xAE, CHR 0xA1,
       CHR 0xE7, CHR 0x90, CHR 0x86, CHR 0xE5, CHR 0xB1, CHR 0x82, CHR 0x27] @ '',     '' @ [CHR 0x27] @
       ''1300'' @ [CHR 0x27] @ '', '' @ [CHR 0x27] @ ''1301'' @ [CHR 0x27] @ '', '' @ [CHR 0x27] @ ''1330'' @
       [CHR 0x27] @ '', 0),'',
     ''    ('' @ [CHR 0x27] @ ''sales'' @ [CHR 0x27] @ '',      '' @ [CHR 0x27, CHR 0xE9, CHR 0x94, CHR 0x80,
       CHR 0xE5, CHR 0x94, CHR 0xAE, CHR 0xE9, CHR 0x83, CHR 0xA8, CHR 0x27] @ '',     '' @ [CHR 0x27] @
       ''2000'' @ [CHR 0x27] @ '', '' @ [CHR 0x27] @ ''2001'' @ [CHR 0x27] @ '', '' @ [CHR 0x27] @ ''2400'' @
       [CHR 0x27] @ '', 1),'',
     ''    ('' @ [CHR 0x27] @ ''service'' @ [CHR 0x27] @ '',    '' @ [CHR 0x27, CHR 0xE5, CHR 0x94, CHR 0xAE,
       CHR 0xE5, CHR 0x90, CHR 0x8E, CHR 0xE6, CHR 0x9C, CHR 0x8D, CHR 0xE5, CHR 0x8A, CHR 0xA1, CHR 0xE9,
       CHR 0x83, CHR 0xA8, CHR 0x27] @ '', '' @ [CHR 0x27] @ ''2500'' @ [CHR 0x27] @ '', '' @ [CHR 0x27] @
       ''2501'' @ [CHR 0x27] @ '', '' @ [CHR 0x27] @ ''2800'' @ [CHR 0x27] @ '', 1),'',
     ''    ('' @ [CHR 0x27] @ ''market'' @ [CHR 0x27] @ '',     '' @ [CHR 0x27, CHR 0xE5, CHR 0xB8, CHR 0x82,
       CHR 0xE5, CHR 0x9C, CHR 0xBA, CHR 0xE9, CHR 0x83, CHR 0xA8, CHR 0x27] @ '',     '' @ [CHR 0x27] @
       ''2900'' @ [CHR 0x27] @ '', '' @ [CHR 0x27] @ ''2901'' @ [CHR 0x27] @ '', '' @ [CHR 0x27] @ ''2980'' @
       [CHR 0x27] @ '', 1),'',
     ''    ('' @ [CHR 0x27] @ ''rnd'' @ [CHR 0x27] @ '',        '' @ [CHR 0x27, CHR 0xE7, CHR 0xA0, CHR 0x94,
       CHR 0xE5, CHR 0x8F, CHR 0x91, CHR 0xE9, CHR 0x83, CHR 0xA8, CHR 0x27] @ '',     '' @ [CHR 0x27] @
       ''3000'' @ [CHR 0x27] @ '', '' @ [CHR 0x27] @ ''3001'' @ [CHR 0x27] @ '', '' @ [CHR 0x27] @ ''3200'' @
       [CHR 0x27] @ '', 0),'',
     ''    ('' @ [CHR 0x27] @ ''support'' @ [CHR 0x27] @ '',    '' @ [CHR 0x27, CHR 0xE4, CHR 0xBA, CHR 0xBA,
       CHR 0xE5, CHR 0xB7, CHR 0xA5, CHR 0xE6, CHR 0x9C, CHR 0x8D, CHR 0xE5, CHR 0x8A, CHR 0xA1, CHR 0xE5,
       CHR 0x8F, CHR 0xB0, CHR 0x27] @ '', '' @ [CHR 0x27] @ ''9000'' @ [CHR 0x27] @ '', '' @ [CHR 0x27] @
       ''9001'' @ [CHR 0x27] @ '', '' @ [CHR 0x27] @ ''9050'' @ [CHR 0x27] @ '', 1);'']"


section \<open>The file\<close>

definition noise_line :: "bytes \<Rightarrow> schema_item" where
  "noise_line l = Noise (l @ [cr])"

definition one_statement :: "bytes list \<Rightarrow> schema_item" where
  "one_statement ls = Statement (map (\<lambda>l. l @ [cr]) (butlast ls)) (last ls @ [cr])"

definition schema_statements :: "bytes list list" where
  "schema_statements = [create_database, use_database, create_departments, create_extensions, create_agents,
     create_call_records, create_call_logs, create_voicemails, insert_departments]"

definition schema_items :: "schema_item list" where
  "schema_items =
    [noise_line (''-- ============================================================''),
     noise_line (''--  Call Center SIP System - MySQL Database Schema''),
     noise_line (''--  Version: 1.0.0''),
     noise_line (''--  '' @ [CHR 0xE4, CHR 0xBC, CHR 0x81, CHR 0xE4, CHR 0xB8, CHR 0x9A, CHR 0xE5, CHR 0x91, CHR 0xBC,
         CHR 0xE5, CHR 0x8F, CHR 0xAB, CHR 0xE4, CHR 0xB8, CHR 0xAD, CHR 0xE5, CHR 0xBF, CHR 0x83, CHR 0xE4,
         CHR 0xB8, CHR 0x93, CHR 0xE5, CHR 0xB1, CHR 0x9E, CHR 0xE6, CHR 0x95, CHR 0xB0, CHR 0xE6, CHR 0x8D,
         CHR 0xAE, CHR 0xE5, CHR 0xBA, CHR 0x93, CHR 0xE7, CHR 0xBB, CHR 0x93, CHR 0xE6, CHR 0x9E, CHR 0x84,
         CHR 0xE8, CHR 0xAE, CHR 0xBE, CHR 0xE8, CHR 0xAE, CHR 0xA1]),
     noise_line (''-- ============================================================''),
     noise_line [],
     one_statement create_database,
     noise_line [],
     one_statement use_database,
     noise_line [],
     noise_line (''-- ============================================================''),
     noise_line (''--  1. departments '' @ [CHR 0xE2, CHR 0x80, CHR 0x94] @ '' '' @ [CHR 0xE9, CHR 0x83, CHR 0xA8,
         CHR 0xE9, CHR 0x97, CHR 0xA8, CHR 0xE9, CHR 0x85, CHR 0x8D, CHR 0xE7, CHR 0xBD, CHR 0xAE, CHR 0xE8,
         CHR 0xA1, CHR 0xA8]),
     noise_line (''--  '' @ [CHR 0xE5, CHR 0xAD, CHR 0x98, CHR 0xE5, CHR 0x82, CHR 0xA8, CHR 0xE4, CHR 0xBC, CHR 0x81,
         CHR 0xE4, CHR 0xB8, CHR 0x9A, CHR 0xE7, CHR 0xBB, CHR 0x84, CHR 0xE7, CHR 0xBB, CHR 0x87, CHR 0xE6,
         CHR 0x9E, CHR 0xB6, CHR 0xE6, CHR 0x9E, CHR 0x84, CHR 0xEF, CHR 0xBC, CHR 0x8C, CHR 0xE5, CHR 0xAF,
         CHR 0xB9, CHR 0xE5, CHR 0xBA, CHR 0x94] @ '' conf/sip_server.conf '' @ [CHR 0xE9, CHR 0x83, CHR 0xA8,
         CHR 0xE9, CHR 0x97, CHR 0xA8, CHR 0xE9, CHR 0x85, CHR 0x8D, CHR 0xE7, CHR 0xBD, CHR 0xAE, CHR 0xE6,
         CHR 0xAE, CHR 0xB5]),
     noise_line (''-- ============================================================''),
     one_statement create_departments,
     noise_line [],
     noise_line (''-- ============================================================''),
     noise_line (''--  2. extensions '' @ [CHR 0xE2, CHR 0x80, CHR 0x94] @ '' '' @ [CHR 0xE5, CHR 0x91, CHR 0x98,
         CHR 0xE5, CHR 0xB7, CHR 0xA5, CHR 0xE5, CHR 0x88, CHR 0x86, CHR 0xE6, CHR 0x9C, CHR 0xBA, CHR 0xE4,
         CHR 0xBF, CHR 0xA1, CHR 0xE6, CHR 0x81, CHR 0xAF, CHR 0xE8, CHR 0xA1, CHR 0xA8]),
     noise_line (''--  '' @ [CHR 0xE8, CHR 0xAE, CHR 0xB0, CHR 0xE5, CHR 0xBD, CHR 0x95, CHR 0xE6, CHR 0xAF, CHR 0x8F,
         CHR 0xE4, CHR 0xBD, CHR 0x8D, CHR 0xE5, CHR 0x91, CHR 0x98, CHR 0xE5, CHR 0xB7, CHR 0xA5, CHR 0xE7,
         CHR 0x9A, CHR 0x84, CHR 0xE5, CHR 0x88, CHR 0x86, CHR 0xE6, CHR 0x9C, CHR 0xBA, CHR 0xE5, CHR 0x8F,
         CHR 0xB7, CHR 0xE3, CHR 0x80, CHR 0x81, CHR 0xE5, CHR 0xA7, CHR 0x93, CHR 0xE5, CHR 0x90, CHR 0x8D,
         CHR 0xE3, CHR 0x80, CHR 0x81, CHR 0xE5, CHR 0xBD, CHR 0x92, CHR 0xE5, CHR 0xB1, CHR 0x9E, CHR 0xE9,
         CHR 0x83, CHR 0xA8, CHR 0xE9, CHR 0x97, CHR 0xA8]),
     noise_line (''-- ============================================================''),
     one_statement create_extensions,
     noise_line [],
     noise_line (''-- ============================================================''),
     noise_line (''--  3. agents '' @ [CHR 0xE2, CHR 0x80, CHR 0x94] @ '' '' @ [CHR 0xE5, CHR 0x9D, CHR 0x90, CHR 0xE5,
         CHR 0xB8, CHR 0xAD, CHR 0xE4, CHR 0xBF, CHR 0xA1, CHR 0xE6, CHR 0x81, CHR 0xAF, CHR 0xE8, CHR 0xA1,
         CHR 0xA8]),
     noise_line (''--  '' @ [CHR 0xE5, CHR 0xAE, CHR 0x9E, CHR 0xE6, CHR 0x97, CHR 0xB6, CHR 0xE5, CHR 0x9D, CHR 0x90,
         CHR 0xE5, CHR 0xB8, CHR 0xAD, CHR 0xE7, CHR 0x8A, CHR 0xB6, CHR 0xE6, CHR 0x80, CHR 0x81, CHR 0xEF,
         CHR 0xBC, CHR 0x8C, CHR 0xE5, CHR 0xAF, CHR 0xB9, CHR 0xE6, CHR 0x8E, CHR 0xA5] @ '' Redis Hash '' @
         [CHR 0xE9, CHR 0xAB, CHR 0x98, CHR 0xE9, CHR 0x80, CHR 0x9F, CHR 0xE7, CHR 0xBC, CHR 0x93, CHR 0xE5,
         CHR 0xAD, CHR 0x98]),
     noise_line (''-- ============================================================''),
     one_statement create_agents,
     noise_line [],
     noise_line (''-- ============================================================''),
     noise_line (''--  4. call_records '' @ [CHR 0xE2, CHR 0x80, CHR 0x94] @ '' '' @ [CHR 0xE9, CHR 0x80, CHR 0x9A,
         CHR 0xE8, CHR 0xAF, CHR 0x9D, CHR 0xE8, CHR 0xAE, CHR 0xB0, CHR 0xE5, CHR 0xBD, CHR 0x95, CHR 0xE8,
         CHR 0xA1, CHR 0xA8]),
     noise_line (''--  '' @ [CHR 0xE6, CHR 0xAF, CHR 0x8F, CHR 0xE9, CHR 0x80, CHR 0x9A, CHR 0xE7, CHR 0x94, CHR 0xB5,
         CHR 0xE8, CHR 0xAF, CHR 0x9D, CHR 0xE7, CHR 0x9A, CHR 0x84, CHR 0xE5, CHR 0xAE, CHR 0x8C, CHR 0xE6,
         CHR 0x95, CHR 0xB4, CHR 0xE7, CHR 0x94, CHR 0x9F, CHR 0xE5, CHR 0x91, CHR 0xBD, CHR 0xE5, CHR 0x91,
         CHR 0xA8, CHR 0xE6, CHR 0x9C, CHR 0x9F, CHR 0xE8, CHR 0xAE, CHR 0xB0, CHR 0xE5, CHR 0xBD, CHR 0x95,
         CHR 0xEF, CHR 0xBC, CHR 0x8C, CHR 0xE7, CHR 0x94, CHR 0xA8, CHR 0xE4, CHR 0xBA, CHR 0x8E, CHR 0xE8,
         CHR 0xAF, CHR 0x9D, CHR 0xE5, CHR 0x8D, CHR 0x95, CHR 0xE7, CHR 0xBB, CHR 0x9F, CHR 0xE8, CHR 0xAE,
         CHR 0xA1, CHR 0xE4, CHR 0xB8, CHR 0x8E, CHR 0xE5, CHR 0x88, CHR 0x86, CHR 0xE6, CHR 0x9E, CHR 0x90]),
     noise_line (''-- ============================================================''),
     one_statement create_call_records,
     noise_line [],
     noise_line (''-- ============================================================''),
     noise_line (''--  5. call_logs '' @ [CHR 0xE2, CHR 0x80, CHR 0x94] @ '' '' @ [CHR 0xE5, CHR 0x91, CHR 0xBC, CHR 0xE5,
         CHR 0x8F, CHR 0xAB, CHR 0xE6, CHR 0x97, CHR 0xA5, CHR 0xE5, CHR 0xBF, CHR 0x97, CHR 0xE8, CHR 0xA1,
         CHR 0xA8]),
     noise_line (''--  '' @ [CHR 0xE5, CHR 0x91, CHR 0xBC, CHR 0xE5, CHR 0x8F, CHR 0xAB, CHR 0xE8, CHR 0xBF, CHR 0x87,
         CHR 0xE7, CHR 0xA8, CHR 0x8B, CHR 0xE4, CHR 0xB8, CHR 0xAD, CHR 0xE7, CHR 0x9A, CHR 0x84, CHR 0xE5,
         CHR 0x85, CHR 0xB3, CHR 0xE9, CHR 0x94, CHR 0xAE, CHR 0xE4, CHR 0xBA, CHR 0x8B, CHR 0xE4, CHR 0xBB,
         CHR 0xB6, CHR 0xE6, CHR 0x97, CHR 0xA5, CHR 0xE5, CHR 0xBF, CHR 0x97, CHR 0xEF, CHR 0xBC, CHR 0x8C,
         CHR 0xE4, CHR 0xBD, CHR 0x8E, CHR 0xE9, CHR 0xA2, CHR 0x91, CHR 0xE5, CHR 0x86, CHR 0x99, CHR 0xE5,
         CHR 0x85, CHR 0xA5]),
     noise_line (''-- ============================================================''),
     one_statement create_call_logs,
     noise_line [],
     noise_line (''-- ============================================================''),
     noise_line (''--  6. voicemails '' @ [CHR 0xE2, CHR 0x80, CHR 0x94] @ '' '' @ [CHR 0xE7, CHR 0x94, CHR 0xA8,
         CHR 0xE6, CHR 0x88, CHR 0xB7, CHR 0xE7, CHR 0x95, CHR 0x99, CHR 0xE8, CHR 0xA8, CHR 0x80, CHR 0xE8,
         CHR 0xA1, CHR 0xA8]),
     noise_line (''--  '' @ [CHR 0xE5, CHR 0xA4, CHR 0x9C, CHR 0xE9, CHR 0x97, CHR 0xB4] @ ''/'' @ [CHR 0xE5, CHR 0x85,
         CHR 0xA8, CHR 0xE5, CHR 0xBF, CHR 0x99, CHR 0xE5, CHR 0x9C, CHR 0xBA, CHR 0xE6, CHR 0x99, CHR 0xAF,
         CHR 0xE4, CHR 0xB8, CHR 0x8B, CHR 0xE7, CHR 0x9A, CHR 0x84, CHR 0xE7, CHR 0x95, CHR 0x99, CHR 0xE8,
         CHR 0xA8, CHR 0x80, CHR 0xE8, CHR 0xAE, CHR 0xB0, CHR 0xE5, CHR 0xBD, CHR 0x95]),
     noise_line (''-- ============================================================''),
     one_statement create_voicemails,
     noise_line [],
     noise_line (''-- ============================================================''),
     noise_line (''--  '' @ [CHR 0xE5, CHR 0x88, CHR 0x9D, CHR 0xE5, CHR 0xA7, CHR 0x8B, CHR 0xE6, CHR 0x95, CHR 0xB0,
         CHR 0xE6, CHR 0x8D, CHR 0xAE, CHR 0xEF, CHR 0xBC, CHR 0x9A, CHR 0xE9, CHR 0x83, CHR 0xA8, CHR 0xE9,
         CHR 0x97, CHR 0xA8, CHR 0xE9, CHR 0x85, CHR 0x8D, CHR 0xE7, CHR 0xBD, CHR 0xAE] @ '' ('' @ [CHR 0xE4,
         CHR 0xB8, CHR 0x8E] @ '' conf/sip_server.conf '' @ [CHR 0xE5, CHR 0x90, CHR 0x8C, CHR 0xE6, CHR 0xAD,
         CHR 0xA5] @ '')''),
     noise_line (''-- ============================================================''),
     one_statement insert_departments]"

definition schema_sql :: bytes where
  "schema_sql = schema_file schema_items"

text \<open>What is executed for a statement.\<close>

definition statement_text :: "bytes list \<Rightarrow> bytes" where
  "statement_text ls = joined (map (\<lambda>l. l @ [cr]) ls)"

text \<open>
  What the lines are: no line end inside, not blank, not a comment, and a semicolon at the end of the last
  one only.
\<close>

definition plain_line :: "bytes \<Rightarrow> bool" where
  "plain_line l \<longleftrightarrow> list_all (\<lambda>c. c \<noteq> lf \<and> c \<noteq> nul \<and> c \<noteq> cr) l \<and> length l < 3999"

definition after_blanks :: "bytes \<Rightarrow> bytes" where
  "after_blanks l = dropWhile (\<lambda>c. c = CHR '' '' \<or> c = tab) l"

definition noise_ok :: "bytes \<Rightarrow> bool" where
  "noise_ok l \<longleftrightarrow> plain_line l \<and> (l = [] \<or> take 2 l = ''--'')"

definition line_ok :: "bytes \<Rightarrow> bool" where
  "line_ok l \<longleftrightarrow> plain_line l \<and> after_blanks l \<noteq> [] \<and> hd (after_blanks l) \<noteq> CHR ''-''"

definition code_ok :: "bytes list \<Rightarrow> bool" where
  "code_ok ls \<longleftrightarrow> ls \<noteq> [] \<and> list_all line_ok ls \<and> list_all (\<lambda>l. last l \<noteq> CHR '';'') (butlast ls) \<and>
     last (last ls) = CHR '';'' \<and> \<not> blanks (hd (hd ls)) \<and> length (statement_text ls) < STATEMENT_SIZE - 2"

lemma text_plain: "plain_line l \<Longrightarrow> text_line (l @ [cr])"
  by (auto simp: plain_line_def text_line_def list_all_iff lf_def nul_def cr_def)

lemma cstr_plain: "plain_line l \<Longrightarrow> cstr (l @ [cr, lf]) = l @ [cr, lf]"
  using cstr_line [OF text_plain, of l] by simp

lemma after_blanks_end: "after_blanks l \<noteq> [] \<Longrightarrow> after_blanks (l @ xs) = after_blanks l @ xs"
  by (auto simp: after_blanks_def dropWhile_eq_Nil_conv dropWhile_append1)

lemma skipped_plain:
  assumes "plain_line l"
  shows "skipped (l @ [cr, lf]) \<longleftrightarrow>
    (let t = after_blanks (l @ [cr, lf]) in take 2 t = ''--'' \<or> t = [] \<or> hd t = lf \<or> hd t = cr)"
  unfolding skipped_def cstr_plain [OF assms] after_blanks_def by simp

lemma noise_item: "noise_ok l \<Longrightarrow> item_ok (noise_line l)"
proof (cases l)
  case Nil
  then show ?thesis
    by (simp add: noise_line_def text_line_def skipped_def cstr_id lf_def cr_def nul_def tab_def)
next
  case (Cons c ls)
  assume "noise_ok l"
  moreover from this Cons obtain ks where "l = ''--'' @ ks"
    unfolding noise_ok_def by (metis append_take_drop_id list.distinct(1))
  ultimately show ?thesis
    using skipped_plain [of l] text_plain [of l] by (simp add: noise_line_def noise_ok_def after_blanks_def tab_def)
qed

lemma line_item: "line_ok l \<Longrightarrow> code_line (l @ [cr])"
proof -
  assume l: "line_ok l"
  then have "after_blanks (l @ [cr, lf]) = after_blanks l @ [cr, lf]"
    using after_blanks_end [of l "[cr, lf]"] by (simp add: line_ok_def)
  moreover from l have "hd (after_blanks l) \<in> set l"
    unfolding line_ok_def after_blanks_def by (metis hd_in_set set_dropWhileD)
  then have "hd (after_blanks l) \<noteq> lf" "hd (after_blanks l) \<noteq> cr"
    using l by (auto simp: line_ok_def plain_line_def list_all_iff)
  ultimately have "\<not> skipped (l @ [cr, lf])"
    using l by (cases "after_blanks l") (simp_all add: line_ok_def skipped_plain)
  with l show ?thesis by (simp add: code_line_def text_plain line_ok_def)
qed

lemma ends_plain: "ends_statement (l @ [cr]) \<longleftrightarrow> l \<noteq> [] \<and> last l = CHR '';''"
  by (simp add: ends_statement_def no_cr_def)

lemma line_ok_not_Nil: "line_ok l \<Longrightarrow> l \<noteq> []"
  by (auto simp: line_ok_def after_blanks_def)

lemma map_butlast_last: "ls \<noteq> [] \<Longrightarrow> map f (butlast ls) @ [f (last ls)] = map f ls"
  by (metis append_butlast_last_id list.simps(8) list.simps(9) map_append)

lemma statement_item:
  assumes "code_ok ls"
  shows "item_ok (one_statement ls)" and "item_sql (one_statement ls) = [statement_text ls]"
proof -
  have ne: "ls \<noteq> []" and lines: "list_all line_ok ls" using assms by (simp_all add: code_ok_def)
  then have "list_all line_ok (butlast ls)" "line_ok (last ls)"
    by (auto simp: list_all_iff dest: in_set_butlastD)
  moreover have "joined (map (\<lambda>l. l @ [cr]) (butlast ls) @ [last ls @ [cr]]) = statement_text ls"
    unfolding statement_text_def map_butlast_last [OF ne, of "\<lambda>l. l @ [cr]"] ..
  moreover from this have all: "joined (map (\<lambda>l. l @ [cr]) (butlast ls)) @ last ls @ [cr, lf] = statement_text ls" by simp
  ultimately show "item_ok (one_statement ls)"
    using assms by (auto simp: one_statement_def code_ok_def ends_plain list_all_iff line_item line_ok_not_Nil)
  obtain l ks where ls: "ls = l # ks" "l \<noteq> []" using ne lines line_ok_not_Nil by (cases ls) auto
  then have "dropWhile blanks (statement_text ls) = statement_text ls"
    using assms by (cases l) (simp_all add: code_ok_def statement_text_def)
  with all show "item_sql (one_statement ls) = [statement_text ls]" by (simp add: one_statement_def)
qed

section \<open>The statements have this shape\<close>

lemmas line_checks = code_ok_def line_ok_def plain_line_def after_blanks_def blanks_def statement_text_def joined_def
  STATEMENT_SIZE_def DB_MAX_SQL_LEN_def lf_def nul_def cr_def tab_def

lemma create_database_ok: "code_ok create_database"
  by (simp add: create_database_def line_checks)

lemma use_database_ok: "code_ok use_database"
  by (simp add: use_database_def line_checks)

lemma create_departments_ok: "code_ok create_departments"
  by (simp add: create_departments_def line_checks)

lemma create_extensions_ok: "code_ok create_extensions"
  by (simp add: create_extensions_def line_checks)

lemma create_agents_ok: "code_ok create_agents"
  by (simp add: create_agents_def line_checks)

lemma create_call_records_ok: "code_ok create_call_records"
  by (simp add: create_call_records_def line_checks)

lemma create_call_logs_ok: "code_ok create_call_logs"
  by (simp add: create_call_logs_def line_checks)

lemma create_voicemails_ok: "code_ok create_voicemails"
  by (simp add: create_voicemails_def line_checks)

lemma insert_departments_ok: "code_ok insert_departments"
  by (simp add: insert_departments_def line_checks)

lemmas statements_ok = create_database_ok use_database_ok create_departments_ok create_extensions_ok create_agents_ok create_call_records_ok create_call_logs_ok create_voicemails_ok insert_departments_ok

lemma schema_statements_ok: "list_all code_ok schema_statements"
  by (simp add: schema_statements_def statements_ok)

lemma items_ok: "list_all item_ok schema_items"
  by (simp add: schema_items_def noise_item statement_item(1) statements_ok noise_ok_def plain_line_def lf_def nul_def
      cr_def)

lemma schema_sqls: "statements schema_items = map statement_text schema_statements"
  by (simp add: statements_def schema_items_def schema_statements_def statement_item(2) statements_ok noise_line_def)

section \<open>Tables and columns\<close>

text \<open>The parts of a text between separators, its words, and whether two words stand side by side in it.\<close>

fun split_at :: "char \<Rightarrow> bytes \<Rightarrow> bytes \<Rightarrow> bytes list" where
  "split_at s acc [] = [rev acc]"
| "split_at s acc (c # cs) = (if c = s then rev acc # split_at s [] cs else split_at s (c # acc) cs)"

definition words :: "bytes \<Rightarrow> bytes list" where
  "words l = filter (\<lambda>x. x \<noteq> []) (split_at (CHR '' '') [] l)"

fun adjacent :: "bytes \<Rightarrow> bytes \<Rightarrow> bytes list \<Rightarrow> bool" where
  "adjacent a b (x # y # xs) = (x = a \<and> y = b \<or> adjacent a b (y # xs))"
| "adjacent a b xs = False"

definition lower_case :: "char \<Rightarrow> bool" where
  "lower_case c \<longleftrightarrow> (of_char c :: nat) \<in> {97..122}"

text \<open>
  The columns of a \<open>CREATE TABLE\<close>: a definition begins with a name in small letters behind four blanks, and
  continues over lines that are indented deeper. Of each line: the name, if it begins a column, whether it
  is a continuation, whether it says \<open>NOT NULL\<close>, and whether it gives a value of its own.
\<close>

type_synonym line_info = "bytes option \<times> bool \<times> bool \<times> bool"

definition word_info :: "bytes \<Rightarrow> bytes list \<Rightarrow> line_info" where
  "word_info indent ws =
     (if take 4 indent = ''    '' \<and> lower_case (indent ! 4) then Some (hd ws) else None,
      indent = ''     '', adjacent ''NOT'' ''NULL'' ws, ''AUTO_INCREMENT'' \<in> set ws \<or> ''DEFAULT'' \<in> set ws)"

definition line_info :: "bytes \<Rightarrow> line_info" where
  "line_info l = word_info (take 5 l) (words l)"

definition continues :: "line_info \<Rightarrow> bool" where
  "continues = (\<lambda>(n, c, nn, v). n = None \<and> c)"

text \<open>The columns: their names, and whether a row must give them.\<close>

fun column_defs :: "line_info list \<Rightarrow> (bytes \<times> bool) list" where
  "column_defs [] = []"
| "column_defs ((None, c, nn, v) # ls) = column_defs ls"
| "column_defs ((Some n, c, nn, v) # ls) =
     (let more = (c, nn, v) # map snd (takeWhile continues ls)
      in (n, list_ex (\<lambda>(c, nn, v). nn) more \<and> \<not> list_ex (\<lambda>(c, nn, v). v) more) # column_defs ls)"

definition table_columns :: "bytes list \<Rightarrow> bytes list" where
  "table_columns ls = map fst (column_defs (map line_info ls))"

definition required_columns :: "bytes list \<Rightarrow> bytes list" where
  "required_columns ls = map fst (filter snd (column_defs (map line_info ls)))"

definition schema_tables :: "(bytes \<times> bytes list) list" where
  "schema_tables = [(''departments'', create_departments), (''extensions'', create_extensions),
     (''agents'', create_agents), (''call_records'', create_call_records), (''call_logs'', create_call_logs),
     (''voicemails'', create_voicemails)]"

lemma tables_named:
  "list_all (\<lambda>(t, ls). hd ls = ''CREATE TABLE IF NOT EXISTS '' @ t @ '' ('') schema_tables"
  by (simp add: schema_tables_def create_departments_def create_extensions_def create_agents_def
      create_call_records_def create_call_logs_def create_voicemails_def)

text \<open>Table and columns of an \<open>INSERT\<close> with a list of columns.\<close>

definition insert_target :: "bytes \<Rightarrow> bytes \<times> bytes list" where
  "insert_target sql =
     (let s = drop (length ''INSERT INTO '') sql
      in (takeWhile (\<lambda>c. c \<noteq> CHR '' '') s,
          split_at (CHR '','') [] (filter (\<lambda>c. c \<noteq> CHR '' '') (takeWhile (\<lambda>c. c \<noteq> CHR '')'') (tl (dropWhile (\<lambda>c. c \<noteq> CHR ''('') s))))))"

definition fits_schema :: "bytes \<Rightarrow> bool" where
  "fits_schema sql \<longleftrightarrow> take 12 sql = ''INSERT INTO '' \<and>
     (case insert_target sql of (t, cs) \<Rightarrow>
        (case map_of schema_tables t of
           None \<Rightarrow> False
         | Some ls \<Rightarrow> distinct cs \<and> set cs \<subseteq> set (table_columns ls) \<and> set (required_columns ls) \<subseteq> set cs))"

lemma departments_columns:
  "column_defs (map line_info create_departments) =
     [(''id'', False), (''dept_key'', True), (''dept_name'', True), (''short_number'', True),
      (''range_start'', True), (''range_end'', True), (''external_access'', False),
      (''min_agents_per_shift'', False), (''created_at'', False), (''updated_at'', False)]"
  by (simp add: create_departments_def line_info_def word_info_def words_def lower_case_def continues_def)

lemma extensions_columns:
  "column_defs (map line_info create_extensions) =
     [(''id'', False), (''extension'', True), (''employee_name'', True), (''department_id'', True),
      (''is_active'', False), (''created_at'', False), (''updated_at'', False)]"
  by (simp add: create_extensions_def line_info_def word_info_def words_def lower_case_def continues_def)

lemma agents_columns:
  "column_defs (map line_info create_agents) =
     [(''id'', False), (''extension'', True), (''department_id'', True), (''is_online'', False),
      (''status'', False), (''concurrent_calls'', False), (''last_active'', False), (''shift'', False),
      (''created_at'', False), (''updated_at'', False)]"
  by (simp add: create_agents_def line_info_def word_info_def words_def lower_case_def continues_def)

lemma call_records_columns:
  "column_defs (map line_info create_call_records) =
     [(''id'', False), (''call_id'', True), (''caller_number'', True), (''callee_number'', True),
      (''direction'', True), (''department'', False), (''start_time'', True), (''answer_time'', False),
      (''end_time'', False), (''duration'', False), (''result_code'', False), (''result_desc'', False),
      (''sip_status'', False), (''created_at'', False)]"
  by (simp add: create_call_records_def line_info_def word_info_def words_def lower_case_def continues_def)

lemma call_logs_columns:
  "column_defs (map line_info create_call_logs) =
     [(''id'', False), (''call_id'', False), (''log_level'', False), (''event_type'', True),
      (''message'', False), (''caller_number'', False), (''callee_number'', False), (''department'',
      False), (''created_at'', False)]"
  by (simp add: create_call_logs_def line_info_def word_info_def words_def lower_case_def continues_def)

lemma voicemails_columns:
  "column_defs (map line_info create_voicemails) =
     [(''id'', False), (''caller_number'', True), (''department'', False), (''message_text'', False),
      (''file_path'', False), (''duration'', False), (''is_read'', False), (''created_at'', False)]"
  by (simp add: create_voicemails_def line_info_def word_info_def words_def lower_case_def continues_def)

lemmas all_columns = table_columns_def required_columns_def departments_columns extensions_columns agents_columns call_records_columns call_logs_columns voicemails_columns

lemmas fits_checks = fits_schema_def insert_target_def schema_tables_def all_columns sql_text_def snprintf_def
  DB_MAX_SQL_LEN_def

section \<open>Departments\<close>

text \<open>A row of the departments: key, name, short number, first and last extension, open to outside calls.\<close>

type_synonym dept_row = "bytes \<times> bytes \<times> bytes \<times> bytes \<times> bytes \<times> bool"

definition inserted_row :: "bytes \<Rightarrow> dept_row option" where
  "inserted_row l =
     (case split_at (CHR 0x27) [] l of
        [_, k, _, n, _, s, _, a, _, b, e] \<Rightarrow> Some (k, n, s, a, b, take 3 e = '', 1'')
      | _ \<Rightarrow> None)"

definition script_row :: "bytes \<times> dept \<Rightarrow> dept_row" where
  "script_row = (\<lambda>(k, d). (k, d_name d, d_short d, show_int (d_range_start d), show_int (d_range_end d), d_external d))"

text \<open>What the seed data know of a department: its number is the one \<open>AUTO_INCREMENT\<close> gives it.\<close>

definition seed_of_row :: "nat \<times> dept_row \<Rightarrow> dept_seed" where
  "seed_of_row = (\<lambda>(i, k, n, s, a, b, x).
     \<lparr>ds_dept_key = k, ds_dept_id = int i, ds_range_start = a, ds_range_end = b, ds_external_access = x\<rparr>)"

lemma digit_chars:
  "digit 0 = CHR ''0''" "digit 1 = CHR ''1''" "digit (Suc 0) = CHR ''1''" "digit 2 = CHR ''2''" "digit 3 = CHR ''3''"
  "digit 4 = CHR ''4''" "digit 5 = CHR ''5''" "digit 6 = CHR ''6''" "digit 7 = CHR ''7''" "digit 8 = CHR ''8''"
  "digit 9 = CHR ''9''"
  by code_simp+

lemma department_rows: "map inserted_row (tl insert_departments) = map Some (map script_row DEPARTMENTS)"
  by (simp add: insert_departments_def inserted_row_def script_row_def DEPARTMENTS_def show_int_def show_nat.simps digit_chars)

lemma seed_rows: "map seed_of_row (zip [1..<10] (map script_row DEPARTMENTS)) = dept_seeds"
  by (simp add: seed_of_row_def script_row_def DEPARTMENTS_def dept_seeds_def show_int_def show_nat.simps digit_chars upt_rec)

section \<open>Properties\<close>

text \<open>C31: Starting the program with the schema file of the repository executes its nine statements, in the order of
  the file and each as it stands there, whatever the server answers: the creation of the database, its selection,
  the creation of the six tables and the insertion of the departments. The result is how many of them
  succeeded.\<close>
theorem schema_file_executes:
  "db_mysql_init_schema E others (Some schema_sql) p w =
     execute_all E others (map statement_text schema_statements) 0 p w"
  using loop_items [OF items_ok]
  by (simp add: db_mysql_init_schema_def schema_sql_def schema_file_def flip: statements_def) (simp add: schema_sqls)


text \<open>C33: The three tables of departments agree, row by row and in their order: what the schema file inserts into the
  database, the table of the routing script, and the seed data of the synchronisation layer, whose
  department numbers are the positions of the inserted rows.\<close>
theorem departments_agree:
  "map inserted_row (tl insert_departments) = map Some (map script_row DEPARTMENTS) \<and>
   dept_seeds = map seed_of_row (zip [1..<length insert_departments] (map script_row DEPARTMENTS))"
proof -
  have n: "length insert_departments = 10" by (simp add: insert_departments_def)
  show ?thesis unfolding n using department_rows seed_rows by simp
qed

end
