(* ===== verification/Route.thy ===== *)
theory Route
  imports Complex_Main Lua_Utils Route_Text
begin

text \<open>
  The routing script \<open>lua/route.lua\<close>: its tables as a record, its functions as functions on that
  record. What it uses of the Lua library is the record \<open>lua_lib\<close>: the value of \<open>tonumber\<close>, the order in which
  \<open>table.sort\<close> leaves a list (by index, as the comparison of two elements decides), the order
  in which \<open>pairs\<close> visits the departments, and the clock, read anew by every
  \<open>os.time\<close> and \<open>os.date\<close>. An argument that was not passed is \<open>None\<close>; a run-time error is \<open>Inl\<close>. The
  lines printed by the script are left out.
\<close>

section \<open>The Lua library\<close>

record clock_reading =
  ck_time :: int
  ck_wday :: int
  ck_hour :: int
  ck_min :: int

record lua_lib =
  ll_tonumber :: "bytes \<Rightarrow> rat option"
  ll_order :: "(nat \<Rightarrow> nat \<Rightarrow> bool) \<Rightarrow> nat \<Rightarrow> nat list"
  ll_pairs :: "(bytes \<times> dept) list"
  ll_clock :: "nat \<Rightarrow> clock_reading"

definition table_sort :: "lua_lib \<Rightarrow> ('a \<Rightarrow> 'a \<Rightarrow> bool) \<Rightarrow> 'a list \<Rightarrow> 'a list" where
  "table_sort lib cmp xs = map (nth xs) (ll_order lib (\<lambda>i j. cmp (xs ! i) (xs ! j)) (length xs))"

datatype lua_error = Nil_Index | Nil_Concat

section \<open>State\<close>

record agent =
  a_state :: bytes
  a_calls :: int
  a_last_active :: int
  a_extension :: bytes
  a_department :: bytes

record queue_item =
  qi_caller :: bytes
  qi_arrival :: int

record log_entry =
  le_time :: int
  le_level :: bytes
  le_caller :: bytes
  le_event :: bytes
  le_detail :: bytes

record route_config =
  ivr_timeout :: int
  external_gateway :: bytes
  fallback_agent :: bytes
  max_invalid_keys :: int
  max_queue_size :: int
  queue_timeout :: int
  start_hour :: int
  start_minute :: int
  end_hour :: int
  end_minute :: int
  work_days :: "bool list"
  night_duty_dept :: bytes
  voicemail_prompt :: bytes
  overflow_priority :: "bytes list"

definition ROUTE_CONFIG :: route_config where
  "ROUTE_CONFIG = \<lparr>ivr_timeout = 5, external_gateway = ''400-123-4567'', fallback_agent = ''9000'',
     max_invalid_keys = 3, max_queue_size = 10, queue_timeout = 60,
     start_hour = 8, start_minute = 0, end_hour = 18, end_minute = 0,
     work_days = [True, True, True, True, True, False, False], night_duty_dept = ''support'',
     voicemail_prompt = ''voicemail_no_agent'',
     overflow_priority = [''support'', ''sales'', ''service'', ''market'']\<rparr>"

text \<open>
  The variables of the script. \<open>rs_force\<close> is the global \<open>_TEST_FORCE_WORKTIME\<close>; \<open>rs_ticks\<close> counts
  the readings of the clock.
\<close>

record route_state =
  rs_force :: lua_value
  rs_config :: route_config
  rs_agents :: "bytes \<rightharpoonup> agent"
  rs_queue :: "bytes \<rightharpoonup> queue_item list"
  rs_invalid :: "bytes \<rightharpoonup> int"
  rs_timeouts :: "bytes \<rightharpoonup> int"
  rs_log :: "int \<rightharpoonup> log_entry"
  rs_log_index :: int
  rs_ticks :: nat

definition os_time :: "lua_lib \<Rightarrow> route_state \<Rightarrow> int \<times> route_state" where
  "os_time lib s = (ck_time (ll_clock lib (rs_ticks s)), s\<lparr>rs_ticks := rs_ticks s + 1\<rparr>)"

definition os_date :: "lua_lib \<Rightarrow> route_state \<Rightarrow> clock_reading \<times> route_state" where
  "os_date lib s = (ll_clock lib (rs_ticks s), s\<lparr>rs_ticks := rs_ticks s + 1\<rparr>)"

text \<open>The loop that builds \<open>IVR_MAP\<close> from the departments.\<close>

fun build_ivr_map :: "(bytes \<times> dept) list \<Rightarrow> (bytes \<rightharpoonup> bytes) \<Rightarrow> (bytes \<rightharpoonup> bytes)" where
  "build_ivr_map [] m = m"
| "build_ivr_map ((k, d) # ds) m =
     build_ivr_map ds (case d_ivr_key d of None \<Rightarrow> m | Some key \<Rightarrow> m(key \<mapsto> k))"

definition IVR_MAP :: "lua_lib \<Rightarrow> bytes \<Rightarrow> bytes option" where
  "IVR_MAP lib = build_ivr_map (ll_pairs lib) Map.empty"

section \<open>Agents\<close>

fun init_agents :: "lua_lib \<Rightarrow> bytes \<Rightarrow> int list \<Rightarrow> route_state \<Rightarrow> route_state" where
  "init_agents lib k [] s = s"
| "init_agents lib k (e # es) s =
     (let x = show_int e; (t, s) = os_time lib s in
      init_agents lib k es (s\<lparr>rs_agents := (rs_agents s)(x \<mapsto>
        \<lparr>a_state = ''idle'', a_calls = 0, a_last_active = t, a_extension = x, a_department = k\<rparr>)\<rparr>))"

fun init_agent_status :: "lua_lib \<Rightarrow> (bytes \<times> dept) list \<Rightarrow> route_state \<Rightarrow> route_state" where
  "init_agent_status lib [] s = s"
| "init_agent_status lib ((k, d) # ds) s =
     init_agent_status lib ds (init_agents lib k [d_range_start d..d_range_end d] s)"

definition get_dept_agents :: "bytes option \<Rightarrow> route_state \<Rightarrow> agent list" where
  "get_dept_agents dept_id s =
     (case Option.bind dept_id dept_of of
        None \<Rightarrow> []
      | Some d \<Rightarrow> List.map_filter (\<lambda>e. rs_agents s (show_int e)) [d_range_start d..d_range_end d])"

definition idle_agents :: "bytes option \<Rightarrow> route_state \<Rightarrow> agent list" where
  "idle_agents dept_id s = filter (\<lambda>a. a_state a = ''idle'') (get_dept_agents dept_id s)"

definition count_idle_agents :: "bytes option \<Rightarrow> route_state \<Rightarrow> int" where
  "count_idle_agents dept_id s = int (length (idle_agents dept_id s))"

definition pick_idle_agent :: "lua_lib \<Rightarrow> bytes option \<Rightarrow> route_state \<Rightarrow> agent option" where
  "pick_idle_agent lib dept_id s =
     (let idles = idle_agents dept_id s in
      if idles = [] then None
      else Some (hd (table_sort lib (\<lambda>a b. a_last_active a < a_last_active b) idles)))"

definition set_agent_state :: "lua_lib \<Rightarrow> bytes \<Rightarrow> bytes \<Rightarrow> route_state \<Rightarrow> route_state" where
  "set_agent_state lib extension st s =
     (case rs_agents s extension of
        None \<Rightarrow> s
      | Some a \<Rightarrow>
          let (t, s) = os_time lib s;
              a = a\<lparr>a_state := st, a_last_active := t\<rparr>;
              a = (if st = ''talking'' then a\<lparr>a_calls := a_calls a + 1\<rparr>
                   else if st = ''idle'' then a\<lparr>a_calls := max 0 (a_calls a - 1)\<rparr>
                   else a)
          in s\<lparr>rs_agents := (rs_agents s)(extension \<mapsto> a)\<rparr>)"

section \<open>Queues\<close>

definition route_queue_push :: "lua_lib \<Rightarrow> bytes \<Rightarrow> bytes \<Rightarrow> route_state \<Rightarrow> bool \<times> route_state" where
  "route_queue_push lib dept_id caller_id s =
     (let q = (case rs_queue s dept_id of None \<Rightarrow> [] | Some q \<Rightarrow> q);
          s = s\<lparr>rs_queue := (rs_queue s)(dept_id \<mapsto> q)\<rparr>
      in if max_queue_size (rs_config s) \<le> int (length q) then (False, s)
         else let (t, s) = os_time lib s in
           (True, s\<lparr>rs_queue := (rs_queue s)(dept_id \<mapsto> q @ [\<lparr>qi_caller = caller_id, qi_arrival = t\<rparr>])\<rparr>))"

definition route_queue_pop :: "bytes \<Rightarrow> route_state \<Rightarrow> queue_item option \<times> route_state" where
  "route_queue_pop dept_id s =
     (case rs_queue s dept_id of
        Some (x # q) \<Rightarrow> (Some x, s\<lparr>rs_queue := (rs_queue s)(dept_id \<mapsto> q)\<rparr>)
      | _ \<Rightarrow> (None, s))"

definition route_queue_size :: "bytes \<Rightarrow> route_state \<Rightarrow> int" where
  "route_queue_size dept_id s = (case rs_queue s dept_id of None \<Rightarrow> 0 | Some q \<Rightarrow> int (length q))"

text \<open>The loop over one queue, which removes an item or goes on to the next.\<close>

fun drop_expired :: "int \<Rightarrow> int \<Rightarrow> queue_item list \<Rightarrow> queue_item list" where
  "drop_expired now limit [] = []"
| "drop_expired now limit (x # q) =
     (if now - qi_arrival x > limit then drop_expired now limit q else x # drop_expired now limit q)"

definition queue_cleanup :: "lua_lib \<Rightarrow> route_state \<Rightarrow> route_state" where
  "queue_cleanup lib s =
     (let (now, s) = os_time lib s
      in s\<lparr>rs_queue := \<lambda>k. map_option (drop_expired now (queue_timeout (rs_config s))) (rs_queue s k)\<rparr>)"

section \<open>Time and log\<close>

definition is_work_time :: "lua_lib \<Rightarrow> route_state \<Rightarrow> bool \<times> route_state" where
  "is_work_time lib s =
     (if lua_toboolean (rs_force s) then (True, s)
      else
        let cfg = rs_config s;
            (now, s) = os_date lib s;
            day_idx = (if ck_wday now = 1 then 7 else ck_wday now - 1);
            now_mins = ck_hour now * 60 + ck_min now;
            start_mins = start_hour cfg * 60 + start_minute cfg;
            end_mins = end_hour cfg * 60 + end_minute cfg
        in if \<not> (1 \<le> day_idx \<and> day_idx \<le> int (length (work_days cfg)) \<and> work_days cfg ! nat (day_idx - 1))
           then (False, s)
           else (start_mins \<le> now_mins \<and> now_mins < end_mins, s))"

definition get_time_description :: "lua_lib \<Rightarrow> route_state \<Rightarrow> bytes \<times> route_state" where
  "get_time_description lib s =
     (let (now, s) = os_date lib s; (work, s) = is_work_time lib s
      in (if work then text_working (ck_hour now) (ck_min now) else text_closed (ck_hour now) (ck_min now), s))"

definition CALL_LOG_MAX :: int where "CALL_LOG_MAX = 100"

definition or_default :: "bytes \<Rightarrow> bytes option \<Rightarrow> bytes" where
  "or_default d x = (case x of None \<Rightarrow> d | Some t \<Rightarrow> t)"

definition route_log_call :: "lua_lib \<Rightarrow> bytes \<Rightarrow> bytes option \<Rightarrow> bytes \<Rightarrow> bytes \<Rightarrow> route_state \<Rightarrow> route_state" where
  "route_log_call lib level caller_id event detail s =
     (let i = rs_log_index s mod CALL_LOG_MAX + 1; (t, s) = os_time lib s
      in s\<lparr>rs_log_index := i, rs_log := (rs_log s)(i \<mapsto>
           \<lparr>le_time = t, le_level = level, le_caller = or_default ''unknown'' caller_id, le_event = event,
             le_detail = detail\<rparr>)\<rparr>)"

definition get_recent_logs :: "int option \<Rightarrow> route_state \<Rightarrow> log_entry list" where
  "get_recent_logs n s =
     (let n = (case n of None \<Rightarrow> 10 | Some n \<Rightarrow> n); i = rs_log_index s
      in List.map_filter (rs_log s) [max 1 (i - n + 1)..i] @
         List.map_filter (\<lambda>j. if j \<le> CALL_LOG_MAX then rs_log s j else None) [1..i + n - CALL_LOG_MAX - 1])"

end
