(* ===== verification/Route_Api.thy ===== *)
theory Route_Api
  imports Route
begin

text \<open>
  The global functions of \<open>lua/route.lua\<close>: the seven routing interfaces, the main entry, and the
  auxiliary functions. They call each other as the script does; that a caller replaces one of these
  globals is left out.
\<close>

section \<open>Responses\<close>

record route_table =
  rt_code :: int
  rt_target :: bytes
  rt_department :: bytes
  rt_description :: bytes

definition make_response :: "int \<Rightarrow> bytes \<Rightarrow> bytes \<Rightarrow> bytes \<Rightarrow> route_table" where
  "make_response code target dept_name desc =
     \<lparr>rt_code = code, rt_target = target, rt_department = dept_name, rt_description = desc\<rparr>"

type_synonym routed = "(lua_error + route_table) \<times> route_state"

section \<open>Numbers\<close>

definition in_dept :: "rat \<Rightarrow> dept \<Rightarrow> bool" where
  "in_dept x d \<longleftrightarrow> of_int (d_range_start d) \<le> x \<and> x \<le> of_int (d_range_end d)"

definition find_department :: "lua_lib \<Rightarrow> bytes option \<Rightarrow> (bytes \<times> dept) option" where
  "find_department lib extension =
     (case Option.bind extension (ll_tonumber lib) of
        None \<Rightarrow> None
      | Some x \<Rightarrow> find (\<lambda>(k, d). in_dept x d) (ll_pairs lib))"

definition is_external_caller :: "lua_lib \<Rightarrow> bytes option \<Rightarrow> bool" where
  "is_external_caller lib caller_id =
     (case caller_id of
        None \<Rightarrow> True
      | Some c \<Rightarrow>
          if c = [] then True
          else if take 3 c = ''400'' then True
          else (case ll_tonumber lib c of
                  None \<Rightarrow> True
                | Some x \<Rightarrow>
                    if x < 1000 \<or> 9999 < x then True
                    else \<not> list_ex (\<lambda>(k, d). in_dept x d) (ll_pairs lib)))"

definition find_overflow_dept :: "bytes option \<Rightarrow> route_state \<Rightarrow> (bytes \<times> dept) option" where
  "find_overflow_dept exclude s =
     (case find (\<lambda>k. Some k \<noteq> exclude \<and> 0 < count_idle_agents (Some k) s) (overflow_priority (rs_config s)) of
        None \<Rightarrow> None
      | Some k \<Rightarrow> map_option (\<lambda>d. (k, d)) (dept_of k))"

section \<open>Retries\<close>

definition agent_or :: "bytes \<Rightarrow> agent option \<Rightarrow> bytes" where
  "agent_or d a = (case a of None \<Rightarrow> d | Some a \<Rightarrow> a_extension a)"

text \<open>Interface 5.\<close>

definition invalid_key_fallback ::
  "lua_lib \<Rightarrow> bytes option \<Rightarrow> bytes option \<Rightarrow> route_state \<Rightarrow> route_table \<times> route_state" where
  "invalid_key_fallback lib caller_id key_input s =
     (let caller = or_default ''unknown'' caller_id; key = or_default ''nil'' key_input;
          err_count = (case rs_invalid s caller of None \<Rightarrow> 0 | Some n \<Rightarrow> n) + 1;
          s = s\<lparr>rs_invalid := (rs_invalid s)(caller \<mapsto> err_count)\<rparr>;
          max_err = max_invalid_keys (rs_config s);
          s = route_log_call lib ''WARN'' (Some caller) ''invalid_key''
                (''key='' @ key @ '' count='' @ show_int err_count @ ''/'' @ show_int max_err) s
      in if max_err \<le> err_count then
           let s = s\<lparr>rs_invalid := (rs_invalid s)(caller \<mapsto> 0)\<rparr>
           in (make_response 4 (agent_or (fallback_agent (rs_config s)) (pick_idle_agent lib (Some ''support'') s))
                 service_desk (desc_invalid_limit err_count key), s)
         else (make_response 9 [] [] (desc_invalid_retry key err_count max_err), s))"

text \<open>Interface 6.\<close>

definition timeout_fallback ::
  "lua_lib \<Rightarrow> bytes option \<Rightarrow> route_state \<Rightarrow> route_table \<times> route_state" where
  "timeout_fallback lib caller_id s =
     (let caller = or_default ''unknown'' caller_id;
          retry = (case rs_timeouts s caller of None \<Rightarrow> 0 | Some n \<Rightarrow> n) + 1;
          s = s\<lparr>rs_timeouts := (rs_timeouts s)(caller \<mapsto> retry)\<rparr>;
          s = route_log_call lib ''INFO'' (Some caller) ''timeout'' (''retry='' @ show_int retry) s
      in if 2 \<le> retry then
           let s = s\<lparr>rs_timeouts := (rs_timeouts s)(caller \<mapsto> 0)\<rparr>
           in (make_response 4 (agent_or (fallback_agent (rs_config s)) (pick_idle_agent lib (Some ''support'') s))
                 service_desk (desc_timeout_limit retry), s)
         else (make_response 8 [] [] (desc_timeout_retry retry (ivr_timeout (rs_config s))), s))"

section \<open>Agents\<close>

text \<open>Interface 2.\<close>

definition check_agent_status :: "lua_lib \<Rightarrow> bytes option \<Rightarrow> route_state \<Rightarrow> route_table \<times> route_state" where
  "check_agent_status lib dept_id s =
     (let s = queue_cleanup lib s in
      case Option.bind dept_id dept_of of
        None \<Rightarrow> (make_response 99 [] [] (desc_no_department (or_default ''nil'' dept_id)), s)
      | Some d \<Rightarrow>
          let agents = get_dept_agents dept_id s;
              count = (\<lambda>p. int (length (filter (\<lambda>a. p (a_state a)) agents)));
              n = int (length agents);
              idle = count (\<lambda>x. x = ''idle'');
              talking = count (\<lambda>x. x = ''talking'');
              busy = count (\<lambda>x. x = ''busy'');
              offline = count (\<lambda>x. x \<notin> {''idle'', ''talking'', ''busy''});
              online = n - offline
          in if online = 0 then (make_response 3 (d_short d) (d_name d) (desc_all_offline (d_name d) n), s)
             else if idle = 0 then
               (make_response 2 (d_short d) (d_name d) (desc_all_busy (d_name d) n online talking busy), s)
             else (make_response 0 (d_short d) (d_name d) (desc_idle_agents (d_name d) n online idle talking), s))"

text \<open>Interface 3. A department that does not exist can not be queued for: its short number is read.\<close>

definition overflow_route :: "lua_lib \<Rightarrow> bytes option \<Rightarrow> bytes option \<Rightarrow> route_state \<Rightarrow> routed" where
  "overflow_route lib dept_id caller_id s =
     (let caller = or_default [] caller_id;
          dept = Option.bind dept_id dept_of;
          dept_name = (case dept of None \<Rightarrow> or_default ''nil'' dept_id | Some d \<Rightarrow> d_name d);
          s = route_log_call lib ''WARN'' (Some caller) ''overflow'' (desc_overflow_log dept_name) s
      in if 0 < count_idle_agents (Some ''support'') s then
           (Inr (make_response 4
              (agent_or (fallback_agent (rs_config s)) (pick_idle_agent lib (Some ''support'') s))
              service_desk (desc_to_support dept_name)), s)
         else case find_overflow_dept dept_id s of
           Some (k, d) \<Rightarrow>
             (Inr (make_response 4 (agent_or (d_short d) (pick_idle_agent lib (Some k) s))
                (d_name d) (desc_to_other dept_name (d_name d))), s)
         | None \<Rightarrow>
             (case dept_id of
                None \<Rightarrow> (Inl Nil_Index, s)
              | Some k \<Rightarrow>
                  (case route_queue_push lib k caller s of
                     (True, s) \<Rightarrow>
                       (case dept of
                          None \<Rightarrow> (Inl Nil_Index, s)
                        | Some d \<Rightarrow>
                            (Inr (make_response 5 (d_short d) dept_name
                               (desc_queued (route_queue_size k s) (max_queue_size (rs_config s)))), s))
                   | (False, s) \<Rightarrow>
                       let s = route_log_call lib ''ERROR'' (Some caller) ''queue_full'' desc_queue_full_log s
                       in (Inr (make_response 7 [] dept_name desc_queue_full), s))))"

text \<open>Interface 1.\<close>

definition get_ivr_route :: "lua_lib \<Rightarrow> bytes option \<Rightarrow> bytes option \<Rightarrow> route_state \<Rightarrow> routed" where
  "get_ivr_route lib phone key_input s =
     (let s = route_log_call lib ''INFO'' phone ''get_ivr_route'' (''key='' @ or_default ''nil'' key_input) s;
          key = or_default [] key_input
      in if key = [] then (case timeout_fallback lib phone s of (r, s) \<Rightarrow> (Inr r, s))
         else case IVR_MAP lib key of
           None \<Rightarrow> (case invalid_key_fallback lib phone (Some key) s of (r, s) \<Rightarrow> (Inr r, s))
         | Some k \<Rightarrow>
             let denied = make_response 4 (fallback_agent (rs_config s)) service_desk (desc_not_external key) in
             (case dept_of k of
                None \<Rightarrow> (Inr denied, s)
              | Some d \<Rightarrow>
                  if \<not> d_external d then (Inr denied, s)
                  else
                    (case check_agent_status lib (Some k) s of (status, s) \<Rightarrow>
                       if rt_code status = 2 then overflow_route lib (Some k) phone s
                       else if rt_code status = 3 then
                         (Inr (make_response 3 (fallback_agent (rs_config s)) service_desk
                            (desc_nobody_online (d_name d))), s)
                       else
                         let target_ext = agent_or (d_short d) (pick_idle_agent lib (Some k) s)
                         in (Inr (make_response 0 target_ext (d_name d)
                               (desc_ivr_routed key (d_name d) target_ext)), s))))"

section \<open>Time\<close>

text \<open>Interface 4. The department on duty is looked up after agents of it were found.\<close>

definition time_judge_route :: "lua_lib \<Rightarrow> route_state \<Rightarrow> routed" where
  "time_judge_route lib s =
     (case is_work_time lib s of (work, s) \<Rightarrow>
        if work then (Inr (make_response 0 [] [] desc_work_time), s)
        else
          (case get_time_description lib s of (t, s) \<Rightarrow>
             let night = night_duty_dept (rs_config s);
                 agents = get_dept_agents (Some night) s
             in if list_ex (\<lambda>a. a_state a = ''idle'' \<or> a_state a = ''talking'') agents then
                  (case dept_of night of
                     None \<Rightarrow> (Inl Nil_Index, s)
                   | Some d \<Rightarrow>
                       (case pick_idle_agent lib (Some night) s of
                          Some a \<Rightarrow>
                            (Inr (make_response 6 (a_extension a) (d_name d) (desc_duty_agent t (a_extension a))), s)
                        | None \<Rightarrow>
                            (Inr (make_response 6 (fallback_agent (rs_config s)) (d_name d) (desc_duty_busy t)), s)))
                else
                  let s = route_log_call lib ''WARN'' (Some ''system'') ''no_night_duty'' desc_no_duty_log s
                  in (Inr (make_response 7 [] [] (desc_no_duty t)), s)))"

section \<open>Internal calls and the main entry\<close>

text \<open>Interface 7.\<close>

definition dept_internal_call_route :: "lua_lib \<Rightarrow> bytes option \<Rightarrow> bytes option \<Rightarrow> route_state \<Rightarrow> routed" where
  "dept_internal_call_route lib caller callee s =
     (case callee of
        None \<Rightarrow> (Inl Nil_Concat, s)
      | Some callee \<Rightarrow>
          let s = route_log_call lib ''INFO'' caller ''internal_call'' (''to '' @ callee) s;
              desk = (\<lambda>d. make_response 1 (fallback_agent (rs_config s)) service_desk d)
          in (case find_department lib caller of
                None \<Rightarrow>
                  (case caller of
                     None \<Rightarrow> (Inl Nil_Concat, s)
                   | Some c \<Rightarrow> (Inr (desk (desc_bad_caller c)), s))
              | Some (k, caller_dept) \<Rightarrow>
                  if (case ll_tonumber lib callee of None \<Rightarrow> True | Some x \<Rightarrow> x < 1000 \<or> 9999 < x)
                  then (Inr (desk (desc_bad_number callee)), s)
                  else
                    (case find_department lib (Some callee) of
                       None \<Rightarrow> (Inr (desk (desc_bad_callee callee)), s)
                     | Some (k, d) \<Rightarrow>
                         let state = map_option a_state (rs_agents s callee) in
                         if state = Some ''offline'' then
                           (Inr (make_response 3 (d_short d) (d_name d) (desc_callee_offline callee)), s)
                         else if state = Some ''talking'' then
                           (Inr (make_response 2 callee (d_name d) (desc_callee_talking callee)), s)
                         else
                           (Inr (make_response 0 callee (d_name d)
                              (desc_internal (d_name caller_dept) (or_default [] caller) (d_name d) callee)), s))))"

definition route_call :: "lua_lib \<Rightarrow> bytes option \<Rightarrow> bytes option \<Rightarrow> route_state \<Rightarrow> routed" where
  "route_call lib caller_id digits s =
     (if is_external_caller lib caller_id then
        (case time_judge_route lib s of
           (Inl e, s) \<Rightarrow> (Inl e, s)
         | (Inr r, s) \<Rightarrow>
             if rt_code r = 7 then
               (case get_time_description lib s of (t, s) \<Rightarrow>
                  (Inr (make_response 7 [] [] (desc_closed t (rt_description r))), s))
             else if rt_code r = 6 then (Inr r, s)
             else get_ivr_route lib caller_id digits s)
      else dept_internal_call_route lib caller_id digits s)"

section \<open>Auxiliary functions\<close>

text \<open>Tables the script builds for its callers, as lists of fields.\<close>

type_synonym lua_fields = "(bytes \<times> lua_value) list"

definition get_department_info :: "bytes option \<Rightarrow> route_state \<Rightarrow> lua_fields option" where
  "get_department_info dept_key s =
     (case (dept_key, Option.bind dept_key dept_of) of
        (Some k, Some d) \<Rightarrow>
          Some [(''key'', LString k), (''short'', LString (d_short d)), (''name'', LString (d_name d)),
            (''range_start'', LInteger (d_range_start d)), (''range_end'', LInteger (d_range_end d)),
            (''external'', LBool (d_external d)),
            (''ivr_key'', case d_ivr_key d of None \<Rightarrow> LNil | Some key \<Rightarrow> LString key),
            (''size'', LInteger (d_range_end d - d_range_start d + 1)),
            (''idle_agents'', LInteger (count_idle_agents dept_key s))]
      | _ \<Rightarrow> None)"

text \<open>The order of strings is that of their bytes, as in the locale of a program that sets none.\<close>

definition bytes_less :: "bytes \<Rightarrow> bytes \<Rightarrow> bool" where
  "bytes_less a b \<longleftrightarrow> (a, b) \<in> lexord {(x, y). (of_char x :: nat) < of_char y}"

definition get_ivr_menu :: "lua_lib \<Rightarrow> lua_fields list" where
  "get_ivr_menu lib =
     map (\<lambda>(key, name, k). [(''key'', LString key), (''name'', LString name), (''dept'', LString k)])
       (table_sort lib (\<lambda>a b. bytes_less (fst a) (fst b))
          (List.map_filter (\<lambda>(k, d). if d_external d then map_option (\<lambda>key. (key, d_name d, k)) (d_ivr_key d) else None)
             (ll_pairs lib)))"

definition get_work_time_status :: "lua_lib \<Rightarrow> route_state \<Rightarrow> lua_fields \<times> route_state" where
  "get_work_time_status lib s =
     (let (now, s) = os_date lib s; (work, s) = is_work_time lib s; (t, s) = get_time_description lib s;
          cfg = rs_config s
      in ([(''is_work_time'', LBool work), (''time_desc'', LString t),
           (''current_hour'', LInteger (ck_hour now)), (''current_minute'', LInteger (ck_min now)),
           (''work_start'', LString (show_int2 (start_hour cfg) @ '':'' @ show_int2 (start_minute cfg))),
           (''work_end'', LString (show_int2 (end_hour cfg) @ '':'' @ show_int2 (end_minute cfg)))], s))"

text \<open>The field \<open>work_hours\<close>, a table, is left out: no caller reads it.\<close>

definition get_route_config :: "route_state \<Rightarrow> lua_fields" where
  "get_route_config s =
     (let cfg = rs_config s in
      [(''ivr_timeout'', LInteger (ivr_timeout cfg)), (''external_gateway'', LString (external_gateway cfg)),
       (''fallback_agent'', LString (fallback_agent cfg)), (''max_invalid_keys'', LInteger (max_invalid_keys cfg)),
       (''max_queue_size'', LInteger (max_queue_size cfg)), (''queue_timeout'', LInteger (queue_timeout cfg)),
       (''night_duty_dept'', LString (night_duty_dept cfg))])"

text \<open>
  One assignment of \<open>update_route_config\<close>. A key the configuration does not have is ignored; a value
  of another type than the old one, or a table, is outside this model: \<open>None\<close>.
\<close>

datatype config_value = CV_int int | CV_str bytes

fun set_config :: "bytes \<Rightarrow> config_value \<Rightarrow> route_config \<Rightarrow> route_config option" where
  "set_config k (CV_int i) cfg =
     (if k = ''ivr_timeout'' then Some (cfg\<lparr>ivr_timeout := i\<rparr>)
      else if k = ''max_invalid_keys'' then Some (cfg\<lparr>max_invalid_keys := i\<rparr>)
      else if k = ''max_queue_size'' then Some (cfg\<lparr>max_queue_size := i\<rparr>)
      else if k = ''queue_timeout'' then Some (cfg\<lparr>queue_timeout := i\<rparr>)
      else if k \<in> {''external_gateway'', ''fallback_agent'', ''night_duty_dept'', ''voicemail_prompt'',
        ''work_hours'', ''work_days'', ''overflow_priority''} then None
      else Some cfg)"
| "set_config k (CV_str t) cfg =
     (if k = ''external_gateway'' then Some (cfg\<lparr>external_gateway := t\<rparr>)
      else if k = ''fallback_agent'' then Some (cfg\<lparr>fallback_agent := t\<rparr>)
      else if k = ''night_duty_dept'' then Some (cfg\<lparr>night_duty_dept := t\<rparr>)
      else if k = ''voicemail_prompt'' then Some (cfg\<lparr>voicemail_prompt := t\<rparr>)
      else if k \<in> {''ivr_timeout'', ''max_invalid_keys'', ''max_queue_size'', ''queue_timeout'',
        ''work_hours'', ''work_days'', ''overflow_priority''} then None
      else Some cfg)"

fun set_configs :: "(bytes \<times> config_value) list \<Rightarrow> route_config \<Rightarrow> route_config option" where
  "set_configs [] cfg = Some cfg"
| "set_configs ((k, v) # kvs) cfg = Option.bind (set_config k v cfg) (set_configs kvs)"

definition update_route_config ::
  "lua_lib \<Rightarrow> (bytes \<times> config_value) list option \<Rightarrow> route_state \<Rightarrow> (bool \<times> route_state) option" where
  "update_route_config lib new_config s =
     (case new_config of
        None \<Rightarrow> Some (False, s)
      | Some kvs \<Rightarrow>
          map_option (\<lambda>cfg. (True, route_log_call lib ''INFO'' (Some ''system'') ''config_update''
              desc_config_updated (s\<lparr>rs_config := cfg\<rparr>)))
            (set_configs kvs (rs_config s)))"

definition get_call_logs :: "int option \<Rightarrow> route_state \<Rightarrow> log_entry list" where
  "get_call_logs n s = get_recent_logs (Some (case n of None \<Rightarrow> 20 | Some n \<Rightarrow> n)) s"

definition get_queue_status :: "route_state \<Rightarrow> bytes \<Rightarrow> (int \<times> int) option" where
  "get_queue_status s k =
     map_option (\<lambda>q. (int (length q), max_queue_size (rs_config s))) (rs_queue s k)"

definition reset_invalid_key_count :: "bytes \<Rightarrow> route_state \<Rightarrow> route_state" where
  "reset_invalid_key_count caller_id s =
     s\<lparr>rs_invalid := (rs_invalid s)(caller_id \<mapsto> 0), rs_timeouts := (rs_timeouts s)(caller_id \<mapsto> 0)\<rparr>"

text \<open>Running the script: fresh tables, and every agent idle. What it prints on loading is left out.\<close>

definition script_start :: "lua_lib \<Rightarrow> nat \<Rightarrow> route_state" where
  "script_start lib ticks =
     init_agent_status lib (ll_pairs lib)
       \<lparr>rs_force = LBool False, rs_config = ROUTE_CONFIG, rs_agents = Map.empty, rs_queue = Map.empty,
        rs_invalid = Map.empty, rs_timeouts = Map.empty, rs_log = Map.empty, rs_log_index = 0,
        rs_ticks = ticks\<rparr>"

end
