(* ===== verification/Route_Facts.thy ===== *)
theory Route_Facts
  imports Route_Api "HOL-Library.Multiset"
begin

text \<open>
  What the routing script does with the calls it gets: which department a number or a key belongs to, which
  agent is picked, how retries are counted, and what can never happen because nothing ever
  changes the state of an agent.
\<close>

section \<open>The Lua library as documented\<close>

text \<open>
  \<open>tonumber\<close> reads decimal integers, and no string that starts with another character than
  a digit, a sign, a point or a blank. \<open>table.sort\<close> permutes the elements and puts
  them in order. \<open>pairs\<close> visits every entry once.
\<close>

definition numeric_start :: "char \<Rightarrow> bool" where
  "numeric_start c \<longleftrightarrow> isdigit c \<or> isspace c \<or> c \<in> {CHR ''+'', CHR ''-'', CHR ''.''}"

definition numbers_ok :: "lua_lib \<Rightarrow> bool" where
  "numbers_ok lib \<longleftrightarrow>
     (\<forall>n. 0 \<le> n \<longrightarrow> n < 10 ^ 15 \<longrightarrow> ll_tonumber lib (show_int n) = Some (of_int n)) \<and>
     ll_tonumber lib [] = None \<and> (\<forall>c t. \<not> numeric_start c \<longrightarrow> ll_tonumber lib (c # t) = None)"

definition sort_ok :: "lua_lib \<Rightarrow> bool" where
  "sort_ok lib \<longleftrightarrow> (\<forall>cmp (f :: nat \<Rightarrow> int) n. (\<forall>i<n. \<forall>j<n. cmp i j = (f i < f j)) \<longrightarrow>
     mset (ll_order lib cmp n) = mset [0..<n] \<and> sorted (map f (ll_order lib cmp n)))"

definition pairs_ok :: "lua_lib \<Rightarrow> bool" where
  "pairs_ok lib \<longleftrightarrow> mset (ll_pairs lib) = mset DEPARTMENTS"

definition lua_ok :: "lua_lib \<Rightarrow> bool" where
  "lua_ok lib \<longleftrightarrow> numbers_ok lib \<and> sort_ok lib \<and> pairs_ok lib"

lemma tonumber_int: "lua_ok lib \<Longrightarrow> 0 \<le> n \<Longrightarrow> n < 10 ^ 15 \<Longrightarrow> ll_tonumber lib (show_int n) = Some (of_int n)"
  by (simp add: lua_ok_def numbers_ok_def)

lemma tonumber_other: "lua_ok lib \<Longrightarrow> \<not> numeric_start c \<Longrightarrow> ll_tonumber lib (c # t) = None"
  by (simp add: lua_ok_def numbers_ok_def)

lemma set_pairs: "lua_ok lib \<Longrightarrow> set (ll_pairs lib) = set DEPARTMENTS"
  unfolding lua_ok_def pairs_ok_def by (metis set_mset_mset)

lemma table_sort_by:
  assumes "lua_ok lib" and cmp: "\<And>a b. a \<in> set xs \<Longrightarrow> b \<in> set xs \<Longrightarrow> cmp a b = ((f a :: int) < f b)"
  shows "mset (table_sort lib cmp xs) = mset xs \<and> sorted (map f (table_sort lib cmp xs))"
proof -
  let ?is = "ll_order lib (\<lambda>i j. cmp (xs ! i) (xs ! j)) (length xs)"
  have c: "\<forall>i<length xs. \<forall>j<length xs. cmp (xs ! i) (xs ! j) = (f (xs ! i) < f (xs ! j))"
    by (simp add: cmp)
  have "sort_ok lib" using assms(1) by (simp add: lua_ok_def)
  from this [unfolded sort_ok_def, THEN spec, THEN spec, THEN spec, THEN mp, OF c]
  have m: "mset ?is = mset [0..<length xs]" and s: "sorted (map (\<lambda>i. f (xs ! i)) ?is)" by simp_all
  have "mset (map (nth xs) ?is) = mset (map (nth xs) [0..<length xs])"
    using m by (metis mset_map)
  then have "mset (map (nth xs) ?is) = mset xs" by (simp only: map_nth)
  moreover have "map f (map (nth xs) ?is) = map (\<lambda>i. f (xs ! i)) ?is" by simp
  ultimately show ?thesis using s by (simp only: table_sort_def)
qed

section \<open>Departments\<close>

lemma dept_ranges: "sorted_wrt (\<lambda>p q. d_range_end (snd p) < d_range_start (snd q)) DEPARTMENTS"
  by (simp add: DEPARTMENTS_def)

lemma one_dept:
  assumes "sorted_wrt (\<lambda>p q. d_range_end (snd p) < d_range_start (snd q)) ds"
  shows "p \<in> set ds \<Longrightarrow> q \<in> set ds \<Longrightarrow> in_dept x (snd p) \<Longrightarrow> in_dept x (snd q) \<Longrightarrow> p = q"
  using assms
proof (induction ds)
  case (Cons a ds)
  have sep: "\<not> in_dept x (snd b)" if "b \<in> set ds" "in_dept x (snd a)" for b
  proof
    assume "in_dept x (snd b)"
    with that(2) have "in_dept x (snd a) \<and> in_dept x (snd b)" by simp
    then have "(of_int (d_range_start (snd b)) :: rat) \<le> of_int (d_range_end (snd a))"
      by (auto simp: in_dept_def)
    then show False using Cons.prems(5) that(1) by fastforce
  qed
  with Cons.prems Cons.IH sep [of p] sep [of q] show ?case by (cases "p = a"; cases "q = a") simp_all
qed simp

lemma find_unique:
  assumes "set xs = set ys" and "\<And>a b. a \<in> set ys \<Longrightarrow> b \<in> set ys \<Longrightarrow> P a \<Longrightarrow> P b \<Longrightarrow> a = b"
  shows "find P xs = find P ys"
proof (cases "find P ys")
  case None
  with assms(1) have "find P xs = None" unfolding find_None_iff by blast
  with None show ?thesis by simp
next
  case (Some y)
  have mem: "z \<in> set zs \<and> P z" if "find P zs = Some z" for zs z
    using that unfolding find_Some_iff by (metis nth_mem)
  have y: "y \<in> set ys" "P y" using mem [OF Some] by blast+
  then have "find P xs \<noteq> None" using assms(1) unfolding find_None_iff by blast
  then obtain x where x: "find P xs = Some x" by blast
  from mem [OF x] have "x \<in> set ys" "P x" using assms(1) by blast+
  from assms(2) [OF y(1) this(1) y(2) this(2)] x Some show ?thesis by simp
qed

text \<open>The order in which \<open>pairs\<close> visits the departments does not matter.\<close>

lemma find_dept_order:
  assumes "lua_ok lib"
  shows "find (\<lambda>(k, d). in_dept x d) (ll_pairs lib) = find (\<lambda>(k, d). in_dept x d) DEPARTMENTS"
proof (rule find_unique [OF set_pairs [OF assms]])
  fix a b
  assume "a \<in> set DEPARTMENTS" "b \<in> set DEPARTMENTS" "(\<lambda>(k, d). in_dept x d) a" "(\<lambda>(k, d). in_dept x d) b"
  then show "a = b" using one_dept [OF dept_ranges, of a b x] by (simp add: split_beta)
qed

definition dept_at :: "int \<Rightarrow> (bytes \<times> dept) option" where
  "dept_at n = find (\<lambda>(k, d). d_range_start d \<le> n \<and> n \<le> d_range_end d) DEPARTMENTS"

lemma find_dept_int: "find (\<lambda>(k, d). in_dept (of_int n) d) ds = find (\<lambda>(k, d). d_range_start d \<le> n \<and> n \<le> d_range_end d) ds"
  by (simp add: in_dept_def)

lemma dept_of_mem: "(k, d) \<in> set DEPARTMENTS \<Longrightarrow> dept_of k = Some d"
  by (rule map_of_is_SomeI) (simp_all add: DEPARTMENTS_def)

lemma dept_at_range: "dept_at n = Some (k, d) \<Longrightarrow> 1001 \<le> n \<and> n \<le> 9050 \<and> dept_of k = Some d \<and> (k, d) \<in> set DEPARTMENTS"
proof -
  assume "dept_at n = Some (k, d)"
  then have m: "(k, d) \<in> set DEPARTMENTS" and r: "d_range_start d \<le> n" "n \<le> d_range_end d"
    unfolding dept_at_def by (auto simp: find_Some_iff dest: nth_mem)
  have "list_all (\<lambda>(k, d). 1001 \<le> d_range_start d \<and> d_range_end d \<le> 9050) DEPARTMENTS" by (simp add: DEPARTMENTS_def)
  with m have "1001 \<le> d_range_start d \<and> d_range_end d \<le> 9050" by (auto simp: list_all_iff)
  with r m dept_of_mem [OF m] show ?thesis by simp
qed

lemma find_department_int:
  assumes "lua_ok lib" and "0 \<le> n" and "n < 10 ^ 15"
  shows "find_department lib (Some (show_int n)) = dept_at n"
proof -
  have "find_department lib (Some (show_int n)) = find (\<lambda>(k, d). in_dept (of_int n) d) (ll_pairs lib)"
    using tonumber_int [OF assms] by (simp add: find_department_def)
  also have "\<dots> = find (\<lambda>(k, d). in_dept (of_int n) d) DEPARTMENTS" by (rule find_dept_order [OF assms(1)])
  also have "\<dots> = dept_at n" by (simp only: find_dept_int dept_at_def)
  finally show ?thesis .
qed

section \<open>Keys\<close>

lemma ivr_map_hit:
  assumes "(k, d) \<in> set ds" and "d_ivr_key d = Some key"
    and "\<And>k' d'. (k', d') \<in> set ds \<Longrightarrow> d_ivr_key d' = Some key \<Longrightarrow> k' = k"
  shows "build_ivr_map ds m key = Some k"
proof -
  have keep: "m key = Some k \<Longrightarrow> (\<And>k' d'. (k', d') \<in> set ds \<Longrightarrow> d_ivr_key d' = Some key \<Longrightarrow> k' = k) \<Longrightarrow>
      build_ivr_map ds m key = Some k" for ds m
  proof (induction ds m rule: build_ivr_map.induct)
    case (2 k1 d1 ds m)
    show ?case by (simp, rule "2.IH") (use "2.prems" in \<open>auto split: option.split\<close>)
  qed simp
  show ?thesis
    using assms
  proof (induction ds m rule: build_ivr_map.induct)
    case (2 k1 d1 ds m)
    show ?case
    proof (cases "(k, d) = (k1, d1)")
      case True
      then have "(case d_ivr_key d1 of None \<Rightarrow> m | Some key \<Rightarrow> m(key \<mapsto> k1)) key = Some k"
        using "2.prems"(2) by simp
      moreover have "\<And>k' d'. (k', d') \<in> set ds \<Longrightarrow> d_ivr_key d' = Some key \<Longrightarrow> k' = k"
        using "2.prems"(3) by auto
      ultimately show ?thesis by (simp only: build_ivr_map.simps) (rule keep)
    next
      case False
      then have "(k, d) \<in> set ds" using "2.prems"(1) by auto
      then have "build_ivr_map ds (case d_ivr_key d1 of None \<Rightarrow> m | Some key \<Rightarrow> m(key \<mapsto> k1)) key = Some k"
        using "2.prems"(2) by (rule "2.IH") (use "2.prems"(3) in auto)
      then show ?thesis by simp
    qed
  qed simp
qed

lemma ivr_map_miss:
  "(\<And>k d. (k, d) \<in> set ds \<Longrightarrow> d_ivr_key d \<noteq> Some key) \<Longrightarrow> build_ivr_map ds m key = m key"
proof (induction ds m rule: build_ivr_map.induct)
  case (2 k d ds m)
  have "build_ivr_map ds (case d_ivr_key d of None \<Rightarrow> m | Some key \<Rightarrow> m(key \<mapsto> k)) key =
    (case d_ivr_key d of None \<Rightarrow> m | Some key \<Rightarrow> m(key \<mapsto> k)) key"
    by (rule "2.IH") (use "2.prems" in auto)
  moreover have "d_ivr_key d \<noteq> Some key" using "2.prems" by auto
  ultimately show ?case by (auto split: option.split)
qed simp

text \<open>The menu of the greeting.\<close>

definition menu_dept :: "bytes \<Rightarrow> bytes option" where
  "menu_dept key =
     (if key = ''1'' then Some ''sales'' else if key = ''2'' then Some ''service''
      else if key = ''3'' then Some ''market'' else if key = ''0'' then Some ''support'' else None)"

lemma menu_keys: "(k, d) \<in> set DEPARTMENTS \<Longrightarrow> d_ivr_key d = Some key \<Longrightarrow> menu_dept key = Some k \<and> d_external d"
proof -
  have "list_all (\<lambda>(k, d). \<forall>key. d_ivr_key d = Some key \<longrightarrow> menu_dept key = Some k \<and> d_external d) DEPARTMENTS"
    by (simp add: DEPARTMENTS_def menu_dept_def)
  then show "(k, d) \<in> set DEPARTMENTS \<Longrightarrow> d_ivr_key d = Some key \<Longrightarrow> menu_dept key = Some k \<and> d_external d"
    unfolding list_all_iff by fast
qed

lemma menu_found:
  assumes "menu_dept key = Some k"
  shows "\<exists>d. dept_of k = Some d \<and> d_external d \<and> d_ivr_key d = Some key"
proof -
  have "map_option (\<lambda>d. (d_external d, d_ivr_key d)) (dept_of k) = Some (True, Some key)"
    using assms unfolding menu_dept_def by (auto simp: DEPARTMENTS_def split: if_splits)
  then show ?thesis by auto
qed

lemma IVR_MAP_menu:
  assumes "lua_ok lib"
  shows "IVR_MAP lib key = menu_dept key"
proof (cases "menu_dept key")
  case None
  have "IVR_MAP lib key = Map.empty key"
    unfolding IVR_MAP_def
  proof (rule ivr_map_miss)
    fix k d
    assume "(k, d) \<in> set (ll_pairs lib)"
    then show "d_ivr_key d \<noteq> Some key" using None menu_keys unfolding set_pairs [OF assms] by fastforce
  qed
  with None show ?thesis by simp
next
  case (Some k)
  then obtain d where "dept_of k = Some d" "d_ivr_key d = Some key" using menu_found by blast
  then have "(k, d) \<in> set (ll_pairs lib)" unfolding set_pairs [OF assms] by (simp add: map_of_SomeD)
  then have "build_ivr_map (ll_pairs lib) Map.empty key = Some k"
  proof (rule ivr_map_hit [OF _ \<open>d_ivr_key d = Some key\<close>])
    fix k' d'
    assume "(k', d') \<in> set (ll_pairs lib)" "d_ivr_key d' = Some key"
    then show "k' = k" using Some menu_keys unfolding set_pairs [OF assms] by fastforce
  qed
  with Some show ?thesis by (simp add: IVR_MAP_def)
qed

end
