(* ===== verification/Route_State.thy ===== *)
theory Route_State
  imports Route_Facts
begin

text \<open>
  The states the script can be in. Every function a caller can reach leaves the agents as they
  are, idle from the start on: what follows from that for each interface is proved here.
\<close>

section \<open>Clock and log\<close>

text \<open>States that differ in the clock and the log only.\<close>

definition ticked :: "route_state \<Rightarrow> route_state \<Rightarrow> bool" where
  "ticked s s' \<longleftrightarrow> rs_agents s' = rs_agents s \<and> rs_config s' = rs_config s \<and> rs_queue s' = rs_queue s \<and>
     rs_invalid s' = rs_invalid s \<and> rs_timeouts s' = rs_timeouts s \<and> rs_force s' = rs_force s"

lemma ticked_refl [simp]: "ticked s s"
  by (simp add: ticked_def)

lemma ticked_trans: "ticked s s' \<Longrightarrow> ticked s' s'' \<Longrightarrow> ticked s s''"
  by (simp add: ticked_def)

lemma tickedD:
  assumes "ticked s s'"
  shows "rs_agents s' = rs_agents s" "rs_config s' = rs_config s" "rs_queue s' = rs_queue s"
    "rs_invalid s' = rs_invalid s" "rs_timeouts s' = rs_timeouts s" "rs_force s' = rs_force s"
  using assms by (auto simp: ticked_def)

lemma ticked_work [simp]: "ticked s (snd (is_work_time lib s))"
  by (simp add: is_work_time_def os_date_def ticked_def Let_def)

lemma ticked_description [simp]: "ticked s (snd (get_time_description lib s))"
proof -
  have "ticked s (snd (os_date lib s))" by (simp add: os_date_def ticked_def)
  from ticked_trans [OF this ticked_work] show ?thesis by (simp add: get_time_description_def split_beta)
qed

lemma ticked_log [simp]: "ticked s (route_log_call lib l c e d s)"
  by (simp add: route_log_call_def os_time_def ticked_def Let_def)

lemma ticked_cleanup: "rs_queue s = Map.empty \<Longrightarrow> ticked s (queue_cleanup lib s)"
  by (simp add: queue_cleanup_def os_time_def ticked_def)

section \<open>Idle agents\<close>

definition all_idle :: "route_state \<Rightarrow> bool" where
  "all_idle s \<longleftrightarrow>
     (\<forall>x a. rs_agents s x = Some a \<longrightarrow> a_state a = ''idle'' \<and> a_extension a = x) \<and>
     (\<forall>k d e. (k, d) \<in> set DEPARTMENTS \<longrightarrow> d_range_start d \<le> e \<longrightarrow> e \<le> d_range_end d \<longrightarrow>
        rs_agents s (show_int e) \<noteq> None)"

lemma dept_not_empty: "(k, d) \<in> set DEPARTMENTS \<Longrightarrow> d_range_start d < d_range_end d"
proof -
  have "list_all (\<lambda>(k, d). d_range_start d < d_range_end d) DEPARTMENTS" by (simp add: DEPARTMENTS_def)
  then show "(k, d) \<in> set DEPARTMENTS \<Longrightarrow> d_range_start d < d_range_end d" by (auto simp: list_all_iff)
qed

lemma dept_agents_idle:
  assumes i: "all_idle s" and k: "dept_of k = Some d"
  shows "idle_agents (Some k) s = get_dept_agents (Some k) s"
    and "map a_extension (get_dept_agents (Some k) s) = map show_int [d_range_start d..d_range_end d]"
    and "get_dept_agents (Some k) s \<noteq> []"
proof -
  have kd: "(k, d) \<in> set DEPARTMENTS" using k by (rule map_of_SomeD)
  let ?es = "[d_range_start d..d_range_end d]"
  have all: "\<exists>a. rs_agents s (show_int e) = Some a \<and> a_state a = ''idle'' \<and> a_extension a = show_int e"
    if "e \<in> set ?es" for e
  proof -
    have "rs_agents s (show_int e) \<noteq> None" using i kd that unfolding all_idle_def by simp
    with i show ?thesis unfolding all_idle_def by blast
  qed
  have g: "get_dept_agents (Some k) s = map (\<lambda>e. the (rs_agents s (show_int e))) ?es"
  proof -
    have "\<forall>e\<in>set es. rs_agents s (show_int e) \<noteq> None \<Longrightarrow>
        List.map_filter (\<lambda>e. rs_agents s (show_int e)) es = map (\<lambda>e. the (rs_agents s (show_int e))) es" for es
      by (induction es) (auto simp: List.map_filter_def)
    then show ?thesis using all by (fastforce simp: get_dept_agents_def k)
  qed
  show "idle_agents (Some k) s = get_dept_agents (Some k) s"
    unfolding idle_agents_def g by (rule filter_True) (use all in fastforce)
  show "map a_extension (get_dept_agents (Some k) s) = map show_int ?es"
    unfolding g map_map by (rule map_cong [OF refl]) (use all in fastforce)
  show "get_dept_agents (Some k) s \<noteq> []" unfolding g using dept_not_empty [OF kd] by simp
qed

text \<open>The agent the script picks: one of the idle ones that has been idle longest.\<close>

lemma pick_longest_idle:
  assumes "lua_ok lib" and ne: "idle_agents k s \<noteq> []"
  shows "\<exists>a. pick_idle_agent lib k s = Some a \<and> a \<in> set (idle_agents k s) \<and>
    (\<forall>b\<in>set (idle_agents k s). a_last_active a \<le> a_last_active b)"
proof -
  let ?xs = "idle_agents k s"
  let ?ys = "table_sort lib (\<lambda>a b. a_last_active a < a_last_active b) ?xs"
  have t: "mset ?ys = mset ?xs" "sorted (map a_last_active ?ys)"
    using table_sort_by [OF assms(1), where f = a_last_active and xs = ?xs] by auto
  have set: "set ?ys = set ?xs" using t(1) by (metis set_mset_mset)
  have "?ys \<noteq> []" using ne t(1) by (metis mset_zero_iff)
  then obtain y zs where y: "?ys = y # zs" by (cases ?ys) auto
  then have "\<forall>b\<in>set ?ys. a_last_active y \<le> a_last_active b" using t(2) by auto
  with set y ne show ?thesis by (auto simp: pick_idle_agent_def Let_def)
qed

lemma pick_in_dept:
  assumes "lua_ok lib" and i: "all_idle s" and k: "dept_of k = Some d"
  shows "\<exists>a e. pick_idle_agent lib (Some k) s = Some a \<and> a_extension a = show_int e \<and>
    d_range_start d \<le> e \<and> e \<le> d_range_end d \<and> rs_agents s (show_int e) = Some a \<and>
    (\<forall>b\<in>set (get_dept_agents (Some k) s). a_last_active a \<le> a_last_active b)"
proof -
  note D = dept_agents_idle [OF i k]
  obtain a where a: "pick_idle_agent lib (Some k) s = Some a" "a \<in> set (get_dept_agents (Some k) s)"
    "\<forall>b\<in>set (get_dept_agents (Some k) s). a_last_active a \<le> a_last_active b"
    using pick_longest_idle [OF assms(1), of "Some k" s] D(1,3) by auto
  have "a_extension a \<in> set (map a_extension (get_dept_agents (Some k) s))" using a(2) by simp
  then obtain e where e: "a_extension a = show_int e" "d_range_start d \<le> e" "e \<le> d_range_end d"
    unfolding D(2) by auto
  have "rs_agents s (a_extension a) = Some a"
    using a(2) i k by (auto simp: get_dept_agents_def List.map_filter_def all_idle_def)
  with a e show ?thesis by auto
qed

lemma idle_cong:
  assumes "rs_agents s' = rs_agents s"
  shows "get_dept_agents k s' = get_dept_agents k s" "idle_agents k s' = idle_agents k s"
    "count_idle_agents k s' = count_idle_agents k s" "pick_idle_agent lib k s' = pick_idle_agent lib k s"
proof -
  show g: "get_dept_agents k s' = get_dept_agents k s" unfolding get_dept_agents_def assms by (rule refl)
  show "idle_agents k s' = idle_agents k s" "count_idle_agents k s' = count_idle_agents k s"
    "pick_idle_agent lib k s' = pick_idle_agent lib k s"
    by (simp_all add: idle_agents_def count_idle_agents_def pick_idle_agent_def g)
qed

lemma check_status_idle:
  assumes i: "all_idle s" "rs_queue s = Map.empty" and k: "dept_of k = Some d"
  shows "\<exists>r s'. check_agent_status lib (Some k) s = (r, s') \<and> rt_code r = 0 \<and> ticked s s'"
proof -
  let ?s = "queue_cleanup lib s"
  have t: "ticked s ?s" by (rule ticked_cleanup [OF i(2)])
  have "get_dept_agents (Some k) ?s = get_dept_agents (Some k) s" using idle_cong [OF tickedD(1) [OF t]] by simp
  moreover have "filter (\<lambda>a. a_state a = ''idle'') (get_dept_agents (Some k) s) = get_dept_agents (Some k) s"
    using dept_agents_idle(1) [OF i(1) k] by (simp add: idle_agents_def)
  moreover from this have "filter (\<lambda>a. a_state a \<noteq> ''idle'' \<and> a_state a \<noteq> ''talking'' \<and> a_state a \<noteq> ''busy'')
      (get_dept_agents (Some k) s) = []"
    by (auto simp: filter_empty_conv filter_id_conv)
  ultimately show ?thesis
    using t dept_agents_idle(3) [OF i(1) k] k by (simp add: check_agent_status_def Let_def make_response_def)
qed

section \<open>The invariant of the script\<close>

definition script_inv :: "route_state \<Rightarrow> bool" where
  "script_inv s \<longleftrightarrow> all_idle s \<and> rs_config s = ROUTE_CONFIG \<and> rs_queue s = Map.empty \<and>
     (\<forall>c n. rs_invalid s c = Some n \<longrightarrow> 0 \<le> n \<and> n < 3) \<and> (\<forall>c n. rs_timeouts s c = Some n \<longrightarrow> 0 \<le> n \<and> n < 2)"

text \<open>The retries of a caller: wrong keys, timeouts.\<close>

definition retries :: "route_state \<Rightarrow> bytes \<Rightarrow> int \<times> int" where
  "retries s c = (case rs_invalid s c of None \<Rightarrow> 0 | Some n \<Rightarrow> n, case rs_timeouts s c of None \<Rightarrow> 0 | Some n \<Rightarrow> n)"

text \<open>What a step leaves alone.\<close>

definition kept :: "route_state \<Rightarrow> route_state \<Rightarrow> bool" where
  "kept s s' \<longleftrightarrow> rs_agents s' = rs_agents s \<and> rs_force s' = rs_force s"

lemma inv_ticked: "ticked s s' \<Longrightarrow> script_inv s \<Longrightarrow> script_inv s' \<and> kept s s' \<and> retries s' = retries s"
  by (auto simp: ticked_def script_inv_def all_idle_def kept_def retries_def fun_eq_iff)

lemma kept_refl [simp]: "kept s s"
  by (simp add: kept_def)

lemma kept_trans: "kept s s' \<Longrightarrow> kept s' s'' \<Longrightarrow> kept s s''"
  by (simp add: kept_def)

lemma retries_range:
  assumes "script_inv s"
  shows "0 \<le> fst (retries s c)" "fst (retries s c) \<le> 2" "0 \<le> snd (retries s c)" "snd (retries s c) \<le> 1"
proof -
  have i: "rs_invalid s c = Some n \<Longrightarrow> 0 \<le> n \<and> n < 3" and t: "rs_timeouts s c = Some n \<Longrightarrow> 0 \<le> n \<and> n < 2" for n
    using assms unfolding script_inv_def by blast+
  show "0 \<le> fst (retries s c)" "fst (retries s c) \<le> 2" "0 \<le> snd (retries s c)" "snd (retries s c) \<le> 1"
    using i t by (fastforce simp: retries_def split: option.split)+
qed

lemma inv_invalid:
  assumes "script_inv s" and "0 \<le> n" and "n < 3"
  shows "script_inv (s\<lparr>rs_invalid := (rs_invalid s)(c \<mapsto> n)\<rparr>)"
    and "retries (s\<lparr>rs_invalid := (rs_invalid s)(c \<mapsto> n)\<rparr>) = (retries s)(c := (n, snd (retries s c)))"
  using assms by (auto simp: script_inv_def all_idle_def retries_def)

lemma inv_timeouts:
  assumes "script_inv s" and "0 \<le> n" and "n < 2"
  shows "script_inv (s\<lparr>rs_timeouts := (rs_timeouts s)(c \<mapsto> n)\<rparr>)"
    and "retries (s\<lparr>rs_timeouts := (rs_timeouts s)(c \<mapsto> n)\<rparr>) = (retries s)(c := (fst (retries s c), n))"
  using assms by (auto simp: script_inv_def all_idle_def retries_def)

section \<open>The interfaces in such a state\<close>

text \<open>The agent a department's calls go to.\<close>

definition dept_agent :: "lua_lib \<Rightarrow> bytes \<Rightarrow> route_state \<Rightarrow> bytes" where
  "dept_agent lib k s = agent_or [] (pick_idle_agent lib (Some k) s)"

lemma dept_agent_kept: "kept s s' \<Longrightarrow> dept_agent lib k s' = dept_agent lib k s"
  using idle_cong(4) [of s' s] by (simp add: kept_def dept_agent_def)

lemma agent_or_pick:
  assumes "lua_ok lib" and "script_inv s" and "dept_of k = Some d"
  shows "agent_or x (pick_idle_agent lib (Some k) s) = dept_agent lib k s"
  using pick_in_dept [OF assms(1) _ assms(3)] assms(2) by (fastforce simp: script_inv_def dept_agent_def agent_or_def)

lemma support_dept: "\<exists>d. dept_of ''support'' = Some d \<and> d_name d = service_desk"
  by (simp add: DEPARTMENTS_def service_desk_def)

lemma agent_or_support:
  "lua_ok lib \<Longrightarrow> script_inv s \<Longrightarrow> agent_or x (pick_idle_agent lib (Some ''support'') s) = dept_agent lib ''support'' s"
  using agent_or_pick support_dept by blast

definition desk_response :: "lua_lib \<Rightarrow> route_state \<Rightarrow> bytes \<Rightarrow> route_table" where
  "desk_response lib s desc = make_response 4 (dept_agent lib ''support'' s) service_desk desc"

lemma or_default_simps [simp]: "or_default d (Some x) = x" "or_default d None = d"
  by (simp_all add: or_default_def)

lemma invalid_key_step:
  assumes l: "lua_ok lib" and i: "script_inv s" and c: "c = or_default ''unknown'' caller"
    and n: "retries s c = (n, t)"
  shows "\<exists>s'. invalid_key_fallback lib caller (Some key) s =
      (if n = 2 then desk_response lib s (desc_invalid_limit 3 key)
       else make_response 9 [] [] (desc_invalid_retry key (n + 1) 3), s') \<and>
    script_inv s' \<and> kept s s' \<and> retries s' = (retries s)(c := (if n = 2 then 0 else n + 1, t))"
proof -
  have r: "0 \<le> n" "n \<le> 2" using retries_range(1,2) [OF i, of c] n by simp_all
  have e: "(case rs_invalid s c of None \<Rightarrow> 0 | Some n \<Rightarrow> n) = n" using n by (simp add: retries_def)
  have cfg: "rs_config s = ROUTE_CONFIG" using i by (simp add: script_inv_def)
  define s1 where "s1 = s\<lparr>rs_invalid := (rs_invalid s)(c \<mapsto> n + 1)\<rparr>"
  have m: "max_invalid_keys (rs_config s1) = 3" using cfg by (simp add: s1_def ROUTE_CONFIG_def)
  define s2 where "s2 = route_log_call lib ''WARN'' (Some c) ''invalid_key''
    (''key='' @ key @ '' count='' @ show_int (n + 1) @ ''/'' @ show_int 3) s1"
  have t2: "ticked s1 s2" by (simp add: s2_def)
  let ?s3 = "s2\<lparr>rs_invalid := (rs_invalid s2)(c \<mapsto> 0)\<rparr>"
  have main: "invalid_key_fallback lib caller (Some key) s =
      (if 3 \<le> n + 1 then (make_response 4 (agent_or (fallback_agent (rs_config ?s3))
           (pick_idle_agent lib (Some ''support'') ?s3)) service_desk (desc_invalid_limit (n + 1) key), ?s3)
       else (make_response 9 [] [] (desc_invalid_retry key (n + 1) 3), s2))"
    by (simp only: invalid_key_fallback_def Let_def or_default_simps c [symmetric] e s1_def [symmetric] m s2_def)
  have k2: "kept s s2" using tickedD(1,6) [OF t2] by (simp add: kept_def s1_def)
  show ?thesis
  proof (cases "n = 2")
    case False
    then have s1: "script_inv s1" "retries s1 = (retries s)(c := (n + 1, t))"
      using inv_invalid [OF i, of "n + 1" c] r n by (simp_all add: s1_def)
    with inv_ticked [OF t2] k2 False r show ?thesis by (simp add: main)
  next
    case True
    have eq: "ticked (s\<lparr>rs_invalid := (rs_invalid s)(c \<mapsto> 0)\<rparr>) ?s3"
      using t2 by (simp add: ticked_def s1_def)
    have s3: "script_inv ?s3" "retries ?s3 = (retries s)(c := (0, t))"
      using inv_ticked [OF eq] inv_invalid [OF i, of 0 c] n by simp_all
    have k3: "kept s ?s3" using k2 by (simp add: kept_def)
    have "agent_or x (pick_idle_agent lib (Some ''support'') ?s3) = dept_agent lib ''support'' s" for x
      using agent_or_support [OF l s3(1)] dept_agent_kept [OF k3] by simp
    with s3 k3 True show ?thesis by (simp add: main desk_response_def)
  qed
qed

lemma timeout_step:
  assumes l: "lua_ok lib" and i: "script_inv s" and c: "c = or_default ''unknown'' caller"
    and n: "retries s c = (n, t)"
  shows "\<exists>s'. timeout_fallback lib caller s =
      (if t = 1 then desk_response lib s (desc_timeout_limit 2)
       else make_response 8 [] [] (desc_timeout_retry 1 5), s') \<and>
    script_inv s' \<and> kept s s' \<and> retries s' = (retries s)(c := (n, if t = 1 then 0 else 1))"
proof -
  have r: "t = 0 \<or> t = 1" using retries_range(3,4) [OF i, of c] n by auto
  have e: "(case rs_timeouts s c of None \<Rightarrow> 0 | Some n \<Rightarrow> n) = t" using n by (simp add: retries_def)
  define s1 where "s1 = s\<lparr>rs_timeouts := (rs_timeouts s)(c \<mapsto> t + 1)\<rparr>"
  define s2 where "s2 = route_log_call lib ''INFO'' (Some c) ''timeout'' (''retry='' @ show_int (t + 1)) s1"
  have t2: "ticked s1 s2" by (simp add: s2_def)
  have m: "ivr_timeout (rs_config s2) = 5"
    using i tickedD(2) [OF t2] by (simp add: script_inv_def s1_def ROUTE_CONFIG_def)
  let ?s3 = "s2\<lparr>rs_timeouts := (rs_timeouts s2)(c \<mapsto> 0)\<rparr>"
  have main: "timeout_fallback lib caller s =
      (if 2 \<le> t + 1 then (make_response 4 (agent_or (fallback_agent (rs_config ?s3))
           (pick_idle_agent lib (Some ''support'') ?s3)) service_desk (desc_timeout_limit (t + 1)), ?s3)
       else (make_response 8 [] [] (desc_timeout_retry (t + 1) 5), s2))"
    by (simp only: timeout_fallback_def Let_def c [symmetric] e s1_def [symmetric] s2_def [symmetric] m)
  have k2: "kept s s2" using tickedD(1,6) [OF t2] by (simp add: kept_def s1_def)
  show ?thesis
  proof (cases "t = 1")
    case False
    then have "t = 0" using r by simp
    moreover from this have s1: "script_inv s1" "retries s1 = (retries s)(c := (n, 1))"
      using inv_timeouts [OF i, of 1 c] n by (simp_all add: s1_def)
    ultimately show ?thesis using inv_ticked [OF t2] k2 by (simp add: main)
  next
    case True
    have eq: "ticked (s\<lparr>rs_timeouts := (rs_timeouts s)(c \<mapsto> 0)\<rparr>) ?s3"
      using t2 by (simp add: ticked_def s1_def)
    have s3: "script_inv ?s3" "retries ?s3 = (retries s)(c := (n, 0))"
      using inv_ticked [OF eq] inv_timeouts [OF i, of 0 c] n by simp_all
    have k3: "kept s ?s3" using k2 by (simp add: kept_def)
    have "agent_or x (pick_idle_agent lib (Some ''support'') ?s3) = dept_agent lib ''support'' s" for x
      using agent_or_support [OF l s3(1)] dept_agent_kept [OF k3] by simp
    with s3 k3 True show ?thesis by (simp add: main desk_response_def)
  qed
qed

end
