(* ===== verification/Route_Runs.thy ===== *)
theory Route_Runs
  imports Route_State
begin

text \<open>
  What the routing script decides, as a function of what was dialled, of the retries of the caller and of
  whether it is working time; and the runs of the script.
\<close>

section \<open>Numbers\<close>

text \<open>The number a text is the decimal representation of.\<close>

definition number :: "bytes \<Rightarrow> int option" where
  "number t = (let n = fst (scan_digits 0 t) in if show_nat n = t then Some (int n) else None)"

text \<open>Texts whose reading does not depend on the finer points of \<open>tonumber\<close>.\<close>

definition plain_text :: "bytes \<Rightarrow> bool" where
  "plain_text t \<longleftrightarrow>
     t = [] \<or> \<not> numeric_start (hd t) \<or> (case number t of None \<Rightarrow> False | Some n \<Rightarrow> n < 10 ^ 15)"

lemma number_text: "number t = Some n \<Longrightarrow> t = show_int n \<and> 0 \<le> n"
  by (auto simp: number_def show_int_def Let_def split: if_splits)

lemma number_start: "number (c # t) = Some n \<Longrightarrow> numeric_start c"
proof -
  assume "number (c # t) = Some n"
  then have "c # t = show_nat (nat n)" using number_text [of "c # t" n] by (simp add: show_int_def)
  then have "c \<in> set (show_nat (nat n))" by (metis list.set_intros(1))
  then show "numeric_start c" using show_nat_digits by (simp add: numeric_start_def)
qed

lemma number_empty [simp]: "number [] = None"
  by (simp add: number_def Let_def)

lemma isdigit_val: "isdigit c \<Longrightarrow> digit_val c < 10 \<and> digit (digit_val c) = c"
  by (auto simp: isdigit_def digit_val_def digit_def)

lemma scan_snoc: "list_all isdigit s \<Longrightarrow> isdigit c \<Longrightarrow>
  fst (scan_digits 0 (s @ [c])) = fst (scan_digits 0 s) * 10 + digit_val c"
  using scan_digits_append [of s 0 "[c]"] by (simp add: list_all_iff)

lemma show_scan:
  "s \<noteq> [] \<Longrightarrow> list_all isdigit s \<Longrightarrow> hd s \<noteq> CHR ''0'' \<or> s = ''0'' \<Longrightarrow>
    show_nat (fst (scan_digits 0 s)) = s \<and> fst (scan_digits 0 s) < 10 ^ length s"
proof (induction s rule: rev_induct)
  case (snoc c s)
  have c: "isdigit c" "list_all isdigit s" using snoc.prems(2) by simp_all
  let ?n = "fst (scan_digits 0 s)"
  show ?case
  proof (cases "s = []")
    case True
    then show ?thesis using isdigit_val [OF c(1)] c(1) by (simp add: show_nat.simps)
  next
    case False
    then have h: "hd s \<noteq> CHR ''0''" using snoc.prems(3) by (cases s) auto
    from snoc.IH [OF False c(2)] h have ih: "show_nat ?n = s" "?n < 10 ^ length s" by simp_all
    have "show_nat 0 = ''0''" by code_simp
    with ih(1) h have "?n \<noteq> 0" by (metis list.sel(1))
    then have "show_nat (?n * 10 + digit_val c) = s @ [c]"
      using isdigit_val [OF c(1)] ih(1) by (subst show_nat.simps) simp
    then show ?thesis using ih(2) isdigit_val [OF c(1)] by (simp add: scan_snoc [OF c(2,1)])
  qed
qed simp

lemma number_digits:
  "s \<noteq> [] \<Longrightarrow> list_all isdigit s \<Longrightarrow> hd s \<noteq> CHR ''0'' \<or> s = ''0'' \<Longrightarrow> number s = Some (int (fst (scan_digits 0 s)))"
  using show_scan by (simp add: number_def Let_def)

lemma number_other: "\<not> numeric_start c \<Longrightarrow> number (c # s) = None"
  using number_start by (cases "number (c # s)") auto

lemma plain_digits:
  assumes "list_all isdigit s" and "hd s \<noteq> CHR ''0'' \<or> s = ''0''" and "length s \<le> 15"
  shows "plain_text s"
proof (cases "s = []")
  case False
  from show_scan [OF False assms(1,2)] have
    n: "show_nat (fst (scan_digits 0 s)) = s" "fst (scan_digits 0 s) < 10 ^ length s" by simp_all
  have "(10 :: nat) ^ length s \<le> 10 ^ 15" by (rule power_increasing [OF assms(3)]) simp
  with n(2) have "fst (scan_digits 0 s) < 10 ^ 15" by linarith
  with n(1) show ?thesis by (simp add: plain_text_def number_def Let_def)
qed (simp add: plain_text_def)

lemma plain_tonumber:
  assumes l: "lua_ok lib" and p: "plain_text t"
  shows "ll_tonumber lib t = map_option of_int (number t)"
proof (cases "number t")
  case None
  with p consider "t = []" | c u where "t = c # u" "\<not> numeric_start c"
    unfolding plain_text_def by (cases t) auto
  then show ?thesis
  proof cases
    case 1
    with l show ?thesis by (simp add: lua_ok_def numbers_ok_def)
  next
    case 2
    with None tonumber_other [OF l] show ?thesis by simp
  qed
next
  case (Some n)
  from number_text [OF Some] have t: "t = show_int n" "0 \<le> n" by simp_all
  have "n < 10 ^ 15"
  proof (cases t)
    case Nil
    with Some show ?thesis by simp
  next
    case (Cons c u)
    with p Some number_start [of c u n] show ?thesis unfolding plain_text_def by auto
  qed
  from tonumber_int [OF l t(2) this] Some t(1) show ?thesis by simp
qed

lemma find_department_plain:
  assumes "lua_ok lib" and "plain_text t"
  shows "find_department lib (Some t) = Option.bind (number t) dept_at"
  using plain_tonumber [OF assms] find_dept_order [OF assms(1)]
  by (simp add: find_department_def find_dept_int dept_at_def split: option.split)

section \<open>The decision\<close>

text \<open>Callers that are no extension of a department.\<close>

definition external :: "bytes \<Rightarrow> bool" where
  "external c \<longleftrightarrow> take 3 c = ''400'' \<or> Option.bind (number c) dept_at = None"

type_synonym decision = "int \<times> bytes \<times> bytes"

definition decision_of :: "route_table \<Rightarrow> decision" where
  "decision_of r = (rt_code r, rt_target r, rt_department r)"

lemma decision_make_response [simp]: "decision_of (make_response c t d e) = (c, t, d)"
  by (simp add: decision_of_def make_response_def)

definition name_of :: "bytes \<Rightarrow> bytes" where
  "name_of k = (case dept_of k of None \<Rightarrow> [] | Some d \<Rightarrow> d_name d)"

definition ivr_decision :: "(bytes \<Rightarrow> bytes) \<Rightarrow> bytes \<Rightarrow> int \<times> int \<Rightarrow> decision \<times> int \<times> int" where
  "ivr_decision agent key = (\<lambda>(n, t).
     if key = [] then
       if t = 1 then ((4, agent ''support'', service_desk), n, 0) else ((8, [], []), n, 1)
     else case menu_dept key of
       Some k \<Rightarrow> ((0, agent k, name_of k), n, t)
     | None \<Rightarrow>
         if n = 2 then ((4, agent ''support'', service_desk), 0, t) else ((9, [], []), n + 1, t))"

definition internal_decision :: "bytes \<Rightarrow> decision" where
  "internal_decision callee =
     (case Option.bind (number callee) dept_at of
        None \<Rightarrow> (1, ''9000'', service_desk)
      | Some (k, d) \<Rightarrow> (0, callee, d_name d))"

definition route_decision ::
  "(bytes \<Rightarrow> bytes) \<Rightarrow> bool \<Rightarrow> bytes \<Rightarrow> bytes \<Rightarrow> int \<times> int \<Rightarrow> decision \<times> int \<times> int" where
  "route_decision agent work caller digits nt =
     (if external caller then
        if work then ivr_decision agent digits nt else ((6, agent ''support'', service_desk), nt)
      else (internal_decision digits, nt))"

text \<open>What a call of the script is, seen from outside.\<close>

definition step_to :: "route_state \<Rightarrow> bytes \<Rightarrow> int \<times> int \<Rightarrow> route_state \<Rightarrow> bool" where
  "step_to s c nt s' \<longleftrightarrow> script_inv s' \<and> kept s s' \<and> retries s' = (retries s)(c := nt)"

lemma step_to_ticked: "script_inv s \<Longrightarrow> ticked s s' \<Longrightarrow> step_to s c (retries s c) s'"
  using inv_ticked by (simp add: step_to_def)

lemma step_to_after: "script_inv s \<Longrightarrow> ticked s s1 \<Longrightarrow> step_to s1 c nt s2 \<Longrightarrow> step_to s c nt s2"
  using inv_ticked [of s s1] kept_trans by (auto simp: step_to_def)

lemma dept_agent_ticked: "ticked s s' \<Longrightarrow> dept_agent lib k s' = dept_agent lib k s"
  by (rule dept_agent_kept) (simp add: kept_def ticked_def)

section \<open>The interfaces\<close>

text \<open>The menu: after the log line, what happens for no key, a wrong key and a key of the menu.\<close>

abbreviation ivr_logged :: "lua_lib \<Rightarrow> bytes \<Rightarrow> bytes \<Rightarrow> route_state \<Rightarrow> route_state" where
  "ivr_logged lib c key s \<equiv> route_log_call lib ''INFO'' (Some c) ''get_ivr_route'' (''key='' @ key) s"

lemma ivr_logged:
  assumes "script_inv s"
  shows "ticked s (ivr_logged lib c key s)" and "script_inv (ivr_logged lib c key s)"
    and "retries (ivr_logged lib c key s) = retries s" and "kept s (ivr_logged lib c key s)"
    and "dept_agent lib k (ivr_logged lib c key s) = dept_agent lib k s"
proof -
  show t: "ticked s (ivr_logged lib c key s)" by simp
  show k: "kept s (ivr_logged lib c key s)" using inv_ticked [OF t assms] by simp
  show "script_inv (ivr_logged lib c key s)" "retries (ivr_logged lib c key s) = retries s"
    using inv_ticked [OF t assms] by simp_all
  show "dept_agent lib k (ivr_logged lib c key s) = dept_agent lib k s" by (rule dept_agent_kept [OF k])
qed

lemma ivr_cases:
  assumes "lua_ok lib"
  shows "key = [] \<Longrightarrow> get_ivr_route lib (Some c) (Some key) s =
      (case timeout_fallback lib (Some c) (ivr_logged lib c key s) of (r, s) \<Rightarrow> (Inr r, s))"
    and "key \<noteq> [] \<Longrightarrow> menu_dept key = None \<Longrightarrow> get_ivr_route lib (Some c) (Some key) s =
      (case invalid_key_fallback lib (Some c) (Some key) (ivr_logged lib c key s) of (r, s) \<Rightarrow> (Inr r, s))"
    and "key \<noteq> [] \<Longrightarrow> menu_dept key = Some k \<Longrightarrow> dept_of k = Some d \<Longrightarrow> d_external d \<Longrightarrow>
      check_agent_status lib (Some k) (ivr_logged lib c key s) = (st, s2) \<Longrightarrow> rt_code st = 0 \<Longrightarrow>
      agent_or (d_short d) (pick_idle_agent lib (Some k) s2) = a \<Longrightarrow>
      get_ivr_route lib (Some c) (Some key) s =
        (Inr (make_response 0 a (d_name d) (desc_ivr_routed key (d_name d) a)), s2)"
  by (simp_all add: get_ivr_route_def IVR_MAP_menu [OF assms] Let_def)

lemma ivr_no_key:
  assumes l: "lua_ok lib" and i: "script_inv s"
  shows "\<exists>r s'. get_ivr_route lib (Some c) (Some []) s = (Inr r, s') \<and>
    ivr_decision (\<lambda>k. dept_agent lib k s) [] (retries s c) = (decision_of r, retries s' c) \<and>
    step_to s c (retries s' c) s'"
proof -
  note f = ivr_logged [OF i, of lib c "[]"]
  let ?s1 = "ivr_logged lib c [] s"
  obtain n t where n: "retries ?s1 c = (n, t)" by (cases "retries ?s1 c")
  let ?r = "if t = 1 then desk_response lib ?s1 (desc_timeout_limit 2) else make_response 8 [] [] (desc_timeout_retry 1 5)"
  from timeout_step [OF l f(2) or_default_simps(1) [symmetric] n] obtain s2 where
    s2: "timeout_fallback lib (Some c) ?s1 = (?r, s2)"
      "script_inv s2" "kept ?s1 s2" "retries s2 = (retries ?s1)(c := (n, if t = 1 then 0 else 1))" by blast
  have "get_ivr_route lib (Some c) (Some []) s = (Inr ?r, s2)" unfolding ivr_cases(1) [OF l refl] s2(1) by simp
  moreover have "ivr_decision (\<lambda>k. dept_agent lib k s) [] (retries s c) = (decision_of ?r, retries s2 c)"
    using n f(3) s2(4) ivr_logged(5) [OF i] by (simp add: ivr_decision_def desk_response_def)
  moreover have "step_to s c (retries s2 c) s2" using s2 f(3) kept_trans [OF f(4)] by (simp add: step_to_def)
  ultimately show ?thesis by blast
qed

lemma ivr_wrong_key:
  assumes l: "lua_ok lib" and i: "script_inv s" and key: "key \<noteq> []" "menu_dept key = None"
  shows "\<exists>r s'. get_ivr_route lib (Some c) (Some key) s = (Inr r, s') \<and>
    ivr_decision (\<lambda>k. dept_agent lib k s) key (retries s c) = (decision_of r, retries s' c) \<and>
    step_to s c (retries s' c) s'"
proof -
  note f = ivr_logged [OF i, of lib c key]
  let ?s1 = "ivr_logged lib c key s"
  obtain n t where n: "retries ?s1 c = (n, t)" by (cases "retries ?s1 c")
  let ?r = "if n = 2 then desk_response lib ?s1 (desc_invalid_limit 3 key)
    else make_response 9 [] [] (desc_invalid_retry key (n + 1) 3)"
  from invalid_key_step [OF l f(2) or_default_simps(1) [symmetric] n, where key = key] obtain s2 where
    s2: "invalid_key_fallback lib (Some c) (Some key) ?s1 = (?r, s2)"
      "script_inv s2" "kept ?s1 s2" "retries s2 = (retries ?s1)(c := (if n = 2 then 0 else n + 1, t))" by blast
  have "get_ivr_route lib (Some c) (Some key) s = (Inr ?r, s2)" unfolding ivr_cases(2) [OF l key] s2(1) by simp
  moreover have "ivr_decision (\<lambda>k. dept_agent lib k s) key (retries s c) = (decision_of ?r, retries s2 c)"
    using key n f(3) s2(4) ivr_logged(5) [OF i] by (simp add: ivr_decision_def desk_response_def)
  moreover have "step_to s c (retries s2 c) s2" using s2 f(3) kept_trans [OF f(4)] by (simp add: step_to_def)
  ultimately show ?thesis by blast
qed

lemma ivr_menu_key:
  assumes l: "lua_ok lib" and i: "script_inv s" and key: "key \<noteq> []" "menu_dept key = Some k"
  shows "\<exists>r s'. get_ivr_route lib (Some c) (Some key) s = (Inr r, s') \<and>
    ivr_decision (\<lambda>k. dept_agent lib k s) key (retries s c) = (decision_of r, retries s' c) \<and>
    step_to s c (retries s' c) s'"
proof -
  note f = ivr_logged [OF i, of lib c key]
  let ?s1 = "ivr_logged lib c key s"
  from menu_found [OF key(2)] obtain d where d: "dept_of k = Some d" "d_external d" by blast
  from check_status_idle [OF _ _ d(1), of ?s1 lib] f(2) obtain st s2 where
    s2: "check_agent_status lib (Some k) ?s1 = (st, s2)" "rt_code st = 0" "ticked ?s1 s2"
    unfolding script_inv_def by blast
  have t: "ticked s s2" by (rule ticked_trans [OF f(1) s2(3)])
  have "script_inv s2" using inv_ticked [OF t i] by simp
  then have "agent_or (d_short d) (pick_idle_agent lib (Some k) s2) = dept_agent lib k s"
    using agent_or_pick [OF l _ d(1)] dept_agent_ticked [OF t] by simp
  note r = ivr_cases(3) [OF l key d s2(1,2) this]
  have "retries s2 c = retries s c" using inv_ticked [OF t i] by simp
  moreover from this have "step_to s c (retries s2 c) s2" using step_to_ticked [OF i t, of c] by simp
  moreover have "ivr_decision (\<lambda>k. dept_agent lib k s) key (retries s c) = ((0, dept_agent lib k s, d_name d), retries s c)"
    using key d by (cases "retries s c") (simp add: ivr_decision_def name_of_def)
  ultimately show ?thesis using r by simp
qed

lemma ivr_refines:
  assumes "lua_ok lib" and "script_inv s"
  shows "\<exists>r s'. get_ivr_route lib (Some c) (Some key) s = (Inr r, s') \<and>
    ivr_decision (\<lambda>k. dept_agent lib k s) key (retries s c) = (decision_of r, retries s' c) \<and>
    step_to s c (retries s' c) s'"
  using ivr_no_key [OF assms, of c] ivr_wrong_key [OF assms, of key c] ivr_menu_key [OF assms, of key _ c]
  by (cases "key = []"; cases "menu_dept key") auto

text \<open>Outside the working time the longest idle agent of the service desk gets the call.\<close>

lemma work_time_ticked: "ticked s s' \<Longrightarrow> lua_toboolean (rs_force s) \<Longrightarrow> fst (is_work_time lib s')"
  by (simp add: ticked_def is_work_time_def)

lemma time_judge_refines:
  assumes l: "lua_ok lib" and i: "script_inv s"
  shows "\<exists>r s'. time_judge_route lib s = (Inr r, s') \<and> ticked s s' \<and>
    decision_of r = (if fst (is_work_time lib s) then (0, [], []) else (6, dept_agent lib ''support'' s, service_desk))"
proof (cases "fst (is_work_time lib s)")
  case True
  then obtain s1 where "is_work_time lib s = (True, s1)" by (metis prod.collapse)
  with ticked_work [of s lib] show ?thesis by (simp add: time_judge_route_def)
next
  case False
  then obtain s1 where w: "is_work_time lib s = (False, s1)" by (metis prod.collapse)
  then have t1: "ticked s s1" using ticked_work [of s lib] by simp
  obtain t s2 where d: "get_time_description lib s1 = (t, s2)" by (cases "get_time_description lib s1")
  then have t2: "ticked s s2" using ticked_description [of s1 lib] ticked_trans [OF t1] by simp
  have i2: "script_inv s2" using inv_ticked [OF t2 i] by simp
  have night: "night_duty_dept (rs_config s2) = ''support''"
    using i2 by (simp add: script_inv_def ROUTE_CONFIG_def)
  obtain dd where dd: "dept_of ''support'' = Some dd" "d_name dd = service_desk" using support_dept by blast
  have ai: "all_idle s2" using i2 by (simp add: script_inv_def)
  have "list_ex (\<lambda>a. a_state a = ''idle'' \<or> a_state a = ''talking'') (get_dept_agents (Some ''support'') s2)"
  proof -
    obtain a as where as: "get_dept_agents (Some ''support'') s2 = a # as"
      using dept_agents_idle(3) [OF ai dd(1)] by (cases "get_dept_agents (Some ''support'') s2") auto
    then have "a \<in> set (idle_agents (Some ''support'') s2)" using dept_agents_idle(1) [OF ai dd(1)] by simp
    then have "a_state a = ''idle''" by (simp add: idle_agents_def)
    with as show ?thesis by simp
  qed
  moreover obtain a where a: "pick_idle_agent lib (Some ''support'') s2 = Some a"
    using pick_in_dept [OF l ai dd(1)] by blast
  moreover from a have "a_extension a = dept_agent lib ''support'' s"
    using dept_agent_ticked [OF t2, of lib "''support''"] by (simp add: dept_agent_def agent_or_def)
  ultimately have "time_judge_route lib s =
      (Inr (make_response 6 (dept_agent lib ''support'' s) service_desk (desc_duty_agent t (dept_agent lib ''support'' s))), s2)"
    using dd by (simp add: time_judge_route_def w d night Let_def)
  with False t2 show ?thesis by simp
qed

lemma internal_refines:
  assumes l: "lua_ok lib" and i: "script_inv s" and p: "plain_text c" "plain_text callee"
    and c: "Option.bind (number c) dept_at \<noteq> None"
  shows "\<exists>r s'. dept_internal_call_route lib (Some c) (Some callee) s = (Inr r, s') \<and> ticked s s' \<and>
    decision_of r = internal_decision callee"
proof -
  define s1 where "s1 = route_log_call lib ''INFO'' (Some c) ''internal_call'' (''to '' @ callee) s"
  have t1: "ticked s s1" by (simp add: s1_def)
  have i1: "script_inv s1" using inv_ticked [OF t1 i] by simp
  have fb: "fallback_agent (rs_config s1) = ''9000''" using i1 by (simp add: script_inv_def ROUTE_CONFIG_def)
  obtain kc dc where kc: "find_department lib (Some c) = Some (kc, dc)"
    using c unfolding find_department_plain [OF l p(1)] by auto
  have idle: "map_option a_state (rs_agents s1 callee) \<in> {None, Some ''idle''}"
    using i1 by (cases "rs_agents s1 callee") (auto simp: script_inv_def all_idle_def)
  let ?st = "map_option a_state (rs_agents s1 callee)"
  have st: "(?st = Some ''offline'') = False" "(?st = Some ''talking'') = False" using idle by auto
  let ?bad = "case ll_tonumber lib callee of None \<Rightarrow> True | Some x \<Rightarrow> x < 1000 \<or> 9999 < x"
  have main: "dept_internal_call_route lib (Some c) (Some callee) s =
     (if ?bad then (Inr (make_response 1 ''9000'' service_desk (desc_bad_number callee)), s1)
      else case find_department lib (Some callee) of
        None \<Rightarrow> (Inr (make_response 1 ''9000'' service_desk (desc_bad_callee callee)), s1)
      | Some (k, d) \<Rightarrow> (Inr (make_response 0 callee (d_name d) (desc_internal (d_name dc) c (d_name d) callee)), s1))"
    unfolding dept_internal_call_route_def kc s1_def [symmetric] Let_def or_default_simps option.case prod.case
    by (simp only: st fb if_False)
  show ?thesis
  proof (cases "Option.bind (number callee) dept_at")
    case None
    then have "find_department lib (Some callee) = None" using find_department_plain [OF l p(2)] by simp
    then show ?thesis using t1 None by (auto simp: main internal_decision_def)
  next
    case (Some kd)
    then obtain n k d where n: "number callee = Some n" "dept_at n = Some (k, d)" by (cases kd) (auto simp: bind_eq_Some_conv)
    have "1001 \<le> n" "n \<le> 9050" using dept_at_range [OF n(2)] by simp_all
    then have "\<not> ?bad" using plain_tonumber [OF l p(2)] n(1) by simp
    moreover have "find_department lib (Some callee) = Some (k, d)" using find_department_plain [OF l p(2)] n by simp
    ultimately show ?thesis using t1 n unfolding main by (auto simp: internal_decision_def)
  qed
qed

lemma external_caller:
  assumes l: "lua_ok lib" and p: "plain_text c"
  shows "is_external_caller lib (Some c) = external c"
proof (cases "c = [] \<or> take 3 c = ''400''")
  case True
  then show ?thesis by (auto simp: is_external_caller_def external_def)
next
  case False
  show ?thesis
  proof (cases "number c")
    case None
    with False plain_tonumber [OF l p] show ?thesis by (simp add: is_external_caller_def external_def)
  next
    case (Some n)
    have x: "list_ex (\<lambda>(k, d). in_dept (of_int n) d) (ll_pairs lib) = (dept_at n \<noteq> None)"
    proof -
      have "list_ex P xs = (find P xs \<noteq> None)" for P and xs :: "(bytes \<times> dept) list"
        unfolding find_None_iff list_ex_iff by blast
      then show ?thesis using find_dept_order [OF l, of "of_int n"] by (simp only: find_dept_int dept_at_def)
    qed
    show ?thesis
    proof (cases "dept_at n")
      case None
      with False Some plain_tonumber [OF l p] show ?thesis by (simp add: is_external_caller_def external_def x)
    next
      case (Some kd)
      then have "1001 \<le> n" "n \<le> 9050" using dept_at_range [of n "fst kd" "snd kd"] by simp_all
      with False Some \<open>number c = Some n\<close> plain_tonumber [OF l p] show ?thesis
        by (simp add: is_external_caller_def external_def x)
    qed
  qed
qed

section \<open>Routing a call\<close>

lemma route_refines:
  assumes l: "lua_ok lib" and i: "script_inv s" and p: "plain_text c" "plain_text dg"
  shows "\<exists>r s'. route_call lib (Some c) (Some dg) s = (Inr r, s') \<and>
    route_decision (\<lambda>k. dept_agent lib k s) (fst (is_work_time lib s)) c dg (retries s c) =
      (decision_of r, retries s' c) \<and> step_to s c (retries s' c) s'"
proof (cases "external c")
  case True
  then have e: "is_external_caller lib (Some c)" using external_caller [OF l p(1)] by simp
  from time_judge_refines [OF l i] obtain r1 s1 where
    tj: "time_judge_route lib s = (Inr r1, s1)" and t1: "ticked s s1"
    and d1: "decision_of r1 =
      (if fst (is_work_time lib s) then (0, [], []) else (6, dept_agent lib ''support'' s, service_desk))" by blast
  note i1 = inv_ticked [OF t1 i]
  show ?thesis
  proof (cases "fst (is_work_time lib s)")
    case work: True
    with d1 have "rt_code r1 = 0" by (simp add: decision_of_def)
    then have m: "route_call lib (Some c) (Some dg) s = get_ivr_route lib (Some c) (Some dg) s1"
      by (simp add: route_call_def e tj)
    from ivr_refines [OF l, of s1 c dg] i1 obtain r s2 where
      "get_ivr_route lib (Some c) (Some dg) s1 = (Inr r, s2)"
      "ivr_decision (\<lambda>k. dept_agent lib k s) dg (retries s c) = (decision_of r, retries s2 c)"
      "step_to s1 c (retries s2 c) s2"
      by (auto simp: dept_agent_ticked [OF t1])
    with True work m step_to_after [OF i t1] show ?thesis by (auto simp: route_decision_def)
  next
    case False
    with d1 have "rt_code r1 = 6" by (simp add: decision_of_def)
    then have "route_call lib (Some c) (Some dg) s = (Inr r1, s1)" by (simp add: route_call_def e tj)
    with True False d1 i1 step_to_ticked [OF i t1, of c] show ?thesis by (auto simp: route_decision_def)
  qed
next
  case False
  then have e: "\<not> is_external_caller lib (Some c)" and n: "Option.bind (number c) dept_at \<noteq> None"
    using external_caller [OF l p(1)] by (simp_all add: external_def)
  from internal_refines [OF l i p n] obtain r s1 where
    r: "dept_internal_call_route lib (Some c) (Some dg) s = (Inr r, s1)" "ticked s s1"
    "decision_of r = internal_decision dg" by blast
  have "route_call lib (Some c) (Some dg) s = (Inr r, s1)" using r(1) by (simp add: route_call_def e)
  with False r inv_ticked [OF r(2) i] step_to_ticked [OF i r(2), of c] show ?thesis
    by (auto simp: route_decision_def)
qed

text \<open>Interface 3, which finds the service desk idle.\<close>

lemma overflow_refines:
  assumes l: "lua_ok lib" and i: "script_inv s"
  shows "\<exists>r s'. overflow_route lib k c s = (Inr r, s') \<and> ticked s s' \<and>
    decision_of r = (4, dept_agent lib ''support'' s, service_desk)"
proof -
  let ?s = "\<lambda>d. route_log_call lib ''WARN'' (Some (or_default [] c)) ''overflow'' (desc_overflow_log d) s"
  have t: "ticked s (?s d)" for d by simp
  obtain dd where dd: "dept_of ''support'' = Some dd" using support_dept by blast
  have ai: "all_idle (?s d)" for d using inv_ticked [OF t i, of d] by (simp add: script_inv_def)
  have "0 < count_idle_agents (Some ''support'') (?s d)" for d
    using dept_agents_idle(1,3) [OF ai dd, of d] by (simp add: count_idle_agents_def)
  moreover have "agent_or x (pick_idle_agent lib (Some ''support'') (?s d)) = dept_agent lib ''support'' s" for d x
    using agent_or_support [OF l, of "?s d" x] inv_ticked [OF t i, of d] dept_agent_ticked [OF t, of lib "''support''" d]
    by simp
  ultimately show ?thesis using t unfolding overflow_route_def Let_def by simp
qed

end
