(* ===== verification/Route_Reach.thy ===== *)
theory Route_Reach
  imports Route_Runs
begin

text \<open>
  Every run of the routing script: it starts with all agents idle, its callers use its global functions,
  and the invariant of \<open>Route_State\<close> holds throughout.
\<close>

section \<open>The start\<close>

definition tidy :: "route_state \<Rightarrow> bool" where
  "tidy s \<longleftrightarrow> (\<forall>x a. rs_agents s x = Some a \<longrightarrow> a_state a = ''idle'' \<and> a_extension a = x)"

definition same_rest :: "route_state \<Rightarrow> route_state \<Rightarrow> bool" where
  "same_rest s s' \<longleftrightarrow> rs_config s' = rs_config s \<and> rs_queue s' = rs_queue s \<and> rs_invalid s' = rs_invalid s \<and>
     rs_timeouts s' = rs_timeouts s \<and> rs_force s' = rs_force s \<and> dom (rs_agents s) \<subseteq> dom (rs_agents s')"

lemma same_rest_refl [simp]: "same_rest s s"
  by (simp add: same_rest_def)

lemma same_rest_trans: "same_rest s s' \<Longrightarrow> same_rest s' s'' \<Longrightarrow> same_rest s s''"
  by (auto simp: same_rest_def)

lemma init_agents_tidy:
  "tidy s \<Longrightarrow> tidy (init_agents lib k es s) \<and> same_rest s (init_agents lib k es s) \<and>
    (\<forall>e\<in>set es. show_int e \<in> dom (rs_agents (init_agents lib k es s)))"
proof (induction es arbitrary: s)
  case (Cons e es)
  let ?x = "show_int e"
  let ?s = "(snd (os_time lib s))\<lparr>rs_agents := (rs_agents s)(?x \<mapsto>
    \<lparr>a_state = ''idle'', a_calls = 0, a_last_active = fst (os_time lib s), a_extension = ?x, a_department = k\<rparr>)\<rparr>"
  have eq: "init_agents lib k (e # es) s = init_agents lib k es ?s" by (simp add: os_time_def Let_def)
  have "tidy ?s" using Cons.prems by (simp add: tidy_def)
  from Cons.IH [OF this] have ih: "tidy (init_agents lib k es ?s)" "same_rest ?s (init_agents lib k es ?s)"
    "\<forall>e\<in>set es. show_int e \<in> dom (rs_agents (init_agents lib k es ?s))" by simp_all
  have r: "same_rest s ?s" by (auto simp: same_rest_def os_time_def)
  have "?x \<in> dom (rs_agents ?s)" by simp
  then have "?x \<in> dom (rs_agents (init_agents lib k es ?s))" using ih(2) unfolding same_rest_def by blast
  with ih same_rest_trans [OF r ih(2)] show ?case unfolding eq by simp
qed simp

lemma init_status_tidy:
  "tidy s \<Longrightarrow> tidy (init_agent_status lib ds s) \<and> same_rest s (init_agent_status lib ds s) \<and>
    (\<forall>(k, d)\<in>set ds. \<forall>e. d_range_start d \<le> e \<longrightarrow> e \<le> d_range_end d \<longrightarrow>
      show_int e \<in> dom (rs_agents (init_agent_status lib ds s)))"
proof (induction ds arbitrary: s)
  case (Cons kd ds)
  obtain k d where kd: "kd = (k, d)" by (cases kd)
  let ?s = "init_agents lib k [d_range_start d..d_range_end d] s"
  from init_agents_tidy [OF Cons.prems, of lib k "[d_range_start d..d_range_end d]"]
  have a: "tidy ?s" "same_rest s ?s"
    "\<forall>e. d_range_start d \<le> e \<longrightarrow> e \<le> d_range_end d \<longrightarrow> show_int e \<in> dom (rs_agents ?s)" by auto
  from Cons.IH [OF a(1)] have b: "tidy (init_agent_status lib ds ?s)" "same_rest ?s (init_agent_status lib ds ?s)"
    "\<forall>(k, d)\<in>set ds. \<forall>e. d_range_start d \<le> e \<longrightarrow> e \<le> d_range_end d \<longrightarrow>
      show_int e \<in> dom (rs_agents (init_agent_status lib ds ?s))" by simp_all
  have "dom (rs_agents ?s) \<subseteq> dom (rs_agents (init_agent_status lib ds ?s))" using b(2) unfolding same_rest_def by blast
  with a(3) have "\<forall>e. d_range_start d \<le> e \<longrightarrow> e \<le> d_range_end d \<longrightarrow>
      show_int e \<in> dom (rs_agents (init_agent_status lib ds ?s))" by blast
  with b(1,3) same_rest_trans [OF a(2) b(2)] show ?case unfolding kd by simp
qed simp

lemma start_inv:
  assumes "lua_ok lib"
  shows "script_inv (script_start lib n)" and "retries (script_start lib n) c = (0, 0)"
    and "rs_force (script_start lib n) = LBool False"
proof -
  define s0 :: route_state where "s0 = \<lparr>rs_force = LBool False, rs_config = ROUTE_CONFIG, rs_agents = Map.empty,
    rs_queue = Map.empty, rs_invalid = Map.empty, rs_timeouts = Map.empty, rs_log = Map.empty, rs_log_index = 0,
    rs_ticks = n\<rparr>"
  have st: "script_start lib n = init_agent_status lib (ll_pairs lib) s0" by (simp add: script_start_def s0_def)
  have "tidy s0" by (simp add: tidy_def s0_def)
  from init_status_tidy [OF this, of lib "ll_pairs lib"] have
    a: "tidy (script_start lib n)" "same_rest s0 (script_start lib n)" and
    b: "\<forall>(k, d)\<in>set DEPARTMENTS. \<forall>e. d_range_start d \<le> e \<longrightarrow> e \<le> d_range_end d \<longrightarrow>
      show_int e \<in> dom (rs_agents (script_start lib n))"
    unfolding st set_pairs [OF assms] by blast+
  have "all_idle (script_start lib n)" using a(1) b unfolding all_idle_def tidy_def by fastforce
  with a(2) show "script_inv (script_start lib n)" by (simp add: script_inv_def same_rest_def s0_def)
  show "retries (script_start lib n) c = (0, 0)" "rs_force (script_start lib n) = LBool False"
    using a(2) by (simp_all add: retries_def same_rest_def s0_def)
qed

section \<open>Runs\<close>

text \<open>The uses the C code makes of the script.\<close>

datatype script_event =
    Call_route bytes bytes
  | Call_ivr bytes bytes
  | Call_status bytes
  | Call_overflow bytes bytes
  | Call_time
  | Call_internal bytes bytes
  | Call_work_status
  | Call_read
  | Force bool

fun drop_error :: "routed \<Rightarrow> decision option \<times> route_state" where
  "drop_error (Inl e, s) = (None, s)"
| "drop_error (Inr r, s) = (Some (decision_of r), s)"

fun script_step :: "lua_lib \<Rightarrow> script_event \<Rightarrow> route_state \<Rightarrow> decision option \<times> route_state" where
  "script_step lib (Call_route c dg) s = drop_error (route_call lib (Some c) (Some dg) s)"
| "script_step lib (Call_ivr c key) s = drop_error (get_ivr_route lib (Some c) (Some key) s)"
| "script_step lib (Call_status k) s =
     (case check_agent_status lib (Some k) s of (r, s) \<Rightarrow> (Some (decision_of r), s))"
| "script_step lib (Call_overflow k c) s = drop_error (overflow_route lib (Some k) (Some c) s)"
| "script_step lib Call_time s = drop_error (time_judge_route lib s)"
| "script_step lib (Call_internal c d) s = drop_error (dept_internal_call_route lib (Some c) (Some d) s)"
| "script_step lib Call_work_status s = (None, snd (get_work_time_status lib s))"
| "script_step lib Call_read s = (None, s)"
| "script_step lib (Force b) s = (None, s\<lparr>rs_force := LBool b\<rparr>)"

text \<open>The state of a department is asked for departments there are.\<close>

fun known_event :: "script_event \<Rightarrow> bool" where
  "known_event (Call_status k) = (dept_of k \<noteq> None)"
| "known_event e = True"

inductive script_run :: "lua_lib \<Rightarrow> route_state \<Rightarrow> decision option list \<Rightarrow> route_state \<Rightarrow> bool"
  for lib :: lua_lib where
  run_start: "script_run lib (script_start lib n) [] (script_start lib n)"
| run_step: "script_run lib s ds s1 \<Longrightarrow> known_event e \<Longrightarrow> script_step lib e s1 = (d, s2) \<Longrightarrow>
    script_run lib s (ds @ [d]) s2"

text \<open>The codes of a decision: success, wrong number, desk, night, the two retries.\<close>

definition possible :: "decision \<Rightarrow> bool" where
  "possible d \<longleftrightarrow> fst d \<in> {0, 1, 4, 6, 8, 9}"

lemma ivr_possible: "possible (fst (ivr_decision agent key nt))"
  by (cases nt) (simp add: ivr_decision_def possible_def split: option.split)

lemma internal_possible: "possible (internal_decision callee)"
  by (simp add: internal_decision_def possible_def split: option.split prod.split)

lemma route_possible: "possible (fst (route_decision agent work c dg nt))"
  using ivr_possible internal_possible by (simp add: route_decision_def possible_def)

text \<open>Whatever is passed as numbers, an internal call succeeds or goes to the service desk.\<close>

lemma internal_any:
  assumes i: "script_inv s"
  shows "\<exists>r s'. dept_internal_call_route lib (Some c) (Some callee) s = (Inr r, s') \<and> ticked s s' \<and>
    possible (decision_of r)"
proof -
  define s1 where "s1 = route_log_call lib ''INFO'' (Some c) ''internal_call'' (''to '' @ callee) s"
  have t: "ticked s s1" by (simp add: s1_def)
  have "map_option a_state (rs_agents s1 callee) \<in> {None, Some ''idle''}"
    using inv_ticked [OF t i] by (cases "rs_agents s1 callee") (auto simp: script_inv_def all_idle_def)
  then have st: "(map_option a_state (rs_agents s1 callee) = Some ''offline'') = False"
    "(map_option a_state (rs_agents s1 callee) = Some ''talking'') = False" by auto
  have p: "possible (decision_of (make_response 1 x y z))" "possible (decision_of (make_response 0 x y z))" for x y z
    by (simp_all add: possible_def)
  show ?thesis
    using t p unfolding dept_internal_call_route_def s1_def [symmetric] Let_def or_default_simps option.case st if_False
    by (simp split: option.split prod.split)
qed

lemma route_any:
  assumes l: "lua_ok lib" and i: "script_inv s"
  shows "\<exists>r s'. route_call lib (Some c) (Some dg) s = (Inr r, s') \<and> step_to s c (retries s' c) s' \<and>
    possible (decision_of r)"
proof (cases "is_external_caller lib (Some c)")
  case True
  from time_judge_refines [OF l i] obtain r1 s1 where
    tj: "time_judge_route lib s = (Inr r1, s1)" and t1: "ticked s s1" and
    d1: "decision_of r1 =
      (if fst (is_work_time lib s) then (0, [], []) else (6, dept_agent lib ''support'' s, service_desk))" by blast
  have i1: "script_inv s1" using inv_ticked [OF t1 i] by simp
  show ?thesis
  proof (cases "fst (is_work_time lib s)")
    case work: True
    then have "rt_code r1 = 0" using d1 by (simp add: decision_of_def)
    then have m: "route_call lib (Some c) (Some dg) s = get_ivr_route lib (Some c) (Some dg) s1"
      by (simp add: route_call_def True tj)
    from ivr_refines [OF l i1, of c dg] obtain r s2 where
      "get_ivr_route lib (Some c) (Some dg) s1 = (Inr r, s2)"
      "ivr_decision (\<lambda>k. dept_agent lib k s1) dg (retries s1 c) = (decision_of r, retries s2 c)"
      "step_to s1 c (retries s2 c) s2" by blast
    with m step_to_after [OF i t1] ivr_possible [of "\<lambda>k. dept_agent lib k s1" dg "retries s1 c"] show ?thesis by auto
  next
    case False
    then have "rt_code r1 = 6" "possible (decision_of r1)" using d1 by (simp_all add: decision_of_def possible_def)
    moreover from this have "route_call lib (Some c) (Some dg) s = (Inr r1, s1)" by (simp add: route_call_def True tj)
    ultimately show ?thesis using step_to_ticked [OF i t1, of c] inv_ticked [OF t1 i] by auto
  qed
next
  case False
  from internal_any [OF i, of lib c dg] obtain r s1 where
    "dept_internal_call_route lib (Some c) (Some dg) s = (Inr r, s1)" "ticked s s1" "possible (decision_of r)" by blast
  with False step_to_ticked [OF i, of s1 c] inv_ticked [OF _ i, of s1] show ?thesis by (auto simp: route_call_def)
qed

lemma force_inv: "script_inv s \<Longrightarrow> script_inv (s\<lparr>rs_force := x\<rparr>)"
  by (simp add: script_inv_def all_idle_def)

text \<open>One step: the invariant, the agents, and what can be decided.\<close>

lemma script_step_inv:
  assumes l: "lua_ok lib" and i: "script_inv s" and p: "known_event e" and st: "script_step lib e s = (d, s')"
  shows "script_inv s' \<and> rs_agents s' = rs_agents s \<and> pred_option possible d"
proof (cases e)
  case (Call_route c dg)
  from route_any [OF l i, of c dg] Call_route st show ?thesis by (auto simp: step_to_def kept_def)
next
  case (Call_ivr c key)
  from ivr_refines [OF l i, of c key] Call_ivr st ivr_possible [of "\<lambda>k. dept_agent lib k s" key "retries s c"]
  show ?thesis by (auto simp: step_to_def kept_def)
next
  case (Call_status k)
  with p obtain dd where k: "dept_of k = Some dd" by auto
  from i have "all_idle s" "rs_queue s = Map.empty" by (simp_all add: script_inv_def)
  from check_status_idle [OF this k, of lib] obtain r s1 where
    "check_agent_status lib (Some k) s = (r, s1)" "rt_code r = 0" "ticked s s1" by blast
  with Call_status st inv_ticked [OF _ i, of s1] tickedD(1) [of s s1] show ?thesis
    by (auto simp: possible_def decision_of_def)
next
  case (Call_overflow k c)
  from overflow_refines [OF l i, of "Some k" "Some c"] obtain r s1 where
    "overflow_route lib (Some k) (Some c) s = (Inr r, s1)" "ticked s s1"
    "decision_of r = (4, dept_agent lib ''support'' s, service_desk)" by blast
  with Call_overflow st inv_ticked [OF _ i, of s1] tickedD(1) [of s s1] show ?thesis
    by (auto simp: possible_def)
next
  case Call_time
  from time_judge_refines [OF l i] obtain r s1 where
    "time_judge_route lib s = (Inr r, s1)" "ticked s s1" "fst (decision_of r) \<in> {0, 6}"
    by (metis fst_conv insertCI)
  with Call_time st inv_ticked [OF _ i, of s1] tickedD(1) [of s s1] show ?thesis
    by (auto simp: possible_def)
next
  case (Call_internal c dg)
  from internal_any [OF i, of lib c dg] obtain r s1 where
    "dept_internal_call_route lib (Some c) (Some dg) s = (Inr r, s1)" "ticked s s1" "possible (decision_of r)" by blast
  with Call_internal st inv_ticked [OF _ i, of s1] tickedD(1) [of s s1] show ?thesis by auto
next
  case Call_work_status
  have "ticked s (snd (os_date lib s))" by (simp add: os_date_def ticked_def)
  from ticked_trans [OF ticked_trans [OF this ticked_work [of _ lib]] ticked_description [of _ lib]]
  have "ticked s (snd (get_work_time_status lib s))" by (simp add: get_work_time_status_def split_beta Let_def)
  with Call_work_status st inv_ticked [OF _ i] tickedD(1) show ?thesis by auto
next
  case Call_read
  with i st show ?thesis by auto
next
  case (Force b)
  with i st force_inv [OF i, of "LBool b"] show ?thesis by auto
qed

lemma script_run_inv:
  assumes "lua_ok lib" and "script_run lib s ds s'"
  shows "script_inv s' \<and> rs_agents s' = rs_agents s \<and> list_all (pred_option possible) ds"
  using assms(2)
proof (induction rule: script_run.induct)
  case (run_start n)
  show ?case using start_inv(1) [OF assms(1)] by simp
next
  case (run_step s ds s1 e d s2)
  with script_step_inv [OF assms(1) _ run_step.hyps(2,3)] show ?case by simp
qed

lemma script_run_agent: "lua_ok lib \<Longrightarrow> script_run lib s ds s' \<Longrightarrow> dept_agent lib k s' = dept_agent lib k s"
  using script_run_inv idle_cong(4) [of s' s] by (simp add: dept_agent_def)

end
