(* ===== verification/Route_Interp.thy ===== *)
theory Route_Interp
  imports Route_Reach Sip_Facts
begin

text \<open>
  An instance of the interpreter that the wrapper of \<open>src/lua_utils.c\<close> is a function of: one that runs
  \<open>lua/route.lua\<close>. Its world holds the globals, the variables of the script once it was run, and the
  tables returned to C. Defined are the functions the C code calls, and what they do with strings and
  \<open>nil\<close>, which is what it passes; what an error message says is left out.
\<close>

section \<open>The world\<close>

datatype lua_object = Fields lua_fields | Array "lua_value list"

record lua_world =
  lw_globals :: "bytes \<rightharpoonup> lua_value"
  lw_script :: "route_state option"
  lw_tables :: "lua_object list"

definition script_functions :: "bytes list" where
  "script_functions = [''route_call'', ''get_ivr_route'', ''check_agent_status'', ''overflow_route'',
     ''time_judge_route'', ''dept_internal_call_route'', ''get_ivr_prompt'', ''get_department_info'',
     ''get_ivr_menu'', ''get_work_time_status'', ''get_route_config'']"

definition global_of :: "lua_world \<Rightarrow> bytes \<Rightarrow> lua_value" where
  "global_of g n = (case lw_globals g n of None \<Rightarrow> LNil | Some v \<Rightarrow> v)"

definition set_global :: "lua_world \<Rightarrow> bytes \<Rightarrow> lua_value \<Rightarrow> lua_world" where
  "set_global g n v = g\<lparr>lw_globals := (lw_globals g)(n \<mapsto> v)\<rparr>"

text \<open>The chunk is function 0; script_loaded it defines the global functions and \<open>_TEST_FORCE_WORKTIME\<close>.\<close>

definition run_chunk :: "lua_lib \<Rightarrow> lua_world \<Rightarrow> lua_world" where
  "run_chunk lib g =
     (let n = (case lw_script g of None \<Rightarrow> 0 | Some s \<Rightarrow> rs_ticks s) in
      g\<lparr>lw_globals := (lw_globals g)(''_TEST_FORCE_WORKTIME'' \<mapsto> LBool False) ++
            map_of (zip script_functions (map LFunction [1..<length script_functions + 1])),
        lw_script := Some (script_start lib n)\<rparr>)"

definition new_table :: "lua_object \<Rightarrow> lua_world \<Rightarrow> lua_value \<times> lua_world" where
  "new_table t g = (LTable (length (lw_tables g)), g\<lparr>lw_tables := lw_tables g @ [t]\<rparr>)"

fun new_tables :: "lua_fields list \<Rightarrow> lua_world \<Rightarrow> lua_value list \<times> lua_world" where
  "new_tables [] g = ([], g)"
| "new_tables (t # ts) g =
     (let (v, g) = new_table (Fields t) g; (vs, g) = new_tables ts g in (v # vs, g))"

definition response_fields :: "route_table \<Rightarrow> lua_fields" where
  "response_fields r = [(''code'', LInteger (rt_code r)), (''target'', LString (rt_target r)),
     (''department'', LString (rt_department r)), (''description'', LString (rt_description r))]"

section \<open>Calls\<close>

fun string_arg :: "lua_value list \<Rightarrow> nat \<Rightarrow> bytes option" where
  "string_arg vs i = (if i < length vs then (case vs ! i of LString s \<Rightarrow> Some s | _ \<Rightarrow> None) else None)"

type_synonym lua_result = "(lua_value + lua_value) \<times> lua_world"

definition return_fields :: "lua_fields \<Rightarrow> lua_world \<Rightarrow> lua_result" where
  "return_fields fs g = (case new_table (Fields fs) g of (v, g) \<Rightarrow> (Inr v, g))"

definition return_routed :: "lua_world \<Rightarrow> routed \<Rightarrow> lua_result" where
  "return_routed g x =
     (case x of
        (Inl e, s) \<Rightarrow> (Inl (LString []), g\<lparr>lw_script := Some s\<rparr>)
      | (Inr r, s) \<Rightarrow> return_fields (response_fields r) (g\<lparr>lw_script := Some s\<rparr>))"

definition call_script :: "lua_lib \<Rightarrow> lua_world \<Rightarrow> bytes \<Rightarrow> lua_value list \<Rightarrow> route_state \<Rightarrow> lua_result" where
  "call_script lib g f vs s =
     (if f = ''route_call'' then return_routed g (route_call lib (string_arg vs 0) (string_arg vs 1) s)
      else if f = ''get_ivr_route'' then return_routed g (get_ivr_route lib (string_arg vs 0) (string_arg vs 1) s)
      else if f = ''check_agent_status'' then
        return_routed g (case check_agent_status lib (string_arg vs 0) s of (r, s) \<Rightarrow> (Inr r, s))
      else if f = ''overflow_route'' then return_routed g (overflow_route lib (string_arg vs 0) (string_arg vs 1) s)
      else if f = ''time_judge_route'' then return_routed g (time_judge_route lib s)
      else if f = ''dept_internal_call_route'' then
        return_routed g (dept_internal_call_route lib (string_arg vs 0) (string_arg vs 1) s)
      else if f = ''get_ivr_prompt'' then (Inr (LString ivr_prompt), g\<lparr>lw_script := Some s\<rparr>)
      else if f = ''get_department_info'' then
        (case get_department_info (string_arg vs 0) s of
           None \<Rightarrow> (Inr LNil, g\<lparr>lw_script := Some s\<rparr>)
         | Some fs \<Rightarrow> return_fields fs (g\<lparr>lw_script := Some s\<rparr>))
      else if f = ''get_ivr_menu'' then
        (case new_tables (get_ivr_menu lib) (g\<lparr>lw_script := Some s\<rparr>) of (vs, g) \<Rightarrow>
           (case new_table (Array vs) g of (v, g) \<Rightarrow> (Inr v, g)))
      else if f = ''get_work_time_status'' then
        (case get_work_time_status lib s of (fs, s) \<Rightarrow> return_fields fs (g\<lparr>lw_script := Some s\<rparr>))
      else return_fields (get_route_config s) (g\<lparr>lw_script := Some s\<rparr>))"

text \<open>The functions read \<open>_TEST_FORCE_WORKTIME\<close> anew; calling anything else is an error.\<close>

fun call_value :: "lua_lib \<Rightarrow> lua_world \<Rightarrow> lua_value \<Rightarrow> lua_value list \<Rightarrow> lua_result" where
  "call_value lib g (LFunction 0) vs = (Inr LNil, run_chunk lib g)"
| "call_value lib g (LFunction (Suc i)) vs =
     (case lw_script g of
        None \<Rightarrow> (Inl (LString []), g)
      | Some s \<Rightarrow>
          if i < length script_functions then
            call_script lib g (script_functions ! i) vs
              (s\<lparr>rs_force := global_of g ''_TEST_FORCE_WORKTIME''\<rparr>)
          else (Inl (LString []), g))"
| "call_value lib g v vs = (Inl (LString []), g)"

fun object_at :: "lua_world \<Rightarrow> lua_value \<Rightarrow> lua_object" where
  "object_at g (LTable i) = (if i < length (lw_tables g) then lw_tables g ! i else Fields [])"
| "object_at g v = Fields []"

definition field_of :: "lua_world \<Rightarrow> lua_value \<Rightarrow> bytes \<Rightarrow> lua_value" where
  "field_of g v n =
     (case object_at g v of
        Fields fs \<Rightarrow> (case map_of fs n of None \<Rightarrow> LNil | Some x \<Rightarrow> x)
      | Array vs \<Rightarrow> LNil)"

definition element_of :: "lua_world \<Rightarrow> lua_value \<Rightarrow> int \<Rightarrow> lua_value" where
  "element_of g v i =
     (case object_at g v of
        Fields fs \<Rightarrow> LNil
      | Array vs \<Rightarrow> if 1 \<le> i \<and> i \<le> int (length vs) then vs ! nat (i - 1) else LNil)"

definition length_of :: "lua_world \<Rightarrow> lua_value \<Rightarrow> int" where
  "length_of g v = (case object_at g v of Fields fs \<Rightarrow> 0 | Array vs \<Rightarrow> int (length vs))"

text \<open>Conversions of numbers are those of another instance: the script returns integers only.\<close>

definition script_interp :: "lua_lib \<Rightarrow> bytes \<Rightarrow> lua_world lua_interp \<Rightarrow> lua_world lua_interp" where
  "script_interp lib path I =
     \<lparr>li_newstate = Some \<lparr>lw_globals = Map.empty, lw_script = None, lw_tables = []\<rparr>,
      li_openlibs = \<lambda>g. g,
      li_loadfile = \<lambda>g p. if p = path then Inr (LFunction 0) else Inl (LString []),
      li_getglobal = global_of,
      li_getfield = field_of,
      li_call = call_value lib,
      li_float_string = li_float_string I,
      li_float_integer = li_float_integer I,
      li_string_integer = li_string_integer I,
      li_setglobal = set_global,
      li_rawlen = length_of,
      li_rawgeti = element_of\<rparr>"

section \<open>What C gets\<close>

text \<open>A world in which the script was run and the flag has the value \<open>b\<close>.\<close>

definition script_loaded :: "lua_world \<Rightarrow> route_state \<Rightarrow> bool \<Rightarrow> bool" where
  "script_loaded g s b \<longleftrightarrow> lw_script g = Some s \<and> script_inv s \<and>
     (\<forall>i<length script_functions. lw_globals g (script_functions ! i) = Some (LFunction (Suc i))) \<and>
     lw_globals g ''_TEST_FORCE_WORKTIME'' = Some (LBool b)"

text \<open>Copies of strings that fit their buffers are complete.\<close>

definition fits :: "nat \<Rightarrow> bytes \<Rightarrow> bool" where
  "fits n t \<longleftrightarrow> length t < n \<and> nul \<notin> set t"

lemma strncpy_fits: "fits n t \<Longrightarrow> strncpy (n - Suc 0) t = t"
  unfolding fits_def by (intro strncpy_id) linarith+

lemma fits_extension:
  assumes "0 \<le> n" and "n \<le> 9999"
  shows "fits MAX_EXTENSION_LEN (show_int n)"
proof -
  have "length (show_nat (nat n)) \<le> Suc 3" by (rule length_show_nat) (use assms in simp)
  then show ?thesis using assms(1) nul_show_int [of n] by (simp add: fits_def MAX_EXTENSION_LEN_def show_int_def)
qed

lemma fits_agent:
  assumes "lua_ok lib" and "script_inv s" and "dept_of k = Some d"
  shows "fits MAX_EXTENSION_LEN (dept_agent lib k s)"
proof -
  from assms(2) have i: "all_idle s" by (simp add: script_inv_def)
  from pick_in_dept [OF assms(1) i assms(3)] obtain a e where
    a: "pick_idle_agent lib (Some k) s = Some a" "a_extension a = show_int e" "d_range_start d \<le> e" "e \<le> d_range_end d"
    by blast
  have kd: "(k, d) \<in> set DEPARTMENTS" using assms(3) by (rule map_of_SomeD)
  have "list_all (\<lambda>(k, d). 0 \<le> d_range_start d \<and> d_range_end d \<le> 9999) DEPARTMENTS" by (simp add: DEPARTMENTS_def)
  with kd have "0 \<le> d_range_start d \<and> d_range_end d \<le> 9999" by (auto simp: list_all_iff)
  with a fits_extension [of e] show ?thesis by (simp add: dept_agent_def agent_or_def)
qed

lemma fits_name: "(k, d) \<in> set DEPARTMENTS \<Longrightarrow> fits MAX_DEPT_NAME_LEN (d_name d)"
proof -
  have "list_all (\<lambda>(k, d). fits MAX_DEPT_NAME_LEN (d_name d)) DEPARTMENTS"
    by (simp add: DEPARTMENTS_def fits_def MAX_DEPT_NAME_LEN_def nul_def)
  then show "(k, d) \<in> set DEPARTMENTS \<Longrightarrow> fits MAX_DEPT_NAME_LEN (d_name d)" by (auto simp: list_all_iff)
qed

definition decision_fits :: "decision \<Rightarrow> bool" where
  "decision_fits = (\<lambda>(c, t, d). fits MAX_EXTENSION_LEN t \<and> fits MAX_DEPT_NAME_LEN d)"

lemma fits_small: "fits MAX_EXTENSION_LEN []" "fits MAX_DEPT_NAME_LEN []" "fits MAX_EXTENSION_LEN ''9000''"
  "fits MAX_DEPT_NAME_LEN service_desk"
  by (simp_all add: fits_def MAX_EXTENSION_LEN_def MAX_DEPT_NAME_LEN_def service_desk_def nul_def)

lemma menu_dept_mem: "menu_dept key = Some k \<Longrightarrow> \<exists>d. dept_of k = Some d \<and> (k, d) \<in> set DEPARTMENTS"
  using menu_found [of key k] map_of_SomeD [of DEPARTMENTS k] by blast

lemma route_decision_fits:
  assumes l: "lua_ok lib" and i: "script_inv s"
  shows "decision_fits (fst (route_decision (\<lambda>k. dept_agent lib k s) work c dg nt))"
proof -
  obtain n t where nt: "nt = (n, t)" by (cases nt)
  have sup: "fits MAX_EXTENSION_LEN (dept_agent lib ''support'' s)" using fits_agent [OF l i] support_dept by blast
  have menu: "fits MAX_EXTENSION_LEN (dept_agent lib k s)" "fits MAX_DEPT_NAME_LEN (name_of k)"
    if "menu_dept dg = Some k" for k
    using menu_dept_mem [OF that] fits_agent [OF l i] fits_name by (auto simp: name_of_def)
  have int: "fits MAX_EXTENSION_LEN dg" "fits MAX_DEPT_NAME_LEN (d_name d)" "decision_fits (internal_decision dg)"
    if "Option.bind (number dg) dept_at = Some (k, d)" for k d
  proof -
    from that obtain m where m: "number dg = Some m" "dept_at m = Some (k, d)" by (auto simp: bind_eq_Some_conv)
    with number_text [OF m(1)] dept_at_range [OF m(2)] fits_extension [of m] fits_name [of k d]
    show "fits MAX_EXTENSION_LEN dg" "fits MAX_DEPT_NAME_LEN (d_name d)" by simp_all
    then show "decision_fits (internal_decision dg)" using that by (simp add: internal_decision_def decision_fits_def)
  qed
  have "decision_fits (internal_decision dg)"
    using int(3) fits_small by (cases "Option.bind (number dg) dept_at")
      (auto simp: internal_decision_def decision_fits_def)
  moreover have "decision_fits (fst (ivr_decision (\<lambda>k. dept_agent lib k s) dg nt))"
    using menu sup fits_small by (auto simp: ivr_decision_def nt decision_fits_def split: option.split)
  ultimately show ?thesis using sup fits_small by (simp add: route_decision_def decision_fits_def)
qed

section \<open>Routing from C\<close>

lemma script_interp_sel [simp]:
  "li_getglobal (script_interp lib path I) = global_of" "li_getfield (script_interp lib path I) = field_of"
  "li_call (script_interp lib path I) = call_value lib" "li_setglobal (script_interp lib path I) = set_global"
  by (simp_all add: script_interp_def)

definition decision_in :: "route_response \<Rightarrow> decision" where
  "decision_in r = (r_code r, target_extension r, department r)"

lemma response_of_fields:
  assumes "new_table (Fields (response_fields r)) g = (t, g')" and "decision_fits (decision_of r)"
    and "possible (decision_of r)"
  shows "is_lua_table t" and "decision_in (response_of (script_interp lib path I) g' t) = decision_of r"
proof -
  have t: "t = LTable (length (lw_tables g))" and o: "object_at g' t = Fields (response_fields r)"
    using assms(1) by (auto simp: new_table_def)
  then show "is_lua_table t" by simp
  have f: "field_of g' t n = (case map_of (response_fields r) n of None \<Rightarrow> LNil | Some x \<Rightarrow> x)" for n
    by (simp add: field_of_def o)
  have "to_int32 (rt_code r) = rt_code r"
    using assms(3) by (intro to_int32_id) (auto simp: possible_def decision_of_def int_range_def)
  moreover have "strncpy (MAX_EXTENSION_LEN - Suc 0) (rt_target r) = rt_target r"
    "strncpy (MAX_DEPT_NAME_LEN - Suc 0) (rt_department r) = rt_department r"
    using assms(2) by (simp_all add: strncpy_fits decision_fits_def decision_of_def)
  ultimately show "decision_in (response_of (script_interp lib path I) g' t) = decision_of r"
    by (simp add: decision_in_def response_of_def field_string_def f response_fields_def decision_of_def)
qed

lemma loaded_function:
  "script_loaded g s b \<Longrightarrow> i < length script_functions \<Longrightarrow> global_of g (script_functions ! i) = LFunction (Suc i)"
  by (simp add: script_loaded_def global_of_def)

lemma script_route:
  assumes l: "lua_ok lib" and g: "script_loaded g s b" and p: "plain_text c" "plain_text dg"
  shows "\<exists>t g' s'. call_value lib g (global_of g ''route_call'') [LString c, LString dg] = (Inr t, g') \<and>
    is_lua_table t \<and> script_loaded g' s' b \<and> rs_agents s' = rs_agents s \<and>
    route_decision (\<lambda>k. dept_agent lib k s) (fst (is_work_time lib (s\<lparr>rs_force := LBool b\<rparr>))) c dg (retries s c) =
      (decision_in (response_of (script_interp lib path I) g' t), retries s' c) \<and>
    retries s' = (retries s)(c := retries s' c)"
proof -
  let ?s = "s\<lparr>rs_force := LBool b\<rparr>"
  have s: "lw_script g = Some s" "script_inv s" "lw_globals g ''_TEST_FORCE_WORKTIME'' = Some (LBool b)"
    using g by (simp_all add: script_loaded_def)
  have i: "script_inv ?s" by (rule force_inv [OF s(2)])
  have ag: "dept_agent lib k ?s = dept_agent lib k s" for k
    using idle_cong(4) [of ?s s] by (simp add: dept_agent_def)
  have rt: "retries ?s = retries s" by (simp add: retries_def fun_eq_iff)
  from route_refines [OF l i p] obtain r s' where
    r: "route_call lib (Some c) (Some dg) ?s = (Inr r, s')"
      "route_decision (\<lambda>k. dept_agent lib k s) (fst (is_work_time lib ?s)) c dg (retries s c) =
        (decision_of r, retries s' c)" and st: "step_to ?s c (retries s' c) s'"
    unfolding ag rt by blast
  obtain t g' where t: "new_table (Fields (response_fields r)) (g\<lparr>lw_script := Some s'\<rparr>) = (t, g')"
    by (cases "new_table (Fields (response_fields r)) (g\<lparr>lw_script := Some s'\<rparr>)")
  have "script_functions ! 0 = ''route_call''" by (simp add: script_functions_def)
  with loaded_function [OF g, of 0] have "global_of g ''route_call'' = LFunction (Suc 0)"
    by (simp add: script_functions_def)
  then have "call_value lib g (global_of g ''route_call'') [LString c, LString dg] = (Inr t, g')"
    using s(1,3) r(1) t
    by (simp add: script_functions_def call_script_def global_of_def return_routed_def return_fields_def)
  moreover have "script_loaded g' s' b"
    using t g st unfolding script_loaded_def by (auto simp: new_table_def step_to_def)
  moreover have d: "decision_fits (decision_of r)" "possible (decision_of r)"
    using route_decision_fits [OF l s(2), of "fst (is_work_time lib ?s)" c dg "retries s c"]
      route_possible [of "\<lambda>k. dept_agent lib k s" "fst (is_work_time lib ?s)" c dg "retries s c"] r(2) by simp_all
  have "is_lua_table t" "decision_in (response_of (script_interp lib path I) g' t) = decision_of r"
    by (rule response_of_fields [OF t d])+
  ultimately show ?thesis using r(2) st by (auto simp: step_to_def kept_def rt)
qed

end
