(* ===== verification/Route_Calls.thy ===== *)
theory Route_Calls
  imports Route_Interp Call_Facts Program
begin

text \<open>
  The routing script and the C code together: loading the script, and the call test with the decisions the
  script makes.
\<close>

section \<open>Loading the script\<close>

lemma loaded_chunk:
  assumes "lua_ok lib"
  shows "\<exists>s. script_loaded (run_chunk lib g) s False \<and> (\<forall>c. retries s c = (0, 0))"
proof -
  define n where "n = (case lw_script g of None \<Rightarrow> 0 | Some s \<Rightarrow> rs_ticks s)"
  have "script_loaded (run_chunk lib g) (script_start lib n) False"
    using start_inv(1) [OF assms]
    by (simp add: script_loaded_def run_chunk_def n_def [symmetric] script_functions_def upt_rec All_less_Suc numeral_eq_Suc map_add_def)
  with start_inv(2) [OF assms] show ?thesis by blast
qed

section \<open>The decisions of the call test\<close>

fun decide_calls :: "(bytes \<Rightarrow> bytes) \<Rightarrow> call_test_case list \<Rightarrow> (bytes \<Rightarrow> int \<times> int) \<Rightarrow> (decision \<times> decision) list" where
  "decide_calls agent [] nts = []"
| "decide_calls agent (tc # tcs) nts =
     (let (d, nt) = route_decision agent True (tc_caller tc) (digits_or_empty tc) (nts (tc_caller tc));
          (d2, nt2) = route_decision agent True (tc_caller tc) (digits_or_empty tc) nt
      in (d, d2) # decide_calls agent tcs (nts(tc_caller tc := nt2)))"

definition plain_case :: "call_test_case \<Rightarrow> bool" where
  "plain_case tc \<longleftrightarrow> plain_text (tc_caller tc) \<and> plain_text (digits_or_empty tc) \<and>
     nul \<notin> set (tc_caller tc) \<and> nul \<notin> set (digits_or_empty tc)"

lemma script_case:
  assumes l: "lua_ok lib" and g: "script_loaded g s True" and tc: "plain_case tc"
  shows "\<exists>r g' s'. case_route (script_interp lib path I) tc g = (r_code r, r, g') \<and> script_loaded g' s' True \<and>
    rs_agents s' = rs_agents s \<and> retries s' = (retries s)(tc_caller tc := retries s' (tc_caller tc)) \<and>
    route_decision (\<lambda>k. dept_agent lib k s) True (tc_caller tc) (digits_or_empty tc) (retries s (tc_caller tc)) =
      (decision_in r, retries s' (tc_caller tc))"
proof -
  let ?I = "script_interp lib path I"
  have p: "plain_text (tc_caller tc)" "plain_text (digits_or_empty tc)"
    and c: "cstr (tc_caller tc) = tc_caller tc" "cstr (digits_or_empty tc) = digits_or_empty tc"
    using tc by (simp_all add: plain_case_def cstr_id)
  have w: "fst (is_work_time lib (s\<lparr>rs_force := LBool True\<rparr>))"
    by (simp add: is_work_time_def lua_toboolean_def)
  have f: "is_lua_function (global_of g ''route_call'')"
    using loaded_function [OF g, of 0] by (simp add: script_functions_def)
  from script_route [OF l g p, where path = path and I = I] obtain t g' s' where
    "call_value lib g (global_of g ''route_call'') [LString (tc_caller tc), LString (digits_or_empty tc)] = (Inr t, g')"
    "is_lua_table t" "script_loaded g' s' True" "rs_agents s' = rs_agents s"
    "route_decision (\<lambda>k. dept_agent lib k s) True (tc_caller tc) (digits_or_empty tc) (retries s (tc_caller tc)) =
      (decision_in (response_of ?I g' t), retries s' (tc_caller tc))"
    "retries s' = (retries s)(tc_caller tc := retries s' (tc_caller tc))"
    unfolding eqTrueI [OF w] by blast
  moreover from this f have "case_route ?I tc g = (r_code (response_of ?I g' t), response_of ?I g' t, g')"
    by (simp add: case_route_def c Let_def)
  ultimately show ?thesis by blast
qed

definition decided :: "(int \<times> route_response \<times> route_response) list \<Rightarrow> (decision \<times> decision) list" where
  "decided rs = map (\<lambda>(c, r, r2). (decision_in r, decision_in r2)) rs"

lemma script_calls:
  assumes l: "lua_ok lib" and "script_loaded g s True" and "list_all plain_case tcs"
  shows "\<exists>rs g' s'. call_routes (script_interp lib path I) tcs g = (rs, g') \<and> script_loaded g' s' True \<and>
    list_all (\<lambda>(c, r, r2). c = r_code r) rs \<and>
    decided rs = decide_calls (\<lambda>k. dept_agent lib k s) tcs (retries s)"
  using assms(2,3)
proof (induction tcs arbitrary: g s)
  case Nil
  then show ?case by (auto simp: decided_def)
next
  case (Cons tc tcs)
  let ?I = "script_interp lib path I" and ?c = "tc_caller tc"
  have tc: "plain_case tc" and tcs: "list_all plain_case tcs" using Cons.prems(2) by simp_all
  from script_case [OF l Cons.prems(1) tc, where path = path and I = I] obtain r g1 s1 where
    a: "case_route ?I tc g = (r_code r, r, g1)" "script_loaded g1 s1 True" "rs_agents s1 = rs_agents s"
      "retries s1 = (retries s)(?c := retries s1 ?c)"
      "route_decision (\<lambda>k. dept_agent lib k s) True ?c (digits_or_empty tc) (retries s ?c) = (decision_in r, retries s1 ?c)"
    by blast
  from script_case [OF l a(2) tc, where path = path and I = I] obtain r2 g2 s2 where
    b: "case_route ?I tc g1 = (r_code r2, r2, g2)" "script_loaded g2 s2 True" "rs_agents s2 = rs_agents s1"
      "retries s2 = (retries s1)(?c := retries s2 ?c)"
      "route_decision (\<lambda>k. dept_agent lib k s1) True ?c (digits_or_empty tc) (retries s1 ?c) = (decision_in r2, retries s2 ?c)"
    by blast
  have ag: "dept_agent lib k s1 = dept_agent lib k s" "dept_agent lib k s2 = dept_agent lib k s" for k
    using idle_cong(4) [OF a(3)] idle_cong(4) [OF b(3)] by (simp_all add: dept_agent_def)
  have "retries s2 = (retries s)(?c := retries s2 ?c)" using a(4) b(4) by (metis fun_upd_upd)
  moreover from Cons.IH [OF b(2) tcs] obtain rs g' s' where
    "call_routes ?I tcs g2 = (rs, g')" "script_loaded g' s' True" "list_all (\<lambda>(c, r, r2). c = r_code r) rs"
    "decided rs = decide_calls (\<lambda>k. dept_agent lib k s) tcs (retries s2)"
    unfolding ag by blast
  ultimately show ?case using a(1,5) b(1,5) unfolding ag
    by (intro exI [of _ "(r_code r, r, r2) # rs"] exI [of _ g'] exI [of _ s']) (simp add: decided_def)
qed

section \<open>The test cases\<close>

definition plain_shape :: "bytes \<Rightarrow> bool" where
  "plain_shape s \<longleftrightarrow> (s = [] \<or> \<not> numeric_start (hd s) \<or>
     list_all isdigit s \<and> (hd s \<noteq> CHR ''0'' \<or> s = ''0'') \<and> length s \<le> 15) \<and> nul \<notin> set s"

lemma shape_plain: "plain_shape s \<Longrightarrow> plain_text s \<and> nul \<notin> set s"
  using plain_digits [of s] by (auto simp: plain_shape_def plain_text_def)

lemma test_cases_plain: "list_all plain_case test_cases"
proof -
  have "list_all (\<lambda>tc. plain_shape (tc_caller tc) \<and> plain_shape (digits_or_empty tc)) test_cases"
    by (simp add: test_cases_def call_test_case.defs digits_or_empty_def plain_shape_def numeric_start_def
        isdigit_def isspace_def nul_def)
  then show ?thesis unfolding list_all_iff plain_case_def using shape_plain by blast
qed

text \<open>The codes of the decisions, without the departments.\<close>

definition extension :: "int \<Rightarrow> bool" where
  "extension n \<longleftrightarrow> 1001 \<le> n \<and> n \<le> 1050 \<or> 1101 \<le> n \<and> n \<le> 1150 \<or> 1201 \<le> n \<and> n \<le> 1250 \<or> 1301 \<le> n \<and> n \<le> 1330 \<or>
     2001 \<le> n \<and> n \<le> 2400 \<or> 2501 \<le> n \<and> n \<le> 2800 \<or> 2901 \<le> n \<and> n \<le> 2980 \<or> 3001 \<le> n \<and> n \<le> 3200 \<or>
     9001 \<le> n \<and> n \<le> 9050"

lemma dept_at_extension: "dept_at n = None \<longleftrightarrow> \<not> extension n"
  by (simp add: dept_at_def DEPARTMENTS_def extension_def)

definition dials_extension :: "bytes \<Rightarrow> bool" where
  "dials_extension t \<longleftrightarrow> (case number t of None \<Rightarrow> False | Some n \<Rightarrow> extension n)"

lemma dials_extension_dept: "Option.bind (number t) dept_at = None \<longleftrightarrow> \<not> dials_extension t"
  by (cases "number t") (simp_all add: dials_extension_def dept_at_extension)

definition route_code :: "bytes \<Rightarrow> bytes \<Rightarrow> int \<times> int \<Rightarrow> int \<times> int \<times> int" where
  "route_code c dg = (\<lambda>(n, t).
     if take 3 c = ''400'' \<or> \<not> dials_extension c then
       if dg = [] then (if t = 1 then (4, n, 0) else (8, n, 1))
       else if menu_dept dg \<noteq> None then (0, n, t)
       else if n = 2 then (4, 0, t) else (9, n + 1, t)
     else (if dials_extension dg then 0 else 1, n, t))"

lemma internal_code: "fst (internal_decision dg) = (if dials_extension dg then 0 else 1)"
  using dials_extension_dept [of dg] by (auto simp: internal_decision_def split: option.split)

lemma route_decision_code:
  assumes "route_decision agent True c dg nt = (d, nt')"
  shows "route_code c dg nt = (fst d, nt')"
proof (cases "external c")
  case True
  then have e: "take 3 c = ''400'' \<or> \<not> dials_extension c" by (simp add: external_def dials_extension_dept)
  from assms True have "ivr_decision agent dg nt = (d, nt')" by (simp add: route_decision_def)
  with e show ?thesis
    by (cases nt; cases "menu_dept dg") (auto simp: ivr_decision_def route_code_def split: if_splits)
next
  case False
  then have "\<not> (take 3 c = ''400'' \<or> \<not> dials_extension c)" by (simp add: external_def dials_extension_dept)
  with False assms show ?thesis
    by (cases nt) (auto simp: route_decision_def route_code_def internal_code)
qed

text \<open>Calls that neither depend on the retries of the caller nor change them.\<close>

definition steady :: "bytes \<Rightarrow> bytes \<Rightarrow> bool" where
  "steady c dg \<longleftrightarrow> menu_dept dg \<noteq> None \<or> take 3 c \<noteq> ''400'' \<and> dials_extension c"

lemma menu_dept_empty [simp]: "menu_dept [] = None"
  by (simp add: menu_dept_def)

lemma steady_code: "steady c dg \<Longrightarrow> \<exists>x. \<forall>nt. route_code c dg nt = (x, nt)"
  unfolding steady_def
proof (elim disjE)
  assume "menu_dept dg \<noteq> None"
  moreover from this have "dg \<noteq> []" using menu_dept_empty by blast
  ultimately have "route_code c dg nt =
      (if take 3 c = ''400'' \<or> \<not> dials_extension c then 0 else if dials_extension dg then 0 else 1, nt)" for nt
    by (cases nt) (simp add: route_code_def)
  then show ?thesis by blast
next
  assume "take 3 c \<noteq> ''400'' \<and> dials_extension c"
  then have "route_code c dg nt = (if dials_extension dg then 0 else 1, nt)" for nt
    by (cases nt) (simp add: route_code_def)
  then show ?thesis by blast
qed

definition code_pair :: "bytes \<times> bytes \<Rightarrow> int \<times> int" where
  "code_pair = (\<lambda>(c, dg). (fst (route_code c dg (0, 0)), fst (route_code c dg (snd (route_code c dg (0, 0))))))"

text \<open>Calls of which each finds its caller without retries, if that matters.\<close>

fun apart :: "(bytes \<times> bytes) list \<Rightarrow> bool" where
  "apart [] = True"
| "apart ((c, dg) # cs) = ((steady c dg \<or> list_all (\<lambda>(c', dg'). c' \<noteq> c \<or> steady c' dg') cs) \<and> apart cs)"

definition dialled :: "call_test_case \<Rightarrow> bytes \<times> bytes" where
  "dialled tc = (tc_caller tc, digits_or_empty tc)"

definition codes :: "decision \<times> decision \<Rightarrow> int \<times> int" where
  "codes = (\<lambda>(d, d2). (fst d, fst d2))"

lemma decide_calls_codes:
  assumes "apart (map dialled tcs)"
    and "\<And>c dg. (c, dg) \<in> set (map dialled tcs) \<Longrightarrow> nts c = (0, 0) \<or> steady c dg"
  shows "map codes (decide_calls agent tcs nts) = map (code_pair \<circ> dialled) tcs"
  using assms
proof (induction tcs arbitrary: nts)
  case (Cons tc tcs)
  let ?c = "tc_caller tc" and ?g = "digits_or_empty tc"
  obtain d nt where d: "route_decision agent True ?c ?g (nts ?c) = (d, nt)"
    by (cases "route_decision agent True ?c ?g (nts ?c)")
  obtain d2 nt2 where d2: "route_decision agent True ?c ?g nt = (d2, nt2)"
    by (cases "route_decision agent True ?c ?g nt")
  note r = route_decision_code [OF d] route_decision_code [OF d2]
  have h: "nts ?c = (0, 0) \<or> steady ?c ?g" using Cons.prems(2) [of ?c ?g] by (simp add: dialled_def)
  then have p: "(fst d, fst d2) = code_pair (dialled tc)"
  proof
    assume "nts ?c = (0, 0)"
    with r show ?thesis by (simp add: code_pair_def dialled_def)
  next
    assume "steady ?c ?g"
    then obtain x where "route_code ?c ?g nt = (x, nt)" for nt using steady_code by blast
    with r show ?thesis by (simp add: code_pair_def dialled_def)
  qed
  have s: "nt2 = nts ?c" if "steady ?c ?g"
  proof -
    from that obtain x where "route_code ?c ?g nt = (x, nt)" for nt using steady_code by blast
    with r show ?thesis by simp
  qed
  have "map codes (decide_calls agent tcs (nts(?c := nt2))) = map (code_pair \<circ> dialled) tcs"
  proof (rule Cons.IH)
    show "apart (map dialled tcs)" using Cons.prems(1) by (simp add: dialled_def [of tc])
    fix c dg
    assume m: "(c, dg) \<in> set (map dialled tcs)"
    then have "nts c = (0, 0) \<or> steady c dg" using Cons.prems(2) by simp
    moreover have "steady ?c ?g \<or> c \<noteq> ?c \<or> steady c dg"
      using Cons.prems(1) m by (auto simp: dialled_def [of tc] list_all_iff)
    ultimately show "(nts(?c := nt2)) c = (0, 0) \<or> steady c dg" using s by auto
  qed
  with p show ?case by (simp add: codes_def d d2 Let_def)
qed simp

definition dialled_calls :: "(bytes \<times> bytes) list" where
  "dialled_calls =
   [(''4001234567'', ''1''), (''4002222222'', ''1''), (''4003333333'', ''1''), (''4004444444'', ''1''),
    (''4005555555'', ''1''), (''4006666666'', ''2''), (''4007777777'', ''2''), (''4008888888'', ''2''),
    (''4009999999'', ''2''), (''4000000001'', ''2''), (''4001111112'', ''3''), (''4001111113'', ''3''),
    (''4001111114'', ''3''), (''4001111115'', ''0''), (''4001111116'', ''0''), (''4001111117'', ''0''),
    (''2001'', ''2010''), (''2501'', ''2510''), (''3001'', ''3010''), (''1001'', ''1010''),
    (''1001'', ''1101''), (''2001'', ''3001''), (''1301'', ''1201''), (''3001'', ''2501''),
    (''4001000001'', ''1''), (''4001000002'', ''2''), (''4001000003'', ''0''), (''4001000004'', ''3''),
    (''4001000005'', []), (''4002000001'', []), (''4002000002'', []), (''4002000003'', []),
    (''4003000001'', ''5''), (''4003000002'', ''#''), (''4003000003'', ''*''), (''1001'', ''9999''),
    (''9999'', ''2001''), (''1001'', ''abc''), (''unknown'', ''9''), (''4008888888'', ''1''),
    (''4008888889'', ''2''), (''4007777777'', ''3''), (''4004000001'', ''1''), (''4004000002'', ''2''),
    (''4004000003'', ''0''), (''4005000001'', ''1''), (''4005000002'', ''2''), (''4005000003'', ''0''),
    (''2001'', ''9002''), (''4009999998'', [])]"

lemma test_cases_dialled: "map dialled test_cases = dialled_calls"
  by (simp add: test_cases_def call_test_case.defs digits_or_empty_def dialled_def dialled_calls_def)

lemma dialled_extensions:
  "dials_extension ''1001''" "dials_extension ''1010''" "dials_extension ''1101''" "dials_extension ''1201''"
  "dials_extension ''1301''" "dials_extension ''2001''" "dials_extension ''2010''" "dials_extension ''2501''"
  "dials_extension ''2510''" "dials_extension ''9002''" "dials_extension ''3001''" "dials_extension ''3010''"
  "\<not> dials_extension ''9999''" "\<not> dials_extension ''abc''" "\<not> dials_extension ''unknown''"
  by (simp_all add: dials_extension_def number_digits number_other numeric_start_def isspace_def isdigit_def
      digit_val_def extension_def)

lemma dialled_apart: "apart dialled_calls"
  by (simp add: dialled_calls_def dialled_extensions steady_def menu_dept_def)

definition test_codes :: "(int \<times> int) list" where
  "test_codes = replicate 28 (0, 0) @ replicate 4 (8, 4) @ replicate 3 (9, 9) @ [(1, 1), (9, 9), (1, 1), (9, 9)] @
     replicate 10 (0, 0) @ [(8, 4)]"

lemma dialled_codes: "map code_pair dialled_calls = test_codes"
  by (simp add: dialled_calls_def dialled_extensions route_code_def code_pair_def menu_dept_def test_codes_def
      numeral_eq_Suc)

lemma test_cases_codes: "map codes (decide_calls agent test_cases (\<lambda>c. (0, 0))) = test_codes"
  using decide_calls_codes [of test_cases "\<lambda>c. (0, 0)" agent] dialled_apart dialled_codes
  by (simp add: test_cases_dialled flip: map_map)

section \<open>The program and the script\<close>

lemma start_lua_loads:
  assumes l: "lua_ok lib" and m: "lua_memory S = Some u"
  shows "\<exists>vm L s. start_lua (script_interp lib LUA_SCRIPT_PATH I) S = Some (Some vm) \<and> vm_L vm = Some L \<and>
    stack L = [] \<and> script_loaded (globals L) s False \<and> (\<forall>c. retries s c = (0, 0))"
proof -
  let ?g = "\<lparr>lw_globals = Map.empty, lw_script = None, lw_tables = []\<rparr>"
  from loaded_chunk [OF l, of ?g] obtain s where
    s: "script_loaded (run_chunk lib ?g) s False" "\<forall>c. retries s c = (0, 0)" by blast
  have "start_lua (script_interp lib LUA_SCRIPT_PATH I) S = Some (Some
      \<lparr>vm_L = Some \<lparr>globals = run_chunk lib ?g, stack = []\<rparr>, script_path = strncpy (MAX_LUA_SCRIPT_LEN - 1) LUA_SCRIPT_PATH\<rparr>)"
    by (simp add: start_lua_def lua_vm_create_def m lua_vm_init_def lua_vm_load_script_def lua_loadfile_def
        lua_pcall_def script_interp_def lua_push_def LUA_SCRIPT_PATH_def Let_def)
  with s show ?thesis by auto
qed

lemma script_call_routes:
  assumes l: "lua_ok lib" and g: "script_loaded g s b" and n: "\<forall>c. retries s c = (0, 0)"
  shows "\<exists>rs g'. call_routes (script_interp lib path I) test_cases (forced (script_interp lib path I) g True) = (rs, g') \<and>
    list_all (\<lambda>(c, r, r2). c = r_code r) rs \<and> map (\<lambda>(c, r, r2). (r_code r, r_code r2)) rs = test_codes"
proof -
  have f: "script_functions ! i \<noteq> ''_TEST_FORCE_WORKTIME''" if "i < length script_functions" for i
  proof -
    have "''_TEST_FORCE_WORKTIME'' \<notin> set script_functions" by (simp add: script_functions_def)
    with nth_mem [OF that] show ?thesis by metis
  qed
  have "script_loaded (forced (script_interp lib path I) g True) s True"
    using g f by (simp add: script_loaded_def set_global_def)
  from script_calls [OF l this test_cases_plain, of path I] obtain rs g' where
    rs: "call_routes (script_interp lib path I) test_cases (forced (script_interp lib path I) g True) = (rs, g')"
    "list_all (\<lambda>(c, r, r2). c = r_code r) rs"
    "decided rs = decide_calls (\<lambda>k. dept_agent lib k s) test_cases (retries s)" by blast
  have "retries s = (\<lambda>c. (0, 0))" using n by auto
  with rs(3) have "map codes (decided rs) = test_codes" by (simp add: test_cases_codes)
  moreover have "map codes (decided rs) = map (\<lambda>(c, r, r2). (r_code r, r_code r2)) rs"
    by (simp add: decided_def codes_def decision_in_def split_def)
  ultimately show ?thesis using rs(1,2) by auto
qed

end
