(* ===== verification/Route_Properties.thy ===== *)
theory Route_Properties
  imports Route_Calls Sip_Handler
begin

text \<open>
  The properties of the routing script, and of the server and the call test that run it. The instances that
  show the hypotheses can hold use a Lua library defined here.
\<close>

section \<open>A Lua library\<close>

fun insert_by :: "('a \<Rightarrow> 'a \<Rightarrow> bool) \<Rightarrow> 'a \<Rightarrow> 'a list \<Rightarrow> 'a list" where
  "insert_by cmp x [] = [x]"
| "insert_by cmp x (y # ys) = (if cmp y x then y # insert_by cmp x ys else x # y # ys)"

definition plain_lib :: lua_lib where
  "plain_lib = \<lparr>ll_tonumber = \<lambda>t. map_option of_int (number t),
     ll_order = \<lambda>cmp n. foldr (insert_by cmp) [0..<n] [],
     ll_pairs = DEPARTMENTS,
     ll_clock = \<lambda>i. \<lparr>ck_time = 0, ck_wday = 1, ck_hour = 12, ck_min = 0\<rparr>\<rparr>"

lemma insert_by_sorted:
  assumes "\<And>a b. a \<in> insert x (set ys) \<Longrightarrow> b \<in> insert x (set ys) \<Longrightarrow> cmp a b = ((f a :: int) < f b)"
    and "sorted (map f ys)"
  shows "mset (insert_by cmp x ys) = add_mset x (mset ys) \<and> sorted (map f (insert_by cmp x ys))"
  using assms
proof (induction ys)
  case (Cons y ys)
  have c: "cmp y x = (f y < f x)" using Cons.prems(1) by simp
  have "\<And>a b. a \<in> insert x (set ys) \<Longrightarrow> b \<in> insert x (set ys) \<Longrightarrow> cmp a b = (f a < f b)"
    using Cons.prems(1) by auto
  from Cons.IH [OF this] Cons.prems(2)
  have ih: "mset (insert_by cmp x ys) = add_mset x (mset ys)" "sorted (map f (insert_by cmp x ys))" by simp_all
  have "set (insert_by cmp x ys) = insert x (set ys)" using ih(1) by (metis set_mset_mset set_mset_add_mset_insert)
  with ih Cons.prems(2) c show ?case by auto
qed simp

lemma insertion_sorted:
  assumes "\<And>a b. a \<in> set xs \<Longrightarrow> b \<in> set xs \<Longrightarrow> cmp a b = ((f a :: int) < f b)"
  shows "mset (foldr (insert_by cmp) xs []) = mset xs \<and> sorted (map f (foldr (insert_by cmp) xs []))"
  using assms
proof (induction xs)
  case (Cons x xs)
  let ?ys = "foldr (insert_by cmp) xs []"
  have ih: "mset ?ys = mset xs" "sorted (map f ?ys)" using Cons by simp_all
  have "set ?ys = set xs" using ih(1) by (metis set_mset_mset)
  with insert_by_sorted [of x ?ys cmp f] ih Cons.prems show ?case by simp
qed simp

lemma plain_lib_ok: "lua_ok plain_lib"
proof -
  have "number (show_int n) = Some n" if "0 \<le> n" for n
    using that scan_digits_show [of 0] by (simp add: number_def show_int_def Let_def)
  then have "numbers_ok plain_lib" by (simp add: numbers_ok_def plain_lib_def number_other)
  moreover have "sort_ok plain_lib"
    unfolding sort_ok_def
  proof (intro allI impI)
    fix cmp and f :: "nat \<Rightarrow> int" and n :: nat
    assume "\<forall>i<n. \<forall>j<n. cmp i j = (f i < f j)"
    then show "mset (ll_order plain_lib cmp n) = mset [0..<n] \<and> sorted (map f (ll_order plain_lib cmp n))"
      using insertion_sorted [of "[0..<n]" cmp f] by (simp add: plain_lib_def)
  qed
  moreover have "pairs_ok plain_lib" by (simp add: pairs_ok_def plain_lib_def)
  ultimately show ?thesis by (simp add: lua_ok_def)
qed

abbreviation script_instance :: "lua_lib \<Rightarrow> lua_world lua_interp \<Rightarrow> lua_world lua_interp" where
  "script_instance lib I \<equiv> script_interp lib LUA_SCRIPT_PATH I"

section \<open>The script\<close>

text \<open>C3: The routing script implements the decision \<open>route_decision\<close>: in every state it can be in, for
  numbers and digits that are plain texts, \<open>route_call\<close> returns without error the code, the target and the
  department that the decision gives for the caller, what was dialled, the retries of the caller so far and
  the working time. It changes the retries of no other caller and no agent.\<close>
theorem script_implements_decision:
  assumes "lua_ok lib" and "script_inv s" and "plain_text c" and "plain_text dg"
  shows "\<exists>r s'. route_call lib (Some c) (Some dg) s = (Inr r, s') \<and>
    route_decision (\<lambda>k. dept_agent lib k s) (fst (is_work_time lib s)) c dg (retries s c) =
      (decision_of r, retries s' c) \<and>
    script_inv s' \<and> rs_agents s' = rs_agents s \<and> retries s' = (retries s)(c := retries s' c)"
  using route_refines [OF assms] by (auto simp: step_to_def kept_def)

lemma script_implements_decision_witness:
  "\<exists>r s'. route_call plain_lib (Some ''2001'') (Some ''3001'') (script_start plain_lib 0) = (Inr r, s') \<and> rt_code r = 0 \<and>
    rt_target r = ''3001''"
proof -
  have p: "plain_text ''2001''" "plain_text ''3001''" by (rule plain_digits; simp add: isdigit_def)+
  have "dials_extension ''2001''" "dials_extension ''3001''" by (rule dialled_extensions)+
  then have "\<not> external ''2001''" "fst (internal_decision ''3001'') = 0"
    by (simp_all add: external_def dials_extension_dept internal_code)
  moreover have "fst (snd (internal_decision ''3001'')) = ''3001''"
    using \<open>dials_extension ''3001''\<close> dials_extension_dept [of "''3001''"]
    by (auto simp: internal_decision_def split: option.split prod.split)
  ultimately show ?thesis
    using script_implements_decision [OF plain_lib_ok start_inv(1) [OF plain_lib_ok] p, of 0]
    by (auto simp: route_decision_def decision_of_def)
qed

text \<open>C6: In every run of the script nothing ever changes the state of an agent, so the overload handling
  is dead: no call of a run is answered with a full department, an agent who is offline, a place in a queue or the
  voicemail, and none with an error; the possible codes are success, wrong number, service desk, night mode and
  the two retries. The agent table at the end is the one at the start.\<close>
theorem script_never_overloaded:
  assumes "lua_ok lib" and "script_run lib s ds s'"
  shows "rs_agents s' = rs_agents s \<and> rs_queue s' = Map.empty \<and>
    list_all (pred_option (\<lambda>d. fst d \<in> {0, 1, 4, 6, 8, 9})) ds"
  using script_run_inv [OF assms] by (simp add: script_inv_def possible_def [abs_def])

lemma script_never_overloaded_witness:
  "\<exists>d s'. script_run plain_lib (script_start plain_lib 0) [d] s' \<and>
    pred_option (\<lambda>d. fst d \<in> {0, 1, 4, 6, 8, 9}) d"
proof -
  obtain d s' where d: "script_step plain_lib (Call_overflow ''sales'' ''4008888888'') (script_start plain_lib 0) = (d, s')"
    by (cases "script_step plain_lib (Call_overflow ''sales'' ''4008888888'') (script_start plain_lib 0)")
  have "script_run plain_lib (script_start plain_lib 0) ([] @ [d]) s'"
    by (rule run_step [OF run_start _ d]) simp
  then have r: "script_run plain_lib (script_start plain_lib 0) [d] s'" by simp
  from script_never_overloaded [OF plain_lib_ok r] r show ?thesis by auto
qed



section \<open>The script and the C code\<close>

text \<open>The statistics depend on the codes only.\<close>

fun count_codes :: "(int \<times> int) list \<Rightarrow> call_stats \<Rightarrow> call_stats" where
  "count_codes [] st = st"
| "count_codes ((x, x2) # cs) st = count_codes cs (count_code x2 (count_ret x st))"

lemma count_test_codes:
  "count_codes test_codes zero_stats = \<lparr>success_count = 38, fail_count = 12, night_count = 0, voicemail_count = 0,
     queue_count = 0, invalid_count = 2\<rparr>"
  by code_simp

text \<open>What the labels of the cases expect, by the names of the result codes.\<close>

definition expected_code :: "bytes \<Rightarrow> int option" where
  "expected_code = map_of [(''SUCCESS'', ROUTE_RESULT_SUCCESS), (''INVALID_DIGITS'', ROUTE_RESULT_INVALID_DIGITS),
     (''FALLBACK_AGENT'', ROUTE_RESULT_FALLBACK_AGENT), (''QUEUED'', ROUTE_RESULT_QUEUED),
     (''NIGHT_MODE'', ROUTE_RESULT_NIGHT_MODE), (''VOICEMAIL'', ROUTE_RESULT_VOICEMAIL),
     (''TIMEOUT_RETRY'', ROUTE_RESULT_TIMEOUT_RETRY), (''INVALID_KEY_RETRY'', ROUTE_RESULT_INVALID_KEY_RETRY)]"

definition unexpected :: "int list \<Rightarrow> int list" where
  "unexpected cs = map (\<lambda>(tc, c). call_no tc) (filter (\<lambda>(tc, c). expected_code (expected tc) \<noteq> Some c) (zip test_cases cs))"

lemma unexpected_codes:
  "unexpected (map fst test_codes) = [25, 26, 27, 28, 29, 37, 39, 40, 41, 42, 43, 44, 45, 46, 47, 48, 50]"
  by (simp add: unexpected_def test_codes_def test_cases_def call_test_case.defs expected_code_def route_results
      numeral_eq_Suc)

text \<open>C5: The call test with the routing script: whatever the clock shows, a program that has loaded the
  script reports 38 successes and 12 failures, no call in night mode, no voicemail, no queue and two wrong
  numbers; the code that a case is given is not the expected one in 17 of the 50 cases, among them all that are
  written for the night, for full departments, for queues and for the voicemail. With the worker up every call is
  recorded with the code it was given.\<close>
theorem call_test_with_script:
  assumes "lua_ok lib" and "lua_memory S = Some u"
    and "fresh_allocs E" and "recording sync w" and "length (queued sync) + 100 \<le> nat DB_QUEUE_MAX_SIZE"
  shows "\<exists>vm report vm' s' w' rs outs. start_lua (script_instance lib I) S = Some (Some vm) \<and>
    call_test_run (script_instance lib I) E fmt stamp vm (Some sync) w = Some (0, report, vm', Some s', w') \<and>
    success_count (cr_stats report) = 38 \<and> fail_count (cr_stats report) = 12 \<and>
    night_count (cr_stats report) = 0 \<and> voicemail_count (cr_stats report) = 0 \<and>
    queue_count (cr_stats report) = 0 \<and> invalid_count (cr_stats report) = 2 \<and>
    length rs = 50 \<and> length outs = 50 \<and>
    unexpected (map r_code rs) = [25, 26, 27, 28, 29, 37, 39, 40, 41, 42, 43, 44, 45, 46, 47, 48, 50] \<and>
    queued s' = queued sync @ concat (map (call_tasks fmt stamp) (zip test_cases (zip rs outs)))"
proof -
  let ?I = "script_instance lib I"
  from start_lua_loads [where I = I, OF assms(1,2)] obtain vm L s where
    vm: "start_lua ?I S = Some (Some vm)" "vm_L vm = Some L"
      "script_loaded (globals L) s False" "\<forall>c. retries s c = (0, 0)" by blast
  from script_call_routes [OF assms(1) vm(3,4), where path = LUA_SCRIPT_PATH and I = I] obtain rs g where
    rs: "call_routes ?I test_cases (forced ?I (globals L) True) = (rs, g)" "list_all (\<lambda>(c, r, r2). c = r_code r) rs"
      "map (\<lambda>(c, r, r2). (r_code r, r_code r2)) rs = test_codes" by blast
  from call_test_result [OF vm(2) rs(1), of E fmt stamp sync w] assms(3-5) obtain report outs s' w' where
    r: "call_test_run ?I E fmt stamp vm (Some sync) w =
        Some (0, report, vm\<lparr>vm_L := Some (L\<lparr>globals := forced ?I g False\<rparr>)\<rparr>, Some s', w')"
      "cr_stats report = count_all rs zero_stats" "length outs = 50"
      "queued s' = queued sync @ concat (map (call_tasks fmt stamp) (zip test_cases (zip (recorded rs) outs)))"
    by blast
  have c: "map r_code (recorded rs) = map fst test_codes"
    unfolding rs(3) [symmetric] by (simp add: split_def)
  have "length rs = 50" using routes_clean [OF rs(1)] by simp
  then have len: "length (recorded rs) = 50" by simp
  have "count_all rs st = count_codes (map (\<lambda>(c, r, r2). (r_code r, r_code r2)) rs) st" for st
    using rs(2) by (induction rs st rule: count_all.induct) auto
  then have "cr_stats report = count_codes test_codes zero_stats" using r(2) rs(3) by simp
  note st = this [unfolded count_test_codes]
  have "unexpected (map r_code (recorded rs)) =
      [25, 26, 27, 28, 29, 37, 39, 40, 41, 42, 43, 44, 45, 46, 47, 48, 50]"
    unfolding c by (rule unexpected_codes)
  with vm(1) r(1,3,4) len show ?thesis by (intro exI conjI) (auto simp: st)
qed

definition test_surroundings :: surroundings where
  "test_surroundings = \<lparr>log_opens = True, lua_memory = Some (), thread_result = 0, schema_content = None,
     stamps = \<lambda>acts. [], stop_cell = None, compact_time = test_compact, start_stamp = test_stamp\<rparr>"

definition no_world :: "lua_world lua_interp" where
  "no_world = \<lparr>li_newstate = None, li_openlibs = \<lambda>g. g, li_loadfile = \<lambda>g p. Inl LNil, li_getglobal = \<lambda>g n. LNil,
     li_getfield = \<lambda>g t n. LNil, li_call = \<lambda>g f as. (Inl LNil, g), li_float_string = \<lambda>x. [],
     li_float_integer = \<lambda>x. None, li_string_integer = \<lambda>s. None, li_setglobal = \<lambda>g n v. g,
     li_rawlen = \<lambda>g t. 0, li_rawgeti = \<lambda>g t i. LNil\<rparr>"

lemma call_test_with_script_witness:
  "\<exists>vm report vm' s' w'. start_lua (script_instance plain_lib no_world) test_surroundings = Some (Some vm) \<and>
    call_test_run (script_instance plain_lib no_world) test_os test_compact test_stamp vm (Some test_sync) [] =
      Some (0, report, vm', Some s', w') \<and>
    success_count (cr_stats report) = 38"
proof -
  have m: "lua_memory test_surroundings = Some ()" by (simp add: test_surroundings_def)
  have "length (queued test_sync) + 100 \<le> nat DB_QUEUE_MAX_SIZE"
    by (simp add: test_sync_recording DB_QUEUE_MAX_SIZE_def)
  from call_test_with_script [OF plain_lib_ok m test_os_fresh test_sync_recording(1) this,
      of no_world test_compact test_stamp] show ?thesis by blast
qed

text \<open>C4: An INVITE and the routing script: a server that has loaded the script answers an INVITE, after 100,
  with 180 if an extension calls an extension and with 404 if it calls any other number, a department's
  short number included; a caller from outside gets 180 in the working time, whatever was dialled, and 480
  outside of it. The script stays loaded, and its agents stay as they are.\<close>
theorem invite_with_script:
  assumes "lua_ok lib" and "user_data el = Some vm" and "vm_L vm = Some L" and "script_loaded (globals L) s b"
    and "headers_ok q" and "0 < m_src_len q"
    and "m_caller_number q = c" and "m_callee_number q = dg" and "c \<noteq> []" and "dg \<noteq> []"
    and "plain_text c" and "plain_text dg" and "nul \<notin> set c" and "nul \<notin> set dg"
  shows "\<exists>vm' L' s'. sip_handle_invite (script_instance lib I) E el i q w =
      Some (el\<lparr>user_data := Some vm'\<rparr>, add_replies E el i q
        [(100, ''Trying''),
         if external c then
           if fst (is_work_time lib (s\<lparr>rs_force := LBool b\<rparr>)) then (180, ''Ringing'')
           else (480, ''Temporarily Unavailable'')
         else if dials_extension dg then (180, ''Ringing'') else (404, ''Not Found'')] w) \<and>
    vm_L vm' = Some L' \<and> script_loaded (globals L') s' b \<and> rs_agents s' = rs_agents s"
proof -
  let ?I = "script_instance lib I" and ?work = "fst (is_work_time lib (s\<lparr>rs_force := LBool b\<rparr>))"
  have f: "is_lua_function (global_of (globals L) ''route_call'')"
    using loaded_function [OF assms(4), of 0] by (simp add: script_functions_def)
  from script_route [OF assms(1,4,11,12), where path = LUA_SCRIPT_PATH and I = I] obtain t g s' where
    t: "call_value lib (globals L) (global_of (globals L) ''route_call'') [LString c, LString dg] = (Inr t, g)"
      "is_lua_table t" "script_loaded g s' b" "rs_agents s' = rs_agents s"
    and d: "route_decision (\<lambda>k. dept_agent lib k s) ?work c dg (retries s c) =
      (decision_in (response_of ?I g t), retries s' c)" by blast
  define r where "r = response_of ?I g t"
  let ?vm = "vm\<lparr>vm_L := Some (L\<lparr>globals := g\<rparr>)\<rparr>"
  have call: "lua_vm_call_route ?I vm (Some c) (Some dg) zero_response = Some (r_code r, r, ?vm)"
    using assms(13,14) f t(1,2) by (simp add: lua_call_route_some [OF assms(3)] routed_def cstr_id r_def)
  have dr: "r_code r = fst (fst (route_decision (\<lambda>k. dept_agent lib k s) ?work c dg (retries s c)))"
    by (simp add: d r_def decision_in_def)
  have "0 \<le> r_code r \<and> invite_status (r_code r) =
      (if external c then if ?work then (180, ''Ringing'') else (480, ''Temporarily Unavailable'')
       else if dials_extension dg then (180, ''Ringing'') else (404, ''Not Found''))"
    by (cases "retries s c"; cases "menu_dept dg")
      (simp_all add: dr internal_code route_decision_def ivr_decision_def invite_status_def route_results)
  then show ?thesis
    using assms(2,5-10) call t(3,4)
    by (intro exI [of _ ?vm] exI [of _ "L\<lparr>globals := g\<rparr>"] exI [of _ s'])
      (simp add: sip_handle_invite_def send_response_eq [OF assms(5,6)] reply_fits_def Let_def reply_call_def)
qed

text \<open>A server in the middle of the night, and the call of a department's short number.\<close>

definition script_loop :: "lua_world lua_vm \<Rightarrow> lua_world lua_vm event_loop" where
  "script_loop vm = \<lparr>epfd = 3, running = True, config = config one_client,
     callbacks = default_callbacks\<lparr>on_read := Some App_On_Read\<rparr>,
     connections = [zero_connection\<lparr>c_fd := 4, c_type := CONN_TYPE_UDP_SIP\<rparr>],
     conn_capacity = 1, active_count = 1, sip_listen_fd = 4, rtp_base_fd = 0,
     last_idle_check = 0, start_time = 0, user_data = Some vm\<rparr>"

lemma invite_with_script_witness:
  "\<exists>vm vm' q. accepted sample_invite \<lparr>sin_addr = 1, sin_port = 2\<rparr> = Some q \<and>
    sip_handle_invite (script_instance plain_lib no_world) quiet_os (script_loop vm) 0 q [] =
      Some ((script_loop vm)\<lparr>user_data := Some vm'\<rparr>,
        add_replies quiet_os (script_loop vm) 0 q [(100, ''Trying''), (404, ''Not Found'')] [])"
proof -
  let ?q = "sample_request\<lparr>m_src_addr := \<lparr>sin_addr = 1, sin_port = 2\<rparr>, m_src_len := 16\<rparr>"
  have a: "accepted sample_invite \<lparr>sin_addr = 1, sin_port = 2\<rparr> = Some ?q" by (rule sample_accepted)
  have m: "lua_memory test_surroundings = Some ()" by (simp add: test_surroundings_def)
  from start_lua_loads [where I = no_world, OF plain_lib_ok m] obtain vm :: "lua_world lua_vm" and L s where
    vm: "vm_L vm = Some L" "script_loaded (globals L) s False" by blast
  have u: "user_data (script_loop vm) = Some vm" by (simp add: script_loop_def)
  have q: "headers_ok ?q" "0 < m_src_len ?q" using accepted_ok [OF a] by simp_all
  have n: "m_caller_number ?q = ''1001''" "m_callee_number ?q = ''2000''" by simp_all
  have p: "plain_text ''1001''" "plain_text ''2000''" by (rule plain_digits; simp add: isdigit_def)+
  have d: "dials_extension ''1001''" by (rule dialled_extensions)
  then have e: "\<not> external ''1001''" by (simp add: external_def dials_extension_dept)
  have s: "\<not> dials_extension ''2000''"
    by (simp add: dials_extension_def number_digits isdigit_def digit_val_def extension_def)
  have z: "nul \<notin> set ''1001''" "nul \<notin> set ''2000''" by (simp_all add: nul_def)
  from invite_with_script [OF plain_lib_ok u vm q n _ _ p z, where I = no_world and E = quiet_os and i = 0 and w = "[]"]
  obtain vm' where "sip_handle_invite (script_instance plain_lib no_world) quiet_os (script_loop vm) 0 ?q [] =
      Some ((script_loop vm)\<lparr>user_data := Some vm'\<rparr>,
        add_replies quiet_os (script_loop vm) 0 ?q [(100, ''Trying''), (404, ''Not Found'')] [])"
    using e s by auto
  with a show ?thesis by blast
qed

section \<open>The log of the script\<close>

text \<open>The ring buffer once it is full.\<close>

definition log_full :: "route_state \<Rightarrow> bool" where
  "log_full s \<longleftrightarrow> 1 \<le> rs_log_index s \<and> rs_log_index s \<le> CALL_LOG_MAX \<and>
     (\<forall>j. 1 \<le> j \<longrightarrow> j \<le> CALL_LOG_MAX \<longrightarrow> rs_log s j \<noteq> None)"

lemma length_map_filter_Some: "(\<And>x. x \<in> set xs \<Longrightarrow> f x \<noteq> None) \<Longrightarrow> length (List.map_filter f xs) = length xs"
  by (induction xs) (auto simp: List.map_filter_def)

text \<open>How many entries the script returns when asked for the \<open>n\<close> latest of a full buffer: the last ones up to
  its index, and after them the first \<open>index + n - 101\<close> ones. These are \<open>n\<close> entries only if the index is neither
  below \<open>n\<close>, where the older ones at the end of the buffer are missing, nor above \<open>101 - n\<close>,
  where the oldest entries of the buffer are returned as if they were recent.\<close>
theorem recent_logs_count:
  assumes "log_full s" and "0 \<le> n" and "n \<le> CALL_LOG_MAX"
  shows "int (length (get_recent_logs (Some n) s)) = min n (rs_log_index s) + max 0 (rs_log_index s + n - 101) \<and>
    (int (length (get_recent_logs (Some n) s)) = n \<longleftrightarrow> n = 0 \<or> n \<le> rs_log_index s \<and> rs_log_index s + n \<le> 101)"
proof -
  let ?i = "rs_log_index s"
  have i: "1 \<le> ?i" "?i \<le> 100" "n \<le> 100"
    and full: "\<And>j. 1 \<le> j \<Longrightarrow> j \<le> 100 \<Longrightarrow> rs_log s j \<noteq> None"
    using assms(1,3) by (simp_all add: log_full_def CALL_LOG_MAX_def)
  have "length (List.map_filter (rs_log s) [max 1 (?i - n + 1)..?i]) = length [max 1 (?i - n + 1)..?i]"
    by (rule length_map_filter_Some) (use i full in auto)
  moreover have "length (List.map_filter (\<lambda>j. if j \<le> CALL_LOG_MAX then rs_log s j else None) [1..?i + n - CALL_LOG_MAX - 1]) =
      length [1..?i + n - CALL_LOG_MAX - 1]"
    by (rule length_map_filter_Some) (use i full in \<open>auto simp: CALL_LOG_MAX_def\<close>)
  ultimately have "int (length (get_recent_logs (Some n) s)) = min n ?i + max 0 (?i + n - 101)"
    using assms(2) i by (simp add: get_recent_logs_def Let_def CALL_LOG_MAX_def max_def min_def)
  then show ?thesis using assms(2) i unfolding max_def min_def by presburger
qed

definition full_log :: route_state where
  "full_log = (script_start plain_lib 0)\<lparr>rs_log_index := 95,
     rs_log := \<lambda>j. Some \<lparr>le_time = 0, le_level = ''INFO'', le_caller = [], le_event = [], le_detail = []\<rparr>\<rparr>"

lemma recent_logs_count_witness: "length (get_recent_logs (Some 20) full_log) = 34"
proof -
  have "log_full full_log" by (simp add: log_full_def full_log_def CALL_LOG_MAX_def)
  from recent_logs_count [OF this, of 20] show ?thesis by (simp add: full_log_def CALL_LOG_MAX_def)
qed

end
