(* ===== verification/Route_Server.thy ===== *)
theory Route_Server
  imports Route_Properties Event_Loop_App
begin

text \<open>
  A whole run of the server with the routing script. What the server says to its callers is
  described by \<open>served\<close>, a set of traces: datagrams are received one after the other, and each
  that is a request is answered, before the next is received, by the responses that
  \<open>proper_replies\<close> allows. The handler of the event loop keeps this and the state of the
  script, so every run of the loop does.
\<close>

section \<open>The service\<close>

text \<open>The request that a received datagram is, with the socket it came in on.\<close>

fun request_in :: "extcall \<Rightarrow> extret \<Rightarrow> (fd \<times> sip_message) option" where
  "request_in (Recvfrom f n) r =
     (if rv r \<le> 0 then None
      else map_option (Pair f) (accepted (take (nat (rv r)) (dat r)) (peer r)))"
| "request_in c r = None"

definition response_call :: "fd \<Rightarrow> sip_message \<Rightarrow> int \<times> bytes \<Rightarrow> extcall" where
  "response_call f q sr = Sendto f (response_text (Some q) (fst sr) (Some (snd sr))) (Some (m_src_addr q))"

definition RINGING :: "int \<times> bytes" where "RINGING = (180, ''Ringing'')"
definition NOT_FOUND :: "int \<times> bytes" where "NOT_FOUND = (404, ''Not Found'')"
definition UNAVAILABLE :: "int \<times> bytes" where "UNAVAILABLE = (480, ''Temporarily Unavailable'')"

text \<open>
  The final response of an INVITE: a caller from outside hears a ringing tone or, outside the working
  time, that nobody is there; an extension reaches extensions only.
\<close>

definition proper_final :: "bytes \<Rightarrow> bytes \<Rightarrow> int \<times> bytes \<Rightarrow> bool" where
  "proper_final c dg x \<longleftrightarrow>
     (if plain_text c \<and> plain_text dg then
        if external c then x = RINGING \<or> x = UNAVAILABLE
        else x = (if dials_extension dg then RINGING else NOT_FOUND)
      else x = RINGING \<or> x = NOT_FOUND \<or> x = UNAVAILABLE)"

definition proper_replies :: "sip_message \<Rightarrow> (int \<times> bytes) list \<Rightarrow> bool" where
  "proper_replies q srs \<longleftrightarrow>
     (if 0 < m_status_code q then srs = []
      else case m_method q of
        SIP_METHOD_INVITE \<Rightarrow>
          if m_caller_number q = [] \<or> m_callee_number q = [] then srs = [(400, ''Bad Request'')]
          else \<exists>x. srs = [(100, ''Trying''), x] \<and>
            proper_final (cstr (m_caller_number q)) (cstr (m_callee_number q)) x
      | SIP_METHOD_ACK \<Rightarrow> srs = []
      | SIP_METHOD_REFER \<Rightarrow> srs = [(202, ''Accepted'')]
      | SIP_METHOD_BYE \<Rightarrow> srs = [(200, ''OK'')]
      | SIP_METHOD_CANCEL \<Rightarrow> srs = [(200, ''OK'')]
      | SIP_METHOD_OPTIONS \<Rightarrow> srs = [(200, ''OK'')]
      | SIP_METHOD_REGISTER \<Rightarrow> srs = [(200, ''OK'')]
      | _ \<Rightarrow> srs = [(405, ''Method Not Allowed'')])"

text \<open>The traces of the service, newest call first.\<close>

inductive served :: "world \<Rightarrow> bool" where
  served_start: "served []"
| served_other: "served w \<Longrightarrow> c = Recvfrom f n \<Longrightarrow> request_in c r = None \<Longrightarrow> served ((c, r) # w)"
| served_request: "served w \<Longrightarrow> request_in c r = Some (f, q) \<Longrightarrow> proper_replies q srs \<Longrightarrow>
    map fst as = rev (map (response_call f q) srs) \<Longrightarrow> served (as @ (c, r) # w)"

text \<open>What is sent in such a trace, and an example: an extension calls a department's short number.\<close>

lemma proper_status:
  "proper_replies q srs \<Longrightarrow> sr \<in> set srs \<Longrightarrow> fst sr \<in> {100, 180, 200, 202, 400, 404, 405, 480}"
  by (auto simp: proper_replies_def proper_final_def RINGING_def NOT_FOUND_def UNAVAILABLE_def
      split: if_splits sip_method.splits)

lemma served_sends:
  "served w \<Longrightarrow> (Sendto f b d, r) \<in> set w \<Longrightarrow> \<exists>q sr. b = response_text (Some q) (fst sr) (Some (snd sr)) \<and>
    d = Some (m_src_addr q) \<and> fst sr \<in> {100, 180, 200, 202, 400, 404, 405, 480}"
proof (induction rule: served.induct)
  case (served_request w c r' f' q srs as)
  show ?case
  proof (cases "(Sendto f b d, r) \<in> set as")
    case True
    then have "Sendto f b d \<in> set (map fst as)" by force
    then obtain sr where "sr \<in> set srs" "Sendto f b d = response_call f' q sr"
      unfolding served_request.hyps(4) by auto
    with proper_status [OF served_request.hyps(3)] show ?thesis
      by (intro exI [of _ q] exI [of _ sr]) (simp add: response_call_def)
  next
    case False
    have "c \<noteq> Sendto f b d" using served_request.hyps(2) by auto
    with False served_request.prems have "(Sendto f b d, r) \<in> set w" by auto
    then show ?thesis by (rule served_request.IH)
  qed
qed auto

lemma sample_served:
  fixes a :: sockaddr_in
  assumes "q = sample_request\<lparr>m_src_addr := a, m_src_len := 16\<rparr>"
    and "rv r = int (length sample_invite)" and "dat r = sample_invite" and "peer r = a"
  shows "served [(response_call 4 q NOT_FOUND, r2), (response_call 4 q (100, ''Trying''), r1), (Recvfrom 4 n, r)]"
proof -
  have "accepted sample_invite a = Some q" unfolding assms(1) by (rule sample_accepted)
  moreover have "0 < rv r" by (simp add: assms(2) sample_invite_def)
  ultimately have "request_in (Recvfrom 4 n) r = Some (4, q)" by (simp add: assms(2-4))
  moreover have "proper_replies q [(100, ''Trying''), NOT_FOUND]"
  proof -
    have "\<not> dials_extension ''2000''"
      by (simp add: dials_extension_def number_digits isdigit_def digit_val_def extension_def)
    moreover have "\<not> external ''1001''"
      using dialled_extensions(1) by (simp add: external_def dials_extension_dept)
    ultimately have "proper_final ''1001'' ''2000'' NOT_FOUND" by (simp add: proper_final_def)
    then show ?thesis by (simp add: assms(1) proper_replies_def cstr_id nul_def)
  qed
  ultimately show ?thesis
    using served_request [OF served_start, of "Recvfrom 4 n" r 4 q "[(100, ''Trying''), NOT_FOUND]"
      "[(response_call 4 q NOT_FOUND, r2), (response_call 4 q (100, ''Trying''), r1)]"] by simp
qed

section \<open>Routing a call\<close>

lemma decision_status:
  assumes "possible d"
  shows "invite_status (fst d) \<in> {RINGING, NOT_FOUND, UNAVAILABLE} \<and> 0 \<le> fst d"
  using assms by (auto simp: possible_def invite_status_def route_results RINGING_def NOT_FOUND_def UNAVAILABLE_def)

lemma decision_proper:
  assumes "plain_text c" and "plain_text dg"
  shows "proper_final c dg (invite_status (fst (fst (route_decision agent work c dg nt))))"
  using assms
  by (cases nt; cases "menu_dept dg")
    (simp_all add: proper_final_def internal_code route_decision_def ivr_decision_def invite_status_def
      route_results RINGING_def NOT_FOUND_def UNAVAILABLE_def)

lemma possible_code:
  assumes "new_table (Fields (response_fields r)) g = (t, g')" and "possible (decision_of r)"
  shows "is_lua_table t \<and> r_code (response_of (script_interp lib path I) g' t) = rt_code r"
proof -
  have t: "t = LTable (length (lw_tables g))" and o: "object_at g' t = Fields (response_fields r)"
    using assms(1) by (auto simp: new_table_def)
  have f: "field_of g' t n = (case map_of (response_fields r) n of None \<Rightarrow> LNil | Some x \<Rightarrow> x)" for n
    by (simp add: field_of_def o)
  have "to_int32 (rt_code r) = rt_code r"
    using assms(2) by (intro to_int32_id) (auto simp: possible_def decision_of_def int_range_def)
  then have "r_code (response_of (script_interp lib path I) g' t) = rt_code r"
    by (simp add: response_of_def f response_fields_def)
  with t show ?thesis by simp
qed

text \<open>Whatever the two strings are, the script answers and stays loaded.\<close>

lemma script_any:
  assumes l: "lua_ok lib" and g: "script_loaded g s b"
  shows "\<exists>t g' s' d. call_value lib g (global_of g ''route_call'') [LString c, LString dg] = (Inr t, g') \<and>
    is_lua_table t \<and> script_loaded g' s' b \<and> rs_agents s' = rs_agents s \<and>
    r_code (response_of (script_interp lib path I) g' t) = fst d \<and> possible d \<and>
    proper_final c dg (invite_status (fst d))"
proof (cases "plain_text c \<and> plain_text dg")
  case True
  let ?work = "fst (is_work_time lib (s\<lparr>rs_force := LBool b\<rparr>))"
  from script_route [OF l g, of c dg path I] True obtain t g' s' where
    t: "call_value lib g (global_of g ''route_call'') [LString c, LString dg] = (Inr t, g')" "is_lua_table t"
      "script_loaded g' s' b" "rs_agents s' = rs_agents s"
    and d: "route_decision (\<lambda>k. dept_agent lib k s) ?work c dg (retries s c) =
      (decision_in (response_of (script_interp lib path I) g' t), retries s' c)" by blast
  from True decision_proper [of c dg "\<lambda>k. dept_agent lib k s" ?work "retries s c"]
    route_possible [of "\<lambda>k. dept_agent lib k s" ?work c dg "retries s c"] d t show ?thesis
    by (auto simp: decision_in_def)
next
  case False
  let ?s = "s\<lparr>rs_force := LBool b\<rparr>"
  have s: "lw_script g = Some s" "script_inv s" "lw_globals g ''_TEST_FORCE_WORKTIME'' = Some (LBool b)"
    using g by (simp_all add: script_loaded_def)
  from route_any [OF l force_inv [OF s(2)], of c dg "LBool b"] obtain r s' where
    r: "route_call lib (Some c) (Some dg) ?s = (Inr r, s')" "step_to ?s c (retries s' c) s'" "possible (decision_of r)"
    by blast
  obtain t g' where t: "new_table (Fields (response_fields r)) (g\<lparr>lw_script := Some s'\<rparr>) = (t, g')"
    by (cases "new_table (Fields (response_fields r)) (g\<lparr>lw_script := Some s'\<rparr>)")
  have f: "script_functions ! 0 = ''route_call''" by (simp add: script_functions_def)
  with loaded_function [OF g, of 0] have "global_of g ''route_call'' = LFunction (Suc 0)"
    by (simp add: script_functions_def)
  then have "call_value lib g (global_of g ''route_call'') [LString c, LString dg] = (Inr t, g')"
    using s f r t by (simp add: global_of_def call_script_def return_routed_def return_fields_def script_functions_def)
  moreover have "script_loaded g' s' b"
    using t g r(2) unfolding script_loaded_def by (auto simp: new_table_def step_to_def)
  moreover have "proper_final c dg (invite_status (fst (decision_of r)))"
    using decision_status [OF r(3)] False by (auto simp: proper_final_def)
  ultimately show ?thesis
    using possible_code [OF t r(3)] r(2,3)
    by (intro exI [of _ t] exI [of _ g'] exI [of _ s'] exI [of _ "decision_of r"])
      (auto simp: step_to_def kept_def decision_of_def)
qed

section \<open>The handler of a datagram\<close>

definition has_script :: "route_state \<Rightarrow> bool \<Rightarrow> lua_world lua_vm option \<Rightarrow> bool" where
  "has_script s b u \<longleftrightarrow> (\<exists>vm L s'. u = Some vm \<and> vm_L vm = Some L \<and> script_loaded (globals L) s' b \<and>
     rs_agents s' = rs_agents s)"

lemma script_vm_route:
  assumes l: "lua_ok lib" and u: "has_script s b (Some vm)"
  shows "\<exists>r vm'. lua_vm_call_route (script_interp lib path I) vm (Some c) (Some dg) zero_response = Some (r_code r, r, vm') \<and>
    0 \<le> r_code r \<and> proper_final (cstr c) (cstr dg) (invite_status (r_code r)) \<and> has_script s b (Some vm')"
proof -
  from u obtain L s1 where L: "vm_L vm = Some L" "script_loaded (globals L) s1 b" "rs_agents s1 = rs_agents s"
    by (auto simp: has_script_def)
  have f: "is_lua_function (global_of (globals L) ''route_call'')"
    using loaded_function [OF L(2), of 0] by (simp add: script_functions_def)
  from script_any [OF l L(2), of "cstr c" "cstr dg" path I] obtain t g s2 d where
    t: "call_value lib (globals L) (global_of (globals L) ''route_call'') [LString (cstr c), LString (cstr dg)] = (Inr t, g)"
      "is_lua_table t" "script_loaded g s2 b" "rs_agents s2 = rs_agents s1"
      "r_code (response_of (script_interp lib path I) g t) = fst d" "possible d"
      "proper_final (cstr c) (cstr dg) (invite_status (fst d))" by blast
  let ?r = "response_of (script_interp lib path I) g t" and ?vm = "vm\<lparr>vm_L := Some (L\<lparr>globals := g\<rparr>)\<rparr>"
  have "lua_vm_call_route (script_interp lib path I) vm (Some c) (Some dg) zero_response = Some (r_code ?r, ?r, ?vm)"
    using f t(1,2) by (simp add: lua_call_route_some [OF L(1)] routed_def)
  moreover have "has_script s b (Some ?vm)" using t(3,4) L(3) by (auto simp: has_script_def)
  ultimately show ?thesis using t(5,7) decision_status [OF t(6)] by (intro exI [of _ ?r] exI [of _ ?vm]) simp
qed

lemma script_replies:
  assumes l: "lua_ok lib" and u: "has_script s b u"
  shows "proper_replies q (replies_to (script_interp lib path I) u q)"
proof -
  from u obtain vm where vm: "u = Some vm" by (auto simp: has_script_def)
  from script_vm_route [OF l u [unfolded vm], of path I "m_caller_number q" "m_callee_number q"] obtain r vm' where
    r: "lua_vm_call_route (script_interp lib path I) vm (Some (m_caller_number q)) (Some (m_callee_number q)) zero_response =
      Some (r_code r, r, vm')" "0 \<le> r_code r"
    "proper_final (cstr (m_caller_number q)) (cstr (m_callee_number q)) (invite_status (r_code r))" by blast
  then show ?thesis
    by (simp add: proper_replies_def replies_to_def invite_replies_def vm split: sip_method.split)
qed

lemma script_datagram:
  assumes l: "lua_ok lib" and u: "has_script s b (user_data el)"
    and run: "sip_handle_datagram (script_interp lib path I) E el i d n a w = Some (el', w')"
  shows "has_script s b (user_data el')"
proof -
  from u obtain vm where vm: "user_data el = Some vm" by (auto simp: has_script_def)
  have "has_script s b (user_data el')" if "sip_handle_invite (script_interp lib path I) E el i q w = Some (el', w')" for q
  proof (cases "m_caller_number q = [] \<or> m_callee_number q = []")
    case True
    with that u show ?thesis by (auto simp: sip_handle_invite_def)
  next
    case False
    with that script_vm_route [OF l u [unfolded vm], of path I "m_caller_number q" "m_callee_number q"] show ?thesis
      by (auto simp: sip_handle_invite_def vm Let_def split: if_splits prod.splits)
  qed
  with run u show ?thesis
    by (auto simp: sip_handle_datagram_def sip_dispatch_def Let_def split: if_splits prod.splits sip_method.splits)
qed

lemma replies_trace:
  "\<exists>as. app_trace (add_replies E el i q srs w) = as @ app_trace w \<and>
    map fst as = rev (map (response_call (c_fd (slot el i)) q) srs)"
proof (induction srs arbitrary: w)
  case (Cons sr srs)
  from Cons.IH [of "(reply_call el i q sr, E w (reply_call el i q sr)) # w"] obtain as where
    "app_trace (add_replies E el i q (sr # srs) w) = as @ (reply_call el i q sr, E w (reply_call el i q sr)) # app_trace w"
    "map fst as = rev (map (response_call (c_fd (slot el i)) q) srs)"
    by (auto simp: reply_call_def)
  then show ?case
    by (intro exI [of _ "as @ [(reply_call el i q sr, E w (reply_call el i q sr))]"])
      (simp add: reply_call_def response_call_def)
qed simp

text \<open>A receive call stores as many bytes as it reports.\<close>

definition fills_buffer :: "env \<Rightarrow> bool" where
  "fills_buffer E \<longleftrightarrow> (\<forall>w f n. rv (E w (Recvfrom f n)) \<le> int (length (dat (E w (Recvfrom f n)))))"

section \<open>The contract of the loop\<close>

text \<open>The script is loaded with the agents of \<open>s\<close>, and since the trace \<open>w0\<close> the service was kept.\<close>

definition serving :: "route_state \<Rightarrow> bool \<Rightarrow> world \<Rightarrow> lua_world lua_vm option \<Rightarrow> world \<Rightarrow> bool" where
  "serving s b w0 u w \<longleftrightarrow> has_script s b u \<and> (\<exists>new. w = new @ w0 \<and> served new)"

lemma sip_receives [simp]: "int SIP_MAX_RAW_LEN - 1 \<noteq> EL_RECV_BUF_SIZE"
  by (simp add: SIP_MAX_RAW_LEN_def EL_RECV_BUF_SIZE_def)

lemma ignored_serving:
  assumes "serving s b w0 u w" and "request_in (Recvfrom f n) r = None"
  shows "serving s b w0 u ((Recvfrom f n, r) # w)"
proof -
  from assms(1) obtain new where n: "has_script s b u" "w = new @ w0" "served new" by (auto simp: serving_def)
  from served_other [OF n(3) refl assms(2)] n(1,2) show ?thesis
    unfolding serving_def by (intro conjI exI [of _ "(Recvfrom f n, r) # new"]) simp_all
qed

lemma datagram_serving:
  assumes l: "lua_ok lib" and p: "serving s b w0 (user_data el) (app_trace w)"
    and r: "0 < rv r" "rv r \<le> int (length (dat r))"
    and run: "sip_handle_datagram (script_interp lib path I) E el i (take (nat (rv r)) (dat r)) (rv r) (peer r)
        ((Recvfrom (c_fd (slot el i)) (int SIP_MAX_RAW_LEN - 1), r) # w) = Some (el', w')"
  shows "serving s b w0 (user_data el') (app_trace w')"
proof -
  let ?I = "script_interp lib path I" and ?c = "Recvfrom (c_fd (slot el i)) (int SIP_MAX_RAW_LEN - 1)"
    and ?d = "take (nat (rv r)) (dat r)"
  from p obtain new where u: "has_script s b (user_data el)" and n: "app_trace w = new @ w0" "served new"
    by (auto simp: serving_def)
  have len: "int (length ?d) = rv r" using r by simp
  from handle_datagram_eq [of ?I E el i ?d "peer r" "(?c, r) # w", unfolded len] run have
    w': "w' = (case accepted ?d (peer r) of None \<Rightarrow> (?c, r) # w
       | Some q \<Rightarrow> add_replies E el i q (replies_to ?I (user_data el) q) ((?c, r) # w))" by auto
  have "\<exists>new. app_trace w' = new @ w0 \<and> served new"
  proof (cases "accepted ?d (peer r)")
    case None
    then have "served ((?c, r) # new)" using n(2) by (intro served_other [OF _ refl]) simp_all
    with None w' n(1) show ?thesis by auto
  next
    case (Some q)
    from replies_trace [of E el i q "replies_to ?I (user_data el) q" "(?c, r) # w"] obtain as where
      as: "app_trace w' = as @ (?c, r) # app_trace w"
        "map fst as = rev (map (response_call (c_fd (slot el i)) q) (replies_to ?I (user_data el) q))"
      using w' Some by auto
    have "request_in ?c r = Some (c_fd (slot el i), q)" using r Some by simp
    from served_request [OF n(2) this script_replies [OF l u] as(2)] as(1) n(1) show ?thesis
      by (intro exI [of _ "as @ (?c, r) # new"]) simp
  qed
  with script_datagram [OF l u run] show ?thesis by (simp add: serving_def)
qed

lemma receive_serving:
  assumes l: "lua_ok lib" and run: "sip_receive (script_interp lib path I) E el i w = Some r" and fills: "fills_buffer E"
    and p: "serving s b w0 (user_data el) (app_trace w)"
  shows "serving s b w0 (user_data (fst r)) (app_trace (snd r))"
proof -
  have "I' = script_interp lib path I \<longrightarrow> E' = E \<longrightarrow> serving s b w0 (user_data el) (app_trace w) \<longrightarrow>
      serving s b w0 (user_data (fst r)) (app_trace (snd r))" if run: "sip_receive I' E' el i w = Some r" for I' E'
  proof (rule sip_receive.raw_induct [where P = "\<lambda>I' E' el i w r. I' = script_interp lib path I \<longrightarrow> E' = E \<longrightarrow>
      serving s b w0 (user_data el) (app_trace w) \<longrightarrow> serving s b w0 (user_data (fst r)) (app_trace (snd r))",
      OF _ run], intro impI, goal_cases)
    case (1 h I' E' el i w r)
    let ?c = "Recvfrom (c_fd (slot el i)) (int SIP_MAX_RAW_LEN - 1)"
    let ?w = "(?c, E w ?c) # w"
    show ?case
    proof (cases "rv (E w ?c) \<le> 0")
      case True
      then have "request_in ?c (E w ?c) = None" by simp
      with 1(5) have "serving s b w0 (user_data el) (app_trace ?w)"
        using ignored_serving by simp
      with 1 True show ?thesis by (auto simp: Let_def split: if_splits)
    next
      case False
      with 1(2-4) obtain el1 w1 where
        d: "sip_handle_datagram (script_interp lib path I) E el i (take (nat (rv (E w ?c))) (dat (E w ?c))) (rv (E w ?c))
              (peer (E w ?c)) ?w = Some (el1, w1)" and rest: "h I' E' el1 i w1 = Some r"
        by (auto simp: Let_def split: if_splits option.splits)
      have "serving s b w0 (user_data el1) (app_trace w1)"
        by (rule datagram_serving [OF l 1(5) _ _ d]) (use False fills in \<open>auto simp: fills_buffer_def\<close>)
      with 1(1) [OF rest] 1(3,4) show ?thesis by blast
    qed
  qed
  with run p show ?thesis by blast
qed

lemma read_serving:
  assumes "lua_ok lib" and "fills_buffer E" and "serving s b w0 (user_data el) (app_trace w)"
    and "sip_handler_on_read (script_interp lib path I) E el i w = Some (el', w')"
  shows "serving s b w0 (user_data el') (app_trace w')"
  using assms receive_serving [OF assms(1) _ assms(2,3), of path I i "(el', w')"] own_default_read [of E el i w "(el', w')"]
  by (auto simp: sip_handler_on_read_def split: if_splits)

interpretation served_loop: app_handlers "sip_handler_on_read (script_interp lib path I)" "\<lambda>E el w. (el, w)" E
  "\<lambda>u w. lua_ok lib \<and> fills_buffer E \<and> serving s b w0 u w" for lib path I E s b w0
  by unfold_locales (auto intro: read_serving)

section \<open>Runs\<close>

text \<open>Any run of the loop from a state in which the script is loaded.\<close>

lemma loop_serves:
  assumes "lua_ok lib" and "fills_buffer E" and "has_script s b (user_data el)"
    and "el_run (sip_handler_on_read (script_interp lib path I)) (\<lambda>E el w. (el, w)) E el w = Some (ret, el', w')"
  shows "has_script s b (user_data el') \<and> (\<exists>new. app_trace w' = new @ app_trace w \<and> served new)"
proof -
  have "serving s b (app_trace w) (user_data el) (app_trace w)"
    using assms(3) by (auto simp: serving_def intro: served_start)
  with served_loop.run_ok [OF assms(4), of s b "app_trace w"] assms(1,2) show ?thesis by (simp add: serving_def)
qed

lemma server_serves:
  assumes "lua_ok lib" and "fills_buffer E" and "has_script s b (Some vm)"
    and "run_server (script_interp lib path I) E vm w = Some (ret, w')"
  shows "\<exists>new. app_trace w' = new @ app_trace w \<and> served new"
proof -
  obtain el :: "lua_world server option" and w1
    where c: "el_create E (Some server_mode_config) w = (el, w1)" by fastforce
  then have w1: "app_trace w1 = app_trace w" by (rule create_app_trace)
  show ?thesis
  proof (cases el)
    case None
    with assms(4) c w1 show ?thesis by (auto simp: run_server_def start_server_mode_def intro: served_start)
  next
    case (Some e)
    let ?e = "el_set_callbacks (e\<lparr>user_data := Some vm\<rparr>) (Some sip_cb)"
    from assms(4) c Some obtain el2 w2 where
      r: "el_run (sip_handler_on_read (script_interp lib path I)) (\<lambda>E el w. (el, w)) E ?e w1 = Some (ret, el2, w2)"
      and w': "w' = el_destroy E el2 w2"
      by (auto simp: run_server_def start_server_mode_def Let_def)
    have "has_script s b (user_data ?e)" using assms(3) by (simp add: el_set_callbacks_def)
    from loop_serves [OF assms(1,2) this r] w' w1 show ?thesis by (simp add: destroy_app_trace)
  qed
qed

text \<open>The program as a whole, started without options: between the start and the shutdown of the database layer
  lies a run of the service.\<close>

lemma has_script_start:
  assumes "lua_ok lib" and "start_lua (script_interp lib LUA_SCRIPT_PATH I) S = Some (Some vm)"
  shows "\<exists>s. has_script s False (Some vm)"
proof -
  obtain u where "lua_memory S = Some u"
    using assms(2) by (cases "lua_memory S") (simp_all add: start_lua_def lua_vm_create_def)
  from start_lua_loads [OF assms(1) this, of I] assms(2) show ?thesis by (auto simp: has_script_def)
qed

lemma program_serves:
  assumes "lua_ok lib" and "fills_buffer E" and "parse_options (tl argv) (False, False) = (False, False)"
    and "program_main (script_interp lib LUA_SCRIPT_PATH I) E others S argv w = Some (EXIT_SUCCESS, w')"
  shows "\<exists>n db w1 w2 h new. init_database E others (thread_result S) (schema_content S) w = Some (n, db, w1) \<and>
    app_trace w2 = new @ app_trace w1 \<and> served new \<and>
    shutdown_database E others (stamps S) (stop_cell S) db w2 = Some (h, w')"
proof -
  let ?I = "script_interp lib LUA_SCRIPT_PATH I"
  from assms(3,4) obtain vm n db w1 r el w2 h where
    vm: "start_lua ?I S = Some (Some vm)"
    and i: "init_database E others (thread_result S) (schema_content S) w = Some (n, db, w1)"
    and m: "start_server_mode ?I E vm w1 = Some (r, Some el, w2)"
    and s: "shutdown_database E others (stamps S) (stop_cell S) db (el_destroy E el w2) = Some (h, w')"
    by (auto simp: program_main_def run_mode_def EXIT_SUCCESS_def EXIT_FAILURE_def Let_def
        split: if_splits option.splits mode_end.splits prod.splits)
  from has_script_start [OF assms(1) vm] obtain s0 where u: "has_script s0 False (Some vm)" by blast
  have "run_server ?I E vm w1 = Some (r, el_destroy E el w2)" using m by (simp add: run_server_def)
  from server_serves [OF assms(1,2) u this] i s show ?thesis by blast
qed

section \<open>Properties\<close>

text \<open>C2: The server and the routing script together are the service they are meant to be. A program that has
  loaded the script and runs as a server receives datagrams and, before it receives the next one, answers
  each that is a request, to its sender and from the socket it came in on, by exactly the responses that
  \<open>proper_replies\<close> allows; besides the calls of the event loop itself it makes no other call: it sends nothing else to
  anybody and calls no database. An INVITE is answered by 100 and one of 180, 404 and 480, and 404 only if an
  extension calls no extension (for numbers that Lua converts in its own way, such as 0x10, any of the three);
  no caller is ever told that the callee is busy (486) or that the server failed (500).\<close>
theorem server_is_service:
  assumes "lua_ok lib" and "fills_buffer E"
    and "start_lua (script_instance lib I) S = Some (Some vm)"
    and "run_server (script_instance lib I) E vm w = Some (ret, w')"
  shows "\<exists>new. app_trace w' = new @ app_trace w \<and> served new \<and>
    (\<forall>f b a r. (Sendto f b a, r) \<in> set new \<longrightarrow> (\<exists>q sr. b = response_text (Some q) (fst sr) (Some (snd sr)) \<and>
       a = Some (m_src_addr q) \<and> fst sr \<in> {100, 180, 200, 202, 400, 404, 405, 480}))"
proof -
  from has_script_start [OF assms(1,3)] obtain s where "has_script s False (Some vm)" by blast
  from server_serves [OF assms(1,2) this assms(4)] obtain new where
    new: "app_trace w' = new @ app_trace w" "served new" by blast
  with served_sends [OF new(2)] show ?thesis by blast
qed

lemma quiet_os_fills: "fills_buffer quiet_os"
  by (simp add: fills_buffer_def)

section \<open>A run with a caller\<close>

text \<open>An operating system at rest but for one datagram that is waiting when the server starts: the call of a
  department's short number by an extension. The wait reports the first slot.\<close>

definition caller_os :: env where
  "caller_os w c =
     (case c of
        Epoll_wait f n t \<Rightarrow> (quiet_os w c)\<lparr>rv := 1, evs := [(Some 0, EPOLLIN)]\<rparr>
      | Recvfrom f n \<Rightarrow>
          if recvs w = 0 then (quiet_os w c)\<lparr>rv := int (length sample_invite), dat := sample_invite\<rparr> else quiet_os w c
      | _ \<Rightarrow> quiet_os w c)"

lemma caller_os_fills: "fills_buffer caller_os"
  by (simp add: fills_buffer_def caller_os_def)

lemma caller_os_queue: "queue_ends caller_os 1"
  by (simp add: queue_ends_def caller_os_def)

lemma caller_os_simps:
  "rv (caller_os w (Calloc n)) = 1" "rv (caller_os w Time) = 1000" "rv (caller_os w Epoll_create1) = next_fd w"
  "rv (caller_os w (Socket ty)) = next_fd w" "rv (caller_os w (Setsockopt_reuseaddr f)) = 0"
  "rv (caller_os w (Fcntl_getfl f)) = 0" "rv (caller_os w (Fcntl_setfl f x)) = 0" "rv (caller_os w (Bind f p)) = 0"
  "rv (caller_os w (Epoll_ctl op ep f ev ptr)) = 0"
  "rv (caller_os w (Epoll_wait f k t)) = 1" "sig (caller_os w (Epoll_wait f k t))"
  "evs (caller_os w (Epoll_wait f k t)) = [(Some 0, EPOLLIN)]"
  by (simp_all add: caller_os_def)

lemma next_fd_nonneg [simp]: "\<not> next_fd w < 0"
  using next_fd_pos [of w] by simp

lemma first_index_replicate: "0 < n \<Longrightarrow> p x \<Longrightarrow> first_index p (replicate n x) = Some 0"
  by (cases n) simp_all

lemma caller_create:
  "\<exists>e w1. el_create caller_os (Some server_mode_config) [] = (Some (e :: 'g server), w1) \<and>
    c_type (slot e 0) = CONN_TYPE_UDP_SIP \<and> c_state (slot e 0) = CONN_STATE_ACTIVE \<and>
    0 < length (connections e) \<and> last_idle_check e = 1000 \<and> recvs w1 = 0"
  by (simp add: el_create_def el_create_sip_def es_create_def es_create_udp_server_def es_set_reuseaddr_def
      es_set_nonblocking_def el_add_connection_def es_add_fd_def alloc_connection_def upd_slot_def Let_def
      caller_os_simps server_mode_config_def config_defaults_def first_index_replicate zero_connection_def
      MAX_CONCURRENT_CALLS_def)

text \<open>The handler receives that call first, and what follows is only added to the trace.\<close>

lemma caller_received:
  assumes l: "lua_ok lib" and u: "has_script s b (user_data el)" and "recvs w = 0"
    and run: "sip_receive (script_interp lib path I) caller_os el i w = Some r"
  shows "\<exists>n x. (Recvfrom (c_fd (slot el i)) n, x) \<in> set (app_trace (snd r)) \<and> dat x = sample_invite \<and>
    rv x = int (length sample_invite)"
proof -
  let ?I = "script_interp lib path I" and ?c = "Recvfrom (c_fd (slot el i)) (int SIP_MAX_RAW_LEN - 1)"
  let ?x = "caller_os w ?c"
  have x: "rv ?x = int (length sample_invite)" "dat ?x = sample_invite" "0 < length sample_invite"
    using assms(3) by (simp_all add: caller_os_def) (simp add: sample_invite_def)
  have d0: "take (nat (rv ?x)) (dat ?x) = sample_invite" "\<not> rv ?x < 0" "rv ?x \<noteq> 0" using x by simp_all
  from run obtain el1 w1 where
    d: "sip_handle_datagram ?I caller_os el i sample_invite (int (length sample_invite)) (peer ?x) ((?c, ?x) # w) = Some (el1, w1)"
    and rest: "sip_receive ?I caller_os el1 i w1 = Some r"
    unfolding sip_receive.simps [of ?I caller_os el i w] Let_def using d0 x(1) by (auto split: option.splits)
  obtain q where q: "accepted sample_invite (peer ?x) = Some q" using sample_accepted by blast
  from handle_datagram_eq [of ?I caller_os el i sample_invite "peer ?x" "(?c, ?x) # w"] d q have
    "w1 = add_replies caller_os el i q (replies_to ?I (user_data el) q) ((?c, ?x) # w)" by simp
  with replies_trace [of caller_os el i q "replies_to ?I (user_data el) q" "(?c, ?x) # w"] have
    in1: "(?c, ?x) \<in> set (app_trace w1)" by auto
  have "serving s b (app_trace w1) (user_data el1) (app_trace w1)"
    using script_datagram [OF l u d] by (auto simp: serving_def intro: served_start)
  from receive_serving [OF l rest caller_os_fills this] have "\<exists>new. app_trace (snd r) = new @ app_trace w1"
    by (auto simp: serving_def)
  with in1 have "(?c, ?x) \<in> set (app_trace (snd r))" by auto
  with x show ?thesis by blast
qed

lemma caller_turn:
  assumes l: "lua_ok lib" and u: "has_script s b (user_data el)" and w: "recvs w = 0"
    and c: "c_type (slot el 0) = CONN_TYPE_UDP_SIP" "c_state (slot el 0) = CONN_STATE_ACTIVE"
      "0 < length (connections el)" "last_idle_check el = 1000" "callbacks el = sip_cb"
  shows "\<exists>el' w' f n x. el_turn (sip_handler_on_read (script_interp lib path I)) (\<lambda>E el w. (el, w)) caller_os el w =
      Some (True, el', w') \<and> \<not> running el' \<and> (Recvfrom f n, x) \<in> set (app_trace w') \<and>
      dat x = sample_invite \<and> rv x = int (length sample_invite)"
proof -
  let ?I = "script_interp lib path I"
  let ?p = "Epoll_wait (epfd el) (epoll_max_events (config el)) (epoll_timeout_ms (config el))"
  let ?w = "(?p, caller_os w ?p) # w" and ?el = "el_stop el"
  obtain el1 w1 where t: "el_touch_connection caller_os ?el 0 ?w = (el1, w1)" by fastforce
  then have el1: "el1 = upd_slot 0 (\<lambda>c. c\<lparr>last_active := 1000\<rparr>) ?el" and w1: "recvs w1 = 0"
    using w by (auto simp: el_touch_connection_def caller_os_simps)
  obtain r where r: "sip_receive ?I caller_os el1 0 w1 = Some r"
    using receive_total [OF caller_os_queue, of ?I el1 0 w1] by blast
  have u1: "has_script s b (user_data el1)" using u by (simp add: el1 el_stop_def)
  from caller_received [OF l u1 w1 r] obtain n x where
    x: "(Recvfrom (c_fd (slot el1 0)) n, x) \<in> set (app_trace (snd r))" "dat x = sample_invite"
      "rv x = int (length sample_invite)" by blast
  from receive_keeps [OF r] obtain v where v: "fst r = el1\<lparr>user_data := v\<rparr>" by (auto simp: sip_grows_def)
  have "dispatch_events (sip_handler_on_read ?I) caller_os ?el [(Some 0, EPOLLIN)] ?w = Some r"
    using t r c
    by (cases r) (simp add: dispatch_event_def handle_client_event_def el1 el_stop_def upd_slot_def sip_cb_def call_on_read_def
        sip_handler_on_read_def EPOLLIN_def EPOLLERR_def EPOLLHUP_def EPOLLRDHUP_def EPOLLOUT_def)
  moreover have "idle_check (\<lambda>E el w. (el, w)) caller_os (fst r) (snd r) = (fst r, (Time, caller_os (snd r) Time) # snd r)"
    using c(4) by (simp add: idle_check_def v el1 el_stop_def upd_slot_def caller_os_simps IDLE_CHECK_INTERVAL_SEC_def Let_def)
  ultimately have "el_turn (sip_handler_on_read ?I) (\<lambda>E el w. (el, w)) caller_os el w =
      Some (True, fst r, (Time, caller_os (snd r) Time) # snd r)"
    unfolding el_turn_def Let_def case_ext by (simp add: caller_os_simps split_beta)
  with x show ?thesis by (auto simp: v el1 el_stop_def upd_slot_def)
qed

lemma server_is_service_witness:
  "\<exists>vm ret w' f n x q. start_lua (script_instance plain_lib no_world) test_surroundings = Some (Some vm) \<and>
    run_server (script_instance plain_lib no_world) caller_os vm [] = Some (ret, w') \<and> served (app_trace w') \<and>
    (Recvfrom f n, x) \<in> set (app_trace w') \<and> request_in (Recvfrom f n) x = Some (f, q) \<and> m_method q = SIP_METHOD_INVITE"
proof -
  let ?I = "script_instance plain_lib no_world"
  have m: "lua_memory test_surroundings = Some ()" by (simp add: test_surroundings_def)
  from start_lua_loads [where I = no_world, OF plain_lib_ok m] obtain vm :: "lua_world lua_vm" and L s where
    vm: "start_lua ?I test_surroundings = Some (Some vm)" "vm_L vm = Some L" "script_loaded (globals L) s False" by blast
  obtain e :: "lua_world server" and w1 where e: "el_create caller_os (Some server_mode_config) [] = (Some e, w1)"
    "c_type (slot e 0) = CONN_TYPE_UDP_SIP" "c_state (slot e 0) = CONN_STATE_ACTIVE"
    "0 < length (connections e)" "last_idle_check e = 1000" "recvs w1 = 0" using caller_create by blast
  let ?e = "(el_set_callbacks (e\<lparr>user_data := Some vm\<rparr>) (Some sip_cb))\<lparr>running := True\<rparr>"
  let ?w = "(Calloc (epoll_max_events (config e)), caller_os w1 (Calloc (epoll_max_events (config e)))) # w1"
  have u: "has_script s False (user_data ?e)" using vm by (auto simp: has_script_def el_set_callbacks_def)
  from e obtain el w f n x where
    t: "el_turn (sip_handler_on_read ?I) (\<lambda>E el w. (el, w)) caller_os ?e ?w = Some (True, el, w)" "\<not> running el"
    and x: "(Recvfrom f n, x) \<in> set (app_trace w)" "dat x = sample_invite" "rv x = int (length sample_invite)"
    using caller_turn [OF plain_lib_ok u, of ?w LUA_SCRIPT_PATH no_world] by (auto simp: el_set_callbacks_def)
  have "el_loop (sip_handler_on_read ?I) (\<lambda>E el w. (el, w)) caller_os ?e ?w = Some (el, w)"
    using t by (simp add: el_loop.simps [of _ _ _ ?e] el_loop.simps [of _ _ _ el])
  then have r: "run_server ?I caller_os vm [] = Some (0, el_destroy caller_os el w)"
    using e(1) by (simp add: run_server_def start_server_mode_def el_run_def Let_def caller_os_simps el_set_callbacks_def)
  have served: "served (app_trace (el_destroy caller_os el w))"
    using server_is_service [OF plain_lib_ok caller_os_fills vm(1) r] by simp
  obtain q where "accepted sample_invite (peer x) = Some q" "m_method q = SIP_METHOD_INVITE"
    using sample_accepted [of "peer x"] by simp
  moreover have "0 < length sample_invite" by (simp add: sample_invite_def)
  ultimately have q: "request_in (Recvfrom f n) x = Some (f, q)" "m_method q = SIP_METHOD_INVITE"
    using x(2,3) by simp_all
  have "(Recvfrom f n, x) \<in> set (app_trace (el_destroy caller_os el w))" using x(1) by (simp only: destroy_app_trace)
  with vm(1) r served q show ?thesis by blast
qed

end
